(* ===== verification/Prelude.thy ===== *)
theory Prelude
  imports Complex_Main "HOL-Library.Char_ord" "HOL-Library.List_Lexorder"
begin

text \<open>
  What every component of the development shares: errors as values and the result type of the
  code that may raise, the string operations of the language the code uses, tables of rows
  (the tables of the SQLite database, in insertion order) with the few access patterns the SQL of
  the program has, and the locale of guarded state machines that the order, approval and rotation
  components interpret.
\<close>

named_theorems result_simps "inversion of the result type's combinators"
named_theorems table_simps "reading a table after an update of it"

section \<open>Errors as values\<close>

text \<open>One constructor per class of exception the modelled code raises, with its message.\<close>

datatype py_error =
    ValueError string
  | TypeError string
  | RuntimeError string
  | PermissionError string
  | LookupError string
  | KeyError string
  | AssertionError
  | InvalidOrderTransition string
  | ApprovalWorkflowConflict string
  | CryptoSizingError string
  | IntegrityError string
  | OperationalError string
  | InvalidOperation
  | ZeroDivisionError
  | OverflowError

type_synonym 'a res = "py_error + 'a"

definition rbind :: "'e + 'a \<Rightarrow> ('a \<Rightarrow> 'e + 'b) \<Rightarrow> 'e + 'b" where
  "rbind m f = (case m of Inl e \<Rightarrow> Inl e | Inr x \<Rightarrow> f x)"

definition require :: "bool \<Rightarrow> 'e \<Rightarrow> 'e + unit" where
  "require c e = (if c then Inr () else Inl e)"

fun res_map :: "('a \<Rightarrow> 'e + 'b) \<Rightarrow> 'a list \<Rightarrow> 'e + 'b list" where
  "res_map f [] = Inr []"
| "res_map f (x # xs) = rbind (f x) (\<lambda>y. rbind (res_map f xs) (\<lambda>ys. Inr (y # ys)))"

lemma rbind_Inl [simp]: "rbind (Inl e) f = Inl e"
  by (simp add: rbind_def)

lemma rbind_Inr [simp]: "rbind (Inr x) f = f x"
  by (simp add: rbind_def)

lemma rbind_eq_Inr_iff [result_simps]:
  "rbind m f = Inr y \<longleftrightarrow> (\<exists>x. m = Inr x \<and> f x = Inr y)"
  by (cases m) auto

lemma rbind_eq_Inl_iff [result_simps]:
  "rbind m f = Inl e \<longleftrightarrow> m = Inl e \<or> (\<exists>x. m = Inr x \<and> f x = Inl e)"
  by (cases m) auto

lemma require_eq_Inr_iff [result_simps]: "require c e = Inr u \<longleftrightarrow> c"
  by (simp add: require_def)

lemma require_eq_Inl_iff [result_simps]: "require c e = Inl e' \<longleftrightarrow> \<not> c \<and> e' = e"
  by (auto simp: require_def)

lemma require_True [simp]: "require True e = Inr ()"
  by (simp add: require_def)

lemma require_False [simp]: "require False e = Inl e"
  by (simp add: require_def)

lemma res_map_length: "res_map f xs = Inr ys \<Longrightarrow> length ys = length xs"
  by (induction xs arbitrary: ys) (auto simp: result_simps)

lemma res_map_elem: "res_map f xs = Inr ys \<Longrightarrow> y \<in> set ys \<Longrightarrow> \<exists>x\<in>set xs. f x = Inr y"
  by (induction xs arbitrary: ys) (auto simp: result_simps)

lemma res_map_append:
  "res_map f (xs @ ys) = rbind (res_map f xs) (\<lambda>us. rbind (res_map f ys) (\<lambda>vs. Inr (us @ vs)))"
proof (induction xs)
  case Nil
  show ?case by (cases "res_map f ys") simp_all
next
  case (Cons x xs)
  then show ?case
    by (cases "f x"; cases "res_map f xs"; cases "res_map f ys") simp_all
qed

section \<open>Strings\<close>

text \<open>ASCII letters (their case is the bit of weight 32), as \<open>str.lower\<close> and \<open>str.upper\<close> treat them.\<close>

fun lower_char :: "char \<Rightarrow> char" where
  "lower_char (Char b0 b1 b2 b3 b4 b5 b6 b7) =
     (let n = (of_char (Char b0 b1 b2 b3 b4 b5 b6 b7) :: nat)
      in if 65 \<le> n \<and> n \<le> 90 then Char b0 b1 b2 b3 b4 True b6 b7 else Char b0 b1 b2 b3 b4 b5 b6 b7)"

fun upper_char :: "char \<Rightarrow> char" where
  "upper_char (Char b0 b1 b2 b3 b4 b5 b6 b7) =
     (let n = (of_char (Char b0 b1 b2 b3 b4 b5 b6 b7) :: nat)
      in if 97 \<le> n \<and> n \<le> 122 then Char b0 b1 b2 b3 b4 False b6 b7 else Char b0 b1 b2 b3 b4 b5 b6 b7)"

lemma lower_char_other: "\<not> (65 \<le> (of_char c :: nat) \<and> (of_char c :: nat) \<le> 90) \<Longrightarrow> lower_char c = c"
  by (cases c) (simp only: lower_char.simps Let_def if_False)

definition lower :: "string \<Rightarrow> string" where
  "lower s = map lower_char s"

definition upper :: "string \<Rightarrow> string" where
  "upper s = map upper_char s"

definition is_space :: "char \<Rightarrow> bool" where
  "is_space c = (let n = (of_char c :: nat) in n = 32 \<or> (9 \<le> n \<and> n \<le> 13) \<or> (28 \<le> n \<and> n \<le> 31))"

definition strip :: "string \<Rightarrow> string" where
  "strip s = rev (dropWhile is_space (rev (dropWhile is_space s)))"

definition starts_with :: "string \<Rightarrow> string \<Rightarrow> bool" where
  "starts_with p s = (take (length p) s = p)"

fun is_substring :: "string \<Rightarrow> string \<Rightarrow> bool" where
  "is_substring p [] = (p = [])"
| "is_substring p (c # s) = (starts_with p (c # s) \<or> is_substring p s)"

lemma length_lower [simp]: "length (lower s) = length s"
  by (simp add: lower_def)

lemma length_upper [simp]: "length (upper s) = length s"
  by (simp add: upper_def)

lemma lower_char_idem: "lower_char (lower_char c) = lower_char c"
  by (cases c) (auto simp: Let_def)

lemma lower_idem [simp]: "lower (lower s) = lower s"
  by (simp add: lower_def lower_char_idem)

lemma upper_char_idem: "upper_char (upper_char c) = upper_char c"
  by (cases c) (auto simp: Let_def)

lemma upper_idem [simp]: "upper (upper s) = upper s"
  by (simp add: upper_def upper_char_idem)

section \<open>Tables\<close>

text \<open>
  A table is the list of its rows in the order of their \<open>rowid\<close>. \<open>UPDATE t SET ... WHERE p\<close> is
  \<open>update_where\<close>, \<open>SELECT ... WHERE p\<close> with \<open>fetchone\<close> is \<open>fetch_one\<close> (the first row in rowid
  order), \<open>INSERT\<close> appends, and the \<open>rowcount\<close> of an update is \<open>count_where\<close>.
\<close>

definition update_where :: "('r \<Rightarrow> bool) \<Rightarrow> ('r \<Rightarrow> 'r) \<Rightarrow> 'r list \<Rightarrow> 'r list" where
  "update_where p f rs = map (\<lambda>r. if p r then f r else r) rs"

definition fetch_one :: "('r \<Rightarrow> bool) \<Rightarrow> 'r list \<Rightarrow> 'r option" where
  "fetch_one p rs = find p rs"

definition count_where :: "('r \<Rightarrow> bool) \<Rightarrow> 'r list \<Rightarrow> nat" where
  "count_where p rs = length (filter p rs)"

lemma fetch_one_None [table_simps]: "fetch_one p rs = None \<longleftrightarrow> (\<forall>r\<in>set rs. \<not> p r)"
  by (auto simp: fetch_one_def find_None_iff)

lemma fetch_one_Some: "fetch_one p rs = Some r \<Longrightarrow> r \<in> set rs \<and> p r"
  by (auto simp: fetch_one_def find_Some_iff)

lemma update_where_Nil [simp]: "update_where p f [] = []"
  by (simp add: update_where_def)

lemma update_where_Cons [simp]:
  "update_where p f (r # rs) = (if p r then f r else r) # update_where p f rs"
  by (simp add: update_where_def)

lemma update_where_append [simp]:
  "update_where p f (rs @ ss) = update_where p f rs @ update_where p f ss"
  by (simp add: update_where_def)

lemma length_update_where [simp]: "length (update_where p f rs) = length rs"
  by (simp add: update_where_def)

lemma map_update_where:
  "(\<And>r. r \<in> set rs \<Longrightarrow> p r \<Longrightarrow> g (f r) = g r) \<Longrightarrow> map g (update_where p f rs) = map g rs"
  by (auto simp: update_where_def)

lemma set_update_where:
  "r \<in> set (update_where p f rs) \<Longrightarrow> (r \<in> set rs \<and> \<not> p r) \<or> (\<exists>r0\<in>set rs. p r0 \<and> r = f r0)"
  by (auto simp: update_where_def split: if_splits)

lemma count_where_Nil [simp]: "count_where q [] = 0"
  by (simp add: count_where_def)

lemma count_where_Cons [simp]:
  "count_where q (r # rs) = (if q r then 1 else 0) + count_where q rs"
  by (simp add: count_where_def)

lemma count_where_append [simp]: "count_where q (rs @ ss) = count_where q rs + count_where q ss"
  by (simp add: count_where_def)

lemma count_where_0_iff: "count_where q rs = 0 \<longleftrightarrow> (\<forall>r\<in>set rs. \<not> q r)"
  by (induction rs) auto

lemma count_where_update_le:
  "(\<And>r. r \<in> set rs \<Longrightarrow> p r \<Longrightarrow> q (f r) \<Longrightarrow> q r) \<Longrightarrow> count_where q (update_where p f rs) \<le> count_where q rs"
  by (induction rs) (auto simp: le_SucI)

lemma count_where_update_eq:
  "(\<And>r. r \<in> set rs \<Longrightarrow> p r \<Longrightarrow> q (f r) = q r) \<Longrightarrow> count_where q (update_where p f rs) = count_where q rs"
  by (induction rs) auto

lemma fetch_update_other:
  "fetch_one q rs = Some r \<Longrightarrow> \<not> p r \<Longrightarrow> (\<And>x. p x \<Longrightarrow> q (f x) = q x) \<Longrightarrow> fetch_one q (update_where p f rs) = Some r"
  by (induction rs) (auto simp: fetch_one_def)

lemma fetch_append: "fetch_one q rs = Some r \<Longrightarrow> fetch_one q (rs @ ss) = Some r"
  by (induction rs) (auto simp: fetch_one_def)

lemma count_where_mono:
  "(\<And>r. r \<in> set rs \<Longrightarrow> q r \<Longrightarrow> q' r) \<Longrightarrow> count_where q rs \<le> count_where q' rs"
  by (induction rs) auto

text \<open>
  A keyed table: a component whose rows carry a primary key. The locale states what the
  component's update promises (it keeps the key) and gives the read-after-write laws.
\<close>

locale keyed_table =
  fixes key :: "'r \<Rightarrow> 'k"
    and upd :: "'p \<Rightarrow> 'r \<Rightarrow> 'r"
  assumes key_upd: "key (upd x r) = key r"
begin

lemma keys_update: "map key (update_where p (upd x) rs) = map key rs"
  by (rule map_update_where) (rule key_upd)

lemma distinct_keys_update:
  "distinct (map key rs) \<Longrightarrow> distinct (map key (update_where p (upd x) rs))"
  by (simp only: keys_update)

lemma fetch_other:
  "k \<noteq> j \<Longrightarrow> fetch_one (\<lambda>r. key r = k) (update_where (\<lambda>r. key r = j) (upd x) rs)
    = fetch_one (\<lambda>r. key r = k) rs"
  by (induction rs) (auto simp: fetch_one_def key_upd)

lemma fetch_same:
  "fetch_one (\<lambda>r. key r = k) (update_where (\<lambda>r. key r = k) (upd x) rs)
    = map_option (upd x) (fetch_one (\<lambda>r. key r = k) rs)"
  by (induction rs) (auto simp: fetch_one_def key_upd)

lemma fetch_conditional:
  "fetch_one (\<lambda>r. key r = k) (update_where (\<lambda>r. key r = k \<and> c r) (upd x) rs)
    = map_option (\<lambda>r. if c r then upd x r else r) (fetch_one (\<lambda>r. key r = k) rs)"
  by (induction rs) (auto simp: fetch_one_def key_upd)

lemma unique_row:
  "distinct (map key rs) \<Longrightarrow> fetch_one (\<lambda>r. key r = k) rs = Some r0 \<Longrightarrow> r \<in> set rs
    \<Longrightarrow> key r = k \<Longrightarrow> r = r0"
  by (induction rs) (auto simp: fetch_one_def image_iff split: if_splits dest: find_Some_iff [THEN iffD1])

end

section \<open>Guarded state machines\<close>

text \<open>
  The program's state machines are tables of allowed transitions: a step to the same state is
  always accepted, any other step needs an entry of the table. The locale asks for a predicate
  of final states without successors and for a rank that some successor of every other state
  lowers; it gives that final states are absorbing, that every state can be driven to a final
  one, and how an invariant of the single steps lifts to runs.
\<close>

definition guarded_step :: "('s \<Rightarrow> 's \<Rightarrow> bool) \<Rightarrow> 's \<Rightarrow> 's \<Rightarrow> bool" where
  "guarded_step allowed s t \<longleftrightarrow> s = t \<or> allowed s t"

fun guarded_run :: "('s \<Rightarrow> 's \<Rightarrow> bool) \<Rightarrow> 's \<Rightarrow> 's list \<Rightarrow> bool" where
  "guarded_run allowed s [] = True"
| "guarded_run allowed s (t # ts) = (guarded_step allowed s t \<and> guarded_run allowed t ts)"

lemma guarded_run_suffix:
  "guarded_run allowed s ts \<Longrightarrow> s # ts = us @ u # vs \<Longrightarrow> guarded_run allowed u vs"
proof (induction us arbitrary: s ts)
  case Nil
  then show ?case by simp
next
  case (Cons w us)
  then show ?case by (cases ts) auto
qed

lemma guarded_run_append:
  "guarded_run allowed s ts \<Longrightarrow> guarded_run allowed (last (s # ts)) us \<Longrightarrow> guarded_run allowed s (ts @ us)"
  by (induction ts arbitrary: s) auto

locale guarded_machine =
  fixes allowed :: "'s \<Rightarrow> 's \<Rightarrow> bool"
    and final :: "'s \<Rightarrow> bool"
    and rank :: "'s \<Rightarrow> nat"
  assumes final_stuck: "final s \<Longrightarrow> \<not> allowed s t"
    and progress: "\<not> final s \<Longrightarrow> \<exists>t. allowed s t \<and> rank t < rank s"
begin

lemma final_step: "final s \<Longrightarrow> guarded_step allowed s t \<Longrightarrow> t = s"
  using final_stuck by (auto simp: guarded_step_def)

lemma final_run: "final s \<Longrightarrow> guarded_run allowed s ts \<Longrightarrow> set ts \<subseteq> {s}"
  by (induction ts arbitrary: s) (auto dest: final_step)

lemma final_last:
  assumes "final s" and "guarded_run allowed s ts"
  shows "last (s # ts) = s"
  using final_run [OF assms] by (cases ts rule: rev_cases) auto

lemma reaches_final:
  "\<exists>ts t. guarded_run allowed s ts \<and> last (s # ts) = t \<and> final t \<and> length ts \<le> rank s"
proof (induction "rank s" arbitrary: s rule: less_induct)
  case less
  show ?case
  proof (cases "final s")
    case True
    then show ?thesis by (intro exI [of _ "[]"]) auto
  next
    case False
    then obtain u where u: "allowed s u" "rank u < rank s"
      using progress by blast
    from less [OF u(2)] obtain ts where
      ts: "guarded_run allowed u ts" "final (last (u # ts))" "length ts \<le> rank u"
      by blast
    then show ?thesis using u
      by (intro exI [of _ "u # ts"]) (auto simp: guarded_step_def)
  qed
qed

lemma run_invariant:
  assumes step: "\<And>s t. P s \<Longrightarrow> guarded_step allowed s t \<Longrightarrow> P t"
  shows "P s \<Longrightarrow> guarded_run allowed s ts \<Longrightarrow> t \<in> set ts \<Longrightarrow> P t"
  by (induction ts arbitrary: s) (auto dest: step)

text \<open>A run that ends outside a set it started in crosses its border at some step.\<close>

lemma run_crosses:
  "P s \<Longrightarrow> \<not> P (last (s # ts)) \<Longrightarrow> guarded_run allowed s ts
    \<Longrightarrow> \<exists>us u v vs. s # ts = us @ u # v # vs \<and> P u \<and> \<not> P v \<and> allowed u v"
proof (induction ts arbitrary: s)
  case Nil
  then show ?case by simp
next
  case (Cons t ts)
  show ?case
  proof (cases "P t")
    case True
    with Cons.prems have "\<not> P (last (t # ts))" "guarded_run allowed t ts" by auto
    from Cons.IH [OF True this] obtain us u v vs
      where "t # ts = us @ u # v # vs" "P u" "\<not> P v" "allowed u v" by blast
    then show ?thesis by (metis append_Cons)
  next
    case False
    then have "s \<noteq> t" using Cons.prems by auto
    then have "allowed s t" using Cons.prems by (auto simp: guarded_step_def)
    with False Cons.prems(1) show ?thesis by (metis append_Nil)
  qed
qed

end

section \<open>Sequences of transactions\<close>

text \<open>
  A method that runs several transactions: an error it raises leaves the transactions before it
  committed. An action takes the state and returns its result, or the error, with the state then
  reached; \<open>txn\<close> is a single transaction, rolled back when it raises.
\<close>

type_synonym ('a, 's) act = "'s \<Rightarrow> 'a res \<times> 's"

definition areturn :: "'a \<Rightarrow> ('a, 's) act" where
  "areturn x s = (Inr x, s)"

definition araise :: "py_error \<Rightarrow> ('a, 's) act" where
  "araise e s = (Inl e, s)"

definition abind :: "('a, 's) act \<Rightarrow> ('a \<Rightarrow> ('b, 's) act) \<Rightarrow> ('b, 's) act" where
  "abind m f s = (case m s of (Inl e, s') \<Rightarrow> (Inl e, s') | (Inr x, s') \<Rightarrow> f x s')"

definition txn :: "('s \<Rightarrow> ('a \<times> 's) res) \<Rightarrow> ('a, 's) act" where
  "txn f s = (case f s of Inl e \<Rightarrow> (Inl e, s) | Inr (x, s') \<Rightarrow> (Inr x, s'))"

definition areads :: "('s \<Rightarrow> 'a res) \<Rightarrow> ('a, 's) act" where
  "areads f s = (f s, s)"

definition amodify :: "('s \<Rightarrow> 's) \<Rightarrow> (unit, 's) act" where
  "amodify f s = (Inr (), f s)"

definition acatch :: "('a, 's) act \<Rightarrow> (py_error \<Rightarrow> ('a, 's) act) \<Rightarrow> ('a, 's) act" where
  "acatch m h s = (case m s of (Inl e, s') \<Rightarrow> h e s' | (Inr x, s') \<Rightarrow> (Inr x, s'))"

text \<open>
  A relation between states that every transaction keeps is kept by every action built from them,
  whether it returns or raises: the relation only has to be reflexive and transitive.
\<close>

locale kept_relation =
  fixes R :: "'s \<Rightarrow> 's \<Rightarrow> bool"
  assumes R_refl: "R s s"
    and R_trans: "R s t \<Longrightarrow> R t u \<Longrightarrow> R s u"
begin

definition keeps :: "('a, 's) act \<Rightarrow> bool" where
  "keeps m \<longleftrightarrow> (\<forall>s. R s (snd (m s)))"

lemma keepsD: "keeps m \<Longrightarrow> m s = (r, s') \<Longrightarrow> R s s'"
  unfolding keeps_def by (metis snd_conv)

lemma keeps_return [simp, intro]: "keeps (areturn x)"
  by (simp add: keeps_def areturn_def R_refl)

lemma keeps_raise [simp, intro]: "keeps (araise e)"
  by (simp add: keeps_def araise_def R_refl)

lemma keeps_reads [simp, intro]: "keeps (areads f)"
  by (simp add: keeps_def areads_def R_refl)

lemma keeps_modify: "(\<And>s. R s (f s)) \<Longrightarrow> keeps (amodify f)"
  by (simp add: keeps_def amodify_def)

lemma keeps_txn: "(\<And>s x s'. f s = Inr (x, s') \<Longrightarrow> R s s') \<Longrightarrow> keeps (txn f)"
  by (auto simp: keeps_def txn_def R_refl split: sum.split prod.split)

lemma keeps_bind: "keeps m \<Longrightarrow> (\<And>x. keeps (f x)) \<Longrightarrow> keeps (abind m f)"
  unfolding keeps_def abind_def
  by (auto split: prod.split sum.split intro: R_trans) (metis R_trans snd_conv)+

lemma keeps_catch: "keeps m \<Longrightarrow> (\<And>e. keeps (h e)) \<Longrightarrow> keeps (acatch m h)"
  unfolding keeps_def acatch_def
  by (auto split: prod.split sum.split intro: R_trans) (metis R_trans snd_conv)+

lemma keeps_if: "(c \<Longrightarrow> keeps m) \<Longrightarrow> (\<not> c \<Longrightarrow> keeps n) \<Longrightarrow> keeps (if c then m else n)"
  by simp

lemma keeps_option: "(\<And>x. v = Some x \<Longrightarrow> keeps (f x)) \<Longrightarrow> (v = None \<Longrightarrow> keeps n) \<Longrightarrow> keeps (case v of None \<Rightarrow> n | Some x \<Rightarrow> f x)"
  by (cases v) auto

lemma keeps_list: "(v = [] \<Longrightarrow> keeps n) \<Longrightarrow> (\<And>x xs. v = x # xs \<Longrightarrow> keeps (f x xs)) \<Longrightarrow> keeps (case v of [] \<Rightarrow> n | x # xs \<Rightarrow> f x xs)"
  by (cases v) auto

end

end
