(* ===== verification/Py_Decimal.thy ===== *)
theory Py_Decimal
  imports Prelude
begin

section \<open>Digits of a positive integer\<close>

function ndigits :: "int \<Rightarrow> int \<Rightarrow> nat" where
  "ndigits b n = (if b < 2 \<or> n \<le> 0 then 0 else Suc (ndigits b (n div b)))"
  by pat_completeness auto
termination
  by (relation "measure (\<lambda>(b, n). nat n)") (auto simp: int_div_less_self)

declare ndigits.simps [simp del]

lemma ndigits_bounds:
  "2 \<le> b \<Longrightarrow> 0 < n \<Longrightarrow> 0 < ndigits b n \<and> b ^ (ndigits b n - 1) \<le> n \<and> n < b ^ ndigits b n"
proof (induction b n rule: ndigits.induct)
  case (1 b n)
  have nz: "ndigits b n = Suc (ndigits b (n div b))"
    using "1.prems" by (simp add: ndigits.simps [of b n])
  have split: "n = b * (n div b) + n mod b" "0 \<le> n mod b" "n mod b < b"
    using "1.prems" by auto
  show ?case
  proof (cases "0 < n div b")
    case True
    with "1.IH" "1.prems" have ih: "0 < ndigits b (n div b)"
      "b ^ (ndigits b (n div b) - 1) \<le> n div b" "n div b < b ^ ndigits b (n div b)" by auto
    let ?k = "ndigits b (n div b)"
    have "b ^ ?k = b * b ^ (?k - 1)" using ih(1) by (cases ?k) auto
    also have "\<dots> \<le> b * (n div b)" using ih(2) "1.prems" by simp
    finally have lo: "b ^ ?k \<le> n" using split by linarith
    have "n div b + 1 \<le> b ^ ?k" using ih(3) by simp
    then have "b * (n div b + 1) \<le> b * b ^ ?k" using "1.prems" by simp
    moreover have "n < b * (n div b + 1)" using split unfolding distrib_left by linarith
    ultimately have hi: "n < b * b ^ ?k" by linarith
    show ?thesis using lo hi nz by simp
  next
    case False
    then have z: "n div b = 0" using "1.prems" by (simp add: pos_imp_zdiv_nonneg_iff order_antisym)
    then have "ndigits b (n div b) = 0" by (simp add: ndigits.simps [of b 0])
    moreover have "n < b" using split z by simp
    ultimately show ?thesis using nz "1.prems" by simp
  qed
qed

section \<open>Rounding half to even\<close>

definition round_half_even :: "rat \<Rightarrow> int" where
  "round_half_even q = (let f = \<lfloor>q\<rfloor>; r = q - of_int f in
     if r < 1/2 then f else if r > 1/2 then f + 1 else if even f then f else f + 1)"

lemma rhe_of_int [simp]: "round_half_even (of_int k) = k"
  by (simp add: round_half_even_def)

lemma rhe_0 [simp]: "round_half_even 0 = 0"
  using rhe_of_int [of 0] by simp

lemma rhe_bounds: "\<lfloor>q\<rfloor> \<le> round_half_even q \<and> round_half_even q \<le> \<lfloor>q\<rfloor> + 1"
  by (auto simp: round_half_even_def Let_def)

lemma rhe_mono:
  assumes "x \<le> y"
  shows "round_half_even x \<le> round_half_even y"
proof (cases "\<lfloor>x\<rfloor> = \<lfloor>y\<rfloor>")
  case True
  with assms show ?thesis by (auto simp: round_half_even_def Let_def)
next
  case False
  then have "\<lfloor>x\<rfloor> + 1 \<le> \<lfloor>y\<rfloor>" using floor_mono [OF assms] by linarith
  then show ?thesis using rhe_bounds [of x] rhe_bounds [of y] by linarith
qed

lemma rhe_error: "\<bar>of_int (round_half_even q) - q\<bar> \<le> (1/2 :: rat)"
proof -
  have f: "of_int \<lfloor>q\<rfloor> \<le> q" "q < of_int \<lfloor>q\<rfloor> + 1" by linarith+
  consider "q - of_int \<lfloor>q\<rfloor> < 1/2" | "q - of_int \<lfloor>q\<rfloor> > 1/2" | "q - of_int \<lfloor>q\<rfloor> = 1/2" by linarith
  then show ?thesis
  proof cases
    case 1
    then show ?thesis using f by (simp add: round_half_even_def Let_def)
  next
    case 2
    then have "round_half_even q = \<lfloor>q\<rfloor> + 1" by (simp add: round_half_even_def Let_def)
    then have "of_int (round_half_even q) = of_int \<lfloor>q\<rfloor> + (1::rat)" by simp
    then show ?thesis using 2 f by linarith
  next
    case 3
    then show ?thesis by (auto simp: round_half_even_def Let_def)
  qed
qed

lemma rhe_uminus: "round_half_even (- q) = - round_half_even q"
proof (cases "q = of_int \<lfloor>q\<rfloor>")
  case True
  then show ?thesis by (metis of_int_minus rhe_of_int)
next
  case False
  then have c: "\<lfloor>- q\<rfloor> = - \<lfloor>q\<rfloor> - 1"
    by linarith
  have f: "of_int \<lfloor>q\<rfloor> < q" "q < of_int \<lfloor>q\<rfloor> + 1" using False by linarith+
  consider "q - of_int \<lfloor>q\<rfloor> < 1/2" | "q - of_int \<lfloor>q\<rfloor> > 1/2" | "q - of_int \<lfloor>q\<rfloor> = 1/2" by linarith
  then show ?thesis
    by cases (auto simp: round_half_even_def Let_def c)
qed

section \<open>Rounding to a number of significant digits\<close>

text \<open>\<open>lead b x\<close> is the number \<open>t\<close> with \<open>b ^ (t - 1) \<le> |x| < b ^ t\<close>.\<close>

definition lead :: "int \<Rightarrow> rat \<Rightarrow> int" where
  "lead b x = (let nd = quotient_of \<bar>x\<bar>;
       t = int (ndigits b (fst nd)) - int (ndigits b (snd nd))
     in if of_int b powi t \<le> \<bar>x\<bar> then t + 1 else t)"

definition rnd :: "int \<Rightarrow> nat \<Rightarrow> rat \<Rightarrow> rat" where
  "rnd b p x = (if x = 0 then 0 else
     let s = of_int b powi (lead b x - int p) in of_int (round_half_even (x / s)) * s)"

lemma lead_bounds:
  assumes b: "2 \<le> b" and x: "x \<noteq> 0"
  shows "of_int b powi (lead b x - 1) \<le> \<bar>x\<bar> \<and> \<bar>x\<bar> < (of_int b powi lead b x :: rat)"
proof -
  obtain n d where q: "quotient_of \<bar>x\<bar> = (n, d)" by fastforce
  have d: "0 < d" using quotient_of_denom_pos [OF q] .
  have xq: "\<bar>x\<bar> = of_int n / of_int d" using quotient_of_div [OF q] .
  have n: "0 < n"
  proof -
    have "0 < \<bar>x\<bar>" using x by simp
    then show ?thesis using xq d by (simp add: zero_less_divide_iff)
  qed
  let ?B = "of_int b :: rat"
  define j where "j = ndigits b n"
  define k where "k = ndigits b d"
  have B: "1 < ?B" "0 < ?B" "?B \<noteq> 0" using b by auto
  have nb: "0 < j" "b ^ (j - 1) \<le> n" "n < b ^ j"
    using ndigits_bounds [OF b n] by (auto simp: j_def)
  have db: "0 < k" "b ^ (k - 1) \<le> d" "d < b ^ k"
    using ndigits_bounds [OF b d] by (auto simp: k_def)
  have nr: "?B ^ (j - 1) \<le> of_int n" "of_int n < ?B ^ j"
    using nb by (simp_all flip: of_int_power)
  have dr: "?B ^ (k - 1) \<le> of_int d" "of_int d < ?B ^ k"
    using db by (simp_all flip: of_int_power)
  let ?t = "int j - int k"
  have hi: "\<bar>x\<bar> < ?B powi (?t + 1)"
  proof -
    have "of_int n / of_int d < ?B ^ j / ?B ^ (k - 1)"
      by (rule frac_less) (use nr dr B order_less_imp_le [OF n] in auto)
    also have "\<dots> = ?B powi (?t + 1)"
    proof -
      have t: "?t + 1 = int j - int (k - 1)" using db by simp
      show ?thesis unfolding t using B by (simp add: power_int_diff)
    qed
    finally show ?thesis using xq by simp
  qed
  have lo: "?B powi (?t - 1) \<le> \<bar>x\<bar>"
  proof -
    have "?B powi (?t - 1) = ?B ^ (j - 1) / ?B ^ k"
    proof -
      have t: "?t - 1 = int (j - 1) - int k" using nb by simp
      show ?thesis unfolding t using B by (simp add: power_int_diff)
    qed
    also have "\<dots> \<le> of_int n / of_int d"
      by (rule frac_le) (use nr dr B d order_less_imp_le [OF n] in auto)
    finally show ?thesis using xq by simp
  qed
  have "lead b x = (if ?B powi ?t \<le> \<bar>x\<bar> then ?t + 1 else ?t)"
    by (simp add: lead_def q j_def k_def Let_def)
  then show ?thesis using hi lo by auto
qed

lemma powi_add: "B \<noteq> 0 \<Longrightarrow> B powi (m + n) = B powi m * B powi n"
  for B :: rat
  by (rule power_int_add) simp

lemma powi_nat_add: "B \<noteq> 0 \<Longrightarrow> B powi (int j + n) = B ^ j * B powi n"
  for B :: rat
  by (simp add: powi_add)

lemma powi_le_imp:
  fixes B :: rat
  assumes "1 < B" "B powi s < B powi t"
  shows "s < t"
  using assms power_int_increasing [of t s B] by (meson not_le order_less_imp_le)

lemma lead_unique:
  assumes b: "2 \<le> b" and "of_int b powi (t - 1) \<le> \<bar>x\<bar>" "\<bar>x\<bar> < (of_int b powi t :: rat)"
  shows "lead b x = t"
proof -
  have B: "1 < (of_int b :: rat)" using b by simp
  have "0 < (of_int b :: rat) powi (t - 1)" using B by simp
  then have "x \<noteq> 0" using assms(2) by auto
  from lead_bounds [OF b this] have l: "of_int b powi (lead b x - 1) \<le> \<bar>x\<bar>"
    "\<bar>x\<bar> < of_int b powi lead b x" by auto
  have "of_int b powi (lead b x - 1) < (of_int b powi t :: rat)" using l assms by linarith
  moreover have "of_int b powi (t - 1) < (of_int b powi lead b x :: rat)" using l assms by linarith
  ultimately have "lead b x - 1 < t" "t - 1 < lead b x"
    by (auto dest: powi_le_imp [OF B])
  then show ?thesis by simp
qed

lemma lead_mono:
  assumes b: "2 \<le> b" and "x \<noteq> 0" "\<bar>x\<bar> \<le> \<bar>y\<bar>"
  shows "lead b x \<le> lead b y"
proof -
  have B: "1 < (of_int b :: rat)" using b by simp
  have "y \<noteq> 0" using assms by auto
  have "of_int b powi (lead b x - 1) < (of_int b powi lead b y :: rat)"
    using lead_bounds [OF b assms(2)] lead_bounds [OF b \<open>y \<noteq> 0\<close>] assms(3) by linarith
  then show ?thesis using powi_le_imp [OF B] by fastforce
qed

lemma lead_uminus [simp]: "lead b (- x) = lead b x"
  by (simp add: lead_def)

lemma rnd_0 [simp]: "rnd b p 0 = 0"
  by (simp add: rnd_def)

lemma rnd_uminus: "rnd b p (- x) = - rnd b p x"
  by (simp add: rnd_def Let_def rhe_uminus)

definition quantum :: "int \<Rightarrow> nat \<Rightarrow> rat \<Rightarrow> rat" where
  "quantum b p x = of_int b powi (lead b x - int p)"

lemma quantum_pos: "2 \<le> b \<Longrightarrow> 0 < quantum b p x"
  by (simp add: quantum_def)

lemma rnd_quantum: "rnd b p x = of_int (round_half_even (x / quantum b p x)) * quantum b p x"
  by (simp add: rnd_def quantum_def Let_def)

text \<open>The significand of a rounded number has at most \<open>p\<close> digits.\<close>

lemma significand_bounds:
  assumes b: "2 \<le> b" and x: "0 < x" and p: "0 < p"
  shows "b ^ (p - 1) \<le> round_half_even (x / quantum b p x)
    \<and> round_half_even (x / quantum b p x) \<le> b ^ p"
proof -
  let ?B = "of_int b :: rat" and ?q = "quantum b p x"
  have q: "0 < ?q" by (rule quantum_pos [OF b])
  have l: "?B powi (lead b x - 1) \<le> x" "x < ?B powi lead b x"
    using lead_bounds [OF b, of x] x by auto
  have B: "?B \<noteq> 0" using b by auto
  have "?B powi (lead b x - 1) = ?B powi ((int p - 1) + (lead b x - int p))" by simp
  also have "\<dots> = ?B powi (int p - 1) * ?q" unfolding quantum_def by (rule powi_add [OF B])
  finally have lo: "?B powi (int p - 1) * ?q \<le> x" using l by simp
  have "?B powi lead b x = ?B powi (int p + (lead b x - int p))" by simp
  also have "\<dots> = ?B ^ p * ?q" unfolding quantum_def by (rule powi_nat_add [OF B])
  finally have hi: "x < ?B ^ p * ?q" using l by simp
  have "?B powi (int p - 1) = ?B ^ (p - 1)"
    using p power_int_of_nat [of ?B "p - 1"] by (simp add: of_nat_diff)
  with lo have lo': "of_int (b ^ (p - 1)) \<le> x / ?q" using q by (simp add: pos_le_divide_eq)
  have hi': "x / ?q \<le> of_int (b ^ p)" using hi q by (simp add: pos_divide_le_eq)
  show ?thesis using rhe_mono [OF lo'] rhe_mono [OF hi'] unfolding rhe_of_int by simp
qed

lemma rnd_between:
  assumes b: "2 \<le> b" and x: "0 < x" and p: "0 < p"
  shows "of_int b powi (lead b x - 1) \<le> rnd b p x \<and> rnd b p x \<le> of_int b powi lead b x"
proof -
  let ?B = "of_int b :: rat" and ?q = "quantum b p x" and ?m = "round_half_even (x / quantum b p x)"
  have q: "0 < ?q" by (rule quantum_pos [OF b])
  have B: "?B \<noteq> 0" using b by auto
  have m: "of_int (b ^ (p - 1)) \<le> (of_int ?m :: rat)" "of_int ?m \<le> (of_int (b ^ p) :: rat)"
    using significand_bounds [OF b x p] by (simp_all only: of_int_le_iff)
  have "?B powi (lead b x - 1) = ?B powi (int (p - 1) + (lead b x - int p))"
    using p by (simp add: of_nat_diff)
  also have "\<dots> = ?B ^ (p - 1) * ?q" unfolding quantum_def by (rule powi_nat_add [OF B])
  also have "\<dots> \<le> of_int ?m * ?q" using m(1) q by simp
  finally have 1: "?B powi (lead b x - 1) \<le> rnd b p x" by (simp add: rnd_quantum)
  have "of_int ?m * ?q \<le> ?B ^ p * ?q" using m(2) q by simp
  also have "\<dots> = ?B powi (int p + (lead b x - int p))"
    unfolding quantum_def by (rule powi_nat_add [OF B, symmetric])
  also have "\<dots> = ?B powi lead b x" by simp
  finally show ?thesis using 1 by (simp add: rnd_quantum)
qed

lemma rnd_pos: "2 \<le> b \<Longrightarrow> 0 < p \<Longrightarrow> 0 < x \<Longrightarrow> 0 < rnd b p x"
proof -
  assume b: "2 \<le> b" and p: "0 < p" and x: "0 < x"
  have "(0::rat) < of_int b powi (lead b x - 1)" using b by simp
  then show ?thesis using rnd_between [OF b x p] by linarith
qed

lemma rnd_nonneg: "2 \<le> b \<Longrightarrow> 0 < p \<Longrightarrow> 0 \<le> x \<Longrightarrow> 0 \<le> rnd b p x"
  using rnd_pos [of b p x] order_le_less [of 0 x] by fastforce

lemma rnd_lower:
  assumes "2 \<le> b" and "0 < p" and "0 \<le> x"
  shows "x * (1 - of_int b powi (1 - int p) / 2) \<le> rnd b p x"
proof (cases "x = 0")
  case False
  then have x: "0 < x" using assms(3) by simp
  let ?B = "of_int b :: rat" and ?q = "quantum b p x"
  have q: "0 < ?q" by (rule quantum_pos [OF assms(1)])
  have B: "?B \<noteq> 0" using assms(1) by auto
  have "?q = ?B powi (1 - int p) * ?B powi (lead b x - 1)"
    unfolding quantum_def powi_add [OF B, symmetric] by simp
  also have "\<dots> \<le> ?B powi (1 - int p) * x"
    using lead_bounds [OF assms(1), of x] x assms(1) by (intro mult_left_mono) auto
  finally have qx: "?q \<le> ?B powi (1 - int p) * x" .
  have "\<bar>of_int (round_half_even (x / ?q)) - x / ?q\<bar> \<le> (1/2 :: rat)" by (rule rhe_error)
  then have "x / ?q - 1/2 \<le> of_int (round_half_even (x / ?q))" by linarith
  then have "(x / ?q - 1/2) * ?q \<le> rnd b p x" unfolding rnd_quantum using q by (intro mult_right_mono) auto
  moreover have "(x / ?q - 1/2) * ?q = x - ?q / 2" using q by (simp add: field_simps)
  ultimately show ?thesis using qx by (simp add: algebra_simps)
qed simp

lemma rnd_mono_pos:
  assumes b: "2 \<le> b" and p: "0 < p" and x: "0 < x" and xy: "x \<le> y"
  shows "rnd b p x \<le> rnd b p y"
proof (cases "lead b x = lead b y")
  case True
  then have q: "quantum b p x = quantum b p y" by (simp add: quantum_def)
  have "x / quantum b p y \<le> y / quantum b p y"
    using xy quantum_pos [OF b, of p y] by (simp add: divide_right_mono)
  then have "round_half_even (x / quantum b p y) \<le> round_half_even (y / quantum b p y)" by (rule rhe_mono)
  then have "(of_int (round_half_even (x / quantum b p y)) :: rat)
      \<le> of_int (round_half_even (y / quantum b p y))" by simp
  then show ?thesis
    unfolding rnd_quantum q using quantum_pos [OF b, of p y] by (simp add: mult_right_mono)
next
  case False
  have y: "0 < y" using x xy by simp
  have "lead b x \<le> lead b y" by (rule lead_mono [OF b]) (use x xy in auto)
  with False have le: "lead b x \<le> lead b y - 1" by simp
  have "rnd b p x \<le> of_int b powi lead b x" using rnd_between [OF b x p] by simp
  also have "\<dots> \<le> of_int b powi (lead b y - 1)"
    by (rule power_int_increasing [OF le]) (use b in auto)
  also have "\<dots> \<le> rnd b p y" using rnd_between [OF b y p] by simp
  finally show ?thesis .
qed

lemma rnd_mono:
  assumes b: "2 \<le> b" and p: "0 < p" and xy: "x \<le> y"
  shows "rnd b p x \<le> rnd b p y"
proof -
  consider "0 < x" | "x \<le> 0" "0 \<le> y" | "y < 0" by linarith
  then show ?thesis
  proof cases
    case 1
    then show ?thesis by (rule rnd_mono_pos [OF b p _ xy])
  next
    case 2
    have "0 \<le> rnd b p (- x)" by (rule rnd_nonneg [OF b p]) (use 2 in simp)
    then show ?thesis using rnd_nonneg [OF b p 2(2)] by (simp add: rnd_uminus)
  next
    case 3
    have "rnd b p (- y) \<le> rnd b p (- x)"
      by (rule rnd_mono_pos [OF b p]) (use 3 xy in auto)
    then show ?thesis by (simp add: rnd_uminus)
  qed
qed

text \<open>Numbers with at most \<open>p\<close> significant digits are not changed.\<close>

definition representable :: "int \<Rightarrow> nat \<Rightarrow> rat \<Rightarrow> bool" where
  "representable b p x \<longleftrightarrow> (\<exists>c k. x = of_int c * of_int b powi k \<and> \<bar>c\<bar> < b ^ p)"

lemma representableI: "x = of_int c * of_int b powi k \<Longrightarrow> \<bar>c\<bar> < b ^ p \<Longrightarrow> representable b p x"
  by (auto simp: representable_def)

lemma representable_uminus: "representable b p x \<Longrightarrow> representable b p (- x)"
  unfolding representable_def by (metis abs_minus_cancel mult_minus_left of_int_minus)

lemma rnd_exact:
  assumes b: "2 \<le> b" and rep: "representable b p x"
  shows "rnd b p x = x"
proof (cases "x = 0")
  case False
  obtain c k where x: "x = of_int c * of_int b powi k" and c: "\<bar>c\<bar> < b ^ p"
    using rep by (auto simp: representable_def)
  let ?B = "of_int b :: rat"
  have B: "?B \<noteq> 0" "1 < ?B" using b by auto
  have "\<bar>x\<bar> = of_int \<bar>c\<bar> * ?B powi k" unfolding x using b by (simp add: abs_mult)
  also have "\<dots> < ?B ^ p * ?B powi k"
    using c B by (intro mult_strict_right_mono) (simp_all flip: of_int_power)
  also have "\<dots> = ?B powi (int p + k)" by (rule powi_nat_add [OF B(1), symmetric])
  finally have "?B powi (lead b x - 1) < ?B powi (int p + k)"
    using lead_bounds [OF b False] by linarith
  then have le: "lead b x - int p \<le> k" using powi_le_imp [OF B(2)] by fastforce
  define j where "j = nat (k - (lead b x - int p))"
  have kj: "k = int j + (lead b x - int p)" using le by (simp add: j_def)
  have "x = of_int (c * b ^ j) * quantum b p x"
  proof -
    have "x = of_int c * (?B ^ j * quantum b p x)"
      unfolding quantum_def using x kj powi_nat_add [OF B(1)] by metis
    then show ?thesis by simp
  qed
  moreover have "quantum b p x \<noteq> 0" using quantum_pos [OF b, of p x] by simp
  ultimately have "x / quantum b p x = of_int (c * b ^ j)" by (metis nonzero_eq_divide_eq)
  then have "round_half_even (x / quantum b p x) = c * b ^ j" by (simp only: rhe_of_int)
  then show ?thesis using \<open>x = of_int (c * b ^ j) * quantum b p x\<close> by (simp add: rnd_quantum)
qed simp

lemma representable_rnd:
  assumes b: "2 \<le> b" and p: "0 < p"
  shows "representable b p (rnd b p x)"
proof -
  have pos: "representable b p (rnd b p y)" if y: "0 < y" for y
  proof -
    let ?m = "round_half_even (y / quantum b p y)"
    have m: "b ^ (p - 1) \<le> ?m" "?m \<le> b ^ p" using significand_bounds [OF b y p] by auto
    have "0 < b ^ (p - 1)" using b by simp
    then have m0: "0 < ?m" using m by linarith
    show ?thesis
    proof (cases "?m = b ^ p")
      case True
      have "rnd b p y = of_int 1 * of_int b powi (int p + (lead b y - int p))"
        unfolding rnd_quantum True using b by (subst powi_nat_add) (auto simp: quantum_def)
      then show ?thesis by (rule representableI) (use b p in \<open>simp add: one_less_power\<close>)
    next
      case False
      have "rnd b p y = of_int ?m * of_int b powi (lead b y - int p)"
        unfolding rnd_quantum by (simp only: quantum_def)
      then show ?thesis by (rule representableI) (use False m m0 in linarith)
    qed
  qed
  consider "0 < x" | "x = 0" | "0 < - x" by linarith
  then show ?thesis
  proof cases
    case 2
    then show ?thesis using b by (intro representableI [of _ 0 _ 0]) auto
  next
    case 3
    from representable_uminus [OF pos [OF 3]] show ?thesis by (simp add: rnd_uminus)
  qed (rule pos)
qed

lemma rnd_idem: "2 \<le> b \<Longrightarrow> 0 < p \<Longrightarrow> rnd b p (rnd b p x) = rnd b p x"
  using rnd_exact representable_rnd by blast

lemma rnd_error:
  assumes b: "2 \<le> b" and p: "0 < p"
  shows "\<bar>rnd b p x - x\<bar> \<le> quantum b p x / 2"
proof -
  let ?q = "quantum b p x"
  have q: "0 < ?q" by (rule quantum_pos [OF b])
  have "rnd b p x - x = (of_int (round_half_even (x / ?q)) - x / ?q) * ?q"
    using q by (simp add: rnd_quantum left_diff_distrib)
  then have "\<bar>rnd b p x - x\<bar> = \<bar>of_int (round_half_even (x / ?q)) - x / ?q\<bar> * ?q"
    using q by (simp add: abs_mult)
  also have "\<dots> \<le> 1/2 * ?q" using rhe_error q by (intro mult_right_mono) auto
  finally show ?thesis by simp
qed


section \<open>Decimal contexts\<close>

text \<open>
  What the program relies on of a rounding operation: it is monotone, odd and idempotent. The
  components prove their sign and ordering facts from these laws only, so they hold for the decimal
  context and for the binary floating-point projection alike.
\<close>

locale rounding =
  fixes rd :: "rat \<Rightarrow> rat"
  assumes rd_mono: "x \<le> y \<Longrightarrow> rd x \<le> rd y"
    and rd_uminus: "rd (- x) = - rd x"
    and rd_idem: "rd (rd x) = rd x"
begin

lemma rd_zero: "rd 0 = 0"
  using rd_uminus [of 0] by simp

lemma rd_nonneg: "0 \<le> x \<Longrightarrow> 0 \<le> rd x"
  using rd_mono [of 0 x] rd_zero by simp

lemma rd_nonpos: "x \<le> 0 \<Longrightarrow> rd x \<le> 0"
  using rd_mono [of x 0] rd_zero by simp

lemma rd_upper: "x \<le> y \<Longrightarrow> rd y = y \<Longrightarrow> rd x \<le> y"
  using rd_mono [of x y] by simp

lemma rd_lower: "y \<le> x \<Longrightarrow> rd y = y \<Longrightarrow> y \<le> rd x"
  using rd_mono [of y x] by simp

lemma rd_sub_le: "0 \<le> y \<Longrightarrow> rd x = x \<Longrightarrow> rd (x - y) \<le> x"
  by (rule rd_upper) auto

lemma rd_add_ge: "0 \<le> y \<Longrightarrow> rd x = x \<Longrightarrow> x \<le> rd (x + y)"
  by (rule rd_lower) auto

lemma rd_sub_nonneg: "y \<le> x \<Longrightarrow> 0 \<le> rd (x - y)"
  by (rule rd_nonneg) simp

lemma rd_mult_le: "0 \<le> x \<Longrightarrow> 0 \<le> y \<Longrightarrow> y \<le> 1 \<Longrightarrow> rd x = x \<Longrightarrow> rd (x * y) \<le> x"
  by (rule rd_upper) (auto simp: mult_left_le)

end

text \<open>
  The default context of \<open>decimal\<close>: 28 significant digits, half to even. The binary64
  format has 53 significant bits. Neither model has an exponent range.
\<close>

definition dec_ctx :: "rat \<Rightarrow> rat" where
  "dec_ctx x = rnd 10 28 x"

definition binary64 :: "rat \<Rightarrow> rat" where
  "binary64 x = rnd 2 53 x"

interpretation dctx: rounding dec_ctx
  by unfold_locales (auto simp: dec_ctx_def rnd_mono rnd_uminus rnd_idem)

interpretation fctx: rounding binary64
  by unfold_locales (auto simp: binary64_def rnd_mono rnd_uminus rnd_idem)

definition dadd :: "rat \<Rightarrow> rat \<Rightarrow> rat" where "dadd x y = dec_ctx (x + y)"
definition dsub :: "rat \<Rightarrow> rat \<Rightarrow> rat" where "dsub x y = dec_ctx (x - y)"
definition dmul :: "rat \<Rightarrow> rat \<Rightarrow> rat" where "dmul x y = dec_ctx (x * y)"
definition ddiv :: "rat \<Rightarrow> rat \<Rightarrow> rat" where "ddiv x y = dec_ctx (x / y)"
definition dneg :: "rat \<Rightarrow> rat" where "dneg x = dec_ctx (- x)"
definition dabs :: "rat \<Rightarrow> rat" where "dabs x = dec_ctx \<bar>x\<bar>"

text \<open>\<open>sum(..., ZERO)\<close> adds from the left, rounding every partial sum.\<close>

definition dsum :: "rat list \<Rightarrow> rat" where
  "dsum xs = foldl dadd 0 xs"

lemmas dec_ops = dadd_def dsub_def dmul_def ddiv_def dneg_def dabs_def

definition dec28 :: "rat \<Rightarrow> bool" where
  "dec28 x \<longleftrightarrow> dec_ctx x = x"

lemma dec28_ctx [simp]: "dec28 (dec_ctx x)"
  by (simp add: dec28_def dctx.rd_idem)

lemma dec28_0 [simp]: "dec28 0"
  by (simp add: dec28_def dctx.rd_zero)

lemma dec28_ops [simp]:
  "dec28 (dadd x y)" "dec28 (dsub x y)" "dec28 (dmul x y)" "dec28 (ddiv x y)" "dec28 (dneg x)"
  by (simp_all add: dec_ops)

lemma dec28I: "x = of_int c * 10 powi k \<Longrightarrow> \<bar>c\<bar> < 10 ^ 28 \<Longrightarrow> dec28 x"
  unfolding dec28_def dec_ctx_def
  by (rule rnd_exact) (auto intro: representableI)

lemma dec28_of_int: "\<bar>c\<bar> < 10 ^ 28 \<Longrightarrow> dec28 (of_int c)"
  by (rule dec28I [of _ c 0]) auto

lemma dadd_nonneg: "0 \<le> x \<Longrightarrow> 0 \<le> y \<Longrightarrow> 0 \<le> dadd x y"
  by (simp add: dadd_def dctx.rd_nonneg)

lemma dmul_nonneg: "0 \<le> x \<Longrightarrow> 0 \<le> y \<Longrightarrow> 0 \<le> dmul x y"
  by (simp add: dmul_def dctx.rd_nonneg)

lemma ddiv_nonneg: "0 \<le> x \<Longrightarrow> 0 \<le> y \<Longrightarrow> 0 \<le> ddiv x y"
  by (simp add: ddiv_def dctx.rd_nonneg)

lemma dsub_nonneg: "y \<le> x \<Longrightarrow> 0 \<le> dsub x y"
  by (simp add: dsub_def dctx.rd_sub_nonneg)

lemma dsub_le: "0 \<le> y \<Longrightarrow> dec28 x \<Longrightarrow> dsub x y \<le> x"
  by (simp add: dsub_def dec28_def dctx.rd_sub_le)

lemma dadd_0: "dec28 x \<Longrightarrow> dadd 0 x = x" "dec28 x \<Longrightarrow> dadd x 0 = x"
  by (simp_all add: dadd_def dec28_def)

lemma dsub_0: "dec28 x \<Longrightarrow> dsub x 0 = x"
  by (simp add: dsub_def dec28_def)

lemma dsub_self [simp]: "dsub x x = 0"
  by (simp add: dsub_def dctx.rd_zero)

lemma dadd_exact: "dec28 (x + y) \<Longrightarrow> dadd x y = x + y"
  by (simp add: dadd_def dec28_def)

lemma dsub_exact: "dec28 (x - y) \<Longrightarrow> dsub x y = x - y"
  by (simp add: dsub_def dec28_def)

lemma dmul_exact: "dec28 (x * y) \<Longrightarrow> dmul x y = x * y"
  by (simp add: dmul_def dec28_def)

lemma foldl_dadd_nonneg: "0 \<le> a \<Longrightarrow> (\<And>x. x \<in> set xs \<Longrightarrow> 0 \<le> x) \<Longrightarrow> 0 \<le> foldl dadd a xs"
  by (induction xs arbitrary: a) (auto simp: dadd_nonneg)

lemma dsum_nonneg: "(\<And>x. x \<in> set xs \<Longrightarrow> 0 \<le> x) \<Longrightarrow> 0 \<le> dsum xs"
  by (simp add: dsum_def foldl_dadd_nonneg)

text \<open>What one rounding of the context leaves of a sum at least.\<close>

definition kept :: rat where
  "kept = 1 - 5 / 10 ^ 28"

lemma kept_bounds: "0 < kept" "kept \<le> 1" "0 \<le> kept"
  by (simp_all add: kept_def)

lemma dadd_lower: "0 \<le> x \<Longrightarrow> 0 \<le> y \<Longrightarrow> (x + y) * kept \<le> dadd x y"
proof -
  assume "0 \<le> x" "0 \<le> y"
  moreover have "1 - of_int 10 powi (1 - int 28) / 2 = kept" by (simp add: kept_def power_int_def power_divide)
  ultimately show ?thesis using rnd_lower [of 10 28 "x + y"] by (simp only: dadd_def dec_ctx_def)
qed

lemma foldl_dadd_lower:
  "0 \<le> a \<Longrightarrow> \<forall>x\<in>set xs. 0 \<le> x \<Longrightarrow> (a + sum_list xs) * kept ^ length xs \<le> foldl dadd a xs"
proof (induction xs arbitrary: a)
  case (Cons x xs)
  have s: "0 \<le> sum_list xs" using Cons.prems by (intro sum_list_nonneg) auto
  have "(a + sum_list (x # xs)) * kept ^ length (x # xs) = ((a + x) * kept + sum_list xs * kept) * kept ^ length xs"
    by (simp add: algebra_simps)
  also have "\<dots> \<le> (dadd a x + sum_list xs) * kept ^ length xs"
    using dadd_lower [of a x] Cons.prems mult_left_le [OF kept_bounds(2) s] kept_bounds(3) by (intro mult_right_mono add_mono) auto
  also have "\<dots> \<le> foldl dadd a (x # xs)" using Cons.IH [of "dadd a x"] Cons.prems dadd_nonneg [of a x] by simp
  finally show ?case .
qed simp

lemma dsum_lower: "\<forall>x\<in>set xs. 0 \<le> x \<Longrightarrow> sum_list xs * kept ^ length xs \<le> dsum xs"
  using foldl_dadd_lower [of 0 xs] by (simp add: dsum_def)

lemma kept_power_mono: "m \<le> n \<Longrightarrow> 0 \<le> x \<Longrightarrow> x * kept ^ n \<le> x * kept ^ m"
  by (intro mult_left_mono power_decreasing) (simp_all add: kept_bounds)

section \<open>Residuals\<close>

lemma rhe_even:
  assumes "\<bar>y - of_int k\<bar> \<le> 1/2" and "even k"
  shows "round_half_even y = k"
proof -
  have b: "of_int k - 1/2 \<le> y" "y \<le> of_int k + 1/2" using assms(1) by linarith+
  consider "of_int k \<le> y" | "y < of_int k" by linarith
  then show ?thesis
  proof cases
    case 1
    then have "\<lfloor>y\<rfloor> = k" using b by linarith
    then show ?thesis using b assms(2) by (auto simp: round_half_even_def Let_def)
  next
    case 2
    then have f: "\<lfloor>y\<rfloor> = k - 1" using b by linarith
    then have "y - of_int \<lfloor>y\<rfloor> \<ge> 1/2" using b by simp
    then show ?thesis using f assms(2) by (auto simp: round_half_even_def Let_def)
  qed
qed

lemma quantum_step: "10 powi (L - 27) = 10 * (10 powi (L - 28) :: rat)"
  using powi_nat_add [of 10 1 "L - 28"] by (simp add: algebra_simps)

lemma rnd_near:
  assumes x: "lead 10 x = L" and k: "even k"
    and near: "\<bar>x - of_int k * 10 powi (L - 28)\<bar> \<le> 10 powi (L - 28) / 2"
  shows "rnd 10 28 x = of_int k * 10 powi (L - 28)"
proof -
  let ?u = "10 powi (L - 28) :: rat"
  have u: "0 < ?u" by simp
  have "x / ?u - of_int k = (x - of_int k * ?u) / ?u" using u by (simp add: field_simps)
  then have "\<bar>x / ?u - of_int k\<bar> = \<bar>x - of_int k * ?u\<bar> / ?u" using u by simp
  also have "\<dots> \<le> (?u / 2) / ?u" using near u by (intro divide_right_mono) auto
  finally have "\<bar>x / ?u - of_int k\<bar> \<le> 1/2" using u by simp
  then have "round_half_even (x / ?u) = k" using k by (rule rhe_even)
  then show ?thesis by (simp add: rnd_quantum quantum_def x)
qed

lemma rnd_residual:
  assumes f: "representable 10 27 f" and t: "0 < t" "t < f"
  shows "rnd 10 28 (t + rnd 10 28 (f - t)) = f"
proof -
  let ?L = "lead 10 f" let ?u = "10 powi (lead 10 f - 28) :: rat"
  let ?d = "f - t" let ?x = "t + rnd 10 28 (f - t)"
  have u: "0 < ?u" by simp
  have f0: "0 < f" and d0: "0 < ?d" "?d \<le> f" using t by auto
  define m where "m = round_half_even (f / quantum 10 27 f)"
  have "rnd 10 27 f = f" by (rule rnd_exact) (use f in auto)
  then have fm: "f = of_int (10 * m) * ?u"
    unfolding m_def rnd_quantum by (simp add: quantum_def quantum_step)
  have L: "10 powi (?L - 1) \<le> f" "f < 10 powi ?L" using lead_bounds [of 10 f] f0 by auto
  have p1: "10 powi (?L - 1) = 10 ^ 27 * ?u" using powi_nat_add [of 10 27 "?L - 28"] by simp
  have p0: "10 powi ?L = 10 ^ 28 * ?u" using powi_nat_add [of 10 28 "?L - 28"] by simp
  have mlo: "10 ^ 26 \<le> m"
  proof -
    have "10 ^ 27 * ?u \<le> of_int (10 * m) * ?u" using L(1) unfolding p1 fm [symmetric] .
    then have "(10 ^ 27 :: rat) \<le> of_int (10 * m)" using u mult_le_cancel_right_pos by blast
    then show ?thesis by simp
  qed
  have mhi: "m \<le> 10 ^ 27 - 1"
  proof -
    have "of_int (10 * m) < (10 ^ 28 :: rat)" using L(2) u unfolding p0 by (metis fm mult_less_cancel_right_pos)
    then show ?thesis by simp
  qed
  have err: "\<bar>?x - f\<bar> \<le> 10 powi (lead 10 ?d - 28) / 2"
    using rnd_error [of 10 28 ?d] by (simp add: quantum_def algebra_simps)
  have lead_le: "lead 10 ?d \<le> ?L" by (rule lead_mono) (use d0 f0 in auto)
  have "10 powi (lead 10 ?d - 28) \<le> ?u" by (rule power_int_increasing) (use lead_le in auto)
  then have err': "\<bar>?x - f\<bar> \<le> ?u / 2" using err by linarith
  have hi: "?x < 10 powi ?L"
  proof -
    have "of_int (10 * m) \<le> (10 ^ 28 - 10 :: rat)" using mhi by simp
    then have "f \<le> (10 ^ 28 - 10) * ?u" using fm u by (metis mult_right_mono order_less_imp_le)
    then have "f \<le> 10 ^ 28 * ?u - 10 * ?u" by (simp only: left_diff_distrib)
    then show ?thesis using err' u unfolding p0 by linarith
  qed
  show ?thesis
  proof (cases "10 powi (?L - 1) \<le> ?x")
    case True
    moreover have "0 < (10 :: rat) powi (?L - 1)" by simp
    ultimately have pos: "0 < ?x" by (rule order_less_le_trans [rotated])
    have "lead 10 ?x = ?L" by (rule lead_unique) (use True hi pos in auto)
    from rnd_near [OF this, of "10 * m"] show ?thesis using err' fm by simp
  next
    case False
    have m: "m = 10 ^ 26"
    proof (rule ccontr)
      assume "m \<noteq> 10 ^ 26"
      then have "10 ^ 27 + 10 \<le> (of_int (10 * m) :: rat)" using mlo by simp
      then have "(10 ^ 27 + 10) * ?u \<le> f" using fm u by (metis mult_right_mono order_less_imp_le)
      then show False using False err' u unfolding p1 by (simp add: algebra_simps)
    qed
    have fL: "f = 10 powi (?L - 1)" unfolding p1 using fm m by simp
    have "?d < 10 powi (?L - 1)" using t fL by simp
    then have "lead 10 ?d - 1 < ?L - 1"
      using lead_bounds [of 10 ?d] d0 powi_le_imp [of 10 "lead 10 ?d - 1" "?L - 1"] by fastforce
    then have "10 powi (lead 10 ?d - 28) \<le> (10 powi (?L - 1 - 28) :: rat)" by (intro power_int_increasing) auto
    then have e: "\<bar>?x - f\<bar> \<le> 10 powi (?L - 1 - 28) / 2" using err by linarith
    have v: "10 powi (?L - 1) = 10 ^ 28 * (10 powi (?L - 1 - 28) :: rat)"
      "10 powi (?L - 1 - 1) = 10 ^ 27 * (10 powi (?L - 1 - 28) :: rat)"
      using powi_nat_add [of 10 28 "?L - 1 - 28"] powi_nat_add [of 10 27 "?L - 1 - 28"] by simp_all
    have v0: "(0::rat) < 10 powi (?L - 1 - 28)" by simp
    have "10 ^ 27 * y \<le> 10 ^ 28 * y - y / 2" if "0 < y" for y :: rat using that by simp
    from this [OF v0] have lo: "10 powi (?L - 1 - 1) \<le> ?x" using e fL unfolding v by linarith
    moreover have "0 < (10 :: rat) powi (?L - 1 - 1)" by simp
    ultimately have "0 < ?x" by (rule order_less_le_trans [rotated])
    then have "lead 10 ?x = ?L - 1" by (intro lead_unique) (use lo False in auto)
    from rnd_near [OF this, of "10 ^ 28"] show ?thesis using e fL v(1) by simp
  qed
qed

text \<open>
  A total of at most 27 digits split into a part and the rounded rest is recovered exactly when the
  two are added again.
\<close>

definition dec27 :: "rat \<Rightarrow> bool" where
  "dec27 x \<longleftrightarrow> rnd 10 27 x = x"

lemma dec27_representable: "dec27 x \<Longrightarrow> representable 10 27 x"
  using representable_rnd [of 10 27 x] by (simp add: dec27_def)

lemma dec27_dec28: "dec27 x \<Longrightarrow> dec28 x"
proof -
  assume "dec27 x"
  then obtain c k where "x = of_int c * of_int 10 powi k" "\<bar>c\<bar> < 10 ^ 27"
    using dec27_representable unfolding representable_def by blast
  then show "dec28 x" by (intro dec28I) auto
qed

lemma dadd_residual:
  assumes "dec27 f" "dec28 t" "0 \<le> t" "t \<le> f"
  shows "dadd t (dsub f t) = f"
proof -
  consider "t = 0" | "t = f" | "0 < t" "t < f" using assms by linarith
  then show ?thesis
  proof cases
    case 3
    then show ?thesis
      using rnd_residual [OF dec27_representable [OF assms(1)]] by (simp add: dadd_def dsub_def dec_ctx_def)
  qed (use dec27_dec28 [OF assms(1)] in \<open>simp_all add: dsub_0 dadd_0\<close>)
qed

lemma dadd_residual_le:
  assumes "dec27 f" "dec28 t" "0 \<le> t" "t \<le> f" "r \<le> dsub f t"
  shows "dadd t r \<le> f"
proof -
  have "dadd t r \<le> dadd t (dsub f t)" unfolding dadd_def using assms(5) by (intro dctx.rd_mono) simp
  then show ?thesis using dadd_residual [OF assms(1-4)] by simp
qed

section \<open>Evaluation\<close>

text \<open>Code equations that evaluate the rounding in few divisions of large numbers.\<close>

lemma ndigits_code [code]:
  "ndigits b n = (if b < 2 \<or> n \<le> 0 then 0
     else let c = b ^ 8 in if c \<le> n then 8 + ndigits b (n div c) else Suc (ndigits b (n div b)))"
proof -
  have step: "ndigits b n = Suc (ndigits b (n div b))" if "2 \<le> b" "0 < n" for n
    using that by (subst ndigits.simps) simp
  have many: "ndigits b n = k + ndigits b (n div b ^ k)" if "2 \<le> b" "b ^ k \<le> n" for k
    using that(2)
  proof (induction k)
    case (Suc k)
    have p: "0 < b ^ k" "b ^ k \<le> b ^ Suc k" using that(1) by (auto intro: power_increasing)
    then have "b ^ k \<le> n" using Suc.prems by linarith
    moreover have "0 < n div b ^ k" using p calculation by (simp add: pos_imp_zdiv_pos_iff)
    moreover have "n div b ^ k div b = n div b ^ Suc k"
      using zdiv_zmult2_eq [of b n "b ^ k"] that(1) by (simp add: mult.commute)
    ultimately show ?case using Suc.IH step [OF that(1), of "n div b ^ k"] by simp
  qed simp
  show ?thesis
  proof (cases "b < 2 \<or> n \<le> 0")
    case True
    then show ?thesis by (simp add: ndigits.simps [of b n])
  next
    case False
    then have "ndigits b n = Suc (ndigits b (n div b))" and "b ^ 8 \<le> n \<Longrightarrow> ndigits b n = 8 + ndigits b (n div b ^ 8)"
      using step [of n] many [of 8] by auto
    then show ?thesis using False by (simp only: Let_def if_False split: if_split) blast
  qed
qed

definition rhe_with :: "int \<Rightarrow> rat \<Rightarrow> int" where
  "rhe_with f r = (if r < 1/2 then f else if r > 1/2 then f + 1 else if even f then f else f + 1)"

definition rhe_split :: "int \<Rightarrow> rat \<Rightarrow> int" where
  "rhe_split f q = rhe_with f (q - of_int f)"

lemma rhe_code [code]: "round_half_even q = rhe_split \<lfloor>q\<rfloor> q"
  by (simp add: round_half_even_def rhe_split_def rhe_with_def Let_def)

definition rnd_with :: "rat \<Rightarrow> rat \<Rightarrow> rat" where
  "rnd_with s x = of_int (round_half_even (x / s)) * s"

definition rat_powi :: "int \<Rightarrow> int \<Rightarrow> rat" where
  "rat_powi b k = (if 0 \<le> k then of_int (b ^ nat k) else 1 / of_int (b ^ nat (- k)))"

lemma rat_powi: "of_int b powi k = rat_powi b k"
  by (simp add: rat_powi_def power_int_def field_simps)

lemma rnd_code [code]: "rnd b p x = (if x = 0 then 0 else rnd_with (rat_powi b (lead b x - int p)) x)"
  by (simp add: rnd_def rnd_with_def Let_def rat_powi)

definition lead_with :: "int \<Rightarrow> rat \<Rightarrow> int \<Rightarrow> int" where
  "lead_with b y t = (if rat_powi b t \<le> y then t + 1 else t)"

definition lead_of :: "int \<Rightarrow> rat \<Rightarrow> int \<times> int \<Rightarrow> int" where
  "lead_of b y nd = lead_with b y (int (ndigits b (fst nd)) - int (ndigits b (snd nd)))"

lemma lead_code [code]: "lead b x = lead_of b \<bar>x\<bar> (quotient_of \<bar>x\<bar>)"
  by (simp add: lead_def lead_of_def lead_with_def Let_def rat_powi)

text \<open>A number with at most twelve digits before and after the point is not rounded.\<close>

lemma dec_ctx_code [code]:
  "dec_ctx x = (case quotient_of x of (n, d) \<Rightarrow>
     if \<bar>n\<bar> < 1000000000000 \<and> 1000000000000 mod d = 0 then x else rnd 10 28 x)"
proof (cases "quotient_of x")
  case (Pair n d)
  have d: "0 < d" "x = of_int n / of_int d" using quotient_of_denom_pos [OF Pair] quotient_of_div [OF Pair] by auto
  have "dec_ctx x = x" if n: "\<bar>n\<bar> < 1000000000000" and m: "1000000000000 mod d = 0"
  proof -
    obtain e where e: "1000000000000 = d * e" using m by (auto simp: mod_eq_0_iff_dvd dvd_def)
    have e0: "0 < e" using e d(1) by (metis zero_less_mult_pos zero_less_numeral)
    have "1 * e \<le> d * e" using d(1) e0 by (intro mult_right_mono) auto
    then have "e \<le> 1000000000000" using e by simp
    then have "\<bar>n\<bar> * e \<le> \<bar>n\<bar> * 1000000000000" by (rule mult_left_mono) simp
    then have "\<bar>n * e\<bar> \<le> \<bar>n\<bar> * 1000000000000" using e0 by (simp add: abs_mult)
    then have "\<bar>n * e\<bar> < 10 ^ 28" using n by simp
    moreover have "x = of_int (n * e) * 10 powi (-12)"
    proof -
      have "(of_int d * of_int e :: rat) = 1000000000000" by (metis e of_int_mult of_int_numeral)
      moreover have "x = of_int n * of_int e / (of_int d * of_int e)" using e0 by (simp add: d(2))
      ultimately have "x = of_int n * of_int e / 1000000000000" by simp
      then show ?thesis by (simp add: power_int_def power_one_over)
    qed
    ultimately show ?thesis using dec28I unfolding dec28_def by blast
  qed
  then show ?thesis by (simp add: Pair dec_ctx_def)
qed

end
