(* ===== verification/Py_Value.thy ===== *)
theory Py_Value
  imports Py_Decimal
begin

text \<open>
  The dynamic values of the program: what a row of the database, a JSON payload or a configuration
  holds. A decimal is finite with its value, infinite or a (quiet) NaN. A binary float is carried
  by the decimal its \<open>repr\<close> denotes, because the program turns floats into decimals through
  \<open>Decimal(str(x))\<close> only. Then the decimal text of a value (\<open>format(x, "f")\<close> without trailing
  zeros) and the constructor \<open>Decimal(text)\<close>, with their round trip.
\<close>

datatype pydec = Fin rat | Inf bool | NaN

datatype pyval =
    PyNone
  | PyBool bool
  | PyInt int
  | PyFloat pydec
  | PyDec pydec
  | PyStr string

text \<open>\<open>value in (None, "")\<close>\<close>

definition blank :: "pyval \<Rightarrow> bool" where
  "blank v \<longleftrightarrow> v = PyNone \<or> v = PyStr []"

text \<open>The truth value of a value.\<close>

fun truthy :: "pyval \<Rightarrow> bool" where
  "truthy PyNone = False"
| "truthy (PyBool b) = b"
| "truthy (PyInt n) = (n \<noteq> 0)"
| "truthy (PyFloat d) = (d \<noteq> Fin 0)"
| "truthy (PyDec d) = (d \<noteq> Fin 0)"
| "truthy (PyStr s) = (s \<noteq> [])"

fun is_finite :: "pydec \<Rightarrow> bool" where
  "is_finite (Fin x) = True"
| "is_finite _ = False"

section \<open>Digits as text\<close>

definition digit_char :: "int \<Rightarrow> char" where
  "digit_char d = char_of (48 + nat d)"

definition digit_val :: "char \<Rightarrow> int" where
  "digit_val c = int (of_char c) - 48"

definition is_digit :: "char \<Rightarrow> bool" where
  "is_digit c = (let n = (of_char c :: nat) in 48 \<le> n \<and> n \<le> 57)"

function digits_of :: "int \<Rightarrow> string" where
  "digits_of n = (if n < 10 then [digit_char n] else digits_of (n div 10) @ [digit_char (n mod 10)])"
  by pat_completeness auto
termination
  by (relation "measure nat") (auto simp: int_div_less_self)

declare digits_of.simps [simp del]

definition digits_val :: "string \<Rightarrow> int" where
  "digits_val s = foldl (\<lambda>a c. 10 * a + digit_val c) 0 s"

lemma is_digit_char: "0 \<le> d \<Longrightarrow> d < 10 \<Longrightarrow> is_digit (digit_char d)"
  by (simp add: is_digit_def digit_char_def Let_def)

lemma digit_val_char: "0 \<le> d \<Longrightarrow> d < 10 \<Longrightarrow> digit_val (digit_char d) = d"
  by (simp add: digit_val_def digit_char_def)

lemma digits_val_snoc: "digits_val (s @ [c]) = 10 * digits_val s + digit_val c"
  by (simp add: digits_val_def)

lemma digits_of_digit: "0 \<le> n \<Longrightarrow> c \<in> set (digits_of n) \<Longrightarrow> is_digit c"
proof (induction n rule: digits_of.induct)
  case (1 n)
  then show ?case
    by (subst (asm) (2) digits_of.simps) (auto split: if_splits intro: is_digit_char)
qed

lemma digits_of_val: "0 \<le> n \<Longrightarrow> digits_val (digits_of n) = n"
proof (induction n rule: digits_of.induct)
  case (1 n)
  then show ?case
    by (subst digits_of.simps)
      (auto simp: digits_val_snoc digit_val_char simp: digits_val_def [of "[_]"])
qed

lemma digits_of_nonempty: "digits_of n \<noteq> []"
  by (subst digits_of.simps) simp

lemma digits_val_zeros: "digits_val (replicate k (CHR ''0'') @ s) = digits_val s"
  by (induction k) (auto simp: digits_val_def digit_val_def)

definition four_digits :: "int \<Rightarrow> string" where
  "four_digits r = map digit_char [r div 10 div 10 div 10, r div 10 div 10 mod 10, r div 10 mod 10, r mod 10]"

definition digits_by_four :: "int \<Rightarrow> int \<Rightarrow> string" where
  "digits_by_four n q = digits_of q @ four_digits (n - 10000 * q)"

lemma digits_of_code [code]:
  "digits_of n = (if n < 10 then [digit_char n] else if n < 10000 then digits_of (n div 10) @ [digit_char (n mod 10)]
     else digits_by_four n (n div 10000))"
proof -
  have step: "digits_of m = digits_of (m div 10) @ [digit_char (m mod 10)]" if "10 \<le> m" for m
    using that by (subst digits_of.simps) simp
  have shift: "digits_of (10 * k + r) = digits_of (k + r div 10) @ [digit_char (r mod 10)]" if "0 < k" "0 \<le> r" for k r
    using that step [of "10 * k + r"] by simp
  have four: "digits_of (10000 * q + r) = digits_of q @ four_digits r" if q: "0 < q" and r: "0 \<le> r" "r < 10000" for q r
  proof -
    have z: "r div 10 div 10 div 10 div 10 = 0" using r by simp
    have "digits_of (10 * (1000 * q) + r) = digits_of (10 * (100 * q) + r div 10) @ [digit_char (r mod 10)]"
      using q r shift [of "1000 * q" r] by simp
    also have "digits_of (10 * (100 * q) + r div 10)
        = digits_of (10 * (10 * q) + r div 10 div 10) @ [digit_char (r div 10 mod 10)]"
      using q r shift [of "100 * q" "r div 10"] by simp
    also have "digits_of (10 * (10 * q) + r div 10 div 10)
        = digits_of (10 * q + r div 10 div 10 div 10) @ [digit_char (r div 10 div 10 mod 10)]"
      using q r shift [of "10 * q" "r div 10 div 10"] by simp
    also have "digits_of (10 * q + r div 10 div 10 div 10) = digits_of q @ [digit_char (r div 10 div 10 div 10)]"
      using q r z shift [of q "r div 10 div 10 div 10"] by simp
    finally show ?thesis by (simp add: four_digits_def)
  qed
  have "digits_of n = digits_by_four n (n div 10000)" if "10000 \<le> n"
    using four [of "n div 10000" "n - 10000 * (n div 10000)"] that
    by (simp add: digits_by_four_def pos_imp_zdiv_pos_iff minus_mult_div_eq_mod)
  moreover have "digits_of n = [digit_char n]" if "n < 10" using that by (simp add: digits_of.simps [of n])
  ultimately show ?thesis using step [of n] by (auto simp del: digits_by_four_def)
qed

section \<open>Decimal text\<close>

function frac_digits :: "int \<Rightarrow> nat" where
  "frac_digits d = (if d \<le> 1 then 0
     else if d mod 10 = 0 then Suc (frac_digits (d div 10))
     else if d mod 2 = 0 then Suc (frac_digits (d div 2))
     else if d mod 5 = 0 then Suc (frac_digits (d div 5)) else 0)"
  by pat_completeness auto
termination
  by (relation "measure nat") (auto simp: int_div_less_self)

declare frac_digits.simps [simp del]

text \<open>A finite decimal is a rational whose denominator divides a power of ten.\<close>

definition is_decimal :: "rat \<Rightarrow> bool" where
  "is_decimal x \<longleftrightarrow> (\<exists>k. snd (quotient_of x) dvd 10 ^ k)"

lemma coprime_5: "d mod 5 \<noteq> 0 \<Longrightarrow> coprime d 5"
  for d :: int
proof -
  assume "d mod 5 \<noteq> 0"
  moreover have "0 \<le> d mod 5" "d mod 5 < 5" by simp_all
  ultimately consider "d mod 5 = 1" | "d mod 5 = 2" | "d mod 5 = 3" | "d mod 5 = 4" by linarith
  then have "gcd 5 (d mod 5) = 1" by cases (simp_all add: gcd_non_0_int)
  then show ?thesis by (simp add: coprime_iff_gcd_eq_1 gcd.commute gcd_non_0_int)
qed

lemma frac_digits_dvd: "0 < d \<Longrightarrow> d dvd 10 ^ k \<Longrightarrow> d dvd 10 ^ frac_digits d"
proof (induction d arbitrary: k rule: frac_digits.induct)
  case (1 d)
  have step: "d dvd 10 ^ Suc (frac_digits (d div m))"
    if m: "d mod m = 0" "m dvd 10" "1 < m" and IH: "(d div m) dvd 10 ^ frac_digits (d div m)" for m
  proof -
    have "d = m * (d div m)" using m by auto
    also have "\<dots> dvd 10 * 10 ^ frac_digits (d div m)" using m IH by (rule_tac mult_dvd_mono)
    finally show ?thesis by simp
  qed
  have sub: "0 < d div m \<and> (d div m) dvd 10 ^ k" if "d mod m = 0" "1 < m" for m
  proof
    have d: "d = m * (d div m)" using that by auto
    then show "0 < d div m" using "1.prems"(1) that by (metis mult_less_0_iff not_less_iff_gr_or_eq mult_zero_right zero_less_mult_pos order.strict_trans zero_less_one)
    show "(d div m) dvd 10 ^ k" using d "1.prems"(2) by (metis dvd_mult_right)
  qed
  show ?case
  proof (cases "d \<le> 1")
    case True
    then have "d = 1" using "1.prems" by simp
    then show ?thesis by simp
  next
    case big: False
    consider "d mod 10 = 0" | "d mod 10 \<noteq> 0" "d mod 2 = 0" | "d mod 10 \<noteq> 0" "d mod 2 \<noteq> 0" "d mod 5 = 0"
      | "d mod 2 \<noteq> 0" "d mod 5 \<noteq> 0" by blast
    then show ?thesis
    proof cases
      case 1
      then have s: "0 < d div 10" "d div 10 dvd 10 ^ k" using sub [of 10] by auto
      have "d div 10 dvd 10 ^ frac_digits (d div 10)"
        by (rule "1.IH"(1) [OF _ _ s]) (use big 1 in auto)
      then have "d dvd 10 ^ Suc (frac_digits (d div 10))" by (intro step) (use 1 in auto)
      with 1 big show ?thesis by (simp add: frac_digits.simps [of d])
    next
      case 2
      then have s: "0 < d div 2" "d div 2 dvd 10 ^ k" using sub [of 2] by auto
      have "d div 2 dvd 10 ^ frac_digits (d div 2)"
        by (rule "1.IH"(2) [OF _ _ _ s]) (use big 2 in auto)
      then have "d dvd 10 ^ Suc (frac_digits (d div 2))" by (intro step) (use 2 in auto)
      with 2 big show ?thesis by (simp add: frac_digits.simps [of d])
    next
      case 3
      then have s: "0 < d div 5" "d div 5 dvd 10 ^ k" using sub [of 5] by auto
      have "d div 5 dvd 10 ^ frac_digits (d div 5)"
        by (rule "1.IH"(3) [OF _ _ _ _ s]) (use big 3 in auto)
      then have "d dvd 10 ^ Suc (frac_digits (d div 5))" by (intro step) (use 3 in auto)
      with 3 big show ?thesis by (simp add: frac_digits.simps [of d])
    next
      case 4
      have "coprime d 2" using 4 by (simp add: coprime_right_2_iff_odd even_iff_mod_2_eq_zero)
      moreover have "coprime d 5" using 4 by (intro coprime_5)
      ultimately have "coprime d (2 * 5)" by (simp only: coprime_mult_right_iff)
      then have "coprime d (10 ^ k)" by simp
      then have "d dvd 1" using "1.prems"(2) by (metis coprime_common_divisor dvd_refl)
      then show ?thesis using big "1.prems"(1) by simp
    qed
  qed
qed


lemma is_decimalI:
  assumes x: "x = of_int c * 10 powi k"
  shows "is_decimal x"
proof -
  obtain n d where q: "quotient_of x = (n, d)" by fastforce
  have d: "0 < d" and cp: "coprime n d" and xq: "x = of_int n / of_int d"
    using quotient_of_denom_pos [OF q] quotient_of_coprime [OF q] quotient_of_div [OF q] by auto
  obtain j and c' :: int where j: "x * 10 ^ j = of_int c'"
  proof (cases "0 \<le> k")
    case True
    then have "x * 10 ^ 0 = of_int (c * 10 ^ nat k)" using x by (simp add: power_int_def)
    then show ?thesis using that by blast
  next
    case False
    moreover have "(1 / 10) ^ nat (- k) * 10 ^ nat (- k) = (1 :: rat)" by (simp flip: power_mult_distrib)
    ultimately have "x * 10 ^ nat (- k) = of_int c" using x by (simp add: power_int_def)
    then show ?thesis using that by blast
  qed
  have "of_int n * 10 ^ j = of_int c' * (of_int d :: rat)"
    using j xq d by (simp add: field_simps)
  then have "of_int (n * 10 ^ j) = (of_int (c' * d) :: rat)" by simp
  then have "n * 10 ^ j = c' * d" by (simp only: of_int_eq_iff)
  then have "d dvd n * 10 ^ j" by simp
  then have "d dvd 10 ^ j" using cp by (simp add: coprime_commute coprime_dvd_mult_right_iff)
  then show ?thesis by (auto simp: is_decimal_def q)
qed

lemma is_decimal_dec28: "dec28 x \<Longrightarrow> is_decimal x"
proof -
  assume "dec28 x"
  then have "representable 10 28 x"
    using representable_rnd [of 10 28 x] by (simp add: dec28_def dec_ctx_def)
  then show ?thesis by (auto simp: representable_def intro: is_decimalI)
qed

definition dec_text :: "rat \<Rightarrow> string" where
  "dec_text x = (if x = 0 then ''0'' else
     let nd = quotient_of x; k = frac_digits (snd nd);
         ds = digits_of (\<bar>fst nd\<bar> * (10 ^ k div snd nd));
         ps = replicate (Suc k - length ds) (CHR ''0'') @ ds; i = length ps - k;
         body = (if k = 0 then ds else take i ps @ ''.'' @ drop i ps)
     in if fst nd < 0 then ''-'' @ body else body)"

text \<open>The text is the sign, the integer digits and, unless it is an integer, the fraction.\<close>

lemma dec_text_shape:
  assumes "is_decimal x"
  obtains I F where "dec_text x = (if x < 0 then ''-'' else []) @ I @ (if F = [] then [] else CHR ''.'' # F)"
    and "I \<noteq> []" and "\<And>c. c \<in> set (I @ F) \<Longrightarrow> is_digit c"
    and "\<bar>x\<bar> = of_int (digits_val (I @ F)) * 10 powi (- int (length F))"
proof (cases "x = 0")
  case True
  show ?thesis
    by (rule that [of "''0''" "[]"])
      (simp_all add: dec_text_def True is_digit_def digits_val_def digit_val_def)
next
  case False
  obtain n d where q: "quotient_of x = (n, d)" by fastforce
  have d: "0 < d" and xq: "x = of_int n / of_int d"
    using quotient_of_denom_pos [OF q] quotient_of_div [OF q] by auto
  define k where "k = frac_digits d"
  define m where "m = \<bar>n\<bar> * (10 ^ k div d)"
  define ds where "ds = digits_of m"
  define ps where "ps = replicate (Suc k - length ds) (CHR ''0'') @ ds"
  define i where "i = length ps - k"
  have dv: "d dvd 10 ^ k" using assms d frac_digits_dvd by (auto simp: is_decimal_def q k_def)
  have m0: "0 \<le> m" using d by (simp add: m_def pos_imp_zdiv_nonneg_iff)
  have dig: "is_digit c" if "c \<in> set ps" for c
    using that digits_of_digit [OF m0] by (auto simp: ps_def ds_def is_digit_def split: if_splits)
  have val: "digits_val ps = m" by (simp add: ps_def digits_val_zeros ds_def digits_of_val [OF m0])
  have len: "k < length ps" by (simp add: ps_def)
  have "(of_int (10 ^ k div d) :: rat) = 10 ^ k / of_int d"
    using dv by (simp add: of_int_div)
  then have "of_int m = \<bar>x\<bar> * 10 ^ k" using d by (simp add: m_def xq abs_mult)
  then have absx: "\<bar>x\<bar> = of_int m * 10 powi (- int k)" by (simp add: power_int_minus field_simps)
  have sgn: "n < 0 \<longleftrightarrow> x < 0" using d by (simp add: xq divide_less_0_iff)
  have split: "take i ps @ drop i ps = ps" by simp
  have dsps: "k = 0 \<Longrightarrow> ds = ps"
  proof -
    assume "k = 0"
    moreover have "0 < length ds" using digits_of_nonempty [of m] by (simp add: ds_def)
    ultimately show ?thesis by (cases "length ds") (auto simp: ps_def)
  qed
  show ?thesis
  proof (rule that [of "take i ps" "drop i ps"])
    show "dec_text x = (if x < 0 then ''-'' else []) @ take i ps @
        (if drop i ps = [] then [] else CHR ''.'' # drop i ps)"
    proof -
      have "dec_text x = (if n < 0 then ''-'' @ (if k = 0 then ds else take i ps @ ''.'' @ drop i ps)
          else (if k = 0 then ds else take i ps @ ''.'' @ drop i ps))"
        unfolding i_def ps_def ds_def m_def k_def
        by (simp only: dec_text_def q False Let_def fst_conv snd_conv if_False)
      then show ?thesis using dsps len by (auto simp: sgn i_def)
    qed
    show "take i ps \<noteq> []" using len by (auto simp: i_def)
    show "is_digit c" if "c \<in> set (take i ps @ drop i ps)" for c using that dig by simp
    have "length (drop i ps) = k" using len by (simp add: i_def)
    then show "\<bar>x\<bar> = of_int (digits_val (take i ps @ drop i ps)) * 10 powi - int (length (drop i ps))"
      using absx val by (simp only: split)
  qed
qed

section \<open>The constructor \<open>Decimal(text)\<close>\<close>

fun parse_sign :: "string \<Rightarrow> bool \<times> string" where
  "parse_sign [] = (False, [])"
| "parse_sign (c # s) =
     (if c = CHR ''-'' then (True, s) else if c = CHR ''+'' then (False, s) else (False, c # s))"

fun parse_exponent :: "string \<Rightarrow> int option" where
  "parse_exponent [] = Some 0"
| "parse_exponent (c # s) = (if c = CHR ''e'' \<or> c = CHR ''E'' then
     let ns = parse_sign s; ds = snd ns
     in if ds \<noteq> [] \<and> list_all is_digit ds then Some (if fst ns then - digits_val ds else digits_val ds)
        else None
     else None)"

definition parse_unsigned :: "string \<Rightarrow> rat option" where
  "parse_unsigned s = (let ip = takeWhile is_digit s; r = dropWhile is_digit s;
       fp = (case r of [] \<Rightarrow> [] | c # t \<Rightarrow> if c = CHR ''.'' then takeWhile is_digit t else []);
       r' = (case r of [] \<Rightarrow> [] | c # t \<Rightarrow> if c = CHR ''.'' then dropWhile is_digit t else r)
     in if ip = [] \<and> fp = [] then None
        else map_option (\<lambda>e. of_int (digits_val (ip @ fp)) * 10 powi (e - int (length fp))) (parse_exponent r'))"

definition is_nan_text :: "string \<Rightarrow> bool" where
  "is_nan_text s \<longleftrightarrow> (starts_with ''nan'' s \<and> list_all is_digit (drop 3 s))
     \<or> (starts_with ''snan'' s \<and> list_all is_digit (drop 4 s))"

definition parse_decimal :: "string \<Rightarrow> pydec option" where
  "parse_decimal s = (let ns = parse_sign (filter (\<lambda>c. c \<noteq> CHR ''_'') (strip s)); b = snd ns; l = lower b
     in if l = ''inf'' \<or> l = ''infinity'' then Some (Inf (fst ns))
        else if is_nan_text l then Some NaN
        else map_option (\<lambda>x. Fin (if fst ns then - x else x)) (parse_unsigned b))"

lemma strip_id: "(\<And>c. c \<in> set s \<Longrightarrow> \<not> is_space c) \<Longrightarrow> strip s = s"
proof -
  assume a: "\<And>c. c \<in> set s \<Longrightarrow> \<not> is_space c"
  have "dropWhile is_space t = t" if "set t \<subseteq> set s" for t
    using that a by (cases t) auto
  then show ?thesis by (simp add: strip_def)
qed

lemma digit_props:
  assumes "is_digit c"
  shows "\<not> is_space c" "c \<noteq> CHR ''_''" "c \<noteq> CHR ''-''" "c \<noteq> CHR ''+''" "c \<noteq> CHR ''.''"
    "lower_char c = c" "c \<noteq> CHR ''i''" "c \<noteq> CHR ''n''" "c \<noteq> CHR ''s''"
proof -
  have d: "48 \<le> (of_char c :: nat)" "(of_char c :: nat) \<le> 57" using assms by (simp_all add: is_digit_def Let_def)
  then show "lower_char c = c" by (intro lower_char_other) linarith
qed (use assms in \<open>auto simp: is_digit_def is_space_def Let_def\<close>)

lemma parse_unsigned_digits:
  assumes "\<And>c. c \<in> set (I @ F) \<Longrightarrow> is_digit c" and "I \<noteq> []"
  shows "parse_unsigned (I @ (if F = [] then [] else CHR ''.'' # F))
    = Some (of_int (digits_val (I @ F)) * 10 powi (- int (length F)))"
proof -
  have dot: "\<not> is_digit (CHR ''.'')" by (simp add: is_digit_def)
  have I: "takeWhile is_digit I = I" "dropWhile is_digit I = []"
    and F: "takeWhile is_digit F = F" "dropWhile is_digit F = []"
    using assms(1) by (simp_all add: takeWhile_eq_all_conv)
  have tw: "takeWhile is_digit (I @ CHR ''.'' # F) = I" "dropWhile is_digit (I @ CHR ''.'' # F) = CHR ''.'' # F"
    using assms(1) dot by simp_all
  show ?thesis
  proof (cases "F = []")
    case True
    then show ?thesis using assms(2) by (simp add: parse_unsigned_def I)
  next
    case False
    then show ?thesis using assms(2) by (simp add: parse_unsigned_def Let_def tw F)
  qed
qed

lemma dec_text_chars:
  assumes "is_decimal x" and "c \<in> set (dec_text x)"
  shows "is_digit c \<or> c = CHR ''.'' \<or> c = CHR ''-''"
proof -
  obtain I F where
    shape: "dec_text x = (if x < 0 then ''-'' else []) @ I @ (if F = [] then [] else CHR ''.'' # F)"
    and dig: "\<And>c. c \<in> set (I @ F) \<Longrightarrow> is_digit c"
    by (rule dec_text_shape [OF assms(1)]) blast
  show ?thesis using assms(2) dig by (auto simp: shape split: if_splits)
qed

lemma dec_text_nospace:
  assumes "is_decimal x" and "c \<in> set (dec_text x)"
  shows "\<not> is_space c \<and> c \<noteq> CHR ''_''"
proof -
  have "\<not> is_space (CHR ''.'')" "\<not> is_space (CHR ''-'')" by (simp_all add: is_space_def)
  then show ?thesis using dec_text_chars [OF assms] digit_props(1,2) by auto
qed

lemma strip_dec_text: "is_decimal x \<Longrightarrow> strip (dec_text x) = dec_text x"
  using dec_text_nospace by (blast intro: strip_id)

text \<open>Reading a decimal's text back gives the decimal.\<close>

lemma parse_dec_text:
  assumes "is_decimal x"
  shows "parse_decimal (dec_text x) = Some (Fin x)"
proof -
  obtain I F where
    shape: "dec_text x = (if x < 0 then ''-'' else []) @ I @ (if F = [] then [] else CHR ''.'' # F)"
    and I: "I \<noteq> []" and dig: "\<And>c. c \<in> set (I @ F) \<Longrightarrow> is_digit c"
    and val: "\<bar>x\<bar> = of_int (digits_val (I @ F)) * 10 powi (- int (length F))"
    by (rule dec_text_shape [OF assms]) blast
  define b where "b = I @ (if F = [] then [] else CHR ''.'' # F)"
  obtain h t where I_eq: "I = h # t" using I by (cases I) auto
  then have h: "is_digit h" "b = h # t @ (if F = [] then [] else CHR ''.'' # F)"
    using dig by (auto simp: b_def)
  have dtext: "dec_text x = (if x < 0 then ''-'' else []) @ b" by (simp add: shape b_def)
  have stripped: "filter (\<lambda>c. c \<noteq> CHR ''_'') (strip (dec_text x)) = dec_text x"
    using dec_text_nospace [OF assms] by (auto simp: strip_dec_text [OF assms] filter_id_conv)
  have sign: "parse_sign (dec_text x) = (x < 0, b)"
    using digit_props [OF h(1)] by (simp add: dtext h(2))
  have low: "hd (lower b) = h" "lower b \<noteq> []" using digit_props [OF h(1)] by (auto simp: h(2) lower_def)
  then have noinf: "lower b \<noteq> ''inf''" "lower b \<noteq> ''infinity''" "\<not> is_nan_text (lower b)"
    using digit_props [OF h(1)] by (auto simp: is_nan_text_def starts_with_def take_Suc hd_conv_nth
      numeral_eq_Suc split: list.splits)
  have "parse_unsigned b = Some \<bar>x\<bar>"
    unfolding b_def by (subst parse_unsigned_digits [OF dig I]) (auto simp: val)
  then show ?thesis
    using noinf by (simp add: parse_decimal_def stripped sign Let_def)
qed

lemma dec_text_inject: "is_decimal x \<Longrightarrow> is_decimal y \<Longrightarrow> dec_text x = dec_text y \<longleftrightarrow> x = y"
  using parse_dec_text by (metis option.inject pydec.inject(1))

lemma dec_text_0: "dec_text 0 = ''0''"
  by (simp add: dec_text_def)

lemma dec_text_nonempty: "is_decimal x \<Longrightarrow> dec_text x \<noteq> []"
  by (rule dec_text_shape) auto

lemma parse_unsigned_decimal: "parse_unsigned s = Some x \<Longrightarrow> is_decimal x"
  by (auto simp: parse_unsigned_def Let_def split: if_splits intro: is_decimalI)

lemma is_decimal_uminus: "is_decimal x \<Longrightarrow> is_decimal (- x)"
  by (simp add: is_decimal_def rat_uminus_code Let_def case_prod_unfold)

lemma parse_decimal_is_decimal: "parse_decimal s = Some (Fin x) \<Longrightarrow> is_decimal x"
  by (auto simp: parse_decimal_def Let_def is_decimal_uminus dest: parse_unsigned_decimal split: if_splits)

section \<open>\<open>str\<close> of a value, and dictionaries\<close>

text \<open>
  \<open>str\<close> of an integer is its decimal digits; of a float its \<open>repr\<close>, positional between
  \<open>10 ^ -4\<close> and \<open>10 ^ 16\<close> and scientific outside. A \<open>Decimal\<close> reaches \<open>str\<close> in the modelled code
  only in its canonical text.
\<close>

definition int_text :: "int \<Rightarrow> string" where
  "int_text n = (if n < 0 then ''-'' @ digits_of (- n) else digits_of n)"

definition float_repr :: "pydec \<Rightarrow> string" where
  "float_repr d = (case d of
     Inf n \<Rightarrow> if n then ''-inf'' else ''inf'' | NaN \<Rightarrow> ''nan''
   | Fin x \<Rightarrow> if x = 0 then ''0.0''
       else let e = lead 10 x - 1; m = x / 10 powi e in
         if -4 \<le> e \<and> e < 16 then (if x = of_int \<lfloor>x\<rfloor> then int_text \<lfloor>x\<rfloor> @ ''.0'' else dec_text x)
         else dec_text m @ ''e'' @ (if e < 0 then ''-'' else ''+'')
           @ (if \<bar>e\<bar> < 10 then ''0'' else []) @ digits_of \<bar>e\<bar>)"

fun py_str :: "pyval \<Rightarrow> string" where
  "py_str PyNone = ''None''"
| "py_str (PyBool b) = (if b then ''True'' else ''False'')"
| "py_str (PyInt n) = int_text n"
| "py_str (PyFloat d) = float_repr d"
| "py_str (PyDec d) = (case d of Fin x \<Rightarrow> dec_text x | Inf n \<Rightarrow> if n then ''-Infinity'' else ''Infinity'' | NaN \<Rightarrow> ''NaN'')"
| "py_str (PyStr s) = s"

text \<open>\<open>a or b\<close>\<close>

definition py_or :: "pyval \<Rightarrow> pyval \<Rightarrow> pyval" where
  "py_or a b = (if truthy a then a else b)"

type_synonym pydict = "string \<Rightarrow> pyval option"

text \<open>\<open>d.get(k)\<close> and \<open>d.get(k, default)\<close>\<close>

definition dget :: "pydict \<Rightarrow> string \<Rightarrow> pyval" where
  "dget d k = (case d k of None \<Rightarrow> PyNone | Some v \<Rightarrow> v)"

definition dget_or :: "pydict \<Rightarrow> string \<Rightarrow> pyval \<Rightarrow> pyval" where
  "dget_or d k v = (case d k of None \<Rightarrow> v | Some w \<Rightarrow> w)"

lemma dget_simps [simp]:
  "dget Map.empty k = PyNone"
  "dget (d(k \<mapsto> v)) j = (if j = k then v else dget d j)"
  "dget_or Map.empty k w = w"
  "dget_or (d(k \<mapsto> v)) j w = (if j = k then v else dget_or d j w)"
  by (simp_all add: dget_def dget_or_def)

text \<open>
  \<open>Decimal(str(value))\<close>, and the value itself when it is a \<open>Decimal\<close>: \<open>None\<close> stands for the
  \<open>InvalidOperation\<close> that a text which is no number raises (\<open>str(True)\<close> and \<open>str(None)\<close> are such).
\<close>

fun to_pydec :: "pyval \<Rightarrow> pydec option" where
  "to_pydec PyNone = None"
| "to_pydec (PyBool b) = None"
| "to_pydec (PyInt n) = Some (Fin (of_int n))"
| "to_pydec (PyFloat d) = Some d"
| "to_pydec (PyDec d) = Some d"
| "to_pydec (PyStr s) = parse_decimal s"

text \<open>The values that can occur: a carried number is a decimal.\<close>

fun wf_pyval :: "pyval \<Rightarrow> bool" where
  "wf_pyval (PyFloat (Fin x)) = is_decimal x"
| "wf_pyval (PyDec (Fin x)) = is_decimal x"
| "wf_pyval _ = True"

lemma to_pydec_is_decimal: "wf_pyval v \<Longrightarrow> to_pydec v = Some (Fin x) \<Longrightarrow> is_decimal x"
proof (induction v rule: to_pydec.induct)
  case (3 n)
  then show ?case using is_decimalI [of x n 0] by simp
qed (auto dest: parse_decimal_is_decimal)

section \<open>Integer literals\<close>

text \<open>\<open>int(text)\<close>: a sign and digits, with single underscores between digits; \<open>None\<close> is the \<open>ValueError\<close>.\<close>

definition int_literal :: "string \<Rightarrow> int option" where
  "int_literal s = (let (neg, ds) = parse_sign (strip s) in
     if ds \<noteq> [] \<and> list_all (\<lambda>c. is_digit c \<or> c = CHR ''_'') ds \<and> hd ds \<noteq> CHR ''_'' \<and> last ds \<noteq> CHR ''_''
        \<and> \<not> is_substring ''__'' ds
     then Some (if neg then - digits_val (filter is_digit ds) else digits_val (filter is_digit ds)) else None)"

text \<open>\<open>int(v)\<close>; \<open>None\<close> stands for the \<open>TypeError\<close> or \<open>ValueError\<close> the caller catches.\<close>

fun py_int :: "pyval \<Rightarrow> int option res" where
  "py_int PyNone = Inr None"
| "py_int (PyBool b) = Inr (Some (if b then 1 else 0))"
| "py_int (PyInt n) = Inr (Some n)"
| "py_int (PyFloat (Fin x)) = Inr (Some (if x < 0 then - \<lfloor>- x\<rfloor> else \<lfloor>x\<rfloor>))"
| "py_int (PyFloat NaN) = Inr None"
| "py_int (PyFloat (Inf n)) = Inl OverflowError"
| "py_int (PyDec (Fin x)) = Inr (Some (if x < 0 then - \<lfloor>- x\<rfloor> else \<lfloor>x\<rfloor>))"
| "py_int (PyDec NaN) = Inr None"
| "py_int (PyDec (Inf n)) = Inl OverflowError"
| "py_int (PyStr s) = Inr (int_literal s)"

text \<open>\<open>str(first or second or third or "")\<close>\<close>

definition or_str :: "pyval list \<Rightarrow> string" where
  "or_str vs = py_str (foldr py_or vs (PyStr []))"

text \<open>\<open>", ".join(words)\<close>\<close>

definition join_words :: "string list \<Rightarrow> string" where
  "join_words ws = (case ws of [] \<Rightarrow> [] | w # vs \<Rightarrow> w @ concat (map (\<lambda>v. '', '' @ v) vs))"

end
