(* ===== verification/Order_State.thy ===== *)
theory Order_State
  imports Py_Value
begin

text \<open>
  \<open>app/order_state.py\<close>: the states of an order intent, the table of allowed transitions with its
  check, the restart-stable identity of a logical action, and the reading of a broker status.
\<close>

section \<open>States\<close>

datatype order_state =
    CREATED | RESERVED | RETRYABLE_PRE_SUBMISSION | SUBMITTING | SUBMITTED | PARTIALLY_FILLED
  | FILLED | CANCEL_PENDING | CANCELLED | REJECTED | EXPIRED | UNKNOWN | RECONCILIATION_REQUIRED

fun state_value :: "order_state \<Rightarrow> string" where
  "state_value CREATED = ''created''"
| "state_value RESERVED = ''reserved''"
| "state_value RETRYABLE_PRE_SUBMISSION = ''retryable_pre_submission''"
| "state_value SUBMITTING = ''submitting''"
| "state_value SUBMITTED = ''submitted''"
| "state_value PARTIALLY_FILLED = ''partially_filled''"
| "state_value FILLED = ''filled''"
| "state_value CANCEL_PENDING = ''cancel_pending''"
| "state_value CANCELLED = ''cancelled''"
| "state_value REJECTED = ''rejected''"
| "state_value EXPIRED = ''expired''"
| "state_value UNKNOWN = ''unknown''"
| "state_value RECONCILIATION_REQUIRED = ''reconciliation_required''"

definition all_order_states :: "order_state list" where
  "all_order_states = [CREATED, RESERVED, RETRYABLE_PRE_SUBMISSION, SUBMITTING, SUBMITTED,
     PARTIALLY_FILLED, FILLED, CANCEL_PENDING, CANCELLED, REJECTED, EXPIRED, UNKNOWN,
     RECONCILIATION_REQUIRED]"

text \<open>\<open>OrderState(text)\<close>: the member with that value, or \<open>ValueError\<close>.\<close>

definition order_state_of :: "string \<Rightarrow> order_state res" where
  "order_state_of s = (case find (\<lambda>q. state_value q = s) all_order_states of
     Some q \<Rightarrow> Inr q
   | None \<Rightarrow> Inl (ValueError (CHR 0x27 # s @ [CHR 0x27] @ '' is not a valid OrderState'')))"

definition TERMINAL_STATES :: "order_state list" where
  "TERMINAL_STATES = [FILLED, CANCELLED, REJECTED, EXPIRED]"

definition BROKER_RELEVANT_STATES :: "order_state list" where
  "BROKER_RELEVANT_STATES = [SUBMITTING, SUBMITTED, PARTIALLY_FILLED, CANCEL_PENDING, UNKNOWN,
     RECONCILIATION_REQUIRED]"

definition ACTIVE_RESERVATION_STATES :: "order_state list" where
  "ACTIVE_RESERVATION_STATES = [CREATED, RESERVED, RETRYABLE_PRE_SUBMISSION, SUBMITTING, SUBMITTED,
     PARTIALLY_FILLED, CANCEL_PENDING, UNKNOWN, RECONCILIATION_REQUIRED]"

fun ALLOWED_TRANSITIONS :: "order_state \<Rightarrow> order_state list" where
  "ALLOWED_TRANSITIONS CREATED = [RESERVED, RETRYABLE_PRE_SUBMISSION, REJECTED, EXPIRED]"
| "ALLOWED_TRANSITIONS RESERVED = [RETRYABLE_PRE_SUBMISSION, SUBMITTING, REJECTED, EXPIRED]"
| "ALLOWED_TRANSITIONS RETRYABLE_PRE_SUBMISSION = [SUBMITTING, REJECTED, EXPIRED]"
| "ALLOWED_TRANSITIONS SUBMITTING = [RETRYABLE_PRE_SUBMISSION, SUBMITTED, PARTIALLY_FILLED, FILLED,
     REJECTED, UNKNOWN, RECONCILIATION_REQUIRED]"
| "ALLOWED_TRANSITIONS SUBMITTED = [PARTIALLY_FILLED, FILLED, CANCEL_PENDING, CANCELLED, REJECTED,
     EXPIRED, UNKNOWN, RECONCILIATION_REQUIRED]"
| "ALLOWED_TRANSITIONS PARTIALLY_FILLED = [FILLED, CANCEL_PENDING, CANCELLED, EXPIRED, UNKNOWN,
     RECONCILIATION_REQUIRED]"
| "ALLOWED_TRANSITIONS CANCEL_PENDING = [CANCELLED, PARTIALLY_FILLED, FILLED, UNKNOWN,
     RECONCILIATION_REQUIRED]"
| "ALLOWED_TRANSITIONS UNKNOWN = [RECONCILIATION_REQUIRED, SUBMITTED, PARTIALLY_FILLED, FILLED,
     CANCELLED, REJECTED, EXPIRED]"
| "ALLOWED_TRANSITIONS RECONCILIATION_REQUIRED = [UNKNOWN, SUBMITTED, PARTIALLY_FILLED, FILLED,
     CANCELLED, REJECTED, EXPIRED]"
| "ALLOWED_TRANSITIONS FILLED = []"
| "ALLOWED_TRANSITIONS CANCELLED = []"
| "ALLOWED_TRANSITIONS REJECTED = []"
| "ALLOWED_TRANSITIONS EXPIRED = []"

definition order_allowed :: "order_state \<Rightarrow> order_state \<Rightarrow> bool" where
  "order_allowed s t \<longleftrightarrow> t \<in> set (ALLOWED_TRANSITIONS s)"

definition order_final :: "order_state \<Rightarrow> bool" where
  "order_final s \<longleftrightarrow> s \<in> set TERMINAL_STATES"

definition validate_transition :: "string \<Rightarrow> string \<Rightarrow> (order_state \<times> order_state) res" where
  "validate_transition current target =
     rbind (order_state_of current) (\<lambda>source.
     rbind (order_state_of target) (\<lambda>destination.
       if source = destination then Inr (source, destination)
       else if \<not> order_allowed source destination
       then Inl (InvalidOrderTransition (''invalid order transition: '' @ state_value source
                  @ '' -> '' @ state_value destination))
       else Inr (source, destination)))"

section \<open>Identity of an action, reading of a broker status\<close>

definition join_bar :: "string list \<Rightarrow> string" where
  "join_bar parts = concat (map (\<lambda>p. CHR ''|'' # p) parts)"

definition logical_action_key :: "pydict \<Rightarrow> string \<Rightarrow> int \<Rightarrow> string" where
  "logical_action_key proposal source_type sequence =
     (let source_id = py_str (py_or (dget proposal ''source_id'') (py_or (dget proposal ''proposal_id'')
            (py_or (dget proposal ''id'') (py_or (dget proposal ''emergency_action_id'')
              (PyStr ''missing-source'')))));
          lifecycle = py_str (py_or (dget proposal ''position_lifecycle_id'') (PyStr ''no-lifecycle''));
          parts = [source_type, source_id, lifecycle,
            upper (py_str (dget_or proposal ''symbol'' (PyStr []))),
            lower (py_str (dget_or proposal ''side'' (PyStr []))),
            lower (py_str (py_or (dget proposal ''action'')
              (py_or (dget proposal ''intended_action'') (PyStr ''entry'')))),
            int_text sequence]
      in tl (join_bar parts))"

text \<open>The digest is the hexadecimal SHA-256 of the key's bytes, a parameter here.\<close>

definition stable_client_order_id :: "(string \<Rightarrow> string) \<Rightarrow> string \<Rightarrow> string" where
  "stable_client_order_id sha256_hex action_key = ''ta0-'' @ take 28 (sha256_hex action_key)"

definition broker_status_to_state :: "pyval \<Rightarrow> rat \<Rightarrow> order_state option" where
  "broker_status_to_state status filled_quantity =
     (let normalized = map (\<lambda>c. if c = CHR ''-'' then CHR ''_'' else c)
            (lower (py_str (py_or status (PyStr []))))
      in if normalized \<in> set [''new'', ''accepted'', ''submitted'', ''pending_new'',
              ''accepted_for_bidding'', ''stopped'', ''suspended''] then Some SUBMITTED
         else if normalized \<in> set [''filled'', ''fill''] then Some FILLED
         else if normalized \<in> set [''partially_filled'', ''partial_fill''] \<or> filled_quantity > 0
           then Some PARTIALLY_FILLED
         else if normalized \<in> set [''pending_cancel'', ''cancel_pending''] then Some CANCEL_PENDING
         else if normalized \<in> set [''canceled'', ''cancelled''] then Some CANCELLED
         else if normalized = ''rejected'' then Some REJECTED
         else if normalized \<in> set [''expired'', ''done_for_day''] then Some EXPIRED
         else None)"

section \<open>The transition table\<close>

lemma order_state_of_value [simp]: "order_state_of (state_value s) = Inr s"
  by (cases s) (simp_all add: order_state_of_def all_order_states_def)

lemma order_state_of_Inr: "order_state_of t = Inr s \<Longrightarrow> t = state_value s"
  by (auto simp: order_state_of_def find_Some_iff split: option.splits)

lemma validate_transition_iff:
  "validate_transition (state_value s) (state_value t) = Inr r
    \<longleftrightarrow> guarded_step order_allowed s t \<and> r = (s, t)"
  by (auto simp: validate_transition_def guarded_step_def)

text \<open>A rank every non-terminal state can lower: the distance to a terminal state.\<close>

definition order_rank :: "order_state \<Rightarrow> nat" where
  "order_rank s = (if order_final s then 0 else 1)"

lemmas order_sets = order_allowed_def order_final_def order_rank_def TERMINAL_STATES_def
  ACTIVE_RESERVATION_STATES_def BROKER_RELEVANT_STATES_def

interpretation om: guarded_machine order_allowed order_final order_rank
proof unfold_locales
  show "\<not> order_allowed s t" if "order_final s" for s t
    using that by (cases s) (simp_all add: order_sets)
  show "\<exists>t. order_allowed s t \<and> order_rank t < order_rank s" if "\<not> order_final s" for s
  proof -
    have "order_allowed s REJECTED \<or> order_allowed s CANCELLED"
      using that by (cases s) (simp_all add: order_sets)
    moreover have "order_rank REJECTED = 0" "order_rank CANCELLED = 0" "order_rank s = 1"
      using that by (simp_all add: order_sets)
    ultimately show ?thesis by auto
  qed
qed

text \<open>States in which no call to the broker has been started.\<close>

definition pre_submission :: "order_state \<Rightarrow> bool" where
  "pre_submission s \<longleftrightarrow> s = CREATED \<or> s = RESERVED \<or> s = RETRYABLE_PRE_SUBMISSION"

text \<open>States that only a broker's answer, or the doubt about one, can put an order in.\<close>

definition broker_confirmed :: "order_state \<Rightarrow> bool" where
  "broker_confirmed s \<longleftrightarrow> \<not> pre_submission s \<and> s \<noteq> SUBMITTING \<and> s \<noteq> REJECTED \<and> s \<noteq> EXPIRED"

lemma leave_pre_submission:
  "pre_submission u \<Longrightarrow> \<not> pre_submission v \<Longrightarrow> order_allowed u v \<Longrightarrow> v = SUBMITTING \<or> v = REJECTED \<or> v = EXPIRED"
  by (cases u) (auto simp: pre_submission_def order_allowed_def)

section \<open>Properties\<close>

text \<open>a validated sequence of transitions that starts in a terminal state never leaves it, for
  every terminal state and every sequence.\<close>

theorem terminal_orders_absorbing:
  assumes "s \<in> set TERMINAL_STATES" and "guarded_run order_allowed s ts" and "t \<in> set ts"
  shows "t = s \<and> validate_transition (state_value s) (state_value t) = Inr (s, t)"
  using om.final_run [of s ts] assms by (auto simp: order_final_def validate_transition_iff guarded_step_def)

theorem terminal_orders_absorbing_witness:
  "FILLED = FILLED \<and> validate_transition (state_value FILLED) (state_value FILLED) = Inr (FILLED, FILLED)"
  by (rule terminal_orders_absorbing [of FILLED "[FILLED]"])
    (simp_all add: TERMINAL_STATES_def guarded_step_def)

text \<open>no order reaches a broker-confirmed state (submitted, partially filled, filled, cancel
  pending, cancelled, unknown, reconciliation required) from a pre-submission state without passing
  through \<open>SUBMITTING\<close>, the state that is made durable before the broker is called.\<close>

theorem no_fill_without_submitting:
  assumes "pre_submission s" and "guarded_run order_allowed s ts" and "broker_confirmed (last (s # ts))"
  shows "SUBMITTING \<in> set ts"
proof -
  have "\<not> pre_submission (last (s # ts))" using assms(3) by (simp add: broker_confirmed_def)
  from om.run_crosses [OF assms(1) this assms(2)] obtain us u v vs where
    split: "s # ts = us @ u # v # vs" and uv: "pre_submission u" "\<not> pre_submission v" "order_allowed u v"
    by blast
  have tail: "guarded_run order_allowed v vs"
    by (rule guarded_run_suffix [OF assms(2), of "us @ [u]"]) (simp add: split)
  have last: "last (s # ts) = last (v # vs)" by (simp only: split) simp
  have "\<not> order_final v"
    using om.final_last [OF _ tail] last assms(3) leave_pre_submission [OF uv]
    by (auto simp: broker_confirmed_def order_sets)
  then have "v = SUBMITTING" using leave_pre_submission [OF uv] by (auto simp: order_sets)
  then show ?thesis using split by (cases us) auto
qed

theorem no_fill_without_submitting_witness:
  "SUBMITTING \<in> set [RESERVED, SUBMITTING, SUBMITTED, FILLED]"
  by (rule no_fill_without_submitting [of CREATED])
    (simp_all add: pre_submission_def broker_confirmed_def guarded_step_def order_allowed_def)

text \<open>The terminal states and the states that hold a reservation partition all states, and
  every state that matters to the broker holds its reservation: a reservation is released exactly
  when the order is terminal.\<close>

theorem reservations_held_until_terminal:
  "(s \<in> set ACTIVE_RESERVATION_STATES \<longleftrightarrow> s \<notin> set TERMINAL_STATES)
    \<and> set BROKER_RELEVANT_STATES \<subseteq> set ACTIVE_RESERVATION_STATES
    \<and> (s \<in> set TERMINAL_STATES \<longleftrightarrow> ALLOWED_TRANSITIONS s = [])"
proof (intro conjI)
  show "set BROKER_RELEVANT_STATES \<subseteq> set ACTIVE_RESERVATION_STATES" by (simp add: order_sets)
qed (cases s; simp add: order_sets)+

text \<open>Every order can be driven to a terminal state by allowed transitions, in one step at
  most: no state of the machine is stuck.\<close>

theorem every_order_can_terminate:
  "\<exists>ts. guarded_run order_allowed s ts \<and> last (s # ts) \<in> set TERMINAL_STATES \<and> length ts \<le> 1"
proof -
  obtain ts where "guarded_run order_allowed s ts" "order_final (last (s # ts))" "length ts \<le> order_rank s"
    using om.reaches_final [of s] by blast
  moreover have "order_rank s \<le> 1" by (simp add: order_rank_def)
  ultimately have "length ts \<le> 1" by linarith
  then show ?thesis using \<open>guarded_run order_allowed s ts\<close> \<open>order_final (last (s # ts))\<close>
    unfolding order_final_def by blast
qed

text \<open>a broker status that reports executed quantity is never read as an order without a fill
  that is over: with a positive filled quantity the state is submitted, filled or partially filled,
  whatever the status says, and never unreadable.\<close>

theorem filled_quantity_never_lost:
  assumes "0 < filled_quantity"
  shows "broker_status_to_state status filled_quantity
    \<in> {Some SUBMITTED, Some FILLED, Some PARTIALLY_FILLED}"
proof -
  have "(0 < filled_quantity) = True" using assms by simp
  then show ?thesis unfolding broker_status_to_state_def Let_def
    by (simp only: simp_thms if_True insert_iff split: if_split)
qed

theorem filled_quantity_never_lost_witness:
  "broker_status_to_state (PyStr ''Canceled'') (1/2) \<in> {Some SUBMITTED, Some FILLED, Some PARTIALLY_FILLED}
    \<and> broker_status_to_state (PyStr ''Canceled'') (1/2) = Some PARTIALLY_FILLED
    \<and> broker_status_to_state (PyStr ''Canceled'') 0 = Some CANCELLED"
proof (intro conjI)
  show "broker_status_to_state (PyStr ''Canceled'') (1/2) \<in> {Some SUBMITTED, Some FILLED, Some PARTIALLY_FILLED}"
    by (rule filled_quantity_never_lost) simp
qed (simp_all add: broker_status_to_state_def lower_def py_or_def)

end
