(* ===== verification/Fixed_Point_Tables.thy ===== *)
theory Fixed_Point_Tables
  imports Py_Value
begin

text \<open>
  The constant tables of \<open>app/fixed_point_accounting.py\<close>: for every table of the database the
  decimal-text columns it carries, the legacy column each is backfilled from, and the columns that
  must not be negative. The facts at the end say that the three tables fit together.
\<close>

definition EXACT_DECIMAL_PROVENANCE :: string where
  "EXACT_DECIMAL_PROVENANCE = ''exact_source_decimal''"

definition RECONSTRUCTED_REAL_PROVENANCE :: string where
  "RECONSTRUCTED_REAL_PROVENANCE = ''reconstructed_from_sqlite_real''"

definition FIXED_POINT_ACCOUNTING_VERSION :: string where
  "FIXED_POINT_ACCOUNTING_VERSION = ''fixed_point_fifo_accounting_v1''"

definition FIXED_POINT_ACCOUNTING_SCHEMA_VERSION :: string where
  "FIXED_POINT_ACCOUNTING_SCHEMA_VERSION = ''fixed_point_fifo_accounting_schema_v1''"

definition TABLE_DECIMAL_COLUMNS_A :: "(string \<times> (string \<times> string) list) list" where
  "TABLE_DECIMAL_COLUMNS_A = [
    (''cash_snapshots'', [
      (''equity_decimal'', ''TEXT''), (''cash_decimal'', ''TEXT''),
      (''settled_cash_decimal'', ''TEXT''), (''realized_fifo_pnl_decimal'', ''TEXT''),
      (''unrealized_pl_decimal'', ''TEXT''), (''account_equity_change_decimal'', ''TEXT''),
      (''unrealized_change_decimal'', ''TEXT''), (''external_cash_flow_decimal'', ''TEXT''),
      (''decimal_provenance'', ''TEXT''), (''decimal_accounting_version'', ''TEXT'')]),
    (''account_equity_watermarks'', [
      (''peak_equity_decimal'', ''TEXT''), (''latest_equity_decimal'', ''TEXT''),
      (''drawdown_pct_decimal'', ''TEXT''), (''decimal_provenance'', ''TEXT''),
      (''decimal_accounting_version'', ''TEXT'')]),
    (''order_intents'', [
      (''approved_quantity_ceiling_decimal'', ''TEXT''),
      (''approved_notional_ceiling_decimal'', ''TEXT''), (''requested_quantity_decimal'', ''TEXT''),
      (''requested_notional_decimal'', ''TEXT''), (''filled_quantity_decimal'', ''TEXT''),
      (''average_fill_price_decimal'', ''TEXT''), (''reference_price_decimal'', ''TEXT''),
      (''intended_stop_price_decimal'', ''TEXT''), (''reserved_notional_decimal'', ''TEXT''),
      (''reserved_stop_risk_decimal'', ''TEXT''), (''canonical_quantity_decimal'', ''TEXT''),
      (''canonical_notional_decimal'', ''TEXT''), (''canonical_stop_risk_decimal'', ''TEXT''),
      (''initial_risk_dollars_decimal'', ''TEXT''), (''incremental_risk_decimal'', ''TEXT''),
      (''decimal_provenance'', ''TEXT''), (''decimal_accounting_version'', ''TEXT'')]),
    (''orders'', [
      (''notional_decimal'', ''TEXT''), (''qty_decimal'', ''TEXT''),
      (''decimal_provenance'', ''TEXT''), (''decimal_accounting_version'', ''TEXT'')]),
    (''risk_reservations'', [
      (''initial_notional_decimal'', ''TEXT''), (''active_notional_decimal'', ''TEXT''),
      (''initial_stop_risk_decimal'', ''TEXT''), (''active_stop_risk_decimal'', ''TEXT''),
      (''incremental_risk_decimal'', ''TEXT''), (''risk_value_decimal'', ''TEXT''),
      (''conversion_equity_decimal'', ''TEXT''), (''decimal_provenance'', ''TEXT''),
      (''decimal_accounting_version'', ''TEXT'')]),
    (''add_risk_decisions'', [
      (''incremental_risk_decimal'', ''TEXT''), (''decimal_provenance'', ''TEXT''),
      (''decimal_accounting_version'', ''TEXT'')]),
    (''order_events'', [
      (''filled_quantity_decimal'', ''TEXT''), (''fill_price_decimal'', ''TEXT''),
      (''decimal_provenance'', ''TEXT''), (''decimal_accounting_version'', ''TEXT'')]),
    (''broker_fill_events'', [
      (''cumulative_filled_quantity_decimal'', ''TEXT''), (''delta_quantity_decimal'', ''TEXT''),
      (''fill_price_decimal'', ''TEXT''), (''fees_decimal'', ''TEXT''),
      (''adjustments_decimal'', ''TEXT''), (''decimal_provenance'', ''TEXT''),
      (''decimal_accounting_version'', ''TEXT'')]),
    (''fills'', [
      (''qty_decimal'', ''TEXT''), (''price_decimal'', ''TEXT''), (''decimal_provenance'', ''TEXT''),
      (''decimal_accounting_version'', ''TEXT'')]),
    (''position_lots'', [
      (''original_quantity_decimal'', ''TEXT''), (''remaining_quantity_decimal'', ''TEXT''),
      (''unit_cost_decimal'', ''TEXT''), (''fees_allocated_decimal'', ''TEXT''),
      (''initial_risk_dollars_decimal'', ''TEXT''), (''decimal_provenance'', ''TEXT''),
      (''decimal_accounting_version'', ''TEXT'')]),
    (''position_lifecycles'', [
      (''opening_quantity_decimal'', ''TEXT''), (''current_quantity_decimal'', ''TEXT''),
      (''average_entry_price_decimal'', ''TEXT''), (''decimal_provenance'', ''TEXT''),
      (''decimal_accounting_version'', ''TEXT'')])]"

definition TABLE_DECIMAL_COLUMNS_B :: "(string \<times> (string \<times> string) list) list" where
  "TABLE_DECIMAL_COLUMNS_B = [
    (''realized_pnl_events'', [
      (''quantity_decimal'', ''TEXT''), (''gross_proceeds_decimal'', ''TEXT''),
      (''cost_basis_decimal'', ''TEXT''), (''fees_decimal'', ''TEXT''),
      (''adjustments_decimal'', ''TEXT''), (''realized_pl_decimal'', ''TEXT''),
      (''remaining_position_quantity_decimal'', ''TEXT''), (''decimal_provenance'', ''TEXT''),
      (''decimal_accounting_version'', ''TEXT'')]),
    (''lot_consumptions'', [
      (''quantity_decimal'', ''TEXT''), (''allocated_proceeds_decimal'', ''TEXT''),
      (''allocated_cost_basis_decimal'', ''TEXT''), (''allocated_buy_fees_decimal'', ''TEXT''),
      (''allocated_sell_fees_decimal'', ''TEXT''), (''allocated_adjustments_decimal'', ''TEXT''),
      (''realized_pnl_decimal'', ''TEXT''), (''decimal_provenance'', ''TEXT''),
      (''decimal_accounting_version'', ''TEXT'')]),
    (''risk_snapshots_v2'', [
      (''portfolio_equity_decimal'', ''TEXT''), (''filled_gross_exposure_decimal'', ''TEXT''),
      (''filled_net_exposure_decimal'', ''TEXT''), (''active_reserved_exposure_decimal'', ''TEXT''),
      (''projected_gross_exposure_decimal'', ''TEXT''), (''held_open_stop_risk_decimal'', ''TEXT''),
      (''active_reserved_stop_risk_decimal'', ''TEXT''),
      (''projected_total_open_risk_decimal'', ''TEXT''), (''daily_realized_pl_decimal'', ''TEXT''),
      (''daily_realized_loss_pct_decimal'', ''TEXT''), (''weekly_realized_pl_decimal'', ''TEXT''),
      (''weekly_realized_loss_pct_decimal'', ''TEXT''),
      (''unresolved_unknown_exposure_decimal'', ''TEXT''), (''buying_power_decimal'', ''TEXT''),
      (''cash_decimal'', ''TEXT''), (''decimal_provenance'', ''TEXT''),
      (''decimal_accounting_version'', ''TEXT'')]),
    (''rotation_groups'', [
      (''estimated_release_notional_decimal'', ''TEXT''),
      (''actual_released_notional_decimal'', ''TEXT''), (''actual_released_risk_decimal'', ''TEXT''),
      (''reconciled_cash_decimal'', ''TEXT''), (''reconciled_buying_power_decimal'', ''TEXT''),
      (''decimal_provenance'', ''TEXT''), (''decimal_accounting_version'', ''TEXT'')]),
    (''rotation_steps'', [
      (''requested_quantity_decimal'', ''TEXT''), (''filled_quantity_decimal'', ''TEXT''),
      (''filled_notional_decimal'', ''TEXT''), (''released_risk_decimal'', ''TEXT''),
      (''decimal_provenance'', ''TEXT''), (''decimal_accounting_version'', ''TEXT'')]),
    (''rotation_contingent_entries'', [
      (''displayed_max_quantity_decimal'', ''TEXT''), (''displayed_max_notional_decimal'', ''TEXT''),
      (''displayed_max_stop_risk_decimal'', ''TEXT''), (''final_quantity_decimal'', ''TEXT''),
      (''final_notional_decimal'', ''TEXT''), (''final_stop_risk_decimal'', ''TEXT''),
      (''decimal_provenance'', ''TEXT''), (''decimal_accounting_version'', ''TEXT'')]),
    (''take_profit_milestones'', [
      (''target_quantity_decimal'', ''TEXT''), (''cumulative_filled_quantity_decimal'', ''TEXT''),
      (''completed_fraction_decimal'', ''TEXT''), (''decimal_provenance'', ''TEXT''),
      (''decimal_accounting_version'', ''TEXT'')]),
    (''take_profit_milestone_actions'', [
      (''requested_quantity_decimal'', ''TEXT''), (''cumulative_filled_quantity_decimal'', ''TEXT''),
      (''completed_fraction_decimal'', ''TEXT''), (''decimal_provenance'', ''TEXT''),
      (''decimal_accounting_version'', ''TEXT'')]),
    (''take_profit_milestone_fill_links'', [
      (''delta_quantity_decimal'', ''TEXT''), (''cumulative_intent_quantity_decimal'', ''TEXT''),
      (''fill_price_decimal'', ''TEXT''), (''decimal_provenance'', ''TEXT''),
      (''decimal_accounting_version'', ''TEXT'')]),
    (''trade_outcomes'', [
      (''entry_price_decimal'', ''TEXT''), (''quantity_decimal'', ''TEXT''),
      (''notional_decimal'', ''TEXT''), (''decimal_provenance'', ''TEXT''),
      (''decimal_accounting_version'', ''TEXT'')]),
    (''performance_setups'', [
      (''fill_price_decimal'', ''TEXT''), (''fill_qty_decimal'', ''TEXT''),
      (''decimal_provenance'', ''TEXT''), (''decimal_accounting_version'', ''TEXT'')]),
    (''performance_outcomes'', [
      (''entry_price_decimal'', ''TEXT''), (''entry_qty_decimal'', ''TEXT''),
      (''entry_notional_decimal'', ''TEXT''), (''decimal_provenance'', ''TEXT''),
      (''decimal_accounting_version'', ''TEXT'')])]"

definition TABLE_DECIMAL_COLUMNS :: "(string \<times> (string \<times> string) list) list" where
  "TABLE_DECIMAL_COLUMNS = TABLE_DECIMAL_COLUMNS_A @ TABLE_DECIMAL_COLUMNS_B"

definition BACKFILL_FIELDS_A :: "(string \<times> (string \<times> string) list) list" where
  "BACKFILL_FIELDS_A = [
    (''cash_snapshots'', [
      (''equity_decimal'', ''equity''), (''cash_decimal'', ''cash''),
      (''settled_cash_decimal'', ''settled_cash''),
      (''realized_fifo_pnl_decimal'', ''realized_fifo_pnl''),
      (''unrealized_pl_decimal'', ''unrealized_pl''),
      (''account_equity_change_decimal'', ''account_equity_change''),
      (''unrealized_change_decimal'', ''unrealized_change''),
      (''external_cash_flow_decimal'', ''external_cash_flow'')]),
    (''account_equity_watermarks'', [
      (''peak_equity_decimal'', ''peak_equity''), (''latest_equity_decimal'', ''latest_equity''),
      (''drawdown_pct_decimal'', ''drawdown_pct'')]),
    (''order_intents'', [
      (''approved_quantity_ceiling_decimal'', ''approved_quantity_ceiling''),
      (''approved_notional_ceiling_decimal'', ''approved_notional_ceiling''),
      (''requested_quantity_decimal'', ''requested_quantity''),
      (''requested_notional_decimal'', ''requested_notional''),
      (''filled_quantity_decimal'', ''filled_quantity''),
      (''average_fill_price_decimal'', ''average_fill_price''),
      (''reference_price_decimal'', ''reference_price''),
      (''intended_stop_price_decimal'', ''intended_stop_price''),
      (''reserved_notional_decimal'', ''reserved_notional''),
      (''reserved_stop_risk_decimal'', ''reserved_stop_risk''),
      (''canonical_quantity_decimal'', ''canonical_quantity''),
      (''canonical_notional_decimal'', ''canonical_notional''),
      (''canonical_stop_risk_decimal'', ''canonical_stop_risk''),
      (''initial_risk_dollars_decimal'', ''initial_risk_dollars''),
      (''incremental_risk_decimal'', ''incremental_risk'')]),
    (''orders'', [
      (''notional_decimal'', ''notional''), (''qty_decimal'', ''qty'')]),
    (''risk_reservations'', [
      (''initial_notional_decimal'', ''initial_notional''),
      (''active_notional_decimal'', ''active_notional''),
      (''initial_stop_risk_decimal'', ''initial_stop_risk''),
      (''active_stop_risk_decimal'', ''active_stop_risk''),
      (''incremental_risk_decimal'', ''incremental_risk''), (''risk_value_decimal'', ''risk_value''),
      (''conversion_equity_decimal'', ''conversion_equity'')]),
    (''add_risk_decisions'', [
      (''incremental_risk_decimal'', ''incremental_risk'')]),
    (''order_events'', [
      (''filled_quantity_decimal'', ''filled_quantity''), (''fill_price_decimal'', ''fill_price'')]),
    (''broker_fill_events'', [
      (''cumulative_filled_quantity_decimal'', ''cumulative_filled_quantity''),
      (''delta_quantity_decimal'', ''delta_quantity''), (''fill_price_decimal'', ''fill_price''),
      (''fees_decimal'', ''__unavailable__''), (''adjustments_decimal'', ''__unavailable__'')]),
    (''fills'', [
      (''qty_decimal'', ''qty''), (''price_decimal'', ''price'')]),
    (''position_lots'', [
      (''original_quantity_decimal'', ''original_quantity''),
      (''remaining_quantity_decimal'', ''remaining_quantity''), (''unit_cost_decimal'', ''unit_cost''),
      (''fees_allocated_decimal'', ''fees_allocated''),
      (''initial_risk_dollars_decimal'', ''initial_risk_dollars'')]),
    (''position_lifecycles'', [
      (''opening_quantity_decimal'', ''opening_quantity''),
      (''current_quantity_decimal'', ''current_quantity''),
      (''average_entry_price_decimal'', ''average_entry_price'')])]"

definition BACKFILL_FIELDS_B :: "(string \<times> (string \<times> string) list) list" where
  "BACKFILL_FIELDS_B = [
    (''realized_pnl_events'', [
      (''quantity_decimal'', ''quantity''), (''gross_proceeds_decimal'', ''gross_proceeds''),
      (''cost_basis_decimal'', ''cost_basis''), (''fees_decimal'', ''fees''),
      (''adjustments_decimal'', ''adjustments''), (''realized_pl_decimal'', ''realized_pl''),
      (''remaining_position_quantity_decimal'', ''remaining_position_quantity'')]),
    (''lot_consumptions'', [
      (''quantity_decimal'', ''quantity''), (''allocated_proceeds_decimal'', ''allocated_proceeds''),
      (''allocated_cost_basis_decimal'', ''allocated_cost_basis''),
      (''allocated_buy_fees_decimal'', ''allocated_buy_fees''),
      (''allocated_sell_fees_decimal'', ''allocated_sell_fees''),
      (''allocated_adjustments_decimal'', ''allocated_adjustments''),
      (''realized_pnl_decimal'', ''realized_pnl'')]),
    (''risk_snapshots_v2'', [
      (''portfolio_equity_decimal'', ''portfolio_equity''),
      (''filled_gross_exposure_decimal'', ''filled_gross_exposure''),
      (''filled_net_exposure_decimal'', ''filled_net_exposure''),
      (''active_reserved_exposure_decimal'', ''active_reserved_exposure''),
      (''projected_gross_exposure_decimal'', ''projected_gross_exposure''),
      (''held_open_stop_risk_decimal'', ''held_open_stop_risk''),
      (''active_reserved_stop_risk_decimal'', ''active_reserved_stop_risk''),
      (''projected_total_open_risk_decimal'', ''projected_total_open_risk''),
      (''daily_realized_pl_decimal'', ''daily_realized_pl''),
      (''daily_realized_loss_pct_decimal'', ''daily_realized_loss_pct''),
      (''weekly_realized_pl_decimal'', ''weekly_realized_pl''),
      (''weekly_realized_loss_pct_decimal'', ''weekly_realized_loss_pct''),
      (''unresolved_unknown_exposure_decimal'', ''unresolved_unknown_exposure''),
      (''buying_power_decimal'', ''buying_power''), (''cash_decimal'', ''cash'')]),
    (''rotation_groups'', [
      (''estimated_release_notional_decimal'', ''estimated_release_notional''),
      (''actual_released_notional_decimal'', ''actual_released_notional''),
      (''actual_released_risk_decimal'', ''actual_released_risk''),
      (''reconciled_cash_decimal'', ''reconciled_cash''),
      (''reconciled_buying_power_decimal'', ''reconciled_buying_power'')]),
    (''rotation_steps'', [
      (''requested_quantity_decimal'', ''requested_quantity''),
      (''filled_quantity_decimal'', ''filled_quantity''),
      (''filled_notional_decimal'', ''filled_notional''), (''released_risk_decimal'', ''released_risk'')]),
    (''rotation_contingent_entries'', [
      (''displayed_max_quantity_decimal'', ''displayed_max_quantity''),
      (''displayed_max_notional_decimal'', ''displayed_max_notional''),
      (''displayed_max_stop_risk_decimal'', ''displayed_max_stop_risk''),
      (''final_quantity_decimal'', ''final_quantity''),
      (''final_notional_decimal'', ''final_notional''),
      (''final_stop_risk_decimal'', ''final_stop_risk'')]),
    (''take_profit_milestones'', [
      (''target_quantity_decimal'', ''target_quantity''),
      (''cumulative_filled_quantity_decimal'', ''cumulative_filled_quantity''),
      (''completed_fraction_decimal'', ''completed_fraction'')]),
    (''take_profit_milestone_actions'', [
      (''requested_quantity_decimal'', ''requested_quantity''),
      (''cumulative_filled_quantity_decimal'', ''cumulative_filled_quantity''),
      (''completed_fraction_decimal'', ''completed_fraction'')]),
    (''take_profit_milestone_fill_links'', [
      (''delta_quantity_decimal'', ''delta_quantity''),
      (''cumulative_intent_quantity_decimal'', ''cumulative_intent_quantity''),
      (''fill_price_decimal'', ''fill_price'')]),
    (''trade_outcomes'', [
      (''entry_price_decimal'', ''entry_price''), (''quantity_decimal'', ''quantity''),
      (''notional_decimal'', ''notional'')]),
    (''performance_setups'', [
      (''fill_price_decimal'', ''fill_price''), (''fill_qty_decimal'', ''fill_qty'')]),
    (''performance_outcomes'', [
      (''entry_price_decimal'', ''entry_price''), (''entry_qty_decimal'', ''entry_qty''),
      (''entry_notional_decimal'', ''entry_notional'')])]"

definition BACKFILL_FIELDS :: "(string \<times> (string \<times> string) list) list" where
  "BACKFILL_FIELDS = BACKFILL_FIELDS_A @ BACKFILL_FIELDS_B"

definition NONNEGATIVE_FIELDS_A :: "(string \<times> string list) list" where
  "NONNEGATIVE_FIELDS_A = [
    (''cash_snapshots'', [
      ''equity_decimal'', ''cash_decimal'', ''settled_cash_decimal'']),
    (''account_equity_watermarks'', [
      ''peak_equity_decimal'', ''latest_equity_decimal'', ''drawdown_pct_decimal'']),
    (''order_intents'', [
      ''approved_quantity_ceiling_decimal'', ''approved_notional_ceiling_decimal'',
      ''requested_quantity_decimal'', ''requested_notional_decimal'', ''filled_quantity_decimal'',
      ''average_fill_price_decimal'', ''reference_price_decimal'', ''intended_stop_price_decimal'',
      ''reserved_notional_decimal'', ''reserved_stop_risk_decimal'', ''canonical_quantity_decimal'',
      ''canonical_notional_decimal'', ''canonical_stop_risk_decimal'',
      ''initial_risk_dollars_decimal'', ''incremental_risk_decimal'']),
    (''orders'', [
      ''notional_decimal'', ''qty_decimal'']),
    (''risk_reservations'', [
      ''initial_notional_decimal'', ''active_notional_decimal'', ''initial_stop_risk_decimal'',
      ''active_stop_risk_decimal'', ''incremental_risk_decimal'', ''risk_value_decimal'',
      ''conversion_equity_decimal'']),
    (''order_events'', [
      ''filled_quantity_decimal'', ''fill_price_decimal'']),
    (''broker_fill_events'', [
      ''cumulative_filled_quantity_decimal'', ''delta_quantity_decimal'', ''fill_price_decimal'',
      ''fees_decimal'']),
    (''fills'', [
      ''qty_decimal'', ''price_decimal'']),
    (''position_lots'', [
      ''original_quantity_decimal'', ''remaining_quantity_decimal'', ''unit_cost_decimal'',
      ''fees_allocated_decimal'', ''initial_risk_dollars_decimal'']),
    (''position_lifecycles'', [
      ''opening_quantity_decimal'', ''current_quantity_decimal'', ''average_entry_price_decimal'']),
    (''realized_pnl_events'', [
      ''quantity_decimal'', ''gross_proceeds_decimal'', ''cost_basis_decimal'', ''fees_decimal'',
      ''remaining_position_quantity_decimal''])]"

definition NONNEGATIVE_FIELDS_B :: "(string \<times> string list) list" where
  "NONNEGATIVE_FIELDS_B = [
    (''lot_consumptions'', [
      ''quantity_decimal'', ''allocated_proceeds_decimal'', ''allocated_cost_basis_decimal'',
      ''allocated_buy_fees_decimal'', ''allocated_sell_fees_decimal'']),
    (''risk_snapshots_v2'', [
      ''portfolio_equity_decimal'', ''filled_gross_exposure_decimal'',
      ''active_reserved_exposure_decimal'', ''projected_gross_exposure_decimal'',
      ''held_open_stop_risk_decimal'', ''active_reserved_stop_risk_decimal'',
      ''projected_total_open_risk_decimal'', ''daily_realized_loss_pct_decimal'',
      ''weekly_realized_loss_pct_decimal'', ''unresolved_unknown_exposure_decimal'',
      ''buying_power_decimal'', ''cash_decimal'']),
    (''rotation_groups'', [
      ''estimated_release_notional_decimal'', ''actual_released_notional_decimal'',
      ''actual_released_risk_decimal'', ''reconciled_cash_decimal'', ''reconciled_buying_power_decimal'']),
    (''rotation_steps'', [
      ''requested_quantity_decimal'', ''filled_quantity_decimal'', ''filled_notional_decimal'',
      ''released_risk_decimal'']),
    (''rotation_contingent_entries'', [
      ''displayed_max_quantity_decimal'', ''displayed_max_notional_decimal'',
      ''displayed_max_stop_risk_decimal'', ''final_quantity_decimal'', ''final_notional_decimal'',
      ''final_stop_risk_decimal'']),
    (''take_profit_milestones'', [
      ''target_quantity_decimal'', ''cumulative_filled_quantity_decimal'',
      ''completed_fraction_decimal'']),
    (''take_profit_milestone_actions'', [
      ''requested_quantity_decimal'', ''cumulative_filled_quantity_decimal'',
      ''completed_fraction_decimal'']),
    (''take_profit_milestone_fill_links'', [
      ''delta_quantity_decimal'', ''cumulative_intent_quantity_decimal'', ''fill_price_decimal'']),
    (''trade_outcomes'', [
      ''entry_price_decimal'', ''quantity_decimal'', ''notional_decimal'']),
    (''performance_setups'', [
      ''fill_price_decimal'', ''fill_qty_decimal'']),
    (''performance_outcomes'', [
      ''entry_price_decimal'', ''entry_qty_decimal'', ''entry_notional_decimal''])]"

definition NONNEGATIVE_FIELDS :: "(string \<times> string list) list" where
  "NONNEGATIVE_FIELDS = NONNEGATIVE_FIELDS_A @ NONNEGATIVE_FIELDS_B"

section \<open>The tables fit together\<close>

definition without_suffix :: "string \<Rightarrow> string \<Rightarrow> string" where
  "without_suffix suf s =
     (if drop (length s - length suf) s = suf then take (length s - length suf) s else s)"

definition provenance_column :: "string \<Rightarrow> bool" where
  "provenance_column c \<longleftrightarrow> c = ''decimal_provenance'' \<or> c = ''decimal_accounting_version''"

text \<open>The columns that are backfilled are exactly the declared decimal columns, table by table
  and in the same order, without the two provenance columns; and every column that must not be
  negative is one of them.\<close>

theorem backfill_covers_declared_columns:
  "map (\<lambda>(t, cs). (t, map fst cs)) BACKFILL_FIELDS
    = map (\<lambda>(t, cs). (t, filter (\<lambda>c. \<not> provenance_column c) (map fst cs))) TABLE_DECIMAL_COLUMNS
    \<and> list_all (\<lambda>(t, cs). case map_of BACKFILL_FIELDS t of None \<Rightarrow> False
         | Some m \<Rightarrow> list_all (\<lambda>c. c \<in> set (map fst m)) cs) NONNEGATIVE_FIELDS"
  by code_simp

lemma backfill_sources:
  "list_all (\<lambda>(t, cs). list_all (\<lambda>(c, l). l = without_suffix ''_decimal'' c \<or> l = ''__unavailable__'') cs)
     BACKFILL_FIELDS"
  by code_simp

end
