(* ===== verification/Fixed_Point.thy ===== *)
theory Fixed_Point
  imports Fixed_Point_Tables
begin

text \<open>
  The functions of \<open>app/fixed_point_accounting.py\<close>: the parser and printer of canonical decimal
  text, the readers of authoritative columns, the additive migration that backfills the decimal
  sidecars from the legacy columns, and the integrity report over all tables.
\<close>

section \<open>Parsing and printing\<close>

definition at_least_error :: "string \<Rightarrow> rat \<Rightarrow> py_error" where
  "at_least_error field x = ValueError (field @ '' must be at least '' @ dec_text x)"

definition decimal_value :: "pyval \<Rightarrow> string \<Rightarrow> rat option \<Rightarrow> bool \<Rightarrow> rat option res" where
  "decimal_value value field minimum allow_none =
     (if value = PyNone then (if allow_none then Inr None else Inl (ValueError (field @ '' is required'')))
      else if (case value of PyBool b \<Rightarrow> True | PyStr s \<Rightarrow> strip s = [] | _ \<Rightarrow> False)
      then Inl (ValueError (field @ '' must be a finite decimal''))
      else case to_pydec value of
        None \<Rightarrow> Inl (ValueError (field @ '' must be a finite decimal''))
      | Some result \<Rightarrow>
          (case result of
             Fin x \<Rightarrow> (case minimum of
                 Some m \<Rightarrow> if x < m then Inl (at_least_error field m) else Inr (Some x)
               | None \<Rightarrow> Inr (Some x))
           | _ \<Rightarrow> Inl (ValueError (field @ '' must be a finite decimal''))))"

text \<open>A call whose result is then asserted not to be \<open>None\<close>.\<close>

definition decimal_required :: "pyval \<Rightarrow> string \<Rightarrow> rat option \<Rightarrow> rat res" where
  "decimal_required value field minimum =
     rbind (decimal_value value field minimum False) (\<lambda>r. case r of None \<Rightarrow> Inl AssertionError | Some x \<Rightarrow> Inr x)"

definition decimal_text :: "pyval \<Rightarrow> string res" where
  "decimal_text value = rbind (decimal_required value ''decimal'' None) (\<lambda>x. Inr (dec_text x))"

definition row_decimal :: "pydict \<Rightarrow> string \<Rightarrow> string \<Rightarrow> bool \<Rightarrow> rat option res" where
  "row_decimal row canonical_field legacy_field allow_none =
     (let canonical = dget row canonical_field
      in if \<not> blank canonical then decimal_value canonical canonical_field None allow_none
         else decimal_value (dget row legacy_field) legacy_field None allow_none)"

definition require_exact_decimal :: "pydict \<Rightarrow> string \<Rightarrow> rat option \<Rightarrow> bool \<Rightarrow> rat option res" where
  "require_exact_decimal row canonical_field minimum allow_none =
     (let raw = dget row canonical_field in
      if blank raw
      then (if allow_none then Inr None
            else Inl (ValueError (canonical_field @ '' exact decimal evidence is missing'')))
      else (case raw of
          PyStr t \<Rightarrow> rbind (decimal_value raw canonical_field minimum allow_none) (\<lambda>value.
            case value of
              None \<Rightarrow> Inr None
            | Some x \<Rightarrow> if dec_text x \<noteq> t
                then Inl (ValueError (canonical_field @ '' exact decimal evidence is not canonical''))
                else Inr (Some x))
        | _ \<Rightarrow> Inl (ValueError (canonical_field @ '' exact decimal evidence must be text''))))"

fun sum_exact_from :: "rat \<Rightarrow> pydict list \<Rightarrow> string \<Rightarrow> rat option \<Rightarrow> rat res" where
  "sum_exact_from acc [] canonical_field minimum = Inr acc"
| "sum_exact_from acc (row # rows) canonical_field minimum =
     rbind (require_exact_decimal row canonical_field minimum False) (\<lambda>value.
       case value of None \<Rightarrow> Inl AssertionError
       | Some x \<Rightarrow> sum_exact_from (dadd acc x) rows canonical_field minimum)"

definition sum_exact_decimal_rows :: "pydict list \<Rightarrow> string \<Rightarrow> rat option \<Rightarrow> rat res" where
  "sum_exact_decimal_rows rows canonical_field minimum = sum_exact_from 0 rows canonical_field minimum"

definition legacy_float :: "rat option \<Rightarrow> rat option" where
  "legacy_float value = map_option binary64 value"

section \<open>The migration\<close>

text \<open>
  A table is its column names and its rows with their rowid; the database maps table names to
  tables, \<open>schema_migrations\<close> lists the recorded versions.
\<close>

record sql_table =
  columns :: "string list"
  table_rows :: "(int \<times> pydict) list"

record migration_db =
  tables :: "string \<Rightarrow> sql_table option"
  schema_migrations :: "string list"

definition backfill_source :: "pydict \<Rightarrow> string \<Rightarrow> pyval" where
  "backfill_source row legacy = (if legacy = ''__zero__'' then PyDec (Fin 0)
     else if legacy = ''__unavailable__'' then PyNone else dget row legacy)"

fun backfill_updates :: "(string \<times> string) list \<Rightarrow> pydict \<Rightarrow> (string \<times> pyval) list" where
  "backfill_updates [] row = []"
| "backfill_updates ((canonical, legacy) # fs) row =
     (if \<not> blank (dget row canonical) then []
      else let source = backfill_source row legacy in
        if source = PyNone then []
        else case decimal_required source legacy None of
            Inl _ \<Rightarrow> []
          | Inr x \<Rightarrow> [(canonical, PyStr (dec_text x))]) @ backfill_updates fs row"

definition row_updates :: "(string \<times> string) list \<Rightarrow> pydict \<Rightarrow> (string \<times> pyval) list" where
  "row_updates fs row = (let updates = backfill_updates fs row in
     if updates \<noteq> [] \<or> blank (dget row ''decimal_provenance'')
     then updates @ [(''decimal_provenance'', PyStr RECONSTRUCTED_REAL_PROVENANCE),
                     (''decimal_accounting_version'', PyStr FIXED_POINT_ACCOUNTING_VERSION)]
     else updates)"

definition migrate_row :: "(string \<times> string) list \<Rightarrow> pydict \<Rightarrow> pydict" where
  "migrate_row fs row = row ++ map_of (rev (row_updates fs row))"

text \<open>\<open>ALTER TABLE ... ADD COLUMN\<close> gives every row a \<open>NULL\<close> in the new column.\<close>

definition add_column :: "string \<Rightarrow> sql_table \<Rightarrow> sql_table" where
  "add_column c t = (if c \<in> set (columns t) then t
     else t\<lparr>columns := columns t @ [c], table_rows := map (\<lambda>(i, r). (i, r(c \<mapsto> PyNone))) (table_rows t)\<rparr>)"

definition migrate_table :: "string list \<Rightarrow> (string \<times> string) list \<Rightarrow> sql_table \<Rightarrow> sql_table" where
  "migrate_table cols fs t = (let t' = fold add_column cols t
     in t'\<lparr>table_rows := map (\<lambda>(i, r). (i, migrate_row fs r)) (table_rows t')\<rparr>)"

definition backfill_fields :: "string \<Rightarrow> (string \<times> string) list" where
  "backfill_fields t = (case map_of BACKFILL_FIELDS t of None \<Rightarrow> [] | Some m \<Rightarrow> m)"

fun migrate_tables :: "(string \<times> (string \<times> string) list) list \<Rightarrow> (string \<Rightarrow> sql_table option)
    \<Rightarrow> (string \<Rightarrow> sql_table option)" where
  "migrate_tables [] db = db"
| "migrate_tables ((table, cols) # rest) db =
     (case db table of
        None \<Rightarrow> migrate_tables rest db
      | Some t \<Rightarrow> migrate_tables rest (db(table \<mapsto> migrate_table (map fst cols) (backfill_fields table) t)))"

definition apply_fixed_point_accounting_schema :: "migration_db \<Rightarrow> bool \<Rightarrow> migration_db" where
  "apply_fixed_point_accounting_schema db record_migration =
     (let db' = db\<lparr>tables := migrate_tables TABLE_DECIMAL_COLUMNS (tables db)\<rparr>
      in if record_migration \<and> FIXED_POINT_ACCOUNTING_SCHEMA_VERSION \<notin> set (schema_migrations db')
         then db'\<lparr>schema_migrations := schema_migrations db' @ [FIXED_POINT_ACCOUNTING_SCHEMA_VERSION]\<rparr>
         else db')"

section \<open>The integrity report\<close>

definition projection_matches :: "rat \<Rightarrow> pyval \<Rightarrow> bool" where
  "projection_matches canonical legacy =
     (if legacy = PyNone then True
      else case decimal_required legacy ''legacy projection'' None of
          Inl _ \<Rightarrow> False
        | Inr x \<Rightarrow> binary64 canonical = binary64 x)"

record fp_report =
  missing_canonical_evidence :: nat
  invalid_canonical_evidence :: nat
  legacy_projection_mismatch :: nat
  fifo_geometry_mismatch :: nat
  realized_formula_mismatch :: nat
  consumption_reconciliation_mismatch :: nat
  wrong_version_or_provenance :: nat

definition empty_report :: fp_report where
  "empty_report = \<lparr>missing_canonical_evidence = 0, invalid_canonical_evidence = 0,
     legacy_projection_mismatch = 0, fifo_geometry_mismatch = 0, realized_formula_mismatch = 0,
     consumption_reconciliation_mismatch = 0, wrong_version_or_provenance = 0\<rparr>"

definition has_decimal_evidence :: "(string \<times> string) list \<Rightarrow> pydict \<Rightarrow> bool" where
  "has_decimal_evidence mapping row = list_ex (\<lambda>(canonical, legacy).
     \<not> blank (dget row canonical)
     \<or> (legacy \<noteq> ''__zero__'' \<and> legacy \<noteq> ''__unavailable__'' \<and> \<not> blank (dget row legacy))) mapping"

definition known_provenance :: "pydict \<Rightarrow> bool" where
  "known_provenance row \<longleftrightarrow>
     (dget row ''decimal_provenance'' = PyStr EXACT_DECIMAL_PROVENANCE
       \<or> dget row ''decimal_provenance'' = PyStr RECONSTRUCTED_REAL_PROVENANCE)
     \<and> dget row ''decimal_accounting_version'' = PyStr FIXED_POINT_ACCOUNTING_VERSION"

definition nonnegative_fields :: "string \<Rightarrow> string list" where
  "nonnegative_fields t = (case map_of NONNEGATIVE_FIELDS t of None \<Rightarrow> [] | Some cs \<Rightarrow> cs)"

text \<open>The canonical value of a column: its text must parse, be canonical and respect its sign.\<close>

definition canonical_value :: "string \<Rightarrow> string \<Rightarrow> pyval \<Rightarrow> rat res" where
  "canonical_value table canonical raw =
     rbind (decimal_required raw (table @ ''.'' @ canonical) None) (\<lambda>x.
       if dec_text x \<noteq> py_str raw then Inl (ValueError ''decimal text is not canonical'')
       else if canonical \<in> set (nonnegative_fields table) \<and> x < 0 then Inl (ValueError ''negative value'')
       else Inr x)"

fun check_fields :: "string \<Rightarrow> pydict \<Rightarrow> (string \<times> string) list \<Rightarrow> (string \<Rightarrow> rat option) \<Rightarrow> fp_report
    \<Rightarrow> (string \<Rightarrow> rat option) \<times> fp_report" where
  "check_fields table row [] parsed rep = (parsed, rep)"
| "check_fields table row ((canonical, legacy) # fs) parsed rep =
     (let legacy_value = backfill_source row legacy; raw = dget row canonical in
      if blank raw
      then check_fields table row fs parsed
             (if legacy_value \<noteq> PyNone
              then rep\<lparr>missing_canonical_evidence := missing_canonical_evidence rep + 1\<rparr> else rep)
      else case canonical_value table canonical raw of
          Inl _ \<Rightarrow> check_fields table row fs parsed
             (rep\<lparr>invalid_canonical_evidence := invalid_canonical_evidence rep + 1\<rparr>)
        | Inr x \<Rightarrow> check_fields table row fs (parsed(canonical \<mapsto> x))
             (if legacy \<noteq> ''__zero__'' \<and> legacy \<noteq> ''__unavailable__'' \<and> \<not> projection_matches x legacy_value
              then rep\<lparr>legacy_projection_mismatch := legacy_projection_mismatch rep + 1\<rparr> else rep))"

text \<open>The columns a row of exact provenance must carry.\<close>

definition exact_required_fields :: "(string \<times> string list) list" where
  "exact_required_fields = [
    (''broker_fill_events'', [
      ''cumulative_filled_quantity_decimal'', ''delta_quantity_decimal'', ''fill_price_decimal'',
      ''fees_decimal'', ''adjustments_decimal'']),
    (''fills'', [
      ''qty_decimal'', ''price_decimal'']),
    (''position_lots'', [
      ''original_quantity_decimal'', ''remaining_quantity_decimal'', ''unit_cost_decimal'',
      ''fees_allocated_decimal'']),
    (''position_lifecycles'', [
      ''opening_quantity_decimal'', ''current_quantity_decimal'']),
    (''realized_pnl_events'', [
      ''quantity_decimal'', ''gross_proceeds_decimal'', ''fees_decimal'', ''adjustments_decimal'',
      ''remaining_position_quantity_decimal'']),
    (''lot_consumptions'', [
      ''quantity_decimal'', ''allocated_proceeds_decimal'', ''allocated_cost_basis_decimal'',
      ''allocated_buy_fees_decimal'', ''allocated_sell_fees_decimal'', ''allocated_adjustments_decimal'']),
    (''order_intents'', [
      ''approved_quantity_ceiling_decimal'', ''requested_quantity_decimal'',
      ''filled_quantity_decimal'', ''reference_price_decimal'', ''reserved_notional_decimal'',
      ''reserved_stop_risk_decimal'', ''canonical_quantity_decimal'', ''canonical_notional_decimal'',
      ''canonical_stop_risk_decimal'', ''incremental_risk_decimal'']),
    (''orders'', [
      ''qty_decimal'']),
    (''risk_reservations'', [
      ''initial_notional_decimal'', ''active_notional_decimal'', ''initial_stop_risk_decimal'',
      ''active_stop_risk_decimal'', ''incremental_risk_decimal'', ''risk_value_decimal'']),
    (''order_events'', []),
    (''cash_snapshots'', [
      ''equity_decimal'', ''cash_decimal'', ''settled_cash_decimal'']),
    (''risk_snapshots_v2'', [
      ''portfolio_equity_decimal'', ''filled_gross_exposure_decimal'', ''filled_net_exposure_decimal'',
      ''active_reserved_exposure_decimal'', ''projected_gross_exposure_decimal'',
      ''held_open_stop_risk_decimal'', ''active_reserved_stop_risk_decimal'',
      ''projected_total_open_risk_decimal'', ''unresolved_unknown_exposure_decimal'',
      ''buying_power_decimal'', ''cash_decimal'']),
    (''rotation_groups'', [
      ''estimated_release_notional_decimal'', ''actual_released_notional_decimal'',
      ''actual_released_risk_decimal'', ''reconciled_cash_decimal'', ''reconciled_buying_power_decimal'']),
    (''rotation_steps'', [
      ''requested_quantity_decimal'', ''filled_quantity_decimal'', ''filled_notional_decimal'',
      ''released_risk_decimal'']),
    (''rotation_contingent_entries'', [
      ''displayed_max_quantity_decimal'', ''displayed_max_notional_decimal'',
      ''displayed_max_stop_risk_decimal'', ''final_quantity_decimal'', ''final_notional_decimal'',
      ''final_stop_risk_decimal'']),
    (''take_profit_milestones'', [
      ''target_quantity_decimal'', ''cumulative_filled_quantity_decimal'',
      ''completed_fraction_decimal'']),
    (''take_profit_milestone_actions'', [
      ''requested_quantity_decimal'', ''cumulative_filled_quantity_decimal'',
      ''completed_fraction_decimal'']),
    (''take_profit_milestone_fill_links'', [
      ''delta_quantity_decimal'', ''cumulative_intent_quantity_decimal'', ''fill_price_decimal'']),
    (''trade_outcomes'', [
      ''entry_price_decimal'', ''quantity_decimal'', ''notional_decimal'']),
    (''performance_setups'', []),
    (''performance_outcomes'', [
      ''entry_price_decimal'', ''entry_qty_decimal'', ''entry_notional_decimal''])]"

definition optional_exact_fields :: "(string \<times> string list) list" where
  "optional_exact_fields = [
    (''order_intents'', [
      ''approved_notional_ceiling_decimal'', ''requested_notional_decimal'',
      ''average_fill_price_decimal'', ''intended_stop_price_decimal'', ''initial_risk_dollars_decimal'']),
    (''orders'', [
      ''notional_decimal'']),
    (''risk_reservations'', [
      ''conversion_equity_decimal'']),
    (''order_events'', [
      ''filled_quantity_decimal'', ''fill_price_decimal'']),
    (''position_lifecycles'', [
      ''average_entry_price_decimal'']),
    (''realized_pnl_events'', [
      ''cost_basis_decimal'', ''remaining_position_quantity_decimal'']),
    (''rotation_groups'', [
      ''reconciled_cash_decimal'', ''reconciled_buying_power_decimal'']),
    (''rotation_contingent_entries'', [
      ''final_quantity_decimal'', ''final_notional_decimal'', ''final_stop_risk_decimal'']),
    (''performance_setups'', [
      ''fill_price_decimal'', ''fill_qty_decimal'']),
    (''performance_outcomes'', [
      ''entry_price_decimal'', ''entry_qty_decimal'', ''entry_notional_decimal''])]"

definition fields_of :: "(string \<times> string list) list \<Rightarrow> string \<Rightarrow> string list" where
  "fields_of m t = (case map_of m t of None \<Rightarrow> [] | Some cs \<Rightarrow> cs)"

definition optional_present :: "pydict \<Rightarrow> string \<Rightarrow> bool" where
  "optional_present row field \<longleftrightarrow>
     \<not> blank (dget row field) \<or> dget row (without_suffix ''_decimal'' field) \<noteq> PyNone"

definition exact_required :: "string \<Rightarrow> pydict \<Rightarrow> (string \<Rightarrow> rat option) \<Rightarrow> string list" where
  "exact_required table row parsed =
     (let base = fields_of exact_required_fields table;
          opt = filter (optional_present row) (fields_of optional_exact_fields table);
          fill = (if table = ''order_intents''
              \<and> (case parsed ''filled_quantity_decimal'' of None \<Rightarrow> 0 | Some q \<Rightarrow> q) > 0
            then [''average_fill_price_decimal''] else []);
          conf = py_str (py_or (dget row ''confidence'') (PyStr []));
          known = (conf = ''verified'' \<or> conf = ''reconstructed'');
          realized = (if table = ''realized_pnl_events'' \<and> known
              then [''realized_pl_decimal'', ''cost_basis_decimal'']
            else if table = ''lot_consumptions'' \<and> known then [''realized_pnl_decimal''] else [])
      in fold List.insert (opt @ fill @ realized) base)"

definition check_exact :: "string \<Rightarrow> pydict \<Rightarrow> (string \<Rightarrow> rat option) \<Rightarrow> fp_report \<Rightarrow> fp_report" where
  "check_exact table row parsed rep =
     (if dget row ''decimal_provenance'' = PyStr EXACT_DECIMAL_PROVENANCE
      then rep\<lparr>missing_canonical_evidence := missing_canonical_evidence rep
             + count_where (\<lambda>f. blank (dget row f)) (exact_required table row parsed)\<rparr>
      else rep)"

definition lot_geometry_bad :: "(string \<Rightarrow> rat option) \<Rightarrow> bool" where
  "lot_geometry_bad parsed = (case parsed ''original_quantity_decimal'' of
     None \<Rightarrow> False
   | Some original \<Rightarrow> original \<le> 0 \<or> (case parsed ''remaining_quantity_decimal'' of
         None \<Rightarrow> True | Some remaining \<Rightarrow> remaining < 0 \<or> remaining > original))"

definition event_formula_bad :: "(string \<Rightarrow> rat option) \<Rightarrow> bool" where
  "event_formula_bad parsed =
     (case (parsed ''gross_proceeds_decimal'', parsed ''cost_basis_decimal'', parsed ''fees_decimal'',
            parsed ''adjustments_decimal'', parsed ''realized_pl_decimal'') of
        (Some proceeds, Some basis, Some fees, Some adjustments, Some realized) \<Rightarrow>
          realized \<noteq> dadd (dsub (dsub proceeds basis) fees) adjustments
      | _ \<Rightarrow> False)"

definition consumption_formula_bad :: "(string \<Rightarrow> rat option) \<Rightarrow> bool" where
  "consumption_formula_bad parsed =
     (case (parsed ''allocated_proceeds_decimal'', parsed ''allocated_cost_basis_decimal'',
            parsed ''allocated_buy_fees_decimal'', parsed ''allocated_sell_fees_decimal'',
            parsed ''allocated_adjustments_decimal'', parsed ''realized_pnl_decimal'') of
        (Some proceeds, Some basis, Some buy_fees, Some sell_fees, Some adjustments, Some realized) \<Rightarrow>
          realized \<noteq> dadd (dsub (dsub (dsub proceeds basis) buy_fees) sell_fees) adjustments
      | _ \<Rightarrow> False)"

definition check_arithmetic :: "string \<Rightarrow> (string \<Rightarrow> rat option) \<Rightarrow> fp_report \<Rightarrow> fp_report" where
  "check_arithmetic table parsed rep =
     (if table = ''position_lots'' then
        (if lot_geometry_bad parsed
         then rep\<lparr>fifo_geometry_mismatch := fifo_geometry_mismatch rep + 1\<rparr> else rep)
      else if table = ''realized_pnl_events'' then
        (if event_formula_bad parsed
         then rep\<lparr>realized_formula_mismatch := realized_formula_mismatch rep + 1\<rparr> else rep)
      else if table = ''lot_consumptions'' then
        (if consumption_formula_bad parsed
         then rep\<lparr>realized_formula_mismatch := realized_formula_mismatch rep + 1\<rparr> else rep)
      else rep)"

definition check_row :: "string \<Rightarrow> pydict \<Rightarrow> fp_report \<Rightarrow> fp_report" where
  "check_row table row rep =
     (let mapping = backfill_fields table;
          rep1 = (if has_decimal_evidence mapping row \<and> \<not> known_provenance row
            then rep\<lparr>wrong_version_or_provenance := wrong_version_or_provenance rep + 1\<rparr> else rep);
          pr = check_fields table row mapping Map.empty rep1
      in check_arithmetic table (fst pr) (check_exact table row (fst pr) (snd pr)))"

text \<open>The event totals against the totals of the consumptions with its broker event key.\<close>

definition sum_column :: "string \<Rightarrow> pydict list \<Rightarrow> rat res" where
  "sum_column c rows = rbind (res_map (\<lambda>r. decimal_required (dget r c) c None) rows) (\<lambda>xs. Inr (dsum xs))"

definition sum_basis :: "pydict list \<Rightarrow> rat res" where
  "sum_basis rows = rbind (res_map (\<lambda>r.
       rbind (decimal_required (dget r ''allocated_cost_basis_decimal'') ''consumption.basis'' None) (\<lambda>b.
       rbind (decimal_required (dget r ''allocated_buy_fees_decimal'') ''consumption.buy_fees'' None) (\<lambda>f.
         Inr (dadd b f)))) rows) (\<lambda>xs. Inr (dsum xs))"

definition expected_totals :: "pydict \<Rightarrow> rat list res" where
  "expected_totals event = res_map (\<lambda>c. decimal_required (dget event c) c None)
     [''quantity_decimal'', ''gross_proceeds_decimal'', ''cost_basis_decimal'', ''fees_decimal'',
      ''adjustments_decimal'', ''realized_pl_decimal'']"

definition actual_totals :: "pydict list \<Rightarrow> rat list res" where
  "actual_totals rows =
     rbind (sum_column ''quantity_decimal'' rows) (\<lambda>q.
     rbind (sum_column ''allocated_proceeds_decimal'' rows) (\<lambda>p.
     rbind (sum_basis rows) (\<lambda>b.
     rbind (sum_column ''allocated_sell_fees_decimal'' rows) (\<lambda>f.
     rbind (sum_column ''allocated_adjustments_decimal'' rows) (\<lambda>a.
     rbind (sum_column ''realized_pnl_decimal'' rows) (\<lambda>r. Inr [q, p, b, f, a, r]))))))"

definition event_key :: "pydict \<Rightarrow> string" where
  "event_key row = py_str (py_or (dget row ''broker_event_key'') (PyStr []))"

definition event_reconciles :: "pydict \<Rightarrow> pydict list \<Rightarrow> bool" where
  "event_reconciles event consumptions =
     (let rows = filter (\<lambda>r. event_key r = event_key event) consumptions in
      case rbind (expected_totals event) (\<lambda>e. rbind (actual_totals rows) (\<lambda>a. Inr (e = a))) of
        Inl _ \<Rightarrow> False | Inr ok \<Rightarrow> ok)"

definition check_event :: "pydict list \<Rightarrow> pydict \<Rightarrow> fp_report \<Rightarrow> fp_report" where
  "check_event consumptions event rep =
     (if blank (dget event ''realized_pl_decimal'') \<or> event_reconciles event consumptions then rep
      else rep\<lparr>consumption_reconciliation_mismatch := consumption_reconciliation_mismatch rep + 1\<rparr>)"

definition rows_of :: "(string \<Rightarrow> pydict list option) \<Rightarrow> string \<Rightarrow> pydict list" where
  "rows_of db t = (case db t of None \<Rightarrow> [] | Some rs \<Rightarrow> rs)"

definition fixed_point_integrity_report :: "(string \<Rightarrow> pydict list option) \<Rightarrow> fp_report" where
  "fixed_point_integrity_report db =
     (let rep = fold (\<lambda>t rep. fold (check_row t) (rows_of db t) rep) (map fst BACKFILL_FIELDS) empty_report
      in fold (check_event (rows_of db ''lot_consumptions'')) (rows_of db ''realized_pnl_events'') rep)"

section \<open>Lemmas on the readers\<close>

lemma decimal_value_not_None: "decimal_value v f m False \<noteq> Inr None"
  by (auto simp: decimal_value_def split: option.splits pydec.splits)

lemma decimal_value_Some_iff:
  "decimal_value v f m an = Inr (Some x) \<longleftrightarrow>
     v \<noteq> PyNone \<and> \<not> (case v of PyBool b \<Rightarrow> True | PyStr s \<Rightarrow> strip s = [] | _ \<Rightarrow> False)
     \<and> to_pydec v = Some (Fin x) \<and> (\<forall>b. m = Some b \<longrightarrow> b \<le> x)"
  by (auto simp: decimal_value_def split: option.splits pydec.splits)

lemma decimal_required_iff [result_simps]:
  "decimal_required v f m = Inr x \<longleftrightarrow> decimal_value v f m False = Inr (Some x)"
  by (cases "decimal_value v f m False")
    (auto simp: decimal_required_def decimal_value_not_None split: option.splits)

lemma decimal_required_minimum: "decimal_required v f (Some b) = Inr x \<Longrightarrow> b \<le> x"
  by (simp add: result_simps decimal_value_Some_iff)

lemma decimal_required_is_decimal: "wf_pyval v \<Longrightarrow> decimal_required v f m = Inr x \<Longrightarrow> is_decimal x"
  by (auto simp: result_simps decimal_value_Some_iff intro: to_pydec_is_decimal)

lemma decimal_value_text:
  assumes "is_decimal x"
  shows "decimal_value (PyStr (dec_text x)) f None an = Inr (Some x)"
  using assms by (simp add: decimal_value_Some_iff strip_dec_text dec_text_nonempty parse_dec_text)

lemma decimal_required_text:
  assumes "is_decimal x"
  shows "decimal_required (PyStr (dec_text x)) f None = Inr x"
  by (simp add: result_simps decimal_value_text [OF assms])

lemma decimal_required_dec: "decimal_required (PyDec (Fin x)) f None = Inr x"
  by (simp add: result_simps decimal_value_Some_iff)

lemma not_blank_text: "is_decimal x \<Longrightarrow> \<not> blank (PyStr (dec_text x))"
  by (simp add: blank_def dec_text_nonempty)

lemma require_exact_Some:
  assumes "require_exact_decimal row c m an = Inr (Some x)"
  shows "dget row c = PyStr (dec_text x) \<and> (\<forall>b. m = Some b \<longrightarrow> b \<le> x)"
  using assms
  by (auto simp: require_exact_decimal_def Let_def result_simps decimal_value_Some_iff
      split: if_splits pyval.splits option.splits)

lemma sum_exact_from_values:
  "sum_exact_from acc rows c m = Inr s \<Longrightarrow>
     \<exists>xs. list_all2 (\<lambda>r x. require_exact_decimal r c m False = Inr (Some x)) rows xs \<and> s = foldl dadd acc xs"
proof (induction rows arbitrary: acc)
  case Nil
  then show ?case by auto
next
  case (Cons r rows)
  then obtain x where x: "require_exact_decimal r c m False = Inr (Some x)"
    and rest: "sum_exact_from (dadd acc x) rows c m = Inr s"
    by (auto simp: result_simps split: option.splits)
  from Cons.IH [OF rest] obtain xs where
    "list_all2 (\<lambda>r x. require_exact_decimal r c m False = Inr (Some x)) rows xs" "s = foldl dadd (dadd acc x) xs"
    by blast
  then show ?case using x by (intro exI [of _ "x # xs"]) simp
qed

section \<open>Lemmas on the migration\<close>

text \<open>
  What the migration needs of the column tables: legacy columns are never canonical or provenance
  columns, and no canonical column occurs twice.
\<close>

definition good_mapping :: "(string \<times> string) list \<Rightarrow> bool" where
  "good_mapping fs \<longleftrightarrow> distinct (map fst fs)
     \<and> list_all (\<lambda>(c, l). \<not> provenance_column c \<and> \<not> provenance_column l \<and> l \<notin> set (map fst fs)) fs"

lemma good_mappingD:
  "good_mapping fs \<Longrightarrow> (c, l) \<in> set fs \<Longrightarrow> \<not> provenance_column c \<and> \<not> provenance_column l \<and> l \<notin> set (map fst fs)"
  unfolding good_mapping_def list_all_iff by fast

lemma good_backfill_fields: "list_all (\<lambda>(t, m). good_mapping m) BACKFILL_FIELDS"
  by code_simp

lemma good_mapping_backfill [simp]: "good_mapping (backfill_fields t)"
proof (cases "map_of BACKFILL_FIELDS t")
  case None
  then show ?thesis by (simp add: backfill_fields_def good_mapping_def)
next
  case (Some m)
  then have "(t, m) \<in> set BACKFILL_FIELDS" by (rule map_of_SomeD)
  then show ?thesis using good_backfill_fields Some by (auto simp: backfill_fields_def list_all_iff)
qed

lemma backfill_updates_set:
  "(k, v) \<in> set (backfill_updates fs row) \<longleftrightarrow>
     (\<exists>l x. (k, l) \<in> set fs \<and> blank (dget row k) \<and> backfill_source row l \<noteq> PyNone
        \<and> decimal_required (backfill_source row l) l None = Inr x \<and> v = PyStr (dec_text x))"
proof (induction fs row rule: backfill_updates.induct)
  case (2 c l fs row)
  then show ?case by (cases "decimal_required (backfill_source row l) l None") (auto simp: Let_def)
qed simp

lemma backfill_updates_keys: "set (map fst (backfill_updates fs row)) \<subseteq> set (map fst fs)"
  by (induction fs row rule: backfill_updates.induct) (auto simp: Let_def split: sum.splits)

lemma backfill_updates_distinct:
  "distinct (map fst fs) \<Longrightarrow> distinct (map fst (backfill_updates fs row))"
proof (induction fs row rule: backfill_updates.induct)
  case (2 c l fs row)
  then show ?case using backfill_updates_keys [of fs row] by (auto simp: Let_def split: sum.splits)
qed simp

lemma row_updates_keys: "k \<in> fst ` set (row_updates fs row) \<Longrightarrow> k \<in> set (map fst fs) \<or> provenance_column k"
  using backfill_updates_keys [of fs row] by (auto simp: row_updates_def Let_def provenance_column_def split: if_splits)

lemma migrate_row_other:
  "k \<notin> set (map fst fs) \<Longrightarrow> \<not> provenance_column k \<Longrightarrow> dget (migrate_row fs row) k = dget row k"
proof -
  assume "k \<notin> set (map fst fs)" "\<not> provenance_column k"
  then have "map_of (rev (row_updates fs row)) k = None"
    using row_updates_keys [of k fs row] by (auto simp: map_of_eq_None_iff)
  then show ?thesis by (simp add: migrate_row_def dget_def map_add_def)
qed

lemma migrate_row_canonical:
  assumes good: "good_mapping fs" and c: "(c, l) \<in> set fs"
  shows "dget (migrate_row fs row) c =
    (if blank (dget row c) \<and> backfill_source row l \<noteq> PyNone
     then case decimal_required (backfill_source row l) l None of
         Inl _ \<Rightarrow> dget row c | Inr x \<Rightarrow> PyStr (dec_text x)
     else dget row c)"
proof -
  have np: "\<not> provenance_column c" and dist: "distinct (map fst fs)"
    using good c by (auto simp: good_mapping_def list_all_iff)
  have un: "l' = l" if "(c, l') \<in> set fs" for l'
    using that c dist by (metis eq_key_imp_eq_value)
  have look: "map_of (rev (row_updates fs row)) c = map_of (backfill_updates fs row) c"
  proof -
    have "map_of (rev (backfill_updates fs row)) = map_of (backfill_updates fs row)"
      using backfill_updates_distinct [OF dist] by (subst map_of_inject_set) (auto simp: rev_map [symmetric])
    then show ?thesis using np
      by (auto simp: row_updates_def Let_def provenance_column_def map_add_def split: option.splits)
  qed
  show ?thesis
  proof (cases "map_of (backfill_updates fs row) c")
    case None
    then have "(c, v) \<notin> set (backfill_updates fs row)" for v
      by (auto simp: map_of_eq_None_iff image_iff)
    then have "\<not> (blank (dget row c) \<and> backfill_source row l \<noteq> PyNone
        \<and> (\<exists>x. decimal_required (backfill_source row l) l None = Inr x))"
      using c by (auto simp: backfill_updates_set)
    moreover have "dget (migrate_row fs row) c = dget row c"
      using None look by (simp add: migrate_row_def dget_def map_add_def)
    ultimately show ?thesis by (auto split: sum.splits)
  next
    case (Some v)
    then have "(c, v) \<in> set (backfill_updates fs row)" by (rule map_of_SomeD)
    then show ?thesis using un Some look
      by (auto simp: backfill_updates_set migrate_row_def dget_def map_add_def)
  qed
qed

lemma migrate_row_keeps:
  assumes "good_mapping fs" and "\<not> blank (dget row k)" and "\<not> provenance_column k"
  shows "dget (migrate_row fs row) k = dget row k"
proof (cases "k \<in> set (map fst fs)")
  case True
  then obtain l where "(k, l) \<in> set fs" by auto
  from migrate_row_canonical [OF assms(1) this] show ?thesis using assms(2) by simp
next
  case False
  then show ?thesis using migrate_row_other assms(3) by blast
qed

lemma migrate_row_source:
  assumes "good_mapping fs" and "(c, l) \<in> set fs"
  shows "backfill_source (migrate_row fs row) l = backfill_source row l"
proof -
  have "l \<notin> set (map fst fs)" "\<not> provenance_column l"
    using assms by (auto simp: good_mapping_def list_all_iff)
  then show ?thesis by (simp add: backfill_source_def migrate_row_other)
qed

lemma provenance_lookup:
  assumes "good_mapping fs"
  shows "dget (migrate_row fs row) ''decimal_provenance'' =
      (if row_updates fs row = [] then dget row ''decimal_provenance'' else PyStr RECONSTRUCTED_REAL_PROVENANCE)"
    and "dget (migrate_row fs row) ''decimal_accounting_version'' =
      (if row_updates fs row = [] then dget row ''decimal_accounting_version'' else PyStr FIXED_POINT_ACCOUNTING_VERSION)"
  by (simp_all add: migrate_row_def row_updates_def Let_def dget_def map_add_def)

lemma wf_source_decimal:
  "wf_pyval (backfill_source row l) \<Longrightarrow> decimal_required (backfill_source row l) l None = Inr x \<Longrightarrow> is_decimal x"
  by (rule decimal_required_is_decimal)

definition wf_row :: "pydict \<Rightarrow> bool" where
  "wf_row row \<longleftrightarrow> (\<forall>v\<in>ran row. wf_pyval v)"

lemma wf_row_dget: "wf_row row \<Longrightarrow> wf_pyval (dget row k)"
  by (auto simp: wf_row_def dget_def ran_def split: option.splits)

lemma wf_row_source: "wf_row row \<Longrightarrow> wf_pyval (backfill_source row l)"
  by (auto simp: backfill_source_def wf_row_dget is_decimal_def)

lemma second_updates_empty:
  assumes good: "good_mapping fs" and wf: "wf_row row"
  shows "row_updates fs (migrate_row fs row) = []"
proof -
  have "(c, v) \<notin> set (backfill_updates fs (migrate_row fs row))" for c v
  proof
    assume "(c, v) \<in> set (backfill_updates fs (migrate_row fs row))"
    then obtain l x where cl: "(c, l) \<in> set fs" and b: "blank (dget (migrate_row fs row) c)"
      and src: "backfill_source row l \<noteq> PyNone" "decimal_required (backfill_source row l) l None = Inr x"
      by (auto simp: backfill_updates_set migrate_row_source [OF good])
    have "is_decimal x" using wf_source_decimal [OF wf_row_source [OF wf] src(2)] .
    moreover have "blank (dget row c)"
      using b migrate_row_keeps [OF good, of row c] good_mappingD [OF good cl] by auto
    ultimately show False
      using b src migrate_row_canonical [OF good cl, of row] by (simp add: not_blank_text)
  qed
  then have e: "backfill_updates fs (migrate_row fs row) = []"
    by (metis list.set_intros(1) neq_Nil_conv surj_pair)
  have "\<not> blank (dget (migrate_row fs row) ''decimal_provenance'')"
    by (auto simp: provenance_lookup [OF good] row_updates_def Let_def blank_def RECONSTRUCTED_REAL_PROVENANCE_def
        split: if_splits)
  then show ?thesis by (simp add: row_updates_def e)
qed

lemma migrate_row_idem: "good_mapping fs \<Longrightarrow> wf_row row \<Longrightarrow> migrate_row fs (migrate_row fs row) = migrate_row fs row"
  using second_updates_empty [of fs row] by (simp add: migrate_row_def [of fs "migrate_row fs row"])

text \<open>A table whose rows only have values in its columns.\<close>

definition wf_table :: "sql_table \<Rightarrow> bool" where
  "wf_table t \<longleftrightarrow> (\<forall>(i, r)\<in>set (table_rows t). wf_row r \<and> dom r \<subseteq> set (columns t))"

lemma wf_row_update: "wf_row r \<Longrightarrow> wf_row (r(c \<mapsto> PyNone))"
  by (auto simp: wf_row_def ran_def)

lemma wf_add_column: "wf_table t \<Longrightarrow> wf_table (add_column c t)"
  by (auto simp: wf_table_def add_column_def wf_row_update split: prod.splits) force+

lemma wf_add_columns: "wf_table t \<Longrightarrow> wf_table (fold add_column cs t)"
  by (induction cs arbitrary: t) (auto simp: wf_add_column)

lemma columns_add_columns: "set (columns (fold add_column cs t)) = set (columns t) \<union> set cs"
  by (induction cs arbitrary: t) (auto simp: add_column_def)

lemma add_columns_present: "set cs \<subseteq> set (columns t) \<Longrightarrow> fold add_column cs t = t"
  by (induction cs) (auto simp: add_column_def)

lemma add_column_rows:
  "wf_table t \<Longrightarrow> list_all2 (\<lambda>(i, r) (j, r'). i = j \<and> (\<forall>k. dget r' k = dget r k)) (table_rows t) (table_rows (add_column c t))"
proof (cases "c \<in> set (columns t)")
  case True
  then show ?thesis by (simp add: add_column_def list_all2_same split_def)
next
  case False
  assume wf: "wf_table t"
  have "dget r c = PyNone" if "(i, r) \<in> set (table_rows t)" for i r
  proof -
    have "dom r \<subseteq> set (columns t)" using wf that unfolding wf_table_def by fast
    then have "r c = None" using False by blast
    then show ?thesis by (simp add: dget_def)
  qed
  then have "list_all2 (\<lambda>(i, r) (j, r'). i = j \<and> (\<forall>k. dget r' k = dget r k)) (table_rows t)
      (map (\<lambda>(i, r). (i, r(c \<mapsto> PyNone))) (table_rows t))"
    by (subst list_all2_map2) (auto simp: list_all2_same split_def)
  then show ?thesis using False by (simp add: add_column_def)
qed

lemma add_columns_rows:
  "wf_table t \<Longrightarrow> list_all2 (\<lambda>(i, r) (j, r'). i = j \<and> (\<forall>k. dget r' k = dget r k))
     (table_rows t) (table_rows (fold add_column cs t))"
proof (induction cs arbitrary: t)
  case Nil
  show ?case by (simp add: list_all2_same split_def)
next
  case (Cons c cs)
  have "list_all2 (\<lambda>(i, r) (j, r'). i = j \<and> (\<forall>k. dget r' k = dget r k))
     (table_rows (add_column c t)) (table_rows (fold add_column cs (add_column c t)))"
    by (rule Cons.IH) (rule wf_add_column [OF Cons.prems])
  from list_all2_trans [OF _ add_column_rows [OF Cons.prems] this] show ?case by auto
qed

lemma migrate_table_idem:
  assumes wf: "wf_table t" and good: "good_mapping fs"
  shows "migrate_table cs fs (migrate_table cs fs t) = migrate_table cs fs t"
proof -
  let ?t = "fold add_column cs t"
  have w: "wf_table ?t" by (rule wf_add_columns [OF wf])
  have cols: "set cs \<subseteq> set (columns (migrate_table cs fs t))"
    by (simp add: migrate_table_def Let_def columns_add_columns)
  have "map (\<lambda>(i, r). (i, migrate_row fs r)) (map (\<lambda>(i, r). (i, migrate_row fs r)) (table_rows ?t))
      = map (\<lambda>(i, r). (i, migrate_row fs r)) (table_rows ?t)"
    using w migrate_row_idem [OF good] by (auto simp: wf_table_def)
  then show ?thesis
    using add_columns_present [OF cols] by (simp add: migrate_table_def Let_def)
qed

lemma migrate_tables_lookup:
  "distinct (map fst ts) \<Longrightarrow> migrate_tables ts db t =
    (case map_of ts t of None \<Rightarrow> db t
     | Some cs \<Rightarrow> map_option (migrate_table (map fst cs) (backfill_fields t)) (db t))"
proof (induction ts db rule: migrate_tables.induct)
  case (2 table cols rest db)
  then have "table \<notin> dom (map_of rest)" by (simp add: dom_map_of_conv_image_fst)
  then have none: "map_of rest table = None" by (simp add: domIff)
  show ?case
  proof (cases "db table")
    case None
    then show ?thesis using 2 none by (auto split: option.splits)
  next
    case (Some T)
    from "2.IH"(2) [OF Some] "2.prems" show ?thesis
      using Some none by (simp add: fun_upd_def split: option.split)
  qed
qed simp

lemma distinct_tables: "distinct (map fst TABLE_DECIMAL_COLUMNS)"
  by code_simp

lemmas migrated_table = migrate_tables_lookup [OF distinct_tables]

lemma apply_schema_tables:
  "tables (apply_fixed_point_accounting_schema db b) = migrate_tables TABLE_DECIMAL_COLUMNS (tables db)"
  by (simp add: apply_fixed_point_accounting_schema_def Let_def)

lemma check_fields_clean:
  assumes "\<And>c l. (c, l) \<in> set fs \<Longrightarrow>
      (blank (dget row c) \<and> backfill_source row l = PyNone)
      \<or> (\<exists>x. \<not> blank (dget row c) \<and> canonical_value table c (dget row c) = Inr x
           \<and> projection_matches x (backfill_source row l))"
  shows "snd (check_fields table row fs parsed rep) = rep"
  using assms
proof (induction fs arbitrary: parsed)
  case (Cons f fs)
  obtain c l where f: "f = (c, l)" by fastforce
  have IH: "snd (check_fields table row fs p rep) = rep" for p
    by (rule Cons.IH) (use Cons.prems in auto)
  from Cons.prems [of c l] show ?case using IH by (auto simp: f Let_def)
qed simp

lemma check_arithmetic_other:
  "missing_canonical_evidence (check_arithmetic t p rep) = missing_canonical_evidence rep"
  "invalid_canonical_evidence (check_arithmetic t p rep) = invalid_canonical_evidence rep"
  "legacy_projection_mismatch (check_arithmetic t p rep) = legacy_projection_mismatch rep"
  "wrong_version_or_provenance (check_arithmetic t p rep) = wrong_version_or_provenance rep"
  by (simp_all add: check_arithmetic_def)

lemma projection_of_source:
  assumes "decimal_required v f None = Inr x"
  shows "projection_matches x v"
proof -
  have "decimal_required v ''legacy projection'' None = Inr x"
    using assms by (simp add: result_simps decimal_value_Some_iff)
  then show ?thesis by (simp add: projection_matches_def)
qed

section \<open>Properties\<close>

text \<open>C33: the canonical text of a finite decimal is read back as exactly that decimal, by the
  parser and by the strict reader of authoritative columns.\<close>

theorem canonical_text_roundtrip:
  assumes "is_decimal x"
  shows "decimal_text (PyDec (Fin x)) = Inr (dec_text x)
    \<and> decimal_value (PyStr (dec_text x)) field None allow_none = Inr (Some x)
    \<and> require_exact_decimal [column \<mapsto> PyStr (dec_text x)] column None False = Inr (Some x)"
  by (simp add: decimal_text_def decimal_required_dec decimal_value_text [OF assms]
      require_exact_decimal_def not_blank_text [OF assms])

theorem canonical_text_roundtrip_witness:
  "decimal_text (PyDec (Fin (- (5/4)))) = Inr ''-1.25''
    \<and> decimal_value (PyStr ''-1.25'') ''qty'' None False = Inr (Some (- (5/4)))"
proof -
  have d: "is_decimal (- (5/4))" by (rule is_decimalI [of _ "-125" "-2"]) (simp add: power_int_def power2_eq_square)
  have t: "dec_text (- (5/4)) = ''-1.25''" by code_simp
  from canonical_text_roundtrip [OF d, of "''qty''" False "''qty_decimal''"] show ?thesis by (simp add: t)
qed

text \<open>the strict reader never falls back to another column: the value it returns is the one
  whose canonical text stands in the column, it respects the minimum, and a row that agrees on that
  column is read alike whatever its other columns hold.\<close>

theorem exact_reader_is_canonical:
  assumes "require_exact_decimal row column minimum allow_none = Inr (Some x)"
  shows "dget row column = PyStr (dec_text x) \<and> (\<forall>b. minimum = Some b \<longrightarrow> b \<le> x)
    \<and> (\<forall>row'. dget row' column = dget row column
        \<longrightarrow> require_exact_decimal row' column minimum allow_none = Inr (Some x))"
  using require_exact_Some [OF assms] assms by (simp add: require_exact_decimal_def)

theorem exact_reader_is_canonical_witness:
  "dget [''qty'' \<mapsto> PyFloat (Fin 3), ''qty_decimal'' \<mapsto> PyStr ''2.5''] ''qty_decimal'' = PyStr (dec_text (5/2))
    \<and> require_exact_decimal [''qty_decimal'' \<mapsto> PyStr ''2.50''] ''qty_decimal'' None False
        = Inl (ValueError ''qty_decimal exact decimal evidence is not canonical'')"
proof
  have "require_exact_decimal [''qty'' \<mapsto> PyFloat (Fin 3), ''qty_decimal'' \<mapsto> PyStr ''2.5''] ''qty_decimal''
      (Some 0) False = Inr (Some (5/2))" by code_simp
  from exact_reader_is_canonical [OF this]
  show "dget [''qty'' \<mapsto> PyFloat (Fin 3), ''qty_decimal'' \<mapsto> PyStr ''2.5''] ''qty_decimal'' = PyStr (dec_text (5/2))"
    by blast
qed code_simp

text \<open>A sum of authoritative rows that succeeds has read canonical text of a non-negative
  decimal in every row, is the left-to-right sum of those decimals in the decimal context, and is
  not negative.\<close>

theorem sum_exact_rows_authoritative:
  assumes "sum_exact_decimal_rows rows column (Some 0) = Inr s"
  shows "\<exists>xs. list_all2 (\<lambda>row x. dget row column = PyStr (dec_text x) \<and> 0 \<le> x) rows xs
    \<and> s = dsum xs \<and> 0 \<le> s"
proof -
  from sum_exact_from_values [OF assms [unfolded sum_exact_decimal_rows_def]] obtain xs where
    xs: "list_all2 (\<lambda>r x. require_exact_decimal r column (Some 0) False = Inr (Some x)) rows xs"
    and s: "s = foldl dadd 0 xs" by blast
  have all: "list_all2 (\<lambda>row x. dget row column = PyStr (dec_text x) \<and> 0 \<le> x) rows xs"
    by (rule list_all2_mono [OF xs]) (auto dest: require_exact_Some)
  then have "0 \<le> x" if "x \<in> set xs" for x
    using that by (auto simp: list_all2_conv_all_nth in_set_conv_nth)
  then have "0 \<le> s" unfolding s by (simp add: foldl_dadd_nonneg)
  then show ?thesis using all s by (auto simp: dsum_def)
qed

theorem sum_exact_rows_authoritative_witness:
  "\<exists>xs. list_all2 (\<lambda>row x. dget row ''qty_decimal'' = PyStr (dec_text x) \<and> 0 \<le> x)
      [[''qty_decimal'' \<mapsto> PyStr ''1.5''], [''qty_decimal'' \<mapsto> PyStr ''0.25'']] xs
    \<and> (7/4 :: rat) = dsum xs \<and> (0::rat) \<le> 7/4"
  by (rule sum_exact_rows_authoritative) code_simp

text \<open>C34: the migration is idempotent: applied to a database it has migrated it changes nothing.\<close>

theorem migration_idempotent:
  assumes "\<forall>t T. tables db t = Some T \<longrightarrow> wf_table T"
  shows "apply_fixed_point_accounting_schema (apply_fixed_point_accounting_schema db b) b
    = apply_fixed_point_accounting_schema db b"
proof -
  let ?m = "migrate_tables TABLE_DECIMAL_COLUMNS"
  have "?m (?m (tables db)) t = ?m (tables db) t" for t
    using assms by (auto simp: migrated_table migrate_table_idem option.map_comp
        intro!: option.map_cong split: option.splits)
  then have "?m (?m (tables db)) = ?m (tables db)" by blast
  then show ?thesis by (auto simp: apply_fixed_point_accounting_schema_def Let_def)
qed

theorem migration_idempotent_witness:
  "apply_fixed_point_accounting_schema (apply_fixed_point_accounting_schema
      \<lparr>tables = [''fills'' \<mapsto> \<lparr>columns = [''qty''], table_rows = [(1, [''qty'' \<mapsto> PyFloat (Fin 2)])]\<rparr>],
       schema_migrations = []\<rparr> True) True
    = apply_fixed_point_accounting_schema
      \<lparr>tables = [''fills'' \<mapsto> \<lparr>columns = [''qty''], table_rows = [(1, [''qty'' \<mapsto> PyFloat (Fin 2)])]\<rparr>],
       schema_migrations = []\<rparr> True"
  by (rule migration_idempotent)
    (auto simp: wf_table_def wf_row_def is_decimal_def split: if_splits)

text \<open>C35: the migration never rewrites evidence: rows keep their identity and order, and every
  value that was there, in a legacy column or as canonical text, is still there afterwards; only
  the two provenance columns may be overwritten.\<close>

theorem migration_preserves_evidence:
  assumes "wf_table T" and "tables db t = Some T"
  shows "\<exists>T'. tables (apply_fixed_point_accounting_schema db b) t = Some T'
    \<and> list_all2 (\<lambda>(i, r) (j, r'). i = j \<and> (\<forall>k. \<not> provenance_column k \<and> \<not> blank (dget r k)
          \<longrightarrow> dget r' k = dget r k)) (table_rows T) (table_rows T')"
proof (cases "map_of TABLE_DECIMAL_COLUMNS t")
  case None
  then show ?thesis using assms(2)
    by (auto simp: apply_schema_tables migrated_table list_all2_same)
next
  case (Some cs)
  have rel: "list_all2 (\<lambda>(i, r) (j, r'). i = j \<and> (\<forall>k. \<not> provenance_column k \<and> \<not> blank (dget r k)
          \<longrightarrow> dget r' k = dget r k)) (table_rows T) (table_rows (migrate_table (map fst cs) (backfill_fields t) T))"
    unfolding migrate_table_def Let_def
    by (simp add: list_all2_map2)
      (rule list_all2_mono [OF add_columns_rows [OF assms(1)]],
        auto simp: migrate_row_keeps [OF good_mapping_backfill])
  then show ?thesis using assms(2) Some by (auto simp: apply_schema_tables migrated_table)
qed

theorem migration_preserves_evidence_witness:
  "\<exists>T'. tables (apply_fixed_point_accounting_schema
      \<lparr>tables = [''fills'' \<mapsto> \<lparr>columns = [''qty''], table_rows = [(1, [''qty'' \<mapsto> PyFloat (Fin 2)])]\<rparr>],
       schema_migrations = []\<rparr> True) ''fills'' = Some T'
    \<and> list_all2 (\<lambda>(i, r) (j, r'). i = j \<and> (\<forall>k. \<not> provenance_column k \<and> \<not> blank (dget r k)
          \<longrightarrow> dget r' k = dget r k)) [(1, [''qty'' \<mapsto> PyFloat (Fin 2)])] (table_rows T')"
  using migration_preserves_evidence [of "\<lparr>columns = [''qty''], table_rows = [(1, [''qty'' \<mapsto> PyFloat (Fin 2)])]\<rparr>"
      "\<lparr>tables = [''fills'' \<mapsto> \<lparr>columns = [''qty''], table_rows = [(1, [''qty'' \<mapsto> PyFloat (Fin 2)])]\<rparr>],
       schema_migrations = []\<rparr>" "''fills''" True]
  by (auto simp: wf_table_def wf_row_def is_decimal_def split: if_splits)

text \<open>a legacy row (no canonical text, no provenance) whose legacy values are finite numbers of
  the right sign is clean after the backfill: the integrity report counts no missing, invalid or
  mismatching evidence for it and accepts its provenance.\<close>

theorem backfilled_row_is_clean:
  assumes wf: "wf_row row" and prov: "blank (dget row ''decimal_provenance'')"
    and empty: "\<And>c l. (c, l) \<in> set (backfill_fields table) \<Longrightarrow> blank (dget row c)"
    and legacy: "\<And>c l. (c, l) \<in> set (backfill_fields table) \<Longrightarrow> backfill_source row l \<noteq> PyNone
      \<Longrightarrow> \<exists>x. decimal_required (backfill_source row l) l None = Inr x
          \<and> (c \<in> set (nonnegative_fields table) \<longrightarrow> 0 \<le> x)"
  shows "let rep = check_row table (migrate_row (backfill_fields table) row) empty_report
    in missing_canonical_evidence rep = 0 \<and> invalid_canonical_evidence rep = 0
      \<and> legacy_projection_mismatch rep = 0 \<and> wrong_version_or_provenance rep = 0"
proof -
  let ?fs = "backfill_fields table" and ?row = "migrate_row (backfill_fields table) row"
  have good: "good_mapping ?fs" by simp
  have upd: "row_updates ?fs row \<noteq> []" using prov by (simp add: row_updates_def Let_def)
  have prov': "dget ?row ''decimal_provenance'' = PyStr RECONSTRUCTED_REAL_PROVENANCE"
    "dget ?row ''decimal_accounting_version'' = PyStr FIXED_POINT_ACCOUNTING_VERSION"
    using upd by (simp_all add: provenance_lookup [OF good])
  have "snd (check_fields table ?row ?fs parsed rep) = rep" for parsed rep
  proof (rule check_fields_clean)
    fix c l assume cl: "(c, l) \<in> set ?fs"
    note src = migrate_row_source [OF good cl]
    show "blank (dget ?row c) \<and> backfill_source ?row l = PyNone \<or>
      (\<exists>x. \<not> blank (dget ?row c) \<and> canonical_value table c (dget ?row c) = Inr x
        \<and> projection_matches x (backfill_source ?row l))"
    proof (cases "backfill_source row l = PyNone")
      case True
      then show ?thesis using empty [OF cl] migrate_row_canonical [OF good cl, of row] src by simp
    next
      case False
      from legacy [OF cl False] obtain x where
        x: "decimal_required (backfill_source row l) l None = Inr x" "c \<in> set (nonnegative_fields table) \<longrightarrow> 0 \<le> x"
        by blast
      have dx: "is_decimal x" using wf_source_decimal [OF wf_row_source [OF wf] x(1)] .
      have "dget ?row c = PyStr (dec_text x)"
        using migrate_row_canonical [OF good cl, of row] empty [OF cl] False x(1) by simp
      then show ?thesis using x dx projection_of_source [OF x(1)]
        by (auto simp: src not_blank_text canonical_value_def decimal_required_text)
    qed
  qed
  moreover have "known_provenance ?row" by (simp add: known_provenance_def prov')
  ultimately show ?thesis
    by (simp add: check_row_def Let_def check_arithmetic_other check_exact_def prov'
        RECONSTRUCTED_REAL_PROVENANCE_def EXACT_DECIMAL_PROVENANCE_def empty_report_def)
qed

theorem backfilled_row_is_clean_witness:
  "let rep = check_row ''fills'' (migrate_row (backfill_fields ''fills'')
        [''qty'' \<mapsto> PyFloat (Fin (1/2)), ''price'' \<mapsto> PyInt 7]) empty_report
    in missing_canonical_evidence rep = 0 \<and> invalid_canonical_evidence rep = 0
      \<and> legacy_projection_mismatch rep = 0 \<and> wrong_version_or_provenance rep = 0"
proof -
  have fs: "backfill_fields ''fills'' = [(''qty_decimal'', ''qty''), (''price_decimal'', ''price'')]"
    by code_simp
  have half: "is_decimal (1/2)" by (rule is_decimalI [of _ 5 "-1"]) (simp add: power_int_def)
  have qty: "decimal_required (PyFloat (Fin (1/2))) ''qty'' None = Inr (1/2)"
    "decimal_required (PyInt 7) ''price'' None = Inr 7"
    by (simp_all add: result_simps decimal_value_Some_iff)
  show ?thesis
  proof (rule backfilled_row_is_clean)
    fix c l
    assume cl: "(c, l) \<in> set (backfill_fields ''fills'')"
    then consider "c = ''qty_decimal''" "l = ''qty''" | "c = ''price_decimal''" "l = ''price''" by (auto simp: fs)
    then show "\<exists>x. decimal_required (backfill_source [''qty'' \<mapsto> PyFloat (Fin (1/2)), ''price'' \<mapsto> PyInt 7] l) l None
        = Inr x \<and> (c \<in> set (nonnegative_fields ''fills'') \<longrightarrow> 0 \<le> x)"
    proof cases
      case 1
      then show ?thesis by (intro exI [of _ "1/2"]) (simp add: backfill_source_def qty)
    next
      case 2
      then show ?thesis by (intro exI [of _ 7]) (simp add: backfill_source_def qty)
    qed
  qed (auto simp: wf_row_def half fs blank_def)
qed

end
