(* ===== verification/Accounting.thy ===== *)
theory Accounting
  imports Fixed_Point
begin

text \<open>
  The pure accounting functions: \<open>app/accounting.py\<close> (separation of an equity change into realized,
  unrealized and external parts), \<open>app/loss_controls.py\<close> (the loss metrics of the risk gates) and
  \<open>app/canonical_sizing.py\<close> (the one quantity, notional and stop-risk calculation, with its
  ceilings).
\<close>

section \<open>Account components\<close>

record accounting_components =
  account_equity_change :: "rat option"
  realized_fifo_pnl :: "rat option"
  unrealized_change :: "rat option"
  external_cash_flow :: "rat option"
  component_confidence :: string

definition finite_component :: "pyval \<Rightarrow> rat option" where
  "finite_component value = (if value = PyNone then None
     else case decimal_required value ''accounting component'' None of Inl _ \<Rightarrow> None | Inr x \<Rightarrow> Some x)"

definition dsub_opt :: "rat option \<Rightarrow> rat option \<Rightarrow> rat option" where
  "dsub_opt a b = (case (a, b) of (Some x, Some y) \<Rightarrow> Some (dsub x y) | _ \<Rightarrow> None)"

definition separate_accounting_components ::
  "pyval \<Rightarrow> pyval \<Rightarrow> pyval \<Rightarrow> pyval \<Rightarrow> pyval \<Rightarrow> pyval \<Rightarrow> accounting_components" where
  "separate_accounting_components current_equity previous_equity current_realized previous_realized
      current_unrealized previous_unrealized =
     (let equity_change = dsub_opt (finite_component current_equity) (finite_component previous_equity);
          realized_change = dsub_opt (finite_component current_realized) (finite_component previous_realized);
          unrealized = dsub_opt (finite_component current_unrealized) (finite_component previous_unrealized);
          external = dsub_opt (dsub_opt equity_change realized_change) unrealized
      in \<lparr>account_equity_change = equity_change, realized_fifo_pnl = realized_change,
          unrealized_change = unrealized, external_cash_flow = external,
          component_confidence = (if external \<noteq> None then ''verified'' else ''unavailable'')\<rparr>)"

section \<open>Loss metrics\<close>

definition KNOWN_CONFIDENCE :: "string list" where
  "KNOWN_CONFIDENCE = [''verified'', ''reconstructed'']"

record loss_metrics =
  daily_loss_dollars :: "rat option"
  weekly_loss_dollars :: "rat option"
  daily_loss_pct :: "rat option"
  weekly_loss_pct :: "rat option"
  loss_reference_equity :: "rat option"
  daily_loss_confidence :: string
  weekly_loss_confidence :: string
  loss_provenance :: string

definition loss_number :: "pyval \<Rightarrow> rat option" where
  "loss_number value = (case value of PyNone \<Rightarrow> None | PyBool _ \<Rightarrow> None
     | _ \<Rightarrow> (case to_pydec value of Some (Fin x) \<Rightarrow> Some x | _ \<Rightarrow> None))"

type_synonym candidate = "rat \<times> string \<times> string"

definition loss_reference :: "pydict \<Rightarrow> pyval \<Rightarrow> rat option" where
  "loss_reference broker account_equity =
     (case loss_number (dget broker ''reference_equity'') of
        Some r \<Rightarrow> if r > 0 then Some r else loss_number account_equity
      | None \<Rightarrow> loss_number account_equity)"

definition usable_reference :: "rat option \<Rightarrow> bool" where
  "usable_reference reference = (case reference of None \<Rightarrow> False | Some r \<Rightarrow> r > 0)"

definition broker_candidate :: "rat option \<Rightarrow> rat option \<Rightarrow> pyval \<Rightarrow> string \<Rightarrow> candidate list" where
  "broker_candidate reference loss confidence source =
     (case loss of
        Some d \<Rightarrow> if d \<ge> 0 \<and> usable_reference reference
          then [(d, py_str (py_or confidence (PyStr ''verified'')), source)] else []
      | None \<Rightarrow> [])"

definition ledger_candidate :: "rat option \<Rightarrow> rat option \<Rightarrow> string \<Rightarrow> string option \<Rightarrow> candidate list" where
  "ledger_candidate reference pl confidence provenance =
     (case pl of
        Some p \<Rightarrow> if confidence \<in> set KNOWN_CONFIDENCE \<and> usable_reference reference
          then [(max 0 (dneg p), confidence,
                 case provenance of Some s \<Rightarrow> if s \<noteq> [] then s else ''lot_ledger'' | None \<Rightarrow> ''lot_ledger'')]
          else []
      | None \<Rightarrow> [])"

definition combine_losses :: "rat option \<Rightarrow> candidate list \<Rightarrow> rat option \<times> rat option \<times> string \<times> string list" where
  "combine_losses reference candidates =
     (case reference of
        None \<Rightarrow> (None, None, ''unavailable'', [])
      | Some r \<Rightarrow>
          if candidates = [] \<or> r \<le> 0 then (None, None, ''unavailable'', [])
          else let dollars = Max (set (map fst candidates)) in
            (Some dollars, Some (dmul (ddiv dollars r) 100),
             if list_ex (\<lambda>c. fst (snd c) = ''verified'') candidates then ''verified'' else ''reconstructed'',
             map (\<lambda>c. snd (snd c)) candidates))"

text \<open>\<open>list(dict.fromkeys(xs))\<close> keeps the first occurrence of every element.\<close>

definition dedupe :: "'a list \<Rightarrow> 'a list" where
  "dedupe xs = rev (fold List.insert xs [])"

fun join_semicolon :: "string list \<Rightarrow> string" where
  "join_semicolon [] = []"
| "join_semicolon [s] = s"
| "join_semicolon (s # ss) = s @ '';'' @ join_semicolon ss"

definition build_loss_metrics ::
  "pydict \<Rightarrow> pyval \<Rightarrow> pyval \<Rightarrow> pyval \<Rightarrow> string \<Rightarrow> string \<Rightarrow> string option \<Rightarrow> loss_metrics" where
  "build_loss_metrics broker account_equity daily_realized_pl weekly_realized_pl daily_confidence
      weekly_confidence realized_provenance =
     (let reference = loss_reference broker account_equity;
          daily = broker_candidate reference (loss_number (dget broker ''daily_loss_dollars''))
                (dget broker ''daily_loss_confidence'') ''broker_account''
            @ ledger_candidate reference (loss_number daily_realized_pl) daily_confidence realized_provenance;
          weekly = broker_candidate reference (loss_number (dget broker ''weekly_loss_dollars''))
                (dget broker ''weekly_loss_confidence'') ''broker_history''
            @ ledger_candidate reference (loss_number weekly_realized_pl) weekly_confidence realized_provenance;
          d = combine_losses reference daily; w = combine_losses reference weekly;
          sources = dedupe (snd (snd (snd d)) @ snd (snd (snd w)))
      in \<lparr>daily_loss_dollars = fst d, weekly_loss_dollars = fst w,
          daily_loss_pct = fst (snd d), weekly_loss_pct = fst (snd w),
          loss_reference_equity = reference,
          daily_loss_confidence = fst (snd (snd d)), weekly_loss_confidence = fst (snd (snd w)),
          loss_provenance = (if sources \<noteq> [] then join_semicolon sources else ''unavailable'')\<rparr>)"

section \<open>Canonical sizing\<close>

record canonical_sizing_record =
  cs_request_basis :: string
  cs_quantity :: rat
  cs_notional :: rat
  cs_stop_risk :: rat
  cs_reference_price :: rat
  cs_stop_price :: "rat option"

definition sizing_decimal :: "pyval \<Rightarrow> string \<Rightarrow> bool \<Rightarrow> rat res" where
  "sizing_decimal value label positive =
     (let not_numeric = Inl (ValueError (label @ '' must be numeric''));
          out_of_range = Inl (ValueError (label @ '' must be finite and ''
            @ (if positive then ''positive'' else ''nonnegative''))) in
      case value of PyNone \<Rightarrow> not_numeric | PyBool _ \<Rightarrow> not_numeric
      | _ \<Rightarrow> (case to_pydec value of
            None \<Rightarrow> not_numeric
          | Some (Fin x) \<Rightarrow> if (positive \<and> x \<le> 0) \<or> (\<not> positive \<and> x < 0) then out_of_range else Inr x
          | Some _ \<Rightarrow> out_of_range))"

text \<open>
  \<open>repr\<close> of a binary float: the decimal with the fewest digits that reads back as the same float,
  the nearest one among those. Seventeen digits always suffice.
\<close>

fun shortest_from :: "nat \<Rightarrow> nat \<Rightarrow> rat \<Rightarrow> rat" where
  "shortest_from 0 n x = rnd 10 17 x"
| "shortest_from (Suc k) n x =
     (let q = quantum 10 n x; lo = of_int \<lfloor>x / q\<rfloor> * q; hi = lo + q;
          lo_ok = (binary64 lo = x); hi_ok = (binary64 hi = x)
      in if lo_ok \<and> (\<not> hi_ok \<or> x - lo \<le> hi - x) then lo
         else if hi_ok then hi else shortest_from k (Suc n) x)"

definition shortest_repr :: "rat \<Rightarrow> rat" where
  "shortest_repr x = shortest_from 16 1 x"

text \<open>\<open>math.ulp\<close> of a normal float.\<close>

definition float_ulp :: "rat \<Rightarrow> rat" where
  "float_ulp x = quantum 2 53 x"

definition matches_legacy_float :: "rat \<Rightarrow> rat \<Rightarrow> pyval \<Rightarrow> bool" where
  "matches_legacy_float expected supplied raw =
     (if expected = supplied then True
      else case raw of
          PyFloat (Fin r) \<Rightarrow>
            dabs (dsub expected supplied) \<le> dmul (shortest_repr (float_ulp (max \<bar>binary64 r\<bar> 1))) 2
        | _ \<Rightarrow> False)"

definition sizing_references :: "pydict \<Rightarrow> rat list res" where
  "sizing_references terms = res_map (\<lambda>v. sizing_decimal v ''reference price'' True)
     (filter (\<lambda>v. \<not> blank v) [dget terms ''latest_price'', dget terms ''reference_price'', dget terms ''limit_price''])"

definition sizing_quantity_notional ::
  "string \<Rightarrow> rat \<Rightarrow> pyval \<Rightarrow> pyval \<Rightarrow> (string \<times> rat \<times> rat) res" where
  "sizing_quantity_notional explicit_basis reference raw_qty raw_notional =
     (if explicit_basis = ''quantity'' \<or> (explicit_basis = [] \<and> \<not> blank raw_qty) then
        rbind (sizing_decimal raw_qty ''quantity'' True) (\<lambda>qty.
          let ntl = dmul qty reference in
          if blank raw_notional then Inr (''quantity'', qty, ntl)
          else rbind (sizing_decimal raw_notional ''notional'' True) (\<lambda>supplied.
            if \<not> matches_legacy_float ntl supplied raw_notional
            then Inl (ValueError ''quantity and notional are mathematically inconsistent'')
            else Inr (''quantity'', qty, ntl)))
      else
        rbind (sizing_decimal raw_notional ''notional'' True) (\<lambda>ntl.
          let qty = ddiv ntl reference in
          if blank raw_qty then Inr (''notional'', qty, ntl)
          else rbind (sizing_decimal raw_qty ''quantity'' True) (\<lambda>supplied.
            if \<not> matches_legacy_float qty supplied raw_qty
            then Inl (ValueError ''quantity and notional are mathematically inconsistent'')
            else Inr (''notional'', qty, ntl))))"

definition canonical_sizing :: "pydict \<Rightarrow> canonical_sizing_record res" where
  "canonical_sizing terms =
     rbind (sizing_references terms) (\<lambda>references.
     if references = [] then Inl (ValueError ''a positive conservative reference price is required'')
     else let reference = Max (set references);
            raw_qty = dget_or terms ''qty'' (dget terms ''quantity'');
            raw_notional = dget terms ''notional'';
            explicit_basis = lower (py_str (py_or (dget terms ''request_basis'') (PyStr []))) in
     if explicit_basis \<noteq> [] \<and> explicit_basis \<noteq> ''quantity'' \<and> explicit_basis \<noteq> ''notional''
     then Inl (ValueError ''request_basis must be quantity or notional'')
     else if blank raw_qty \<and> blank raw_notional then Inl (ValueError ''quantity or notional is required'')
     else rbind (sizing_quantity_notional explicit_basis reference raw_qty raw_notional) (\<lambda>bqn.
       let basis = fst bqn; qty = fst (snd bqn); ntl = snd (snd bqn);
           raw_stop = dget_or terms ''stop_price'' (dget terms ''intended_stop_price'') in
       rbind (if blank raw_stop then Inr None
              else rbind (sizing_decimal raw_stop ''stop price'' True) (\<lambda>s. Inr (Some s))) (\<lambda>stop.
       let risk = dmul qty (max (dsub reference (case stop of None \<Rightarrow> reference | Some s \<Rightarrow> s)) 0);
           supplied_risk = dget terms ''stop_risk_dollars'';
           result = \<lparr>cs_request_basis = basis, cs_quantity = qty, cs_notional = ntl, cs_stop_risk = risk,
                     cs_reference_price = reference, cs_stop_price = stop\<rparr> in
       if blank supplied_risk then Inr result
       else rbind (sizing_decimal supplied_risk ''stop risk'' False) (\<lambda>supplied.
         if \<not> matches_legacy_float risk supplied supplied_risk
         then Inl (ValueError ''stop risk does not match canonical quantity, price, and stop'')
         else Inr result))))"

definition check_ceiling :: "bool \<Rightarrow> string \<Rightarrow> rat \<Rightarrow> pyval \<Rightarrow> unit res" where
  "check_ceiling required label actual raw =
     (if blank raw then
        (if required then Inl (ValueError (''approved '' @ label @ '' ceiling is required'')) else Inr ())
      else rbind (sizing_decimal raw (''approved '' @ label @ '' ceiling'') False) (\<lambda>ceiling.
        if actual > ceiling \<and> \<not> matches_legacy_float actual ceiling raw
        then Inl (RuntimeError (''canonical '' @ label @ '' exceeds approved ceiling''))
        else Inr ()))"

definition enforce_ceilings :: "canonical_sizing_record \<Rightarrow> pydict \<Rightarrow> bool \<Rightarrow> unit res" where
  "enforce_ceilings sizing terms required =
     rbind (check_ceiling required ''quantity'' (cs_quantity sizing) (dget terms ''approved_quantity_ceiling'')) (\<lambda>_.
     rbind (check_ceiling required ''notional'' (cs_notional sizing) (dget terms ''approved_notional_ceiling'')) (\<lambda>_.
     check_ceiling required ''stop risk'' (cs_stop_risk sizing) (dget terms ''approved_stop_risk_ceiling'')))"

section \<open>Lemmas\<close>

lemma dsub_opt_Some [simp]: "dsub_opt a b = Some z \<longleftrightarrow> (\<exists>x y. a = Some x \<and> b = Some y \<and> z = dsub x y)"
  by (auto simp: dsub_opt_def split: option.splits)

lemma dsub_opt_None [simp]: "dsub_opt a b = None \<longleftrightarrow> a = None \<or> b = None"
  by (auto simp: dsub_opt_def split: option.splits)

lemma broker_candidate_mem:
  "c \<in> set (broker_candidate ref loss conf src) \<longleftrightarrow>
     (\<exists>d. loss = Some d \<and> d \<ge> 0 \<and> usable_reference ref \<and> c = (d, py_str (py_or conf (PyStr ''verified'')), src))"
  by (auto simp: broker_candidate_def split: option.splits)

lemma ledger_candidate_mem:
  "c \<in> set (ledger_candidate ref pl conf prov) \<longleftrightarrow>
     (\<exists>p. pl = Some p \<and> conf \<in> set KNOWN_CONFIDENCE \<and> usable_reference ref \<and> c = (max 0 (dneg p), conf,
        case prov of Some s \<Rightarrow> if s \<noteq> [] then s else ''lot_ledger'' | None \<Rightarrow> ''lot_ledger''))"
  by (auto simp: ledger_candidate_def split: option.splits)

lemma combine_losses_Some:
  assumes "fst (combine_losses ref cs) = Some d"
  shows "d \<in> fst ` set cs \<and> (\<forall>c\<in>set cs. fst c \<le> d)
    \<and> (\<exists>r>0. ref = Some r \<and> fst (snd (combine_losses ref cs)) = Some (dmul (ddiv d r) 100))"
proof -
  obtain r where r: "ref = Some r" "cs \<noteq> []" "0 < r" "d = Max (fst ` set cs)"
    using assms by (auto simp: combine_losses_def Let_def split: option.splits if_splits)
  have "d \<in> fst ` set cs" unfolding r(4) by (rule Max_in) (use r(2) in auto)
  moreover have "fst c \<le> d" if "c \<in> set cs" for c unfolding r(4) using that by (intro Max_ge) auto
  ultimately show ?thesis using r by (auto simp: combine_losses_def Let_def)
qed

lemma combine_losses_None:
  "fst (combine_losses ref cs) = None \<longleftrightarrow> \<not> usable_reference ref \<or> cs = []"
  by (auto simp: combine_losses_def usable_reference_def Let_def split: option.splits)

lemma sizing_decimal_positive: "sizing_decimal v label True = Inr x \<Longrightarrow> 0 < x"
  by (auto simp: sizing_decimal_def Let_def split: pyval.splits option.splits pydec.splits if_splits)

lemma sizing_decimal_nonneg: "sizing_decimal v label False = Inr x \<Longrightarrow> 0 \<le> x"
  by (auto simp: sizing_decimal_def Let_def split: pyval.splits option.splits pydec.splits if_splits)

lemma dctx_pos: "0 < x \<Longrightarrow> 0 < dec_ctx x"
  by (simp add: dec_ctx_def rnd_pos)

lemma sizing_references_elem:
  assumes "sizing_references terms = Inr rs" and "k \<in> {''latest_price'', ''reference_price'', ''limit_price''}"
    and "\<not> blank (dget terms k)"
  shows "\<exists>x\<in>set rs. sizing_decimal (dget terms k) ''reference price'' True = Inr x"
proof -
  have get: "\<exists>y\<in>set ys. f x = Inr y" if "res_map f xs = Inr ys" "x \<in> set xs" for f xs ys x
    using that by (induction xs arbitrary: ys) (auto simp: result_simps)
  show ?thesis
    by (rule get [OF assms(1) [unfolded sizing_references_def]]) (use assms(2,3) in auto)
qed

lemma sizing_references_positive: "sizing_references terms = Inr rs \<Longrightarrow> x \<in> set rs \<Longrightarrow> 0 < x"
  unfolding sizing_references_def by (drule res_map_elem) (auto intro: sizing_decimal_positive)

lemma quantity_notional_positive:
  assumes "sizing_quantity_notional eb ref rq rn = Inr (basis, qty, ntl)" and "0 < ref"
  shows "0 < qty \<and> 0 < ntl \<and> (basis = ''quantity'' \<and> ntl = dmul qty ref \<or> basis = ''notional'' \<and> qty = ddiv ntl ref)"
  using assms
  by (auto simp: sizing_quantity_notional_def result_simps Let_def dmul_def ddiv_def
      split: if_splits intro!: dctx_pos dest: sizing_decimal_positive)

lemma canonical_sizing_cases:
  assumes "canonical_sizing terms = Inr s"
  obtains rs eb rq rn where "sizing_references terms = Inr rs" "rs \<noteq> []" "cs_reference_price s = Max (set rs)"
    "sizing_quantity_notional eb (Max (set rs)) rq rn = Inr (cs_request_basis s, cs_quantity s, cs_notional s)"
    "cs_stop_risk s = dmul (cs_quantity s)
       (max (dsub (Max (set rs)) (case cs_stop_price s of None \<Rightarrow> Max (set rs) | Some x \<Rightarrow> x)) 0)"
  using assms
  by (auto simp: canonical_sizing_def result_simps Let_def split: if_splits)

lemma check_ceiling_Inr:
  assumes "check_ceiling True label actual raw = Inr u"
  shows "\<exists>c\<ge>0. sizing_decimal raw (''approved '' @ label @ '' ceiling'') False = Inr c
    \<and> (actual \<le> c \<or> matches_legacy_float actual c raw)"
  using assms by (auto simp: check_ceiling_def result_simps split: if_splits dest: sizing_decimal_nonneg)

lemma matches_non_float: "\<forall>d. raw \<noteq> PyFloat d \<Longrightarrow> matches_legacy_float a b raw \<longleftrightarrow> a = b"
  by (cases raw) (auto simp: matches_legacy_float_def)

section \<open>Properties\<close>

text \<open>an external cash flow is only reported when all six inputs are finite numbers, never
  assumed to be zero; and when the two subtractions fit the decimal precision, the realized,
  unrealized and external parts add up to the equity change exactly.\<close>

theorem external_flow_never_assumed:
  fixes e e' r r' u u' :: pyval
  defines "c \<equiv> separate_accounting_components e e' r r' u u'"
  shows "(external_cash_flow c \<noteq> None \<longleftrightarrow> (\<forall>v\<in>{e, e', r, r', u, u'}. finite_component v \<noteq> None))
    \<and> (component_confidence c = ''verified'' \<longleftrightarrow> external_cash_flow c \<noteq> None)
    \<and> (\<forall>E R U X. account_equity_change c = Some E \<longrightarrow> realized_fifo_pnl c = Some R
        \<longrightarrow> unrealized_change c = Some U \<longrightarrow> external_cash_flow c = Some X
        \<longrightarrow> dec28 (E - R) \<longrightarrow> dec28 (E - R - U) \<longrightarrow> E = R + U + X)"
  unfolding c_def separate_accounting_components_def Let_def
  by (auto simp: dsub_exact)

theorem external_flow_never_assumed_witness:
  "separate_accounting_components (PyInt 110) (PyInt 100) (PyStr ''4.5'') (PyInt 0) (PyInt 3) (PyInt 1)
    = \<lparr>account_equity_change = Some 10, realized_fifo_pnl = Some (9/2), unrealized_change = Some 2,
       external_cash_flow = Some (7/2), component_confidence = ''verified''\<rparr>
    \<and> (10::rat) = 9/2 + 2 + 7/2"
proof -
  let ?c = "separate_accounting_components (PyInt 110) (PyInt 100) (PyStr ''4.5'') (PyInt 0) (PyInt 3) (PyInt 1)"
  have c: "?c = \<lparr>account_equity_change = Some 10, realized_fifo_pnl = Some (9/2), unrealized_change = Some 2,
       external_cash_flow = Some (7/2), component_confidence = ''verified''\<rparr>" by code_simp
  have d: "dec28 (10 - 9/2)" "dec28 (10 - 9/2 - 2)" by code_simp+
  have "(10::rat) = 9/2 + 2 + 7/2"
    using external_flow_never_assumed [of "PyInt 110" "PyInt 100" "PyStr ''4.5''" "PyInt 0" "PyInt 3" "PyInt 1"] d
    unfolding c by simp
  then show ?thesis using c by simp
qed

lemma combine_losses_confidence:
  "fst (combine_losses ref cs) = Some d \<Longrightarrow> fst (snd (snd (combine_losses ref cs))) \<in> set KNOWN_CONFIDENCE
    \<and> (fst (snd (snd (combine_losses ref cs))) = ''verified'' \<longleftrightarrow> (\<exists>c\<in>set cs. fst (snd c) = ''verified''))"
  by (auto simp: combine_losses_def Let_def KNOWN_CONFIDENCE_def list_ex_iff split: option.splits if_splits)

text \<open>C32: the reported daily loss is conservative: it is not negative, not below the broker's reported loss nor below the ledger's
  realized loss (when its confidence is known), and its percentage is taken of the positive reference equity of the report. Its
  confidence is verified or reconstructed, and verified only when a source of a figure is: the broker, which says so or says
  nothing, or the ledger.\<close>

theorem daily_loss_conservative:
  assumes "daily_loss_dollars (build_loss_metrics broker equity dpl wpl dconf wconf prov) = Some d"
  shows "0 \<le> d
    \<and> (\<forall>b. loss_number (dget broker ''daily_loss_dollars'') = Some b \<longrightarrow> b \<le> d)
    \<and> (\<forall>p. loss_number dpl = Some p \<longrightarrow> dconf \<in> set KNOWN_CONFIDENCE \<longrightarrow> dneg p \<le> d)
    \<and> daily_loss_confidence (build_loss_metrics broker equity dpl wpl dconf wconf prov) \<in> {''verified'', ''reconstructed''}
    \<and> (daily_loss_confidence (build_loss_metrics broker equity dpl wpl dconf wconf prov) = ''verified'' \<longrightarrow>
        (\<exists>b\<ge>0. loss_number (dget broker ''daily_loss_dollars'') = Some b
          \<and> py_str (py_or (dget broker ''daily_loss_confidence'') (PyStr ''verified'')) = ''verified'')
        \<or> (\<exists>p. loss_number dpl = Some p) \<and> dconf = ''verified'')
    \<and> (\<exists>r>0. loss_reference_equity (build_loss_metrics broker equity dpl wpl dconf wconf prov) = Some r
        \<and> daily_loss_pct (build_loss_metrics broker equity dpl wpl dconf wconf prov) = Some (dmul (ddiv d r) 100))"
proof -
  define ref where "ref = loss_reference broker equity"
  define cs where "cs = broker_candidate ref (loss_number (dget broker ''daily_loss_dollars''))
      (dget broker ''daily_loss_confidence'') ''broker_account'' @ ledger_candidate ref (loss_number dpl) dconf prov"
  have d: "fst (combine_losses ref cs) = Some d"
    using assms by (simp add: build_loss_metrics_def Let_def ref_def cs_def)
  note c = combine_losses_Some [OF d]
  have conf: "daily_loss_confidence (build_loss_metrics broker equity dpl wpl dconf wconf prov) = fst (snd (snd (combine_losses ref cs)))"
    by (simp add: build_loss_metrics_def Let_def ref_def cs_def)
  from c have u: "usable_reference ref" by (auto simp: usable_reference_def)
  have nn: "0 \<le> d" using c by (auto simp: cs_def broker_candidate_mem ledger_candidate_mem)
  have "b \<le> d" if "loss_number (dget broker ''daily_loss_dollars'') = Some b" for b
  proof (cases "0 \<le> b")
    case True
    then have "\<exists>c\<in>set cs. fst c = b" using that u by (auto simp: cs_def broker_candidate_def)
    then show ?thesis using c by auto
  qed (use nn in simp)
  moreover have "dneg p \<le> d" if "loss_number dpl = Some p" "dconf \<in> set KNOWN_CONFIDENCE" for p
  proof -
    have "\<exists>c\<in>set cs. fst c = max 0 (dneg p)" using that u by (auto simp: cs_def ledger_candidate_def)
    then show ?thesis using c by auto
  qed
  moreover have "(\<exists>b\<ge>0. loss_number (dget broker ''daily_loss_dollars'') = Some b
          \<and> py_str (py_or (dget broker ''daily_loss_confidence'') (PyStr ''verified'')) = ''verified'')
        \<or> (\<exists>p. loss_number dpl = Some p) \<and> dconf = ''verified''"
    if "fst (snd (snd (combine_losses ref cs))) = ''verified''"
    using that conjunct2 [OF combine_losses_confidence [OF d]] by (fastforce simp: cs_def broker_candidate_mem ledger_candidate_mem)
  moreover have "fst (snd (snd (combine_losses ref cs))) \<in> {''verified'', ''reconstructed''}"
    using conjunct1 [OF combine_losses_confidence [OF d]] unfolding KNOWN_CONFIDENCE_def by simp
  ultimately show ?thesis using nn c unfolding conf
    by (simp add: build_loss_metrics_def Let_def flip: ref_def cs_def)
qed

theorem daily_loss_conservative_witness:
  "daily_loss_confidence (build_loss_metrics [''daily_loss_dollars'' \<mapsto> PyStr ''150''] (PyInt 10000)
        (PyStr ''-200'') PyNone ''verified'' ''unavailable'' None) \<in> {''verified'', ''reconstructed''}
     \<and> (\<exists>r>0. loss_reference_equity (build_loss_metrics [''daily_loss_dollars'' \<mapsto> PyStr ''150''] (PyInt 10000)
        (PyStr ''-200'') PyNone ''verified'' ''unavailable'' None) = Some r
     \<and> daily_loss_pct (build_loss_metrics [''daily_loss_dollars'' \<mapsto> PyStr ''150''] (PyInt 10000)
        (PyStr ''-200'') PyNone ''verified'' ''unavailable'' None) = Some (dmul (ddiv 200 r) 100))"
proof -
  have "daily_loss_dollars (build_loss_metrics [''daily_loss_dollars'' \<mapsto> PyStr ''150''] (PyInt 10000)
        (PyStr ''-200'') PyNone ''verified'' ''unavailable'' None) = Some 200" by code_simp
  from daily_loss_conservative [OF this] show ?thesis by blast
qed

text \<open>An unknown loss stays unknown and a known one is reported: a daily loss is given exactly when
  there is a positive reference equity and the broker or a ledger of known confidence has a figure.\<close>

theorem unknown_loss_stays_unknown:
  "(\<exists>d. daily_loss_dollars (build_loss_metrics broker equity dpl wpl dconf wconf prov) = Some d) \<longleftrightarrow>
     usable_reference (loss_reference broker equity)
     \<and> ((\<exists>b. loss_number (dget broker ''daily_loss_dollars'') = Some b \<and> 0 \<le> b)
        \<or> (\<exists>p. loss_number dpl = Some p \<and> dconf \<in> set KNOWN_CONFIDENCE))"
proof -
  have "daily_loss_dollars (build_loss_metrics broker equity dpl wpl dconf wconf prov) = None \<longleftrightarrow>
     \<not> usable_reference (loss_reference broker equity)
     \<or> ((\<nexists>b. loss_number (dget broker ''daily_loss_dollars'') = Some b \<and> 0 \<le> b)
        \<and> (loss_number dpl = None \<or> dconf \<notin> set KNOWN_CONFIDENCE))"
    by (auto simp: build_loss_metrics_def Let_def combine_losses_None broker_candidate_def ledger_candidate_def
        split: option.splits)
  then show ?thesis by (auto simp flip: not_None_eq)
qed

text \<open>a canonical sizing has positive quantity and notional tied by the reference price, a stop
  risk that is not negative and zero without a stop, and a reference price no lower than any price
  that was supplied.\<close>

theorem canonical_sizing_sound:
  assumes "canonical_sizing terms = Inr s"
  shows "0 < cs_quantity s \<and> 0 < cs_notional s \<and> 0 \<le> cs_stop_risk s
    \<and> (cs_request_basis s = ''quantity'' \<and> cs_notional s = dmul (cs_quantity s) (cs_reference_price s)
       \<or> cs_request_basis s = ''notional'' \<and> cs_quantity s = ddiv (cs_notional s) (cs_reference_price s))
    \<and> (cs_stop_price s = None \<longrightarrow> cs_stop_risk s = 0)
    \<and> (\<forall>k\<in>{''latest_price'', ''reference_price'', ''limit_price''}. \<not> blank (dget terms k) \<longrightarrow>
        (\<exists>x\<le>cs_reference_price s. sizing_decimal (dget terms k) ''reference price'' True = Inr x))"
proof -
  from canonical_sizing_cases [OF assms] obtain rs eb rq rn where
    rs: "sizing_references terms = Inr rs" "rs \<noteq> []" "cs_reference_price s = Max (set rs)"
    and qn: "sizing_quantity_notional eb (Max (set rs)) rq rn = Inr (cs_request_basis s, cs_quantity s, cs_notional s)"
    and risk: "cs_stop_risk s = dmul (cs_quantity s)
       (max (dsub (Max (set rs)) (case cs_stop_price s of None \<Rightarrow> Max (set rs) | Some x \<Rightarrow> x)) 0)" .
  have "Max (set rs) \<in> set rs" using rs(2) by simp
  then have pos: "0 < Max (set rs)" by (rule sizing_references_positive [OF rs(1)])
  note q = quantity_notional_positive [OF qn pos]
  have r0: "0 \<le> cs_stop_risk s" unfolding risk by (rule dmul_nonneg) (use q in auto)
  have prices: "\<exists>x\<le>cs_reference_price s. sizing_decimal (dget terms k) ''reference price'' True = Inr x"
    if given: "k \<in> {''latest_price'', ''reference_price'', ''limit_price''}" "\<not> blank (dget terms k)" for k
  proof -
    obtain x where x: "x \<in> set rs" "sizing_decimal (dget terms k) ''reference price'' True = Inr x"
      using sizing_references_elem [OF rs(1) given] by blast
    have "x \<le> cs_reference_price s" unfolding rs(3) by (rule Max_ge) (use x in auto)
    then show ?thesis using x by blast
  qed
  have "cs_stop_price s = None \<Longrightarrow> cs_stop_risk s = 0"
    by (simp only: risk option.case dsub_self max.idem dmul_def mult_zero_right dctx.rd_zero)
  then show ?thesis using q [folded rs(3)] r0 prices by (intro conjI ballI impI) simp_all
qed

theorem canonical_sizing_sound_witness:
  "\<exists>s. canonical_sizing [''latest_price'' \<mapsto> PyStr ''100'', ''limit_price'' \<mapsto> PyStr ''101.5'',
      ''qty'' \<mapsto> PyInt 3, ''stop_price'' \<mapsto> PyStr ''99''] = Inr s
    \<and> cs_stop_risk s = 15/2 \<and> 0 < cs_notional s"
proof -
  have "canonical_sizing [''latest_price'' \<mapsto> PyStr ''100'', ''limit_price'' \<mapsto> PyStr ''101.5'',
      ''qty'' \<mapsto> PyInt 3, ''stop_price'' \<mapsto> PyStr ''99''] =
    Inr \<lparr>cs_request_basis = ''quantity'', cs_quantity = 3, cs_notional = 609/2, cs_stop_risk = 15/2,
         cs_reference_price = 203/2, cs_stop_price = Some 99\<rparr>" by code_simp
  from canonical_sizing_sound [OF this] this show ?thesis by auto
qed

text \<open>C31: when the ceilings are required, an accepted sizing has all three ceilings present, and
  quantity, notional and stop risk are each at most their ceiling; only a ceiling given as a binary
  float may be exceeded, by the two units in the last place that the source allows.\<close>

theorem ceilings_enforced:
  assumes "enforce_ceilings s terms True = Inr u"
    and "(label, actual, key) \<in> {(''quantity'', cs_quantity s, ''approved_quantity_ceiling''),
      (''notional'', cs_notional s, ''approved_notional_ceiling''),
      (''stop risk'', cs_stop_risk s, ''approved_stop_risk_ceiling'')}"
  shows "\<exists>c\<ge>0. sizing_decimal (dget terms key) (''approved '' @ label @ '' ceiling'') False = Inr c
    \<and> (actual \<le> c \<or> matches_legacy_float actual c (dget terms key))
    \<and> ((\<forall>d. dget terms key \<noteq> PyFloat d) \<longrightarrow> actual \<le> c)"
proof -
  have "check_ceiling True label actual (dget terms key) = Inr ()"
    using assms by (auto simp: enforce_ceilings_def result_simps)
  from check_ceiling_Inr [OF this] show ?thesis using matches_non_float by (metis order_refl)
qed

theorem ceilings_enforced_witness:
  "\<exists>c\<ge>0. sizing_decimal (PyStr ''3'') (''approved '' @ ''quantity'' @ '' ceiling'') False = Inr c \<and> 3 \<le> c"
proof -
  let ?s = "\<lparr>cs_request_basis = ''quantity'', cs_quantity = 3, cs_notional = 300, cs_stop_risk = 0,
         cs_reference_price = 100, cs_stop_price = None\<rparr>"
  let ?t = "[''approved_quantity_ceiling'' \<mapsto> PyStr ''3'', ''approved_notional_ceiling'' \<mapsto> PyInt 300,
      ''approved_stop_risk_ceiling'' \<mapsto> PyInt 10]"
  have "enforce_ceilings ?s ?t True = Inr ()" by code_simp
  from ceilings_enforced [OF this, of "''quantity''" 3 "''approved_quantity_ceiling''"] show ?thesis by auto
qed

end
