(* ===== verification/Lot_Ledger.thy ===== *)
theory Lot_Ledger
  imports Accounting
begin

text \<open>
  \<open>app/lot_ledger.py\<close>: the long-only FIFO ledger. Its state are the tables \<open>position_lots\<close>,
  \<open>lot_consumptions\<close>, \<open>realized_pnl_events\<close> and the one row of \<open>pnl_ledger_status\<close>. A fill is applied
  inside the caller's transaction, so an error leaves no state behind. The decimal-text columns are
  the values written and read here; the REAL columns beside them are written with the projection
  \<open>legacy_float\<close> of the same value and never read by this module, and are left out. Fresh UUIDs, the
  time, the JSON decoder and the calendar of a time zone are arguments.
\<close>

section \<open>State\<close>

record lot =
  lot_id :: string
  lot_symbol :: string
  lot_lifecycle :: pyval
  source_fill_event_key :: string
  opened_at :: string
  closed_at :: "string option"
  original_qty :: pyval
  remaining_qty :: pyval
  unit_cost :: pyval
  fees_allocated :: pyval
  initial_risk :: pyval
  lot_source :: string
  lot_provenance :: string
  lot_confidence :: string
  lot_created_at :: string
  lot_updated_at :: string
  lot_strategy_version :: pyval
  entry_proposal_id :: pyval
  entry_intent_id :: pyval
  entry_regime :: pyval
  entry_score :: pyval
  lot_config_hash :: pyval
  lot_evidence_version :: pyval
  lot_formula_version :: pyval

record consumption =
  con_id :: string
  con_event_key :: string
  sell_intent_id :: pyval
  con_lifecycle :: pyval
  con_lot_id :: string
  con_strategy_version :: pyval
  con_quantity :: rat
  con_proceeds :: rat
  con_cost_basis :: rat
  con_buy_fees :: rat
  con_sell_fees :: rat
  con_adjustments :: rat
  con_realized :: "rat option"
  con_occurred_at :: string
  con_confidence :: string

record pnl_event =
  ev_id :: string
  ev_event_key :: string
  ev_intent_id :: pyval
  ev_symbol :: string
  ev_side :: string
  ev_quantity :: rat
  ev_proceeds :: rat
  ev_cost_basis :: "rat option"
  ev_fees :: rat
  ev_adjustments :: rat
  ev_realized :: "rat option"
  ev_remaining_position :: rat
  ev_occurred_at :: string
  ev_trading_day :: string
  ev_trading_week :: string
  ev_timezone :: string
  ev_source :: string
  ev_provenance :: string
  ev_confidence :: string
  ev_created_at :: string

record ledger_status =
  effective_from :: string
  status_confidence :: string
  status_provenance :: string
  last_event_at :: "string option"
  status_updated_at :: string

record ledger =
  position_lots :: "lot list"
  lot_consumptions :: "consumption list"
  realized_pnl_events :: "pnl_event list"
  pnl_ledger_status :: "ledger_status option"

definition ALL_CONFIDENCE :: "string list" where
  "ALL_CONFIDENCE = [''verified'', ''reconstructed'', ''partially_reconstructed'', ''unavailable'']"

definition ACCOUNTING_TIMEZONE :: string where
  "ACCOUNTING_TIMEZONE = ''America/New_York''"

definition ACCOUNTING_VERSION :: string where
  "ACCOUNTING_VERSION = ''fifo_equity_unrealized_cashflow_v2_decimal''"

definition EVIDENCE_VERSION :: string where
  "EVIDENCE_VERSION = ''phase1_outcome_v2_exit_session''"

section \<open>Coverage\<close>

definition set_coverage :: "string \<Rightarrow> string \<Rightarrow> string \<Rightarrow> string \<Rightarrow> ledger \<Rightarrow> ledger res" where
  "set_coverage now effective confidence provenance s =
     (if confidence \<notin> set ALL_CONFIDENCE
      then Inl (ValueError (''invalid P&L confidence: '' @ confidence))
      else Inr (s\<lparr>pnl_ledger_status := Some (case pnl_ledger_status s of
            None \<Rightarrow> \<lparr>effective_from = effective, status_confidence = confidence,
              status_provenance = provenance, last_event_at = None, status_updated_at = now\<rparr>
          | Some st \<Rightarrow> st\<lparr>effective_from := effective, status_confidence := confidence,
              status_provenance := provenance, status_updated_at := now\<rparr>)\<rparr>))"

section \<open>The context of a fill\<close>

text \<open>What a call of \<open>apply_fill_in_transaction\<close> reads besides the ledger.\<close>

record fill_env =
  env_now :: string
  env_fresh :: "nat \<Rightarrow> string"
  env_proposal :: "string \<Rightarrow> pydict option"
  env_json :: "pyval \<Rightarrow> pydict option"
  env_period_keys :: "string \<Rightarrow> string \<Rightarrow> string \<times> string"

record fill_args =
  fa_intent :: pydict
  fa_event_key :: string
  fa_delta_quantity :: pyval
  fa_fill_price :: pyval
  fa_occurred_at :: string
  fa_fees :: pyval
  fa_adjustments :: pyval
  fa_source :: string
  fa_timezone :: "string option"

definition dget_req :: "pydict \<Rightarrow> string \<Rightarrow> pyval res" where
  "dget_req d k = (case d k of None \<Rightarrow> Inl (KeyError k) | Some v \<Rightarrow> Inr v)"

definition fill_proposal :: "fill_env \<Rightarrow> pydict \<Rightarrow> pydict option" where
  "fill_proposal env intent = (let pid = dget intent ''proposal_id''
     in if truthy pid then env_proposal env (py_str pid) else None)"

definition fill_payload :: "fill_env \<Rightarrow> pydict \<Rightarrow> pydict" where
  "fill_payload env intent = (case fill_proposal env intent of
     None \<Rightarrow> Map.empty
   | Some p \<Rightarrow> if truthy (dget p ''payload'')
       then (case env_json env (dget p ''payload'') of None \<Rightarrow> Map.empty | Some d \<Rightarrow> d) else Map.empty)"

definition fill_metadata :: "fill_env \<Rightarrow> pydict \<Rightarrow> string \<Rightarrow> string \<Rightarrow> pyval" where
  "fill_metadata env intent key proposal_key =
     (if dget intent key \<noteq> PyNone then dget intent key
      else case fill_proposal env intent of
          Some p \<Rightarrow> if dget p key \<noteq> PyNone then dget p key else dget (fill_payload env intent) proposal_key
        | None \<Rightarrow> dget (fill_payload env intent) proposal_key)"

definition fill_timezone :: "fill_args \<Rightarrow> string" where
  "fill_timezone a = (case fa_timezone a of
     Some z \<Rightarrow> if z \<noteq> [] then z
       else if starts_with ''crypto_'' (fa_source a) then ''UTC'' else ACCOUNTING_TIMEZONE
   | None \<Rightarrow> if starts_with ''crypto_'' (fa_source a) then ''UTC'' else ACCOUNTING_TIMEZONE)"

definition base_confidence :: "ledger \<Rightarrow> string" where
  "base_confidence s = (case pnl_ledger_status s of None \<Rightarrow> ''unavailable'' | Some st \<Rightarrow> status_confidence st)"

definition base_provenance :: "ledger \<Rightarrow> string" where
  "base_provenance s = (case pnl_ledger_status s of
     None \<Rightarrow> ''migration coverage not established'' | Some st \<Rightarrow> status_provenance st)"

section \<open>Buys\<close>

definition prior_risk :: "ledger \<Rightarrow> pyval \<Rightarrow> rat res" where
  "prior_risk s intent_id =
     rbind (res_map (\<lambda>l. rbind (decimal_value (initial_risk l) ''position_lot.initial_risk_dollars_decimal'' None True)
               (\<lambda>r. Inr (case r of None \<Rightarrow> 0 | Some x \<Rightarrow> x)))
             (filter (\<lambda>l. intent_id \<noteq> PyNone \<and> entry_intent_id l = intent_id) (position_lots s)))
       (\<lambda>xs. Inr (dsum xs))"

definition allocate_risk :: "ledger \<Rightarrow> pydict \<Rightarrow> pyval \<Rightarrow> rat \<Rightarrow> rat \<Rightarrow> rat option res" where
  "allocate_risk s intent initial_risk_dollars requested quantity =
     (if initial_risk_dollars = PyNone then Inr None
      else rbind (decimal_required initial_risk_dollars ''initial_risk_dollars'' (Some 0)) (\<lambda>original.
           rbind (prior_risk s (dget intent ''id'')) (\<lambda>prior.
             let remaining = max 0 (dsub original prior)
             in Inr (Some (min remaining (ddiv (dmul original quantity) (max requested quantity)))))))"

text \<open>\<open>INSERT OR IGNORE\<close>: a lot whose fill event, or whose id, is already there is not inserted.\<close>

definition insert_lot :: "lot \<Rightarrow> lot list \<Rightarrow> lot list" where
  "insert_lot l ls = (if \<exists>m\<in>set ls. source_fill_event_key m = source_fill_event_key l \<or> lot_id m = lot_id l
     then ls else ls @ [l])"

definition new_lot :: "fill_env \<Rightarrow> fill_args \<Rightarrow> ledger \<Rightarrow> string \<Rightarrow> rat \<Rightarrow> rat \<Rightarrow> rat \<Rightarrow> rat option \<Rightarrow> pyval \<Rightarrow> lot" where
  "new_lot env a s symbol quantity price fee risk lifecycle =
     (let i = fa_intent a in
      \<lparr>lot_id = env_fresh env 0, lot_symbol = symbol, lot_lifecycle = lifecycle,
       source_fill_event_key = fa_event_key a, opened_at = fa_occurred_at a, closed_at = None,
       original_qty = PyStr (dec_text quantity), remaining_qty = PyStr (dec_text quantity),
       unit_cost = PyStr (dec_text price), fees_allocated = PyStr (dec_text fee),
       initial_risk = (case risk of None \<Rightarrow> PyNone | Some r \<Rightarrow> PyStr (dec_text r)),
       lot_source = fa_source a, lot_provenance = base_provenance s, lot_confidence = base_confidence s,
       lot_created_at = env_now env, lot_updated_at = env_now env,
       lot_strategy_version = fill_metadata env i ''strategy_version'' ''strategy_version'',
       entry_proposal_id = dget i ''proposal_id'', entry_intent_id = dget i ''id'',
       entry_regime = fill_metadata env i ''entry_regime'' ''volatility_regime'',
       entry_score = fill_metadata env i ''entry_score'' ''score'',
       lot_config_hash = fill_metadata env i ''config_hash'' ''config_hash'',
       lot_evidence_version = py_or (fill_metadata env i ''evidence_version'' ''evidence_version'') (PyStr EVIDENCE_VERSION),
       lot_formula_version = py_or (fill_metadata env i ''formula_version'' ''formula_version'') (PyStr ACCOUNTING_VERSION)\<rparr>)"

definition apply_buy :: "fill_env \<Rightarrow> fill_args \<Rightarrow> string \<Rightarrow> rat \<Rightarrow> rat \<Rightarrow> rat \<Rightarrow> ledger \<Rightarrow> ledger res" where
  "apply_buy env a symbol quantity price fee s =
     (let i = fa_intent a in
      rbind (decimal_required (py_or (dget i ''approved_quantity'') (py_or (dget i ''requested_quantity'')
          (PyDec (Fin quantity)))) ''requested_quantity'' (Some 0)) (\<lambda>requested.
      if requested = 0 then Inl (ValueError ''requested_quantity must be positive'')
      else rbind (allocate_risk s i (fill_metadata env i ''initial_risk_dollars'' ''initial_risk_dollars'') requested quantity)
        (\<lambda>risk.
      rbind (dget_req i ''position_lifecycle_id'') (\<lambda>lifecycle.
        Inr (s\<lparr>position_lots := insert_lot (new_lot env a s symbol quantity price fee risk lifecycle)
                 (position_lots s)\<rparr>)))))"

section \<open>Sells\<close>

text \<open>What the loop over the lots accumulates.\<close>

record sell_acc =
  acc_remaining :: rat
  acc_basis :: rat
  acc_known :: rat
  acc_confidences :: "string list"
  acc_rows :: "consumption list"
  acc_sell_fees :: rat
  acc_adjustments :: rat
  acc_lots :: "lot list"

record sell_ctx =
  ctx_env :: fill_env
  ctx_args :: fill_args
  ctx_quantity :: rat
  ctx_price :: rat
  ctx_fee :: rat
  ctx_adjustment :: rat
  ctx_base_confidence :: string
  ctx_prior :: "consumption list"

definition known :: "string \<Rightarrow> bool" where
  "known c \<longleftrightarrow> c \<in> set KNOWN_CONFIDENCE"

definition prior_buy_fees :: "consumption list \<Rightarrow> string \<Rightarrow> rat" where
  "prior_buy_fees cs lot = dsum (map con_buy_fees (filter (\<lambda>c. con_lot_id c = lot) cs))"

definition close_lot :: "fill_env \<Rightarrow> fill_args \<Rightarrow> rat \<Rightarrow> lot \<Rightarrow> lot" where
  "close_lot env a new_remaining l = l\<lparr>remaining_qty := PyStr (dec_text new_remaining),
     closed_at := (if new_remaining = 0 then Some (fa_occurred_at a) else None), lot_updated_at := env_now env\<rparr>"

definition consume_lot :: "sell_ctx \<Rightarrow> lot \<Rightarrow> sell_acc \<Rightarrow> sell_acc res" where
  "consume_lot c l acc =
     rbind (decimal_required (remaining_qty l) ''position_lot.remaining_quantity_decimal'' None) (\<lambda>lot_remaining.
     rbind (decimal_required (original_qty l) ''position_lot.original_quantity_decimal'' None) (\<lambda>lot_original.
     rbind (decimal_required (unit_cost l) ''position_lot.unit_cost_decimal'' None) (\<lambda>lot_unit_cost.
     rbind (decimal_required (fees_allocated l) ''position_lot.fees_allocated_decimal'' None) (\<lambda>lot_fees.
     if lot_remaining \<le> 0 \<or> lot_original \<le> 0
     then Inl (ValueError ''persisted FIFO lot geometry is invalid'')
     else
       let consumed = min (acc_remaining acc) lot_remaining;
           new_remaining = dsub lot_remaining consumed;
           remaining = dsub (acc_remaining acc) consumed;
           proceeds = dmul consumed (ctx_price c);
           cost = dmul consumed lot_unit_cost;
           remaining_buy_fees = max 0 (dsub lot_fees (prior_buy_fees (ctx_prior c) (lot_id l)));
           buy_fees = (if new_remaining = 0 then remaining_buy_fees
                       else min remaining_buy_fees (dmul lot_fees (ddiv consumed lot_original)));
           sell_fees = (if remaining = 0 then dsub (ctx_fee c) (acc_sell_fees acc)
                        else dmul (ctx_fee c) (ddiv consumed (ctx_quantity c)));
           adjustments = (if remaining = 0 then dsub (ctx_adjustment c) (acc_adjustments acc)
                          else dmul (ctx_adjustment c) (ddiv consumed (ctx_quantity c)));
           confidence = (if known (lot_confidence l) \<and> known (ctx_base_confidence c)
                         then lot_confidence l else ''partially_reconstructed'');
           row = \<lparr>con_id = env_fresh (ctx_env c) (length (acc_rows acc)),
                  con_event_key = fa_event_key (ctx_args c),
                  sell_intent_id = dget (fa_intent (ctx_args c)) ''id'',
                  con_lifecycle = py_or (lot_lifecycle l) (dget (fa_intent (ctx_args c)) ''position_lifecycle_id''),
                  con_lot_id = lot_id l, con_strategy_version = lot_strategy_version l,
                  con_quantity = consumed, con_proceeds = proceeds, con_cost_basis = cost,
                  con_buy_fees = buy_fees, con_sell_fees = sell_fees, con_adjustments = adjustments,
                  con_realized = (if known confidence
                    then Some (dadd (dsub (dsub (dsub proceeds cost) buy_fees) sell_fees) adjustments) else None),
                  con_occurred_at = fa_occurred_at (ctx_args c), con_confidence = confidence\<rparr>
       in Inr \<lparr>acc_remaining = remaining,
               acc_basis = dadd (acc_basis acc) (dadd cost buy_fees),
               acc_known = dadd (acc_known acc) consumed,
               acc_confidences = List.insert (lot_confidence l) (acc_confidences acc),
               acc_rows = acc_rows acc @ [row],
               acc_sell_fees = dadd (acc_sell_fees acc) sell_fees,
               acc_adjustments = dadd (acc_adjustments acc) adjustments,
               acc_lots = update_where (\<lambda>m. lot_id m = lot_id l)
                 (close_lot (ctx_env c) (ctx_args c) new_remaining) (acc_lots acc)\<rparr>))))"

fun sell_loop :: "sell_ctx \<Rightarrow> lot list \<Rightarrow> sell_acc \<Rightarrow> sell_acc res" where
  "sell_loop c [] acc = Inr acc"
| "sell_loop c (l # ls) acc = (if acc_remaining acc = 0 then Inr acc
     else rbind (consume_lot c l acc) (sell_loop c ls))"

text \<open>The open lots of a symbol in FIFO order: by opening time, then by id.\<close>

definition open_lots :: "string \<Rightarrow> lot list \<Rightarrow> lot list" where
  "open_lots symbol ls = sort_key opened_at (sort_key lot_id
     (filter (\<lambda>l. lot_symbol l = symbol \<and> remaining_qty l \<noteq> PyNone \<and> remaining_qty l \<noteq> PyStr ''0'') ls))"

definition sell_confidence :: "string \<Rightarrow> sell_acc \<Rightarrow> string" where
  "sell_confidence base acc =
     (if acc_remaining acc \<noteq> 0 then (if acc_known acc > 0 then ''partially_reconstructed'' else ''unavailable'')
      else if acc_confidences acc = [] \<or> list_ex (\<lambda>c. \<not> known c) (acc_confidences acc)
      then ''partially_reconstructed''
      else if ''reconstructed'' \<in> set (acc_confidences acc) \<or> base = ''reconstructed'' then ''reconstructed''
      else base)"

definition remaining_position :: "string \<Rightarrow> lot list \<Rightarrow> rat res" where
  "remaining_position symbol ls =
     rbind (res_map (\<lambda>l. decimal_required (remaining_qty l) ''position_lot.remaining_quantity_decimal'' None)
       (filter (\<lambda>l. lot_symbol l = symbol) ls)) (\<lambda>xs. Inr (dsum xs))"

definition insert_event :: "pnl_event \<Rightarrow> pnl_event list \<Rightarrow> pnl_event list" where
  "insert_event e es = (if \<exists>f\<in>set es. ev_event_key f = ev_event_key e \<or> ev_id f = ev_id e then es else es @ [e])"

definition insert_consumption :: "consumption \<Rightarrow> consumption list \<Rightarrow> consumption list" where
  "insert_consumption e es = (if \<exists>f\<in>set es. con_id f = con_id e
       \<or> (con_event_key f = con_event_key e \<and> con_lot_id f = con_lot_id e) then es else es @ [e])"

definition sell_start :: "rat \<Rightarrow> lot list \<Rightarrow> sell_acc" where
  "sell_start quantity ls = \<lparr>acc_remaining = quantity, acc_basis = 0, acc_known = 0, acc_confidences = [],
     acc_rows = [], acc_sell_fees = 0, acc_adjustments = 0, acc_lots = ls\<rparr>"

definition sell_realized :: "sell_ctx \<Rightarrow> sell_acc \<Rightarrow> rat option" where
  "sell_realized c acc =
     (if acc_remaining acc = 0 \<and> known (sell_confidence (ctx_base_confidence c) acc)
      then Some (dadd (dsub (dsub (dmul (ctx_quantity c) (ctx_price c)) (acc_basis acc)) (ctx_fee c))
                   (ctx_adjustment c))
      else None)"

definition apply_sell :: "fill_env \<Rightarrow> fill_args \<Rightarrow> string \<Rightarrow> string \<Rightarrow> rat \<Rightarrow> rat \<Rightarrow> rat \<Rightarrow> rat \<Rightarrow> ledger \<Rightarrow> ledger res" where
  "apply_sell env a symbol side quantity price fee adjustment s =
     (let c = \<lparr>ctx_env = env, ctx_args = a, ctx_quantity = quantity, ctx_price = price, ctx_fee = fee,
               ctx_adjustment = adjustment, ctx_base_confidence = base_confidence s,
               ctx_prior = lot_consumptions s\<rparr> in
      rbind (sell_loop c (open_lots symbol (position_lots s)) (sell_start quantity (position_lots s))) (\<lambda>acc.
      rbind (remaining_position symbol (acc_lots acc)) (\<lambda>position.
      rbind (dget_req (fa_intent a) ''id'') (\<lambda>intent_id.
        let days = env_period_keys env (fa_occurred_at a) (fill_timezone a);
            event = \<lparr>ev_id = env_fresh env (length (acc_rows acc)), ev_event_key = fa_event_key a,
              ev_intent_id = intent_id, ev_symbol = symbol, ev_side = side, ev_quantity = quantity,
              ev_proceeds = dmul quantity price,
              ev_cost_basis = (if acc_known acc > 0 then Some (acc_basis acc) else None),
              ev_fees = fee, ev_adjustments = adjustment, ev_realized = sell_realized c acc,
              ev_remaining_position = position, ev_occurred_at = fa_occurred_at a,
              ev_trading_day = fst days, ev_trading_week = snd days, ev_timezone = fill_timezone a,
              ev_source = fa_source a, ev_provenance = base_provenance s,
              ev_confidence = sell_confidence (base_confidence s) acc, ev_created_at = env_now env\<rparr>
        in Inr (s\<lparr>position_lots := acc_lots acc,
                 realized_pnl_events := insert_event event (realized_pnl_events s),
                 lot_consumptions := fold insert_consumption (acc_rows acc) (lot_consumptions s)\<rparr>)))))"

section \<open>Applying a fill\<close>

definition touch_status :: "fill_env \<Rightarrow> fill_args \<Rightarrow> ledger \<Rightarrow> ledger" where
  "touch_status env a s = s\<lparr>pnl_ledger_status := map_option (\<lambda>st. st\<lparr>last_event_at := Some (fa_occurred_at a),
     status_updated_at := env_now env\<rparr>) (pnl_ledger_status s)\<rparr>"

definition apply_fill_in_transaction :: "fill_env \<Rightarrow> fill_args \<Rightarrow> ledger \<Rightarrow> ledger res" where
  "apply_fill_in_transaction env a s =
     rbind (decimal_required (fa_delta_quantity a) ''delta_quantity'' (Some 0)) (\<lambda>quantity.
     if quantity = 0 then Inr s
     else
       rbind (decimal_required (fa_fill_price a) ''fill_price'' (Some 0)) (\<lambda>price.
       rbind (decimal_required (fa_fees a) ''fees'' (Some 0)) (\<lambda>fee.
       rbind (decimal_required (fa_adjustments a) ''adjustments'' None) (\<lambda>adjustment.
       if price = 0 then Inl (ValueError ''fill_price must be positive'')
       else
         rbind (dget_req (fa_intent a) ''symbol'') (\<lambda>sym.
         rbind (dget_req (fa_intent a) ''side'') (\<lambda>sd.
           let symbol = upper (py_str sym); side = lower (py_str sd) in
           rbind (if side = ''buy'' then apply_buy env a symbol quantity price fee s
                  else if side = ''sell'' then apply_sell env a symbol side quantity price fee adjustment s
                  else Inl (ValueError (''unsupported fill side for FIFO ledger: '' @ side)))
             (\<lambda>s'. Inr (touch_status env a s'))))))))"

section \<open>Manual adjustments\<close>

definition manual_lot :: "string \<Rightarrow> string \<Rightarrow> string \<Rightarrow> rat \<Rightarrow> rat \<Rightarrow> string \<Rightarrow> string \<Rightarrow> string \<Rightarrow> lot" where
  "manual_lot now identifier symbol q price occurred_at provenance confidence =
     \<lparr>lot_id = identifier, lot_symbol = symbol, lot_lifecycle = PyNone,
      source_fill_event_key = ''manual:'' @ identifier, opened_at = occurred_at, closed_at = None,
      original_qty = PyStr (dec_text q), remaining_qty = PyStr (dec_text q),
      unit_cost = PyStr (dec_text price), fees_allocated = PyStr ''0'', initial_risk = PyNone,
      lot_source = ''manual_adjustment'', lot_provenance = provenance, lot_confidence = confidence,
      lot_created_at = now, lot_updated_at = now, lot_strategy_version = PyNone,
      entry_proposal_id = PyNone, entry_intent_id = PyNone, entry_regime = PyNone,
      entry_score = PyNone, lot_config_hash = PyNone, lot_evidence_version = PyNone,
      lot_formula_version = PyStr ACCOUNTING_VERSION\<rparr>"

definition record_manual_adjustment ::
  "string \<Rightarrow> string \<Rightarrow> pyval \<Rightarrow> pyval \<Rightarrow> pyval \<Rightarrow> string \<Rightarrow> pyval \<Rightarrow> string \<Rightarrow> ledger \<Rightarrow> (string \<times> ledger) res" where
  "record_manual_adjustment now identifier symbol quantity unit_cost_arg occurred_at provenance confidence s =
     (if confidence \<notin> set ALL_CONFIDENCE then Inl (ValueError (''invalid P&L confidence: '' @ confidence))
      else rbind (decimal_required quantity ''quantity'' (Some 0)) (\<lambda>q.
      if q = 0 then Inl (ValueError ''manual adjustment quantity must be positive'')
      else if strip (py_str symbol) = [] then Inl (ValueError ''manual adjustment symbol is required'')
      else if strip (py_str provenance) = [] then Inl (ValueError ''manual adjustment provenance is required'')
      else rbind (if unit_cost_arg \<noteq> PyNone then decimal_required unit_cost_arg ''unit_cost'' (Some 0) else Inr 0) (\<lambda>price.
      if unit_cost_arg \<noteq> PyNone \<and> price = 0
      then Inl (ValueError ''manual adjustment unit_cost must be positive when supplied'')
      else
        let l = manual_lot now identifier (upper (py_str symbol)) q price occurred_at (py_str provenance)
              (if unit_cost_arg \<noteq> PyNone then confidence else ''unavailable'')
        in if \<exists>m\<in>set (position_lots s). lot_id m = lot_id l \<or> source_fill_event_key m = source_fill_event_key l
           then Inl (IntegrityError ''UNIQUE constraint failed: position_lots'')
           else Inr (identifier, s\<lparr>position_lots := position_lots s @ [l]\<rparr>))))"

section \<open>Summaries\<close>

text \<open>
  The rows a summary reads: the events of one trading day or week, or all events up to a moment.
  Their realized value is the canonical text column; a missing one makes the sum unknown.
\<close>

definition events_realized :: "pnl_event list \<Rightarrow> rat option" where
  "events_realized es = (if list_ex (\<lambda>e. ev_realized e = None \<or> \<not> known (ev_confidence e)) es then None
     else Some (dsum (map (\<lambda>e. case ev_realized e of None \<Rightarrow> 0 | Some x \<Rightarrow> x) es)))"

definition events_confidence :: "string \<Rightarrow> pnl_event list \<Rightarrow> string" where
  "events_confidence status es = (if status = ''reconstructed'' \<or> list_ex (\<lambda>e. ev_confidence e = ''reconstructed'') es
     then ''reconstructed'' else ''verified'')"

text \<open>\<open>coverage > boundary\<close> compares the moment the coverage starts with the start of the period.\<close>

definition period_summary :: "(string \<Rightarrow> int) \<Rightarrow> int \<Rightarrow> ledger_status option \<Rightarrow> pnl_event list \<Rightarrow> rat option \<times> string" where
  "period_summary moment_of boundary status rows =
     (case status of
        None \<Rightarrow> (None, ''unavailable'')
      | Some st \<Rightarrow>
          if effective_from st = [] then (None, ''unavailable'')
          else if moment_of (effective_from st) > boundary then (None, ''unavailable'')
          else if \<not> known (status_confidence st)
          then (None, if status_confidence st \<in> set ALL_CONFIDENCE then status_confidence st else ''unavailable'')
          else (case events_realized rows of
              None \<Rightarrow> (None, ''partially_reconstructed'')
            | Some x \<Rightarrow> (Some x, events_confidence (status_confidence st) rows)))"

record realized_summary =
  daily_realized_pl :: "rat option"
  weekly_realized_pl :: "rat option"
  daily_confidence :: string
  weekly_confidence :: string
  daily_boundary :: string
  weekly_boundary :: string
  summary_provenance :: string

record calendar =
  cal_keys :: "int \<Rightarrow> string \<times> string"
  cal_day_start :: "int \<Rightarrow> int"
  cal_week_start :: "int \<Rightarrow> int"
  cal_moment :: "string \<Rightarrow> int"

definition ledger_summary :: "calendar \<Rightarrow> int \<Rightarrow> ledger \<Rightarrow> realized_summary" where
  "ledger_summary cal moment s =
     (let keys = cal_keys cal moment;
          daily = period_summary (cal_moment cal) (cal_day_start cal moment) (pnl_ledger_status s)
            (filter (\<lambda>e. ev_trading_day e = fst keys) (realized_pnl_events s));
          weekly = period_summary (cal_moment cal) (cal_week_start cal moment) (pnl_ledger_status s)
            (filter (\<lambda>e. ev_trading_week e = snd keys) (realized_pnl_events s))
      in \<lparr>daily_realized_pl = fst daily, weekly_realized_pl = fst weekly,
          daily_confidence = snd daily, weekly_confidence = snd weekly,
          daily_boundary = fst keys, weekly_boundary = snd keys, summary_provenance = base_provenance s\<rparr>)"

text \<open>\<open>occurred_at <= ?\<close> compares the texts of the two timestamps.\<close>

definition cumulative_realized_pl :: "string \<Rightarrow> ledger \<Rightarrow> rat option \<times> string" where
  "cumulative_realized_pl moment s =
     (case pnl_ledger_status s of
        None \<Rightarrow> (None, ''unavailable'')
      | Some st \<Rightarrow>
          if effective_from st = [] then (None, ''unavailable'')
          else if \<not> known (status_confidence st)
          then (None, if status_confidence st \<noteq> [] then status_confidence st else ''unavailable'')
          else let rows = filter (\<lambda>e. ev_occurred_at e \<le> moment) (realized_pnl_events s) in
            (case events_realized rows of
               None \<Rightarrow> (None, ''partially_reconstructed'')
             | Some x \<Rightarrow> (Some x, events_confidence (status_confidence st) rows)))"

end
