(* ===== verification/Fifo_Accounting.thy ===== *)
theory Fifo_Accounting
  imports Lot_Ledger "HOL-Library.Multiset"
begin

text \<open>
  What the FIFO ledger of \<open>Lot_Ledger\<close> guarantees: the invariant of its lots under every sequence of
  operations, the FIFO order and the conservation of quantity of a sell, the fee shares, the risk
  allocation of partial buys, and when a realized result is known.
\<close>

section \<open>Well-formed lots\<close>

text \<open>The decimal a canonical text column stores.\<close>

definition stored :: "pyval \<Rightarrow> rat option" where
  "stored v = (case v of PyStr t \<Rightarrow> (case parse_decimal t of
       Some (Fin x) \<Rightarrow> if dec_text x = t then Some x else None | _ \<Rightarrow> None) | _ \<Rightarrow> None)"

definition lot_rem :: "lot \<Rightarrow> rat" where
  "lot_rem l = (case stored (remaining_qty l) of None \<Rightarrow> 0 | Some r \<Rightarrow> r)"

definition wf_quantities :: "rat option \<Rightarrow> rat option \<Rightarrow> bool" where
  "wf_quantities remaining original = (case (remaining, original) of
     (Some r, Some q) \<Rightarrow> dec28 r \<and> 0 \<le> r \<and> r \<le> q \<and> 0 < q | _ \<Rightarrow> False)"

definition wf_lot :: "lot \<Rightarrow> bool" where
  "wf_lot l \<longleftrightarrow> wf_quantities (stored (remaining_qty l)) (stored (original_qty l))
     \<and> stored (unit_cost l) \<noteq> None \<and> stored (fees_allocated l) \<noteq> None"

definition wf_ledger :: "ledger \<Rightarrow> bool" where
  "wf_ledger s \<longleftrightarrow> list_all wf_lot (position_lots s) \<and> distinct (map lot_id (position_lots s))
     \<and> distinct (map source_fill_event_key (position_lots s))"

text \<open>The quantities a sell takes from lots of the given remaining quantities, in FIFO order.\<close>

fun fifo_takes :: "rat \<Rightarrow> rat list \<Rightarrow> rat list" where
  "fifo_takes R [] = []"
| "fifo_takes R (r # rs) = (if R = 0 then [] else min R r # fifo_takes (dsub R (min R r)) rs)"

lemma stored_iff: "stored v = Some x \<longleftrightarrow> v = PyStr (dec_text x) \<and> is_decimal x"
proof
  assume s: "stored v = Some x"
  then obtain t where v: "v = PyStr t" by (cases v) (simp_all add: stored_def)
  from s v have "parse_decimal t = Some (Fin x)" "dec_text x = t"
    by (auto simp only: stored_def pyval.case split: option.splits pydec.splits if_splits)
  then show "v = PyStr (dec_text x) \<and> is_decimal x" using v parse_decimal_is_decimal by simp
next
  assume "v = PyStr (dec_text x) \<and> is_decimal x"
  then show "stored v = Some x" by (simp add: stored_def parse_dec_text)
qed

lemma stored_text [simp]: "is_decimal x \<Longrightarrow> stored (PyStr (dec_text x)) = Some x"
  by (simp add: stored_iff)

lemma stored_required: "stored v = Some x \<Longrightarrow> decimal_required v f None = Inr x"
  by (auto simp: stored_iff decimal_required_text)

lemma wf_lotE:
  assumes "wf_lot l"
  obtains q u f where "remaining_qty l = PyStr (dec_text (lot_rem l))" "dec28 (lot_rem l)"
    "0 \<le> lot_rem l" "lot_rem l \<le> q" "0 < q"
    "decimal_required (remaining_qty l) ''position_lot.remaining_quantity_decimal'' None = Inr (lot_rem l)"
    "decimal_required (original_qty l) ''position_lot.original_quantity_decimal'' None = Inr q"
    "decimal_required (unit_cost l) ''position_lot.unit_cost_decimal'' None = Inr u"
    "decimal_required (fees_allocated l) ''position_lot.fees_allocated_decimal'' None = Inr f"
    "stored (original_qty l) = Some q"
proof -
  from assms obtain r q where r: "stored (remaining_qty l) = Some r" and q: "stored (original_qty l) = Some q"
    and le: "dec28 r" "0 \<le> r" "r \<le> q" "0 < q"
    by (auto simp: wf_lot_def wf_quantities_def split: option.splits)
  from assms obtain u f where u: "stored (unit_cost l) = Some u" and f: "stored (fees_allocated l) = Some f"
    by (auto simp: wf_lot_def)
  have rem: "lot_rem l = r" using r by (simp add: lot_rem_def)
  show thesis
    by (rule that [of q u f])
      (use r le q stored_required [OF r] stored_required [OF q] stored_required [OF u] stored_required [OF f]
        in \<open>auto simp: rem stored_iff\<close>)
qed

lemma close_lot_simps [simp]:
  "lot_id (close_lot env a x l) = lot_id l" "lot_symbol (close_lot env a x l) = lot_symbol l"
  "original_qty (close_lot env a x l) = original_qty l" "unit_cost (close_lot env a x l) = unit_cost l"
  "fees_allocated (close_lot env a x l) = fees_allocated l" "lot_confidence (close_lot env a x l) = lot_confidence l"
  "source_fill_event_key (close_lot env a x l) = source_fill_event_key l"
  "remaining_qty (close_lot env a x l) = PyStr (dec_text x)" "opened_at (close_lot env a x l) = opened_at l"
  by (simp_all add: close_lot_def)

lemma lot_rem_close [simp]: "dec28 x \<Longrightarrow> lot_rem (close_lot env a x l) = x"
  by (simp add: lot_rem_def is_decimal_dec28)

lemma wf_close_lot:
  assumes "wf_lot l" "dec28 x" "0 \<le> x" "x \<le> lot_rem l"
  shows "wf_lot (close_lot env a x l)"
  using assms by (auto simp: wf_lot_def wf_quantities_def lot_rem_def is_decimal_dec28 split: option.splits)

text \<open>Closing a lot is an update of a table keyed by the lot id.\<close>

interpretation lots: keyed_table lot_id "\<lambda>(env, a, x). close_lot env a x"
  by unfold_locales auto

section \<open>One consumption\<close>

text \<open>What one turn of the loop does, for a well-formed lot with something left.\<close>

definition took :: "sell_ctx \<Rightarrow> lot \<Rightarrow> rat \<Rightarrow> sell_acc \<Rightarrow> sell_acc \<Rightarrow> bool" where
  "took c l t acc acc' \<longleftrightarrow>
     t = min (acc_remaining acc) (lot_rem l)
     \<and> acc_remaining acc' = dsub (acc_remaining acc) t
     \<and> acc_known acc' = dadd (acc_known acc) t
     \<and> acc_confidences acc' = List.insert (lot_confidence l) (acc_confidences acc)
     \<and> acc_lots acc' = update_where (\<lambda>m. lot_id m = lot_id l)
           (close_lot (ctx_env c) (ctx_args c) (dsub (lot_rem l) t)) (acc_lots acc)
     \<and> (\<exists>row. acc_rows acc' = acc_rows acc @ [row] \<and> con_quantity row = t \<and> con_lot_id row = lot_id l
          \<and> con_proceeds row = dmul t (ctx_price c)
          \<and> (con_realized row \<noteq> None \<longrightarrow> known (lot_confidence l) \<and> known (ctx_base_confidence c)
               \<and> con_realized row = Some (dadd (dsub (dsub (dsub (con_proceeds row) (con_cost_basis row))
                   (con_buy_fees row)) (con_sell_fees row)) (con_adjustments row))))"

lemma consume_lot_took:
  assumes "wf_lot l" and "lot_rem l \<noteq> 0"
  shows "\<exists>acc'. consume_lot c l acc = Inr acc' \<and> took c l (min (acc_remaining acc) (lot_rem l)) acc acc'"
proof -
  from wf_lotE [OF assms(1)] obtain q u f where
    d: "decimal_required (remaining_qty l) ''position_lot.remaining_quantity_decimal'' None = Inr (lot_rem l)"
    "decimal_required (original_qty l) ''position_lot.original_quantity_decimal'' None = Inr q"
    "decimal_required (unit_cost l) ''position_lot.unit_cost_decimal'' None = Inr u"
    "decimal_required (fees_allocated l) ''position_lot.fees_allocated_decimal'' None = Inr f"
    and b: "0 \<le> lot_rem l" "0 < q" by metis
  have k: "\<not> known ''partially_reconstructed''" by code_simp
  have "\<not> (lot_rem l \<le> 0 \<or> q \<le> 0)" using b assms(2) by auto
  then show ?thesis
    by (auto simp: consume_lot_def d Let_def took_def k)
qed


section \<open>The whole sell\<close>

fun drain :: "sell_ctx \<Rightarrow> rat \<Rightarrow> lot list \<Rightarrow> lot list \<Rightarrow> lot list" where
  "drain c R [] tbl = tbl"
| "drain c R (l # ls) tbl = (if R = 0 then tbl else
     drain c (dsub R (min R (lot_rem l))) ls (update_where (\<lambda>m. lot_id m = lot_id l)
       (close_lot (ctx_env c) (ctx_args c) (dsub (lot_rem l) (min R (lot_rem l)))) tbl))"

definition row_balanced :: "consumption \<Rightarrow> bool" where
  "row_balanced row \<longleftrightarrow> (case con_realized row of None \<Rightarrow> True | Some x \<Rightarrow>
     x = dadd (dsub (dsub (dsub (con_proceeds row) (con_cost_basis row)) (con_buy_fees row)) (con_sell_fees row))
       (con_adjustments row))"

definition sold :: "sell_ctx \<Rightarrow> lot list \<Rightarrow> sell_acc \<Rightarrow> sell_acc \<Rightarrow> bool" where
  "sold c ls acc acc' \<longleftrightarrow> (let ts = fifo_takes (acc_remaining acc) (map lot_rem ls) in
     acc_remaining acc' = foldl dsub (acc_remaining acc) ts
     \<and> acc_known acc' = foldl dadd (acc_known acc) ts
     \<and> acc_lots acc' = drain c (acc_remaining acc) ls (acc_lots acc)
     \<and> set (acc_confidences acc') = set (acc_confidences acc) \<union> lot_confidence ` set (take (length ts) ls)
     \<and> (\<exists>rows. acc_rows acc' = acc_rows acc @ rows \<and> map con_quantity rows = ts
          \<and> map con_lot_id rows = map lot_id (take (length ts) ls) \<and> list_all row_balanced rows))"

lemma sell_loop_sold:
  assumes "list_all (\<lambda>l. wf_lot l \<and> lot_rem l \<noteq> 0) ls"
  shows "\<exists>acc'. sell_loop c ls acc = Inr acc' \<and> sold c ls acc acc'"
  using assms
proof (induction ls arbitrary: acc)
  case Nil
  then show ?case by (simp add: sold_def)
next
  case (Cons l ls)
  show ?case
  proof (cases "acc_remaining acc = 0")
    case True
    then show ?thesis by (simp add: sold_def)
  next
    case False
    let ?t = "min (acc_remaining acc) (lot_rem l)"
    from consume_lot_took [of l c acc] Cons.prems obtain acc1 where
      c1: "consume_lot c l acc = Inr acc1" and t: "took c l ?t acc acc1" by auto
    from Cons.IH [of acc1] Cons.prems obtain acc' where
      c2: "sell_loop c ls acc1 = Inr acc'" and s: "sold c ls acc1 acc'" by auto
    from t obtain row where row: "acc_rows acc1 = acc_rows acc @ [row]" "con_quantity row = ?t"
      "con_lot_id row = lot_id l" "row_balanced row"
      by (auto simp: took_def row_balanced_def split: option.splits)
    from s obtain rows where rows: "acc_rows acc' = acc_rows acc1 @ rows"
      "map con_quantity rows = fifo_takes (acc_remaining acc1) (map lot_rem ls)"
      "map con_lot_id rows = map lot_id (take (length (fifo_takes (acc_remaining acc1) (map lot_rem ls))) ls)"
      "list_all row_balanced rows" by (auto simp: sold_def Let_def)
    have "sold c (l # ls) acc acc'"
      unfolding sold_def Let_def
    proof (intro conjI)
      show "\<exists>rows. acc_rows acc' = acc_rows acc @ rows
          \<and> map con_quantity rows = fifo_takes (acc_remaining acc) (map lot_rem (l # ls))
          \<and> map con_lot_id rows = map lot_id (take (length (fifo_takes (acc_remaining acc) (map lot_rem (l # ls)))) (l # ls))
          \<and> list_all row_balanced rows"
        using row rows t False by (intro exI [of _ "row # rows"]) (simp add: took_def)
    qed (use s t False in \<open>auto simp: sold_def took_def Let_def\<close>)
    then show ?thesis using False c1 c2 by simp
  qed
qed

section \<open>FIFO order\<close>

lemma fifo_takes_full: "Suc i < length (fifo_takes R rs) \<Longrightarrow> fifo_takes R rs ! i = rs ! i"
proof (induction R rs arbitrary: i rule: fifo_takes.induct)
  case (2 R r rs)
  show ?case
  proof (cases i)
    case 0
    with "2.prems" have "dsub R (min R r) \<noteq> 0" by (cases rs) (auto split: if_splits)
    then have "min R r = r" by (auto simp: min_def)
    then show ?thesis using 0 "2.prems" by (auto split: if_splits)
  next
    case (Suc k)
    then show ?thesis using 2 by (auto split: if_splits)
  qed
qed simp

lemma fifo_takes_length: "length (fifo_takes R rs) \<le> length rs"
  by (induction R rs rule: fifo_takes.induct) auto

lemma drain_fetch_other:
  "i \<notin> lot_id ` set (take (length (fifo_takes R (map lot_rem ls))) ls) \<Longrightarrow>
     fetch_one (\<lambda>m. lot_id m = i) (drain c R ls tbl) = fetch_one (\<lambda>m. lot_id m = i) tbl"
proof (induction c R ls tbl rule: drain.induct)
  case (2 c R l ls tbl)
  show ?case
  proof (cases "R = 0")
    case False
    then have "i \<noteq> lot_id l" using "2.prems" by auto
    then show ?thesis using 2 False lots.fetch_other [of i "lot_id l" "(ctx_env c, ctx_args c, _)"] by simp
  qed simp
qed simp

lemma drain_fetch:
  assumes "distinct (map lot_id ls)" and "k < length (fifo_takes R (map lot_rem ls))"
  shows "fetch_one (\<lambda>m. lot_id m = lot_id (ls ! k)) (drain c R ls tbl)
    = map_option (close_lot (ctx_env c) (ctx_args c) (dsub (lot_rem (ls ! k)) (fifo_takes R (map lot_rem ls) ! k)))
        (fetch_one (\<lambda>m. lot_id m = lot_id (ls ! k)) tbl)"
  using assms
proof (induction c R ls tbl arbitrary: k rule: drain.induct)
  case (2 c R l ls tbl)
  from "2.prems"(2) have R: "R \<noteq> 0" by (auto split: if_splits)
  show ?case
  proof (cases k)
    case 0
    have "lot_id l \<notin> lot_id ` set (take n ls)" for n
      using "2.prems"(1) by (auto dest: in_set_takeD)
    then show ?thesis
      using 0 R lots.fetch_same [of "lot_id l" "(ctx_env c, ctx_args c, _)"] by (simp add: drain_fetch_other)
  next
    case (Suc j)
    have j: "j < length (fifo_takes (dsub R (min R (lot_rem l))) (map lot_rem ls))"
      using "2.prems"(2) Suc R by simp
    then have "j < length ls" using fifo_takes_length [of _ "map lot_rem ls"] by (metis length_map order_less_le_trans)
    then have "lot_id (ls ! j) \<noteq> lot_id l" using "2.prems"(1) by (simp add: image_iff) (metis nth_mem)
    then show ?thesis
      using "2.IH" [OF R, of j] j "2.prems"(1) Suc R
        lots.fetch_other [of "lot_id (ls ! j)" "lot_id l" "(ctx_env c, ctx_args c, _)"] by simp
  qed
qed simp


section \<open>Conservation of quantity\<close>

text \<open>The multiples of \<open>10 ^ k\<close> with at most 28 digits: differences of these are exact.\<close>

definition on_grid :: "int \<Rightarrow> rat \<Rightarrow> bool" where
  "on_grid k x \<longleftrightarrow> (\<exists>c. x = of_int c * 10 powi k \<and> 0 \<le> c \<and> c < 10 ^ 28)"

definition position_total :: "string \<Rightarrow> lot list \<Rightarrow> rat" where
  "position_total symbol ls = sum_list (map (\<lambda>l. if lot_symbol l = symbol then lot_rem l else 0) ls)"

lemma on_grid_nonneg: "on_grid k x \<Longrightarrow> 0 \<le> x"
  by (auto simp: on_grid_def)

lemma on_grid_0: "on_grid k 0"
  by (auto simp: on_grid_def intro!: exI [of _ 0])

lemma on_grid_diff:
  assumes "on_grid k x" "on_grid k y" "y \<le> x"
  shows "on_grid k (x - y)"
proof -
  obtain c d where x: "x = of_int c * 10 powi k" "0 \<le> c" "c < 10 ^ 28" and y: "y = of_int d * 10 powi k" "0 \<le> d"
    using assms by (auto simp: on_grid_def)
  have "d \<le> c" using assms(3) x(1) y(1) by simp
  then show ?thesis using x y
    by (auto simp: on_grid_def left_diff_distrib intro!: exI [of _ "c - d"])
qed

lemma on_grid_dec28: "on_grid k x \<Longrightarrow> dec28 x"
  by (auto simp: on_grid_def intro: dec28I)

lemma on_grid_dsub: "on_grid k x \<Longrightarrow> on_grid k y \<Longrightarrow> y \<le> x \<Longrightarrow> dsub x y = x - y"
  by (intro dsub_exact on_grid_dec28 on_grid_diff)

lemma on_grid_min: "on_grid k x \<Longrightarrow> on_grid k y \<Longrightarrow> on_grid k (min x y)"
  by (simp add: min_def)

lemma sum_list_update_where:
  fixes g :: "lot \<Rightarrow> rat"
  assumes "distinct (map lot_id tbl)" and "l \<in> set tbl"
  shows "sum_list (map g (update_where (\<lambda>m. lot_id m = lot_id l) h tbl)) = sum_list (map g tbl) - g l + g (h l)"
  using assms
proof (induction tbl)
  case (Cons m tbl)
  show ?case
  proof (cases "m = l")
    case True
    then have "update_where (\<lambda>m. lot_id m = lot_id l) h tbl = tbl"
      using Cons.prems by (induction tbl) auto
    then show ?thesis using True by simp
  next
    case False
    then have "l \<in> set tbl" "lot_id m \<noteq> lot_id l" using Cons.prems by (auto simp: image_iff)
    then show ?thesis using Cons by simp
  qed
qed simp

lemma drain_ids: "map lot_id (drain c R ls tbl) = map lot_id tbl"
  by (induction c R ls tbl rule: drain.induct)
    (auto simp: lots.keys_update [of _ "(ctx_env c, ctx_args c, _)" for c, simplified])

lemma drain_keys: "map source_fill_event_key (drain c R ls tbl) = map source_fill_event_key tbl"
  by (induction c R ls tbl rule: drain.induct) (auto simp: map_update_where)

lemma mem_update_other: "m \<in> set tbl \<Longrightarrow> \<not> p m \<Longrightarrow> m \<in> set (update_where p f tbl)"
  by (auto simp: update_where_def image_iff)

lemma drain_total:
  assumes "on_grid k R" and "\<forall>l\<in>set ls. on_grid k (lot_rem l) \<and> lot_symbol l = symbol"
    and "distinct (map lot_id tbl)" and "distinct (map lot_id ls)" and "set ls \<subseteq> set tbl"
  shows "position_total symbol (drain c R ls tbl) = position_total symbol tbl - min R (sum_list (map lot_rem ls))"
  using assms
proof (induction c R ls tbl rule: drain.induct)
  case (1 c R tbl)
  then show ?case using on_grid_nonneg by (fastforce simp: min_def)
next
  case (2 c R l ls tbl)
  have S: "0 \<le> sum_list (map lot_rem ls)"
    using "2.prems"(2) by (intro sum_list_nonneg) (auto dest: on_grid_nonneg)
  show ?case
  proof (cases "R = 0")
    case True
    then show ?thesis using S "2.prems"(2) on_grid_nonneg by (fastforce simp: min_def)
  next
    case False
    let ?r = "lot_rem l" let ?t = "min R ?r"
    let ?tbl = "update_where (\<lambda>m. lot_id m = lot_id l) (close_lot (ctx_env c) (ctx_args c) (dsub ?r ?t)) tbl"
    have r: "on_grid k ?r" "lot_symbol l = symbol" using "2.prems"(2) by auto
    have t: "on_grid k ?t" using "2.prems"(1) r by (rule_tac on_grid_min)
    have d: "dsub R ?t = R - ?t" "dsub ?r ?t = ?r - ?t"
      using "2.prems"(1) r t by (auto intro: on_grid_dsub)
    have rem: "position_total symbol ?tbl = position_total symbol tbl - ?t"
      using "2.prems"(3,5) r on_grid_dec28 [OF on_grid_diff [OF r(1) t]]
      by (simp add: position_total_def sum_list_update_where d)
    have sub: "set ls \<subseteq> set ?tbl"
    proof
      fix m assume m: "m \<in> set ls"
      then have "lot_id m \<noteq> lot_id l" using "2.prems"(4) by (auto simp: image_iff)
      then show "m \<in> set ?tbl" using m "2.prems"(5) by (intro mem_update_other) auto
    qed
    have dist: "distinct (map lot_id ?tbl)"
      using "2.prems"(3) lots.keys_update [of _ "(ctx_env c, ctx_args c, _)" tbl] by simp
    have "position_total symbol (drain c (R - ?t) ls ?tbl)
        = position_total symbol ?tbl - min (R - ?t) (sum_list (map lot_rem ls))"
      using "2.IH" [OF False] "2.prems" sub dist on_grid_diff [OF "2.prems"(1) t] unfolding d by simp
    moreover have "min R (?r + sum_list (map lot_rem ls)) = ?t + min (R - ?t) (sum_list (map lot_rem ls))"
      using S on_grid_nonneg [OF r(1)] by (auto simp: min_def)
    ultimately show ?thesis using False rem by (simp add: d)
  qed
qed

section \<open>The invariant\<close>

lemma wf_drain:
  assumes "0 \<le> R" and "list_all wf_lot tbl" and "list_all wf_lot ls" and "distinct (map lot_id tbl)"
    and "distinct (map lot_id ls)" and "set ls \<subseteq> set tbl"
  shows "list_all wf_lot (drain c R ls tbl)"
  using assms
proof (induction c R ls tbl rule: drain.induct)
  case (2 c R l ls tbl)
  show ?case
  proof (cases "R = 0")
    case False
    let ?t = "min R (lot_rem l)"
    let ?f = "close_lot (ctx_env c) (ctx_args c) (dsub (lot_rem l) ?t)"
    let ?tbl = "update_where (\<lambda>m. lot_id m = lot_id l) ?f tbl"
    from "2.prems"(3) obtain q where r: "dec28 (lot_rem l)" "0 \<le> lot_rem l" by (auto elim: wf_lotE)
    have fl: "wf_lot (?f l)"
      using "2.prems"(1,3) r by (intro wf_close_lot) (auto simp: dsub_nonneg dsub_le)
    have uniq: "m = l" if "m \<in> set tbl" "lot_id m = lot_id l" for m
      using that "2.prems"(4,6) by (auto simp: distinct_map inj_on_def)
    have w: "list_all wf_lot ?tbl"
      using "2.prems"(2) fl by (auto simp: list_all_iff dest!: set_update_where dest: uniq)
    have sub: "set ls \<subseteq> set ?tbl"
    proof
      fix m assume m: "m \<in> set ls"
      then have "lot_id m \<noteq> lot_id l" using "2.prems"(5) by (auto simp: image_iff)
      then show "m \<in> set ?tbl" using m "2.prems"(6) by (intro mem_update_other) auto
    qed
    have dist: "distinct (map lot_id ?tbl)"
      using "2.prems"(4) lots.keys_update [of _ "(ctx_env c, ctx_args c, _)" tbl] by simp
    show ?thesis using "2.IH" [OF False] "2.prems" w sub dist False by (simp add: dsub_nonneg)
  qed (use 2 in simp)
qed simp


section \<open>Applying a sell\<close>

lemma open_lots_set:
  "set (open_lots symbol ls) =
     {l \<in> set ls. lot_symbol l = symbol \<and> remaining_qty l \<noteq> PyNone \<and> remaining_qty l \<noteq> PyStr ''0''}"
  by (auto simp: open_lots_def)

lemma open_lots_sorted:
  "sorted_wrt (\<lambda>l m. opened_at l < opened_at m \<or> opened_at l = opened_at m \<and> lot_id l \<le> lot_id m) (open_lots symbol ls)"
proof -
  have stable: "sorted_wrt (\<lambda>l m. opened_at l < opened_at m \<or> opened_at l = opened_at m \<and> lot_id l \<le> lot_id m)
      (sort_key opened_at xs)" if "sorted (map lot_id xs)" for xs :: "lot list"
    using that
  proof (induction xs)
    case (Cons x xs)
    have ins: "sorted_wrt (\<lambda>l m. opened_at l < opened_at m \<or> opened_at l = opened_at m \<and> lot_id l \<le> lot_id m)
        (insort_key opened_at x ys)"
      if "sorted_wrt (\<lambda>l m. opened_at l < opened_at m \<or> opened_at l = opened_at m \<and> lot_id l \<le> lot_id m) ys"
        and "\<forall>y\<in>set ys. lot_id x \<le> lot_id y" for ys
      using that by (induction ys) (auto simp: set_insort_key)
    show ?case using Cons by (auto intro!: ins)
  qed simp
  show ?thesis unfolding open_lots_def by (rule stable) simp
qed

lemma open_lots_wf:
  assumes "wf_ledger s"
  shows "list_all (\<lambda>l. wf_lot l \<and> lot_rem l \<noteq> 0) (open_lots symbol (position_lots s))"
    and "distinct (map lot_id (open_lots symbol (position_lots s)))"
    and "set (open_lots symbol (position_lots s)) \<subseteq> set (position_lots s)"
proof -
  have "lot_rem l \<noteq> 0" if "wf_lot l" "remaining_qty l \<noteq> PyStr ''0''" for l
    using that by (auto elim!: wf_lotE simp: dec_text_0)
  then show "list_all (\<lambda>l. wf_lot l \<and> lot_rem l \<noteq> 0) (open_lots symbol (position_lots s))"
    using assms by (auto simp: list_all_iff open_lots_set wf_ledger_def)
  show "distinct (map lot_id (open_lots symbol (position_lots s)))"
    using assms by (auto simp: wf_ledger_def open_lots_def distinct_map inj_on_def)
qed (auto simp: open_lots_set)

lemma open_lots_total:
  assumes "wf_ledger s"
  shows "sum_list (map lot_rem (open_lots symbol (position_lots s))) = position_total symbol (position_lots s)"
proof -
  have s0: "stored (PyStr ''0'') = Some 0"
    using stored_text [of 0] is_decimal_dec28 [OF dec28_0] by (simp only: dec_text_0)
  have z: "lot_rem l = 0" if "remaining_qty l = PyNone \<or> remaining_qty l = PyStr ''0''" for l
    using that s0 by (auto simp: lot_rem_def stored_def [of PyNone])
  have perm: "sum_list (map lot_rem xs) = sum_list (map lot_rem ys)" if "mset xs = mset ys" for xs ys :: "lot list"
  proof -
    have "sum_mset (mset (map lot_rem xs)) = sum_mset (mset (map lot_rem ys))" using that by simp
    then show ?thesis by (simp only: sum_mset_sum_list)
  qed
  have "sum_list (map lot_rem (open_lots symbol ls)) = sum_list (map lot_rem (filter (\<lambda>l. lot_symbol l = symbol
      \<and> remaining_qty l \<noteq> PyNone \<and> remaining_qty l \<noteq> PyStr ''0'') ls))" for ls
    by (rule perm) (simp add: open_lots_def)
  moreover have "sum_list (map lot_rem (filter (\<lambda>l. lot_symbol l = symbol
      \<and> remaining_qty l \<noteq> PyNone \<and> remaining_qty l \<noteq> PyStr ''0'') ls)) = position_total symbol ls"
    if "set ls \<subseteq> set (position_lots s)" for ls
    using that z by (induction ls) (auto simp: position_total_def)
  ultimately show ?thesis by simp
qed

definition sell_context :: "fill_env \<Rightarrow> fill_args \<Rightarrow> rat \<Rightarrow> rat \<Rightarrow> rat \<Rightarrow> rat \<Rightarrow> ledger \<Rightarrow> sell_ctx" where
  "sell_context env a quantity price fee adjustment s = \<lparr>ctx_env = env, ctx_args = a, ctx_quantity = quantity,
     ctx_price = price, ctx_fee = fee, ctx_adjustment = adjustment, ctx_base_confidence = base_confidence s,
     ctx_prior = lot_consumptions s\<rparr>"

lemma apply_sell_result:
  assumes wf: "wf_ledger s"
    and sell: "apply_sell env a symbol side quantity price fee adjustment s = Inr s'"
  shows "\<exists>acc ev. sold (sell_context env a quantity price fee adjustment s) (open_lots symbol (position_lots s))
        (sell_start quantity (position_lots s)) acc
    \<and> position_lots s' = acc_lots acc
    \<and> pnl_ledger_status s' = pnl_ledger_status s
    \<and> lot_consumptions s' = fold insert_consumption (acc_rows acc) (lot_consumptions s)
    \<and> realized_pnl_events s' = insert_event ev (realized_pnl_events s)
    \<and> ev_event_key ev = fa_event_key a \<and> ev_symbol ev = symbol \<and> ev_quantity ev = quantity
    \<and> ev_proceeds ev = dmul quantity price \<and> ev_fees ev = fee \<and> ev_adjustments ev = adjustment
    \<and> ev_cost_basis ev = (if acc_known acc > 0 then Some (acc_basis acc) else None)
    \<and> ev_realized ev = sell_realized (sell_context env a quantity price fee adjustment s) acc
    \<and> ev_confidence ev = sell_confidence (base_confidence s) acc
    \<and> remaining_position symbol (acc_lots acc) = Inr (ev_remaining_position ev)"
proof -
  from sell_loop_sold [OF open_lots_wf(1) [OF wf], of "sell_context env a quantity price fee adjustment s" symbol
      "sell_start quantity (position_lots s)"]
  obtain acc where acc: "sell_loop (sell_context env a quantity price fee adjustment s)
      (open_lots symbol (position_lots s)) (sell_start quantity (position_lots s)) = Inr acc"
    and sold: "sold (sell_context env a quantity price fee adjustment s) (open_lots symbol (position_lots s))
        (sell_start quantity (position_lots s)) acc" by blast
  show ?thesis
    using sell acc
    by (intro exI [of _ acc] conjI sold)
      (auto simp: apply_sell_def Let_def result_simps sold simp flip: sell_context_def)
qed


lemma wf_apply_sell:
  assumes wf: "wf_ledger s" and q: "0 \<le> quantity"
    and sell: "apply_sell env a symbol side quantity price fee adjustment s = Inr s'"
  shows "wf_ledger s'"
proof -
  note op = open_lots_wf [OF wf, of symbol]
  have all: "list_all wf_lot (open_lots symbol (position_lots s))" using op(1) by (simp add: list_all_iff)
  from apply_sell_result [OF wf sell] obtain acc where
    "sold (sell_context env a quantity price fee adjustment s) (open_lots symbol (position_lots s))
        (sell_start quantity (position_lots s)) acc" "position_lots s' = acc_lots acc" by blast
  then have "position_lots s' = drain (sell_context env a quantity price fee adjustment s) quantity
      (open_lots symbol (position_lots s)) (position_lots s)"
    by (simp add: sold_def Let_def sell_start_def)
  then show ?thesis
    using wf wf_drain [OF q _ all _ op(2,3)] by (simp add: wf_ledger_def drain_ids drain_keys)
qed

section \<open>Buys and manual adjustments\<close>

lemma insert_lot_wf:
  assumes "list_all wf_lot ls" "distinct (map lot_id ls)" "distinct (map source_fill_event_key ls)" "wf_lot l"
  shows "list_all wf_lot (insert_lot l ls) \<and> distinct (map lot_id (insert_lot l ls))
    \<and> distinct (map source_fill_event_key (insert_lot l ls))"
  using assms by (auto simp: insert_lot_def image_iff)

lemma insert_lot_replay:
  "source_fill_event_key l = source_fill_event_key m \<Longrightarrow> \<forall>r\<in>set ls. lot_id r \<noteq> lot_id m
    \<Longrightarrow> insert_lot l (insert_lot m ls) = insert_lot m ls"
  by (auto simp: insert_lot_def)

lemma wf_new_lot:
  assumes "dec28 quantity" "0 < quantity" "is_decimal price" "is_decimal fee"
  shows "wf_lot (new_lot env a s symbol quantity price fee risk lifecycle)"
  using assms by (simp add: wf_lot_def new_lot_def Let_def wf_quantities_def is_decimal_dec28)

lemma wf_apply_buy:
  assumes "wf_ledger s" "dec28 quantity" "0 < quantity" "is_decimal price" "is_decimal fee"
    and "apply_buy env a symbol quantity price fee s = Inr s'"
  shows "wf_ledger s'"
  using assms(6) insert_lot_wf [OF _ _ _ wf_new_lot [OF assms(2-5)]] assms(1)
  by (auto simp: apply_buy_def Let_def result_simps wf_ledger_def split: if_splits)

definition exact_decimal_arg :: "pyval \<Rightarrow> bool" where
  "exact_decimal_arg v \<longleftrightarrow> wf_pyval v \<and> (case to_pydec v of Some (Fin x) \<Rightarrow> dec28 x | _ \<Rightarrow> True)"

lemma exact_decimal_argD: "exact_decimal_arg v \<Longrightarrow> decimal_required v f m = Inr x \<Longrightarrow> dec28 x"
  by (auto simp: exact_decimal_arg_def result_simps decimal_value_Some_iff)

lemma wf_touch [simp]: "wf_ledger (touch_status env a s) = wf_ledger s"
  by (simp add: wf_ledger_def touch_status_def)

lemma fill_result:
  assumes "apply_fill_in_transaction env a s = Inr s'"
    and "decimal_required (fa_delta_quantity a) ''delta_quantity'' (Some 0) = Inr x" and "x \<noteq> 0"
  shows "\<exists>price fee adj symbol side s1. decimal_required (fa_fill_price a) ''fill_price'' (Some 0) = Inr price
    \<and> decimal_required (fa_fees a) ''fees'' (Some 0) = Inr fee
    \<and> (apply_buy env a symbol x price fee s = Inr s1 \<or> apply_sell env a symbol side x price fee adj s = Inr s1)
    \<and> s' = touch_status env a s1"
  using assms by (simp add: apply_fill_in_transaction_def Let_def result_simps split: if_splits) blast+

lemma wf_apply_fill:
  assumes wf: "wf_ledger s" and q: "exact_decimal_arg (fa_delta_quantity a)"
    and p: "wf_pyval (fa_fill_price a)" and f: "wf_pyval (fa_fees a)"
    and fill: "apply_fill_in_transaction env a s = Inr s'"
  shows "wf_ledger s'"
proof -
  from fill obtain x where x: "decimal_required (fa_delta_quantity a) ''delta_quantity'' (Some 0) = Inr x"
    by (auto simp: apply_fill_in_transaction_def result_simps)
  show ?thesis
  proof (cases "x = 0")
    case True
    then show ?thesis using fill wf by (simp add: apply_fill_in_transaction_def x)
  next
    case False
    have x0: "0 < x" using decimal_required_minimum [OF x] False by simp
    have x28: "dec28 x" using exact_decimal_argD [OF q x] .
    from fill_result [OF fill x False] obtain price fee adj symbol side s1 where
      price: "decimal_required (fa_fill_price a) ''fill_price'' (Some 0) = Inr price"
      and fee: "decimal_required (fa_fees a) ''fees'' (Some 0) = Inr fee"
      and step: "apply_buy env a symbol x price fee s = Inr s1 \<or> apply_sell env a symbol side x price fee adj s = Inr s1"
      and s': "s' = touch_status env a s1" by blast
    from step have "wf_ledger s1"
      using wf_apply_buy [OF wf x28 x0 decimal_required_is_decimal [OF p price] decimal_required_is_decimal [OF f fee]]
        wf_apply_sell [OF wf order_less_imp_le [OF x0]] by blast
    then show ?thesis by (simp add: s')
  qed
qed

lemma wf_ledger_append:
  assumes "wf_ledger s" "wf_lot l"
    and "\<forall>m\<in>set (position_lots s). lot_id m \<noteq> lot_id l \<and> source_fill_event_key m \<noteq> source_fill_event_key l"
  shows "wf_ledger (s\<lparr>position_lots := position_lots s @ [l]\<rparr>)"
proof -
  have "lot_id l \<notin> lot_id ` set (position_lots s)"
    and "source_fill_event_key l \<notin> source_fill_event_key ` set (position_lots s)"
    using assms(3) by force+
  then show ?thesis using assms(1,2) by (simp add: wf_ledger_def)
qed

lemma wf_manual:
  assumes wf: "wf_ledger s" and q: "exact_decimal_arg quantity" and u: "wf_pyval unit_cost_arg"
    and man: "record_manual_adjustment now i symbol quantity unit_cost_arg t prov conf s = Inr (j, s')"
  shows "wf_ledger s'"
proof -
  have zero: "is_decimal 0" "dec_text 0 = ''0''" using is_decimal_dec28 [OF dec28_0] dec_text_0 by auto
  then have z: "stored (PyStr ''0'') = Some 0" using stored_text [of 0] by simp
  from man obtain x price where x: "decimal_required quantity ''quantity'' (Some 0) = Inr x" "x \<noteq> 0"
    and price: "(if unit_cost_arg \<noteq> PyNone then decimal_required unit_cost_arg ''unit_cost'' (Some 0) else Inr 0) = Inr price"
    and fresh: "\<forall>m\<in>set (position_lots s). lot_id m \<noteq> i \<and> source_fill_event_key m \<noteq> ''manual:'' @ i"
    and s': "\<exists>c. s' = s\<lparr>position_lots := position_lots s @ [manual_lot now i (upper (py_str symbol)) x price t (py_str prov) c]\<rparr>"
    by (auto simp: record_manual_adjustment_def Let_def result_simps manual_lot_def [of _ i] split: if_splits)
  have "is_decimal price" using price u decimal_required_is_decimal zero(1) by (auto split: if_splits)
  moreover have "dec28 x" "0 < x" using exact_decimal_argD [OF q x(1)] decimal_required_minimum [OF x(1)] x(2) by auto
  ultimately have "wf_lot (manual_lot now i (upper (py_str symbol)) x price t (py_str prov) c)" for c
    by (simp add: wf_lot_def wf_quantities_def is_decimal_dec28 z manual_lot_def)
  then show ?thesis using wf_ledger_append [OF wf] fresh s' by (auto simp: manual_lot_def)
qed

section \<open>Sequences of operations\<close>

datatype ledger_op =
    Coverage string string string string
  | Fill fill_env fill_args
  | Manual string string pyval pyval pyval string pyval string

text \<open>An operation that raises leaves the tables as they were: its transaction is rolled back.\<close>

fun ledger_step :: "ledger_op \<Rightarrow> ledger \<Rightarrow> ledger" where
  "ledger_step (Coverage now effective confidence provenance) s =
     (case set_coverage now effective confidence provenance s of Inl _ \<Rightarrow> s | Inr s' \<Rightarrow> s')"
| "ledger_step (Fill env a) s = (case apply_fill_in_transaction env a s of Inl _ \<Rightarrow> s | Inr s' \<Rightarrow> s')"
| "ledger_step (Manual now i symbol q u t prov conf) s =
     (case record_manual_adjustment now i symbol q u t prov conf s of Inl _ \<Rightarrow> s | Inr r \<Rightarrow> snd r)"

fun exact_op :: "ledger_op \<Rightarrow> bool" where
  "exact_op (Coverage _ _ _ _) = True"
| "exact_op (Fill env a) = (exact_decimal_arg (fa_delta_quantity a) \<and> wf_pyval (fa_fill_price a) \<and> wf_pyval (fa_fees a))"
| "exact_op (Manual now i symbol q u t prov conf) = (exact_decimal_arg q \<and> wf_pyval u)"

definition empty_ledger :: ledger where
  "empty_ledger = \<lparr>position_lots = [], lot_consumptions = [], realized_pnl_events = [], pnl_ledger_status = None\<rparr>"

lemma wf_ledger_step: "wf_ledger s \<Longrightarrow> exact_op p \<Longrightarrow> wf_ledger (ledger_step p s)"
proof (induction p s rule: ledger_step.induct)
  case (1 now e conf prov s)
  then show ?case by (auto simp: set_coverage_def wf_ledger_def split: sum.splits if_splits)
qed (auto split: sum.splits dest: wf_apply_fill wf_manual)

lemma wf_ledger_run: "wf_ledger s \<Longrightarrow> list_all exact_op ops \<Longrightarrow> wf_ledger (fold ledger_step ops s)"
  by (induction ops arbitrary: s) (auto simp: wf_ledger_step)

section \<open>Fee shares\<close>

lemma dadd_dsub_pos: "0 \<le> dsub x y \<Longrightarrow> y \<le> x"
proof (rule ccontr)
  assume p: "0 \<le> dsub x y" and "\<not> y \<le> x"
  then have "0 < rnd 10 28 (y - x)" by (intro rnd_pos) auto
  then have "dsub x y < 0" using rnd_uminus [of 10 28 "y - x"] by (simp add: dsub_def dec_ctx_def)
  then show False using p by simp
qed

lemma foldl_dadd_dec28: "dec28 a \<Longrightarrow> dec28 (foldl dadd a xs)"
  by (induction xs arbitrary: a) auto

lemma consume_lot_fees:
  assumes "consume_lot c l acc = Inr acc1"
  shows "\<exists>row. acc_rows acc1 = acc_rows acc @ [row] \<and> acc_sell_fees acc1 = dadd (acc_sell_fees acc) (con_sell_fees row)
    \<and> (acc_remaining acc1 = 0 \<longrightarrow> con_sell_fees row = dsub (ctx_fee c) (acc_sell_fees acc))"
  using assms by (auto simp: consume_lot_def result_simps Let_def split: if_splits)

lemma sell_loop_fees:
  assumes "sell_loop c ls acc = Inr acc'"
  shows "\<exists>rows. acc_rows acc' = acc_rows acc @ rows \<and> (rows = [] \<longrightarrow> acc' = acc)
    \<and> (rows \<noteq> [] \<longrightarrow> acc_remaining acc' = 0 \<longrightarrow>
         con_sell_fees (last rows) = dsub (ctx_fee c) (foldl dadd (acc_sell_fees acc) (map con_sell_fees (butlast rows))))"
  using assms
proof (induction ls arbitrary: acc)
  case (Cons l ls)
  show ?case
  proof (cases "acc_remaining acc = 0")
    case False
    with Cons.prems obtain acc1 where c1: "consume_lot c l acc = Inr acc1" and c2: "sell_loop c ls acc1 = Inr acc'"
      by (auto simp: result_simps)
    from consume_lot_fees [OF c1] obtain row where
      row: "acc_rows acc1 = acc_rows acc @ [row]" "acc_sell_fees acc1 = dadd (acc_sell_fees acc) (con_sell_fees row)"
      "acc_remaining acc1 = 0 \<longrightarrow> con_sell_fees row = dsub (ctx_fee c) (acc_sell_fees acc)" by blast
    from Cons.IH [OF c2] obtain rows where
      rows: "acc_rows acc' = acc_rows acc1 @ rows" "rows = [] \<longrightarrow> acc' = acc1"
      "rows \<noteq> [] \<longrightarrow> acc_remaining acc' = 0 \<longrightarrow>
         con_sell_fees (last rows) = dsub (ctx_fee c) (foldl dadd (acc_sell_fees acc1) (map con_sell_fees (butlast rows)))"
      by blast
    show ?thesis
      by (rule exI [of _ "row # rows"]) (use row rows in auto)
  qed (use Cons.prems in simp)
qed simp

section \<open>Sample runs\<close>

text \<open>Inputs for the witnesses: fills of one intent, and three lots of one unit bought at 9.\<close>

definition sample_env :: "string \<Rightarrow> fill_env" where
  "sample_env tag = \<lparr>env_now = ''t'', env_fresh = (\<lambda>n. tag @ int_text (int n)), env_proposal = (\<lambda>_. None),
     env_json = (\<lambda>_. None), env_period_keys = (\<lambda>_ _. (''2024-01-02'', ''2024-01-01''))\<rparr>"

definition sample_args :: "string \<Rightarrow> string \<Rightarrow> string \<Rightarrow> string \<Rightarrow> string \<Rightarrow> fill_args" where
  "sample_args tag side qty price fee = \<lparr>fa_intent = [''id'' \<mapsto> PyStr ''i1'', ''symbol'' \<mapsto> PyStr ''ABC'',
        ''side'' \<mapsto> PyStr side, ''position_lifecycle_id'' \<mapsto> PyStr ''p1'', ''initial_risk_dollars'' \<mapsto> PyStr ''4'',
        ''approved_quantity'' \<mapsto> PyStr ''4''],
      fa_event_key = tag, fa_delta_quantity = PyStr qty, fa_fill_price = PyStr price,
      fa_occurred_at = ''2024-01-02'', fa_fees = PyStr fee, fa_adjustments = PyInt 0,
      fa_source = ''broker_fill'', fa_timezone = None\<rparr>"

definition sample_fill :: "string \<Rightarrow> string \<Rightarrow> string \<Rightarrow> string \<Rightarrow> string \<Rightarrow> ledger_op" where
  "sample_fill tag side qty price fee = Fill (sample_env tag) (sample_args tag side qty price fee)"

definition three_lots :: "ledger_op list" where
  "three_lots = [Coverage ''t'' ''2024-01-01'' ''verified'' ''test'', sample_fill ''b1'' ''buy'' ''1'' ''9'' ''0'',
     sample_fill ''b2'' ''buy'' ''1'' ''9'' ''0'', sample_fill ''b3'' ''buy'' ''1'' ''9'' ''0'']"

lemma exact_text_arg:
  assumes "to_pydec (PyStr t) = Some (Fin (of_int n))" and "\<bar>n\<bar> < 10 ^ 28"
  shows "exact_decimal_arg (PyStr t)"
  using assms dec28_of_int [of n] by (simp add: exact_decimal_arg_def)

lemma sample_exact:
  "exact_op (sample_fill tag side ''1'' price fee)" "exact_op (sample_fill tag side ''2'' price fee)"
proof -
  have "to_pydec (PyStr ''1'') = Some (Fin (of_int 1))" "to_pydec (PyStr ''2'') = Some (Fin (of_int 2))" by code_simp+
  then have "exact_decimal_arg (PyStr ''1'')" "exact_decimal_arg (PyStr ''2'')" by (auto intro: exact_text_arg)
  then show "exact_op (sample_fill tag side ''1'' price fee)" "exact_op (sample_fill tag side ''2'' price fee)"
    by (simp_all add: sample_fill_def sample_args_def)
qed

lemma three_lots_exact: "list_all exact_op three_lots"
  by (simp add: three_lots_def sample_exact)

lemma wf_three_lots: "wf_ledger (fold ledger_step three_lots empty_ledger)"
  by (rule wf_ledger_run [OF _ three_lots_exact]) (simp add: wf_ledger_def empty_ledger_def)

lemma three_lots_grid:
  "\<forall>l\<in>set (position_lots (fold ledger_step three_lots empty_ledger)). lot_symbol l = ''ABC'' \<longrightarrow> on_grid 0 (lot_rem l)"
proof -
  have "list_all (\<lambda>l. lot_rem l = 1) (position_lots (fold ledger_step three_lots empty_ledger))" by code_simp
  moreover have "on_grid 0 1" by (auto simp: on_grid_def intro!: exI [of _ 1])
  ultimately show ?thesis by (simp add: list_all_iff)
qed

lemma returned: "(case r of Inr x \<Rightarrow> P x | Inl _ \<Rightarrow> False) \<Longrightarrow> \<exists>x. r = Inr x \<and> P x"
  by (simp split: sum.splits)

definition sample_sell :: "ledger \<Rightarrow> ledger res" where
  "sample_sell s = apply_sell (sample_env ''s1'') (sample_args ''s1'' ''sell'' ''2'' ''10'' ''1'') ''ABC'' ''sell'' 2 10 1 0 s"

section \<open>Properties\<close>

text \<open>C24: from the empty ledger, every sequence of coverage changes, fills and manual adjustments whose
  quantities have at most 28 digits, failed ones included, leaves a ledger in which lot ids and fill
  keys are unique and every lot stores canonical texts of a remaining and an original quantity with
  \<open>0 <= remaining <= original\<close> and \<open>0 < original\<close>, so the integrity report finds no lot geometry
  mismatch.\<close>

theorem lot_geometry_invariant:
  assumes "list_all exact_op ops"
  defines "lots \<equiv> position_lots (fold ledger_step ops empty_ledger)"
  shows "distinct (map lot_id lots) \<and> distinct (map source_fill_event_key lots)
    \<and> (\<forall>l\<in>set lots. \<exists>r q. remaining_qty l = PyStr (dec_text r) \<and> original_qty l = PyStr (dec_text q)
         \<and> 0 \<le> r \<and> r \<le> q \<and> 0 < q
         \<and> \<not> lot_geometry_bad [''original_quantity_decimal'' \<mapsto> q, ''remaining_quantity_decimal'' \<mapsto> r])"
proof -
  have "wf_ledger (fold ledger_step ops empty_ledger)"
    by (rule wf_ledger_run [OF _ assms(1)]) (simp add: wf_ledger_def empty_ledger_def)
  then have wf: "list_all wf_lot lots" "distinct (map lot_id lots)" "distinct (map source_fill_event_key lots)"
    by (simp_all add: wf_ledger_def lots_def)
  have "\<exists>r q. remaining_qty l = PyStr (dec_text r) \<and> original_qty l = PyStr (dec_text q) \<and> 0 \<le> r \<and> r \<le> q \<and> 0 < q
      \<and> \<not> lot_geometry_bad [''original_quantity_decimal'' \<mapsto> q, ''remaining_quantity_decimal'' \<mapsto> r]"
    if "l \<in> set lots" for l
  proof -
    have "wf_lot l" using wf(1) that by (simp add: list_all_iff)
    then obtain q where "remaining_qty l = PyStr (dec_text (lot_rem l))" "0 \<le> lot_rem l" "lot_rem l \<le> q" "0 < q"
      "stored (original_qty l) = Some q" by (elim wf_lotE) blast
    then show ?thesis by (intro exI [of _ "lot_rem l"] exI [of _ q]) (simp add: stored_iff lot_geometry_bad_def)
  qed
  then show ?thesis using wf by blast
qed

theorem lot_geometry_invariant_witness:
  "distinct (map lot_id (position_lots (fold ledger_step (three_lots @ [sample_fill ''s1'' ''sell'' ''2'' ''10'' ''1'']) empty_ledger)))
    \<and> length (position_lots (fold ledger_step three_lots empty_ledger)) = 3"
proof
  have "list_all exact_op (three_lots @ [sample_fill ''s1'' ''sell'' ''2'' ''10'' ''1''])"
    by (simp add: three_lots_exact sample_exact)
  from lot_geometry_invariant [OF this]
  show "distinct (map lot_id (position_lots
      (fold ledger_step (three_lots @ [sample_fill ''s1'' ''sell'' ''2'' ''10'' ''1'']) empty_ledger)))" by (rule conjunct1)
qed code_simp

text \<open>C25: the sell is first in, first out. The open lots are in order of opening time, then id, and if a
  sell changes the row of a lot then every earlier open lot ends with remaining text \<open>0\<close> and the time of
  the sell as its closing time.\<close>

theorem sell_is_fifo:
  assumes wf: "wf_ledger s"
    and sell: "apply_sell env a symbol side quantity price fee adjustment s = Inr s'"
  defines "opened \<equiv> open_lots symbol (position_lots s)"
    and "row \<equiv> (\<lambda>i t. fetch_one (\<lambda>m. lot_id m = i) (position_lots t))"
  shows "sorted_wrt (\<lambda>l m. opened_at l < opened_at m \<or> opened_at l = opened_at m \<and> lot_id l \<le> lot_id m) opened
    \<and> (\<forall>i j. i < j \<and> j < length opened \<and> row (lot_id (opened ! j)) s' \<noteq> row (lot_id (opened ! j)) s
        \<longrightarrow> (\<exists>m. row (lot_id (opened ! i)) s' = Some m \<and> remaining_qty m = PyStr ''0''
              \<and> closed_at m = Some (fa_occurred_at a)))"
proof -
  let ?c = "sell_context env a quantity price fee adjustment s"
  let ?ts = "fifo_takes quantity (map lot_rem opened)"
  from apply_sell_result [OF wf sell]
  have lots: "position_lots s' = drain ?c quantity opened (position_lots s)"
    by (auto simp: sold_def Let_def sell_start_def opened_def)
  note op = open_lots_wf [OF wf, of symbol, folded opened_def]
  have ctx: "ctx_env ?c = env" "ctx_args ?c = a" by (simp_all add: sell_context_def)
  have "\<exists>m. row (lot_id (opened ! i)) s' = Some m \<and> remaining_qty m = PyStr ''0'' \<and> closed_at m = Some (fa_occurred_at a)"
    if ij: "i < j" "j < length opened" and changed: "row (lot_id (opened ! j)) s' \<noteq> row (lot_id (opened ! j)) s" for i j
  proof -
    have j: "j < length ?ts"
    proof (rule ccontr)
      assume "\<not> j < length ?ts"
      then have "lot_id (opened ! j) \<notin> lot_id ` set (take (length ?ts) opened)"
        using op(2) ij(2) by (auto simp: in_set_conv_nth distinct_conv_nth)
      then show False using changed drain_fetch_other [of _ quantity opened ?c "position_lots s"]
        by (simp add: row_def lots)
    qed
    have full: "?ts ! i = lot_rem (opened ! i)"
      using fifo_takes_full [of i quantity "map lot_rem opened"] j ij by simp
    have mem: "opened ! i \<in> set (position_lots s)" using op(3) ij nth_mem [of i opened] by auto
    obtain m0 where m0: "fetch_one (\<lambda>m. lot_id m = lot_id (opened ! i)) (position_lots s) = Some m0"
      by (cases "fetch_one (\<lambda>m. lot_id m = lot_id (opened ! i)) (position_lots s)") (use mem in \<open>auto simp: fetch_one_None\<close>)
    have "row (lot_id (opened ! i)) s' = Some (close_lot env a 0 m0)"
      using drain_fetch [OF op(2), of i quantity ?c "position_lots s"] j ij full m0
      by (simp add: row_def lots ctx)
    then show ?thesis by (simp add: close_lot_def dec_text_0)
  qed
  then show ?thesis using open_lots_sorted [of symbol "position_lots s"] unfolding opened_def by blast
qed

theorem sell_is_fifo_witness:
  "\<exists>s'. sample_sell (fold ledger_step three_lots empty_ledger) = Inr s'
    \<and> (\<exists>m. fetch_one (\<lambda>m. lot_id m = ''b10'') (position_lots s') = Some m \<and> remaining_qty m = PyStr ''0'')"
proof -
  let ?s = "fold ledger_step three_lots empty_ledger" and ?fetch = "\<lambda>i t. fetch_one (\<lambda>m. lot_id m = i) (position_lots t)"
  have opened: "map lot_id (open_lots ''ABC'' (position_lots ?s)) = [''b10'', ''b20'', ''b30'']" by code_simp
  then have len: "length (open_lots ''ABC'' (position_lots ?s)) = 3" by (metis length_map list.size(3,4) numeral_3_eq_3 One_nat_def add.right_neutral add_Suc_right)
  have ids: "lot_id (open_lots ''ABC'' (position_lots ?s) ! 0) = ''b10''" "lot_id (open_lots ''ABC'' (position_lots ?s) ! 1) = ''b20''"
    using opened len nth_map [of 0 "open_lots ''ABC'' (position_lots ?s)" lot_id]
      nth_map [of 1 "open_lots ''ABC'' (position_lots ?s)" lot_id] by simp_all
  have run: "case sample_sell ?s of Inr s' \<Rightarrow> map_option remaining_qty (?fetch ''b20'' s') \<noteq> map_option remaining_qty (?fetch ''b20'' ?s) | Inl _ \<Rightarrow> False"
    by code_simp
  from returned [OF this] obtain s' where s': "sample_sell ?s = Inr s'"
    and "map_option remaining_qty (?fetch ''b20'' s') \<noteq> map_option remaining_qty (?fetch ''b20'' ?s)"
    by blast
  then have ne: "?fetch ''b20'' s' \<noteq> ?fetch ''b20'' ?s" by metis
  from sell_is_fifo [OF wf_three_lots s' [unfolded sample_sell_def], THEN conjunct2, rule_format, of 0 1] ids len ne
  have "\<exists>m. ?fetch ''b10'' s' = Some m \<and> remaining_qty m = PyStr ''0''" by auto
  then show ?thesis using s' by blast
qed

text \<open>C27: quantity is conserved. When the sold quantity and the remaining quantities of the symbol's lots are
  multiples of one power of ten with at most 28 digits, the open position falls by exactly the quantity
  sold, down to zero and no further.\<close>

theorem sell_conserves_quantity:
  assumes wf: "wf_ledger s" and q: "on_grid k quantity"
    and lots: "\<forall>l\<in>set (position_lots s). lot_symbol l = symbol \<longrightarrow> on_grid k (lot_rem l)"
    and sell: "apply_sell env a symbol side quantity price fee adjustment s = Inr s'"
  shows "position_total symbol (position_lots s') = max 0 (position_total symbol (position_lots s) - quantity)"
proof -
  let ?c = "sell_context env a quantity price fee adjustment s" and ?o = "open_lots symbol (position_lots s)"
  note op = open_lots_wf [OF wf, of symbol]
  from apply_sell_result [OF wf sell] have "position_lots s' = drain ?c quantity ?o (position_lots s)"
    by (auto simp: sold_def Let_def sell_start_def)
  moreover have "position_total symbol (drain ?c quantity ?o (position_lots s))
      = position_total symbol (position_lots s) - min quantity (sum_list (map lot_rem ?o))"
    using q lots op(2,3) wf by (intro drain_total) (auto simp: open_lots_set wf_ledger_def)
  ultimately show ?thesis by (simp add: open_lots_total [OF wf] min_def max_def)
qed

theorem sell_conserves_quantity_witness:
  "\<exists>s'. sample_sell (fold ledger_step three_lots empty_ledger) = Inr s' \<and> position_total ''ABC'' (position_lots s') = 1"
proof -
  let ?s = "fold ledger_step three_lots empty_ledger"
  have "case sample_sell ?s of Inr s' \<Rightarrow> True | Inl _ \<Rightarrow> False" by code_simp
  then obtain s' where s': "sample_sell ?s = Inr s'" by (auto split: sum.splits)
  have q: "on_grid 0 2" by (auto simp: on_grid_def intro!: exI [of _ 2])
  have "position_total ''ABC'' (position_lots ?s) = 3" by code_simp
  then show ?thesis
    using s' sell_conserves_quantity [OF wf_three_lots q three_lots_grid s' [unfolded sample_sell_def]] by simp
qed


text \<open>the sell-fee shares of the consumed lots add up to the fee of the sell. When a sell is covered by
  its lots and no share is negative (the last one is the residual), the shares summed in the decimal
  context, as the integrity report sums them, give exactly the fee, for every fee of at most 27 digits
  and however the proportional shares were rounded.\<close>

theorem sell_fee_shares_add_up:
  assumes loop: "sell_loop c ls (sell_start quantity tbl) = Inr acc"
    and covered: "acc_remaining acc = 0" "quantity \<noteq> 0"
    and shares: "\<forall>row\<in>set (acc_rows acc). 0 \<le> con_sell_fees row"
    and fee: "dec27 (ctx_fee c)"
  shows "dsum (map con_sell_fees (acc_rows acc)) = ctx_fee c"
proof -
  from sell_loop_fees [OF loop] obtain rows where
    rows: "acc_rows acc = rows" "rows = [] \<longrightarrow> acc = sell_start quantity tbl"
    and last: "rows \<noteq> [] \<longrightarrow> con_sell_fees (last rows) = dsub (ctx_fee c) (dsum (map con_sell_fees (butlast rows)))"
    using covered(1) by (auto simp: sell_start_def dsum_def)
  have ne: "rows \<noteq> []" using rows(2) covered by (auto simp: sell_start_def)
  let ?t = "dsum (map con_sell_fees (butlast rows))"
  have "0 \<le> con_sell_fees row" if "row \<in> set (butlast rows)" for row
    using shares rows(1) in_set_butlastD [OF that] by simp
  then have t: "dec28 ?t" "0 \<le> ?t" by (auto simp: dsum_def foldl_dadd_dec28 intro!: foldl_dadd_nonneg)
  have "0 \<le> con_sell_fees (last rows)" using shares rows(1) ne by simp
  then have "?t \<le> ctx_fee c" using last ne dadd_dsub_pos by simp
  then have "dadd ?t (con_sell_fees (last rows)) = ctx_fee c" using last ne t dadd_residual [OF fee] by simp
  moreover have "dsum (map con_sell_fees rows) = dadd ?t (con_sell_fees (last rows))"
  proof -
    have "map con_sell_fees rows = map con_sell_fees (butlast rows @ [last rows])"
      by (rule arg_cong [OF append_butlast_last_id [OF ne, symmetric]])
    then show ?thesis by (simp only: dsum_def map_append list.map foldl_append foldl.simps)
  qed
  ultimately show ?thesis using rows(1) by simp
qed

theorem sell_fee_shares_add_up_witness:
  "\<exists>acc. sell_loop (sell_context (sample_env ''s1'') (sample_args ''s1'' ''sell'' ''2'' ''10'' ''1'') 2 10 1 0 empty_ledger)
        (position_lots (fold ledger_step three_lots empty_ledger))
        (sell_start 2 (position_lots (fold ledger_step three_lots empty_ledger))) = Inr acc
    \<and> length (acc_rows acc) = 2 \<and> dsum (map con_sell_fees (acc_rows acc)) = 1"
proof -
  let ?c = "sell_context (sample_env ''s1'') (sample_args ''s1'' ''sell'' ''2'' ''10'' ''1'') 2 10 1 0 empty_ledger"
  let ?tbl = "position_lots (fold ledger_step three_lots empty_ledger)"
  have "case sell_loop ?c ?tbl (sell_start 2 ?tbl) of Inr acc \<Rightarrow> acc_remaining acc = 0 \<and> length (acc_rows acc) = 2
      \<and> list_all (\<lambda>row. 0 \<le> con_sell_fees row) (acc_rows acc) | Inl _ \<Rightarrow> False" by code_simp
  then obtain acc where acc: "sell_loop ?c ?tbl (sell_start 2 ?tbl) = Inr acc" "acc_remaining acc = 0"
    "length (acc_rows acc) = 2" "list_all (\<lambda>row. 0 \<le> con_sell_fees row) (acc_rows acc)" by (blast dest: returned)
  have fee: "dec27 (ctx_fee ?c)" "ctx_fee ?c = 1" by code_simp+
  from sell_fee_shares_add_up [OF acc(1,2) _ _ fee(1)] acc(4) fee(2)
  have "dsum (map con_sell_fees (acc_rows acc)) = 1" by (simp add: list_all_iff)
  then show ?thesis using acc by blast
qed

lemma decimal_value_min0: "decimal_value v f (Some 0) False = Inr (Some x) \<Longrightarrow> 0 \<le> x"
  by (simp add: decimal_value_Some_iff)

section \<open>Risk of partial buys\<close>

definition lot_risks :: "pyval \<Rightarrow> lot list \<Rightarrow> rat list res" where
  "lot_risks intent_id ls = res_map (\<lambda>l. rbind (decimal_value (initial_risk l) ''position_lot.initial_risk_dollars_decimal'' None True)
       (\<lambda>r. Inr (case r of None \<Rightarrow> 0 | Some x \<Rightarrow> x)))
     (filter (\<lambda>l. intent_id \<noteq> PyNone \<and> entry_intent_id l = intent_id) ls)"

lemma prior_risk_lots: "prior_risk s i = rbind (lot_risks i (position_lots s)) (\<lambda>xs. Inr (dsum xs))"
  by (simp add: prior_risk_def lot_risks_def)

lemma lot_risks_other: "entry_intent_id l \<noteq> i \<or> i = PyNone \<Longrightarrow> lot_risks i (ls @ [l]) = lot_risks i ls"
  by (auto simp: lot_risks_def)

lemma dsum_snoc: "dsum (xs @ [x]) = dadd (dsum xs) x"
  by (simp add: dsum_def)

lemma lot_risks_snoc:
  assumes "lot_risks i ls = Inr xs" "entry_intent_id l = i" "i \<noteq> PyNone"
    and "initial_risk l = PyStr (dec_text r)" "is_decimal r"
  shows "lot_risks i (ls @ [l]) = Inr (xs @ [r])"
  using assms by (simp add: lot_risks_def res_map_append decimal_value_text)

lemma lot_risks_update:
  assumes "\<And>l. initial_risk (f l) = initial_risk l" "\<And>l. entry_intent_id (f l) = entry_intent_id l"
  shows "lot_risks i (update_where p f ls) = lot_risks i ls"
  by (induction ls) (use assms in \<open>auto simp: lot_risks_def\<close>)

lemma lot_risks_drain: "lot_risks i (drain c R ls tbl) = lot_risks i tbl"
  by (induction c R ls tbl rule: drain.induct) (auto simp: lot_risks_update close_lot_def)

text \<open>An intent whose original risk is given and whose lots carry no more than it.\<close>

definition risk_within :: "pyval \<Rightarrow> rat \<Rightarrow> ledger \<Rightarrow> bool" where
  "risk_within i original s \<longleftrightarrow> (case lot_risks i (position_lots s) of Inl _ \<Rightarrow> False
     | Inr xs \<Rightarrow> dsum xs \<le> original \<and> list_all (\<lambda>x. 0 \<le> x) xs)"

lemma dec28_min_max [simp]: "dec28 x \<Longrightarrow> dec28 y \<Longrightarrow> dec28 (min x y)" "dec28 x \<Longrightarrow> dec28 y \<Longrightarrow> dec28 (max x y)"
  by (simp_all add: min_def max_def)

lemma allocate_risk_result:
  assumes "allocate_risk s intent v requested quantity = Inr (Some r)"
    and "decimal_required v ''initial_risk_dollars'' (Some 0) = Inr original" and "0 < quantity" "0 < requested"
  shows "\<exists>prior. prior_risk s (dget intent ''id'') = Inr prior \<and> dec28 r \<and> 0 \<le> r \<and> r \<le> max 0 (dsub original prior)"
  using assms decimal_required_minimum [OF assms(2)]
  by (auto simp: allocate_risk_def result_simps Let_def ddiv_nonneg dmul_nonneg split: if_splits)

lemma apply_buy_risk:
  assumes within: "risk_within i original s" and d27: "dec27 original" and q: "0 < quantity"
    and risk: "dget (fa_intent a) ''id'' = i \<and> i \<noteq> PyNone \<longrightarrow>
      decimal_required (fill_metadata env (fa_intent a) ''initial_risk_dollars'' ''initial_risk_dollars'')
        ''initial_risk_dollars'' (Some 0) = Inr original"
    and buy: "apply_buy env a symbol quantity price fee s = Inr s'"
  shows "risk_within i original s'"
proof -
  let ?v = "fill_metadata env (fa_intent a) ''initial_risk_dollars'' ''initial_risk_dollars''"
  from buy obtain requested rk lc where req: "0 < requested"
    and alloc: "allocate_risk s (fa_intent a) ?v requested quantity = Inr rk"
    and s': "s' = s\<lparr>position_lots := insert_lot (new_lot env a s symbol quantity price fee rk lc) (position_lots s)\<rparr>"
    by (auto simp: apply_buy_def Let_def result_simps less_le dest: decimal_value_min0 split: if_splits)
  let ?l = "new_lot env a s symbol quantity price fee rk lc"
  have id: "entry_intent_id ?l = dget (fa_intent a) ''id''" by (simp add: new_lot_def Let_def)
  show ?thesis
  proof (cases "dget (fa_intent a) ''id'' = i \<and> i \<noteq> PyNone")
    case False
    then show ?thesis using within id
      by (auto simp: risk_within_def s' insert_lot_def lot_risks_other)
  next
    case True
    from within obtain xs where xs: "lot_risks i (position_lots s) = Inr xs" "dsum xs \<le> original" "list_all (\<lambda>x. 0 \<le> x) xs"
      by (auto simp: risk_within_def split: sum.splits)
    have vn: "?v \<noteq> PyNone" using risk True by (auto simp: result_simps decimal_value_Some_iff)
    then obtain r where rk: "rk = Some r" using alloc by (auto simp: allocate_risk_def result_simps Let_def)
    have "prior_risk s i = Inr (dsum xs)" by (simp add: prior_risk_lots xs)
    then have r: "dec28 r" "0 \<le> r" "r \<le> max 0 (dsub original (dsum xs))"
      using allocate_risk_result [OF alloc [unfolded rk]] risk True q req by auto
    have sum: "dec28 (dsum xs)" "0 \<le> dsum xs"
      using xs(3) by (auto simp: dsum_def list_all_iff foldl_dadd_dec28 intro: foldl_dadd_nonneg)
    have "r \<le> dsub original (dsum xs)" using r(3) dsub_nonneg [OF xs(2)] by simp
    then have "dadd (dsum xs) r \<le> original" using dadd_residual_le [OF d27 sum xs(2)] by simp
    moreover have "lot_risks i (position_lots s @ [?l]) = Inr (xs @ [r])"
      using xs(1) True id r(1) by (intro lot_risks_snoc) (auto simp: new_lot_def Let_def rk is_decimal_dec28)
    ultimately show ?thesis using within xs(3) r(2)
      by (auto simp: s' insert_lot_def risk_within_def dsum_snoc)
  qed
qed


definition intent_risk_is :: "pyval \<Rightarrow> rat \<Rightarrow> ledger_op \<Rightarrow> bool" where
  "intent_risk_is i original p = (case p of Fill env a \<Rightarrow> dget (fa_intent a) ''id'' = i \<longrightarrow>
       decimal_required (fill_metadata env (fa_intent a) ''initial_risk_dollars'' ''initial_risk_dollars'')
         ''initial_risk_dollars'' (Some 0) = Inr original
     | _ \<Rightarrow> True)"

lemma risk_within_touch [simp]: "risk_within i x (touch_status env a s) = risk_within i x s"
  by (simp add: risk_within_def touch_status_def)

lemma risk_within_lots: "position_lots s' = position_lots s \<Longrightarrow> risk_within i x s' = risk_within i x s"
  by (simp add: risk_within_def)

lemma risk_within_sell:
  assumes "wf_ledger s" "risk_within i x s" "apply_sell env a symbol side quantity price fee adjustment s = Inr s'"
  shows "risk_within i x s'"
  using assms(2) apply_sell_result [OF assms(1,3)]
  by (auto simp: risk_within_def sold_def Let_def sell_start_def lot_risks_drain)

lemma risk_within_step:
  assumes wf: "wf_ledger s" and within: "risk_within i original s" and d27: "dec27 original"
    and ok: "intent_risk_is i original p"
  shows "risk_within i original (ledger_step p s)"
proof (cases p)
  case (Coverage now e conf prov)
  then show ?thesis using within
    by (auto simp: set_coverage_def risk_within_def split: sum.splits if_splits)
next
  case (Manual now j symbol q u t prov conf)
  have "risk_within i original s'" if "record_manual_adjustment now j symbol q u t prov conf s = Inr (k, s')" for k s'
  proof -
    from that obtain l where "position_lots s' = position_lots s @ [l]" "entry_intent_id l = PyNone"
      by (auto simp: record_manual_adjustment_def Let_def result_simps manual_lot_def split: if_splits)
    then show ?thesis using within by (auto simp: risk_within_def lot_risks_other)
  qed
  then show ?thesis using within Manual by (auto split: sum.splits)
next
  case (Fill env a)
  have "risk_within i original s'" if fill: "apply_fill_in_transaction env a s = Inr s'" for s'
  proof -
    from fill obtain x where x: "decimal_required (fa_delta_quantity a) ''delta_quantity'' (Some 0) = Inr x"
      by (auto simp: apply_fill_in_transaction_def result_simps)
    show ?thesis
    proof (cases "x = 0")
      case True
      then show ?thesis using fill within by (simp add: apply_fill_in_transaction_def x)
    next
      case False
      have x0: "0 < x" using decimal_required_minimum [OF x] False by simp
      from fill_result [OF fill x False] obtain price fee adj symbol side s1 where
        step: "apply_buy env a symbol x price fee s = Inr s1 \<or> apply_sell env a symbol side x price fee adj s = Inr s1"
        and s': "s' = touch_status env a s1" by blast
      have ok': "dget (fa_intent a) ''id'' = i \<and> i \<noteq> PyNone \<longrightarrow>
          decimal_required (fill_metadata env (fa_intent a) ''initial_risk_dollars'' ''initial_risk_dollars'')
            ''initial_risk_dollars'' (Some 0) = Inr original"
        using ok Fill by (simp add: intent_risk_is_def)
      have "risk_within i original s1"
        using step apply_buy_risk [OF within d27 x0 ok'] risk_within_sell [OF wf within] by blast
      then show ?thesis by (simp add: s')
    qed
  qed
  then show ?thesis using within Fill by (auto split: sum.splits)
qed

lemma risk_within_run:
  "wf_ledger s \<Longrightarrow> risk_within i original s \<Longrightarrow> dec27 original \<Longrightarrow> list_all exact_op ops
    \<Longrightarrow> list_all (intent_risk_is i original) ops \<Longrightarrow> risk_within i original (fold ledger_step ops s)"
  by (induction ops arbitrary: s) (auto simp: risk_within_step wf_ledger_step)

text \<open>C28: the initial risk that partial fills allocate to the lots of one intent is bounded by the intent's original risk, in any
  sequence of operations from the empty ledger on quantities of at most 28 digits, for an original risk of at most 27 digits: the
  shares are not negative, their sum as the ledger computes it, rounded to 28 digits at every step, is at most the original risk,
  and their exact sum exceeds it at most by what these roundings can hide, a factor of 1 - 5 / 10^28 for each lot.\<close>

theorem risk_allocation_bounded:
  assumes "0 \<le> original" and "dec27 original" and "list_all exact_op ops" and "list_all (intent_risk_is i original) ops"
  shows "\<exists>xs. lot_risks i (position_lots (fold ledger_step ops empty_ledger)) = Inr xs
    \<and> prior_risk (fold ledger_step ops empty_ledger) i = Inr (dsum xs) \<and> (\<forall>x\<in>set xs. 0 \<le> x) \<and> dsum xs \<le> original
    \<and> sum_list xs * (1 - 5 / 10 ^ 28) ^ length xs \<le> original"
proof -
  have "risk_within i original (fold ledger_step ops empty_ledger)"
    by (rule risk_within_run) (use assms in \<open>auto simp: empty_ledger_def wf_ledger_def risk_within_def lot_risks_def dsum_def\<close>)
  then obtain xs where xs: "lot_risks i (position_lots (fold ledger_step ops empty_ledger)) = Inr xs" "\<forall>x\<in>set xs. 0 \<le> x" "dsum xs \<le> original"
    by (auto simp: risk_within_def list_all_iff split: sum.splits)
  then show ?thesis using dsum_lower [OF xs(2)] by (simp add: prior_risk_lots kept_def)
qed

theorem risk_allocation_bounded_witness:
  "\<exists>xs. lot_risks (PyStr ''i1'') (position_lots (fold ledger_step three_lots empty_ledger)) = Inr xs
    \<and> prior_risk (fold ledger_step three_lots empty_ledger) (PyStr ''i1'') = Inr (dsum xs) \<and> (\<forall>x\<in>set xs. 0 \<le> x) \<and> dsum xs \<le> 4
    \<and> sum_list xs * (1 - 5 / 10 ^ 28) ^ length xs \<le> 4"
proof (rule risk_allocation_bounded [OF _ _ three_lots_exact])
  show "dec27 4" by code_simp
  have "fill_metadata (sample_env t) (fa_intent (sample_args t sd q p f)) ''initial_risk_dollars'' ''initial_risk_dollars''
      = PyStr ''4''" for t sd q p f
    by (simp add: fill_metadata_def sample_args_def dget_def)
  moreover have "decimal_required (PyStr ''4'') ''initial_risk_dollars'' (Some 0) = Inr 4" by code_simp
  ultimately show "list_all (intent_risk_is (PyStr ''i1'') 4) three_lots"
    by (simp add: three_lots_def intent_risk_is_def sample_fill_def)
qed simp

text \<open>replaying the fill of a buy changes nothing: the fill event key is unique, so a second buy with
  the same key, whatever else it carries, leaves the lots as the first one left them.\<close>

theorem buy_replay_is_idempotent:
  assumes first: "apply_buy env a symbol quantity price fee s = Inr s1"
    and fresh: "\<forall>l\<in>set (position_lots s). lot_id l \<noteq> env_fresh env 0"
    and again: "apply_buy env' a' symbol' quantity' price' fee' s1 = Inr s2"
    and key: "fa_event_key a' = fa_event_key a"
  shows "s2 = s1 \<and> (\<exists>l\<in>set (position_lots s1). source_fill_event_key l = fa_event_key a)"
proof -
  from first obtain rk lc where
    s1: "s1 = s\<lparr>position_lots := insert_lot (new_lot env a s symbol quantity price fee rk lc) (position_lots s)\<rparr>"
    by (auto simp: apply_buy_def Let_def result_simps split: if_splits)
  from again obtain rk' lc' where
    s2: "s2 = s1\<lparr>position_lots := insert_lot (new_lot env' a' s1 symbol' quantity' price' fee' rk' lc') (position_lots s1)\<rparr>"
    by (auto simp: apply_buy_def Let_def result_simps split: if_splits)
  have "insert_lot (new_lot env' a' s1 symbol' quantity' price' fee' rk' lc') (position_lots s1) = position_lots s1"
    unfolding s1 using fresh by (simp add: insert_lot_replay new_lot_def Let_def key)
  moreover have "\<exists>l\<in>set (position_lots s1). source_fill_event_key l = fa_event_key a"
    using fresh by (auto simp: s1 insert_lot_def new_lot_def Let_def)
  ultimately show ?thesis by (simp add: s2)
qed

theorem buy_replay_is_idempotent_witness:
  "\<exists>s1. apply_buy (sample_env ''b1'') (sample_args ''b1'' ''buy'' ''1'' ''9'' ''0'') ''ABC'' 1 9 0 empty_ledger = Inr s1
    \<and> length (position_lots s1) = 1
    \<and> apply_buy (sample_env ''b9'') (sample_args ''b1'' ''buy'' ''1'' ''9'' ''0'') ''ABC'' 1 9 0 s1 = Inr s1"
proof -
  have "case apply_buy (sample_env ''b1'') (sample_args ''b1'' ''buy'' ''1'' ''9'' ''0'') ''ABC'' 1 9 0 empty_ledger of
      Inr s1 \<Rightarrow> length (position_lots s1) = 1
        \<and> (case apply_buy (sample_env ''b9'') (sample_args ''b1'' ''buy'' ''1'' ''9'' ''0'') ''ABC'' 1 9 0 s1 of
              Inr s2 \<Rightarrow> True | Inl _ \<Rightarrow> False) | Inl _ \<Rightarrow> False" by code_simp
  then obtain s1 s2 where
    s1: "apply_buy (sample_env ''b1'') (sample_args ''b1'' ''buy'' ''1'' ''9'' ''0'') ''ABC'' 1 9 0 empty_ledger = Inr s1"
    and len: "length (position_lots s1) = 1"
    and s2: "apply_buy (sample_env ''b9'') (sample_args ''b1'' ''buy'' ''1'' ''9'' ''0'') ''ABC'' 1 9 0 s1 = Inr s2"
    by (blast dest!: returned)
  have "s2 = s1" using buy_replay_is_idempotent [OF s1 _ s2] by (simp add: empty_ledger_def)
  then show ?thesis using s1 s2 len by blast
qed


section \<open>Realized results\<close>

lemma takes_rest:
  assumes "on_grid k R" and "\<forall>r\<in>set rs. on_grid k r"
  shows "foldl dsub R (fifo_takes R rs) = R - min R (sum_list rs)"
  using assms
proof (induction R rs rule: fifo_takes.induct)
  case (1 R)
  then show ?case using on_grid_nonneg by (fastforce simp: min_def)
next
  case (2 R r rs)
  have S: "0 \<le> sum_list rs" using "2.prems"(2) by (intro sum_list_nonneg) (auto dest: on_grid_nonneg)
  have r: "on_grid k r" "0 \<le> r" using "2.prems"(2) on_grid_nonneg by auto
  show ?case
  proof (cases "R = 0")
    case True
    then show ?thesis using S r by (simp add: min_def)
  next
    case False
    let ?t = "min R r"
    have t: "on_grid k ?t" using "2.prems"(1) r(1) by (rule on_grid_min)
    have d: "dsub R ?t = R - ?t" using "2.prems"(1) t by (auto intro: on_grid_dsub)
    have "on_grid k (R - ?t)" using "2.prems"(1) t by (auto intro: on_grid_diff)
    then have "foldl dsub (R - ?t) (fifo_takes (R - ?t) rs) = (R - ?t) - min (R - ?t) (sum_list rs)"
      using "2.IH" [OF False] "2.prems"(2) unfolding d by simp
    then show ?thesis using False S r(2) by (simp add: d)
  qed
qed

lemma takes_pos: "0 \<le> R \<Longrightarrow> \<forall>r\<in>set rs. 0 < r \<Longrightarrow> t \<in> set (fifo_takes R rs) \<Longrightarrow> 0 < t"
proof (induction R rs rule: fifo_takes.induct)
  case (2 R r rs)
  then show ?case by (auto simp: dsub_nonneg split: if_splits)
qed simp

lemma foldl_dadd_pos: "0 \<le> a \<Longrightarrow> \<forall>x\<in>set xs. 0 < x \<Longrightarrow> xs \<noteq> [] \<Longrightarrow> 0 < foldl dadd a xs"
proof (induction xs arbitrary: a)
  case (Cons x xs)
  have p: "0 < dadd a x" using Cons.prems by (simp add: dadd_def dec_ctx_def rnd_pos)
  then show ?case using Cons by (cases "xs = []") auto
qed simp

lemma sell_confidence_known:
  assumes "known (sell_confidence base acc)"
  shows "acc_remaining acc = 0" and "acc_confidences acc \<noteq> []" and "\<forall>c\<in>set (acc_confidences acc). known c"
    and "known base \<or> ''reconstructed'' \<in> set (acc_confidences acc)"
proof -
  have k: "\<not> known ''partially_reconstructed''" "\<not> known ''unavailable''" "known ''reconstructed''" by code_simp+
  show "acc_remaining acc = 0" and "acc_confidences acc \<noteq> []" and "\<forall>c\<in>set (acc_confidences acc). known c"
    and "known base \<or> ''reconstructed'' \<in> set (acc_confidences acc)"
    using assms k by (auto simp: sell_confidence_def list_ex_iff split: if_splits)
qed

text \<open>C26: a realized result is only recorded on a known basis. Let the sold quantity and the remaining quantities of the symbol's
  lots be multiples of one power of ten with at most 28 digits, and the quantity be positive. If the event a sell adds has a realized
  value, the open lots of the symbol covered the quantity, every lot the sell changed is verified or
  reconstructed, the coverage is known or one of those lots is a reconstructed one, the cost basis is
  recorded, and the value is proceeds minus basis minus fees plus adjustments.\<close>

theorem realized_needs_known_basis:
  assumes wf: "wf_ledger s" and q: "on_grid k quantity" "0 < quantity"
    and lots: "\<forall>l\<in>set (position_lots s). lot_symbol l = symbol \<longrightarrow> on_grid k (lot_rem l)"
    and sell: "apply_sell env a symbol side quantity price fee adjustment s = Inr s'"
    and ev: "ev \<in> set (realized_pnl_events s')" "ev \<notin> set (realized_pnl_events s)" "ev_realized ev = Some x"
  defines "row \<equiv> (\<lambda>i t. fetch_one (\<lambda>m. lot_id m = i) (position_lots t))"
  shows "quantity \<le> position_total symbol (position_lots s)
    \<and> (\<forall>l\<in>set (open_lots symbol (position_lots s)). row (lot_id l) s' \<noteq> row (lot_id l) s \<longrightarrow> known (lot_confidence l))
    \<and> (known (base_confidence s)
        \<or> (\<exists>l\<in>set (open_lots symbol (position_lots s)). lot_confidence l = ''reconstructed''))
    \<and> (\<exists>basis. ev_cost_basis ev = Some basis
          \<and> x = dadd (dsub (dsub (ev_proceeds ev) basis) (ev_fees ev)) (ev_adjustments ev))"
proof -
  let ?c = "sell_context env a quantity price fee adjustment s" and ?o = "open_lots symbol (position_lots s)"
  let ?ts = "fifo_takes quantity (map lot_rem ?o)"
  note op = open_lots_wf [OF wf, of symbol]
  from apply_sell_result [OF wf sell] obtain acc ev' where
    sold: "sold ?c ?o (sell_start quantity (position_lots s)) acc" and s': "position_lots s' = acc_lots acc"
    and evs: "realized_pnl_events s' = insert_event ev' (realized_pnl_events s)"
    and e: "ev_proceeds ev' = dmul quantity price" "ev_fees ev' = fee" "ev_adjustments ev' = adjustment"
      "ev_cost_basis ev' = (if acc_known acc > 0 then Some (acc_basis acc) else None)"
      "ev_realized ev' = sell_realized ?c acc" by blast
  have ev': "ev = ev'" using ev(1,2) by (auto simp: evs insert_event_def split: if_splits)
  have known: "acc_remaining acc = 0" "known (sell_confidence (base_confidence s) acc)"
    and x: "x = dadd (dsub (dsub (dmul quantity price) (acc_basis acc)) fee) adjustment"
    using ev(3) e(5) by (auto simp: ev' sell_realized_def sell_context_def split: if_splits)
  note conf = sell_confidence_known [OF known(2)]
  have confs: "set (acc_confidences acc) = lot_confidence ` set (take (length ?ts) ?o)"
    and rem: "acc_remaining acc = foldl dsub quantity ?ts" and kn: "acc_known acc = foldl dadd 0 ?ts"
    and drained: "position_lots s' = drain ?c quantity ?o (position_lots s)"
    using sold s' by (auto simp: sold_def Let_def sell_start_def)
  have grid: "\<forall>r\<in>set (map lot_rem ?o). on_grid k r" using lots by (auto simp: open_lots_set)
  have "quantity \<le> sum_list (map lot_rem ?o)"
    using takes_rest [OF q(1) grid] rem known(1) by (simp add: min_def split: if_splits)
  then have covered: "quantity \<le> position_total symbol (position_lots s)" by (simp add: open_lots_total [OF wf])
  have ne: "?ts \<noteq> []" using conf(2) confs by auto
  have pos: "\<forall>t\<in>set ?ts. 0 < t"
  proof
    fix t assume "t \<in> set ?ts"
    moreover have "\<forall>r\<in>set (map lot_rem ?o). 0 < r"
      using op(1) grid on_grid_nonneg by (fastforce simp: list_all_iff less_le)
    ultimately show "0 < t" using takes_pos q(2) by (meson order_less_imp_le)
  qed
  have "0 < acc_known acc" using foldl_dadd_pos [OF _ pos ne, of 0] by (simp add: kn)
  then have basis: "ev_cost_basis ev = Some (acc_basis acc)" using e(4) by (simp add: ev')
  have changed: "known (lot_confidence l)" if "l \<in> set ?o" "row (lot_id l) s' \<noteq> row (lot_id l) s" for l
  proof -
    have "lot_id l \<in> lot_id ` set (take (length ?ts) ?o)"
      using that drain_fetch_other [of "lot_id l" quantity ?o ?c "position_lots s"] by (auto simp: row_def drained)
    then obtain m where m: "m \<in> set (take (length ?ts) ?o)" "lot_id m = lot_id l" by auto
    then have "m = l" using that(1) op(2) by (auto simp: distinct_map inj_on_def dest: in_set_takeD)
    then show ?thesis using m(1) conf(3) confs by auto
  qed
  have "known (base_confidence s) \<or> (\<exists>l\<in>set ?o. lot_confidence l = ''reconstructed'')"
    using conf(4) confs by (auto dest: in_set_takeD)
  then show ?thesis using covered changed basis x e(1-3) by (auto simp: ev')
qed

theorem realized_needs_known_basis_witness:
  "\<exists>s' ev. sample_sell (fold ledger_step three_lots empty_ledger) = Inr s' \<and> ev \<in> set (realized_pnl_events s')
    \<and> ev_realized ev = Some 1 \<and> 2 \<le> position_total ''ABC'' (position_lots (fold ledger_step three_lots empty_ledger))
    \<and> (\<exists>basis. ev_cost_basis ev = Some basis \<and> 1 = dadd (dsub (dsub (ev_proceeds ev) basis) (ev_fees ev)) (ev_adjustments ev))"
proof -
  let ?s = "fold ledger_step three_lots empty_ledger"
  have "case sample_sell ?s of Inr s' \<Rightarrow> map ev_realized (realized_pnl_events s') = [Some 1] | Inl _ \<Rightarrow> False" by code_simp
  from returned [OF this] obtain s' where s': "sample_sell ?s = Inr s'"
    and evs: "map ev_realized (realized_pnl_events s') = [Some 1]" by (elim exE conjE) (rule that)
  from evs obtain ev where ev: "ev \<in> set (realized_pnl_events s')" "ev_realized ev = Some 1" by auto
  have "realized_pnl_events ?s = []" by code_simp
  then have new: "ev \<notin> set (realized_pnl_events ?s)" by simp
  have q: "on_grid 0 2" by (auto simp: on_grid_def intro!: exI [of _ 2])
  from realized_needs_known_basis [OF wf_three_lots q _ three_lots_grid s' [unfolded sample_sell_def] ev(1) new ev(2)]
  show ?thesis using s' ev by auto
qed


text \<open>a daily figure is only reported on full coverage. When the summary gives a daily realized result,
  the ledger's coverage started no later than the start of the trading day, the coverage and every event
  of the day are verified or reconstructed, every event has a result, and the figure is the sum of those
  results; it is called verified only if the coverage is not reconstructed and no event of the day is.\<close>

theorem daily_result_needs_coverage:
  assumes "daily_realized_pl (ledger_summary cal moment s) = Some x"
  defines "day \<equiv> filter (\<lambda>e. ev_trading_day e = fst (cal_keys cal moment)) (realized_pnl_events s)"
  shows "\<exists>st. pnl_ledger_status s = Some st \<and> effective_from st \<noteq> []
    \<and> cal_moment cal (effective_from st) \<le> cal_day_start cal moment \<and> known (status_confidence st)
    \<and> (\<exists>xs. map ev_realized day = map Some xs \<and> x = dsum xs) \<and> list_all (\<lambda>e. known (ev_confidence e)) day
    \<and> (daily_confidence (ledger_summary cal moment s) = ''verified'' \<longrightarrow>
         status_confidence st \<noteq> ''reconstructed'' \<and> list_all (\<lambda>e. ev_confidence e \<noteq> ''reconstructed'') day)"
proof -
  have sum: "fst (period_summary (cal_moment cal) (cal_day_start cal moment) (pnl_ledger_status s) day) = Some x"
    and conf: "daily_confidence (ledger_summary cal moment s)
      = snd (period_summary (cal_moment cal) (cal_day_start cal moment) (pnl_ledger_status s) day)"
    using assms by (simp_all add: ledger_summary_def Let_def)
  from sum obtain st where st: "pnl_ledger_status s = Some st" "effective_from st \<noteq> []"
    "cal_moment cal (effective_from st) \<le> cal_day_start cal moment" "known (status_confidence st)"
    and ev: "events_realized day = Some x"
    by (auto simp: period_summary_def not_less split: option.splits if_splits)
  have c: "daily_confidence (ledger_summary cal moment s) = events_confidence (status_confidence st) day"
    using st ev by (simp add: conf period_summary_def)
  from ev have all: "\<forall>e\<in>set day. ev_realized e \<noteq> None \<and> known (ev_confidence e)"
    and x: "x = dsum (map (\<lambda>e. case ev_realized e of None \<Rightarrow> 0 | Some x \<Rightarrow> x) day)"
    by (auto simp: events_realized_def list_ex_iff split: if_splits)
  have "map ev_realized day = map Some (map (\<lambda>e. case ev_realized e of None \<Rightarrow> 0 | Some x \<Rightarrow> x) day)"
    using all by auto
  then have xs: "\<exists>xs. map ev_realized day = map Some xs \<and> x = dsum xs" using x by blast
  have "list_all (\<lambda>e. known (ev_confidence e)) day" using all by (simp add: list_all_iff)
  moreover have "daily_confidence (ledger_summary cal moment s) = ''verified'' \<longrightarrow>
      status_confidence st \<noteq> ''reconstructed'' \<and> list_all (\<lambda>e. ev_confidence e \<noteq> ''reconstructed'') day"
    by (simp add: c events_confidence_def list_all_iff list_ex_iff)
  ultimately show ?thesis using st xs by blast
qed

theorem daily_result_needs_coverage_witness:
  "let cal = \<lparr>cal_keys = (\<lambda>_. (''2024-01-02'', ''2024-01-01'')), cal_day_start = (\<lambda>_. 1), cal_week_start = (\<lambda>_. 0),
        cal_moment = (\<lambda>_. 0)\<rparr>
   in case sample_sell (fold ledger_step three_lots empty_ledger) of Inl _ \<Rightarrow> False
      | Inr s \<Rightarrow> (\<exists>st. pnl_ledger_status s = Some st \<and> known (status_confidence st)) \<and> daily_realized_pl (ledger_summary cal 2 s) = Some 1"
proof -
  let ?cal = "\<lparr>cal_keys = (\<lambda>_. (''2024-01-02'', ''2024-01-01'')), cal_day_start = (\<lambda>_. 1), cal_week_start = (\<lambda>_. 0),
        cal_moment = (\<lambda>_. 0)\<rparr> :: calendar"
  have "case sample_sell (fold ledger_step three_lots empty_ledger) of
      Inr s \<Rightarrow> daily_realized_pl (ledger_summary ?cal 2 s) = Some 1 | Inl _ \<Rightarrow> False" by code_simp
  then obtain s where s: "sample_sell (fold ledger_step three_lots empty_ledger) = Inr s"
    and d: "daily_realized_pl (ledger_summary ?cal 2 s) = Some 1" by (blast dest: returned)
  from daily_result_needs_coverage [OF d] obtain st where "pnl_ledger_status s = Some st" "known (status_confidence st)"
    by blast
  then show ?thesis using s d by simp
qed

section \<open>The rows the ledger writes, read by the integrity report\<close>

text \<open>
  The decimal-text columns of the rows of the two tables of results; their REAL projections, which the
  reconciliation does not read, are left out.
\<close>

definition text_opt :: "rat option \<Rightarrow> pyval" where
  "text_opt v = (case v of None \<Rightarrow> PyNone | Some x \<Rightarrow> PyStr (dec_text x))"

definition decimal_row :: "string \<Rightarrow> (string \<times> rat option) list \<Rightarrow> (string \<times> string) list \<Rightarrow> pydict" where
  "decimal_row key cols texts = map_of (
     map (\<lambda>(c, v). (c @ ''_decimal'', text_opt v)) cols
     @ map (\<lambda>(c, t). (c, PyStr t)) texts
     @ [(''broker_event_key'', PyStr key), (''decimal_provenance'', PyStr EXACT_DECIMAL_PROVENANCE),
        (''decimal_accounting_version'', PyStr FIXED_POINT_ACCOUNTING_VERSION)])"

definition event_row :: "pnl_event \<Rightarrow> pydict" where
  "event_row e = decimal_row (ev_event_key e)
     [(''quantity'', Some (ev_quantity e)), (''gross_proceeds'', Some (ev_proceeds e)),
      (''cost_basis'', ev_cost_basis e), (''fees'', Some (ev_fees e)), (''adjustments'', Some (ev_adjustments e)),
      (''realized_pl'', ev_realized e), (''remaining_position_quantity'', Some (ev_remaining_position e))]
     [(''symbol'', ev_symbol e), (''side'', ev_side e), (''confidence'', ev_confidence e)]"

definition consumption_row :: "consumption \<Rightarrow> pydict" where
  "consumption_row c = decimal_row (con_event_key c)
     [(''quantity'', Some (con_quantity c)), (''allocated_proceeds'', Some (con_proceeds c)),
      (''allocated_cost_basis'', Some (con_cost_basis c)), (''allocated_buy_fees'', Some (con_buy_fees c)),
      (''allocated_sell_fees'', Some (con_sell_fees c)), (''allocated_adjustments'', Some (con_adjustments c)),
      (''realized_pnl'', con_realized c)]
     [(''lot_id'', con_lot_id c), (''confidence'', con_confidence c)]"

definition reconciliation :: "ledger \<Rightarrow> rat option list \<times> rat option list \<times> nat" where
  "reconciliation s = (map ev_realized (realized_pnl_events s), map con_realized (lot_consumptions s),
     consumption_reconciliation_mismatch
       (fold (check_event (map consumption_row (lot_consumptions s))) (map event_row (realized_pnl_events s)) empty_report))"

text \<open>
  Two runs of the ledger that the integrity report then flags. In the first, three lots of one unit
  bought at 9 are sold at 10 with a fee of 2: every consumption stores its own rounded result, and the
  three results do not add up to the event's result, which is 1. In the second, no coverage is recorded:
  a manual lot of reconstructed confidence is sold, and the event gets a reconstructed result although
  its consumptions have none.
\<close>

definition uncovered_lot :: "ledger_op list" where
  "uncovered_lot = [Manual ''t'' ''m1'' (PyStr ''abc'') (PyInt 1) (PyInt 9) ''2024-01-01'' (PyStr ''broker'') ''reconstructed'']"

definition recorded_results :: "ledger \<Rightarrow> rat option list \<times> rat option list" where
  "recorded_results s = (map ev_realized (realized_pnl_events s), map con_realized (lot_consumptions s))"

lemma three_lot_results:
  "recorded_results (fold ledger_step (three_lots @ [sample_fill ''s1'' ''sell'' ''3'' ''10'' ''2'']) empty_ledger)
    = ([Some 1], [Some (3333333333333333333333333334 / 10 ^ 28), Some (3333333333333333333333333334 / 10 ^ 28),
                  Some (333333333333333333333333333 / 10 ^ 27)])"
  by code_simp

lemma three_lot_sum:
  "dsum [3333333333333333333333333334 / 10 ^ 28, 3333333333333333333333333334 / 10 ^ 28, 333333333333333333333333333 / 10 ^ 27] < 1"
  by code_simp

text \<open>the per-lot results of a sell need not add up to the result of its event. Three lots of one unit
  bought at 9 and sold at 10 with a fee of 2: the event stores 1, the three consumptions store rounded
  results whose sum in the decimal context is not 1, so the integrity report counts a reconciliation
  mismatch on a ledger that the code itself wrote.\<close>

theorem rounded_results_do_not_reconcile:
  "\<exists>s xs. s = fold ledger_step (three_lots @ [sample_fill ''s1'' ''sell'' ''3'' ''10'' ''2'']) empty_ledger
    \<and> map ev_realized (realized_pnl_events s) = [Some 1] \<and> map con_realized (lot_consumptions s) = map Some xs \<and> dsum xs \<noteq> 1"
proof (intro exI conjI)
  show "map con_realized (lot_consumptions (fold ledger_step (three_lots @ [sample_fill ''s1'' ''sell'' ''3'' ''10'' ''2''])
      empty_ledger)) = map Some [3333333333333333333333333334 / 10 ^ 28, 3333333333333333333333333334 / 10 ^ 28,
        333333333333333333333333333 / 10 ^ 27]"
    using three_lot_results unfolding recorded_results_def prod.inject list.map by (rule conjunct2)
  show "map ev_realized (realized_pnl_events (fold ledger_step (three_lots @ [sample_fill ''s1'' ''sell'' ''3'' ''10'' ''2''])
      empty_ledger)) = [Some 1]"
    using three_lot_results unfolding recorded_results_def prod.inject by (rule conjunct1)
qed (use three_lot_sum in auto)

text \<open>without coverage, the sale of a reconstructed lot records a realized result on the event and none
  on its consumption, and the integrity report counts the event as a mismatch.\<close>

theorem uncovered_sale_does_not_reconcile:
  "(case reconciliation (fold ledger_step (uncovered_lot @ [sample_fill ''s1'' ''sell'' ''1'' ''10'' ''0'']) empty_ledger)
    of (events, consumptions, mismatches) \<Rightarrow> events = [Some 1] \<and> consumptions = [None] \<and> mismatches = 1)"
  by code_simp

end
