(* ===== verification/Intent_Store.thy ===== *)
theory Intent_Store
  imports Order_State
begin

text \<open>
  The state transition of a durable order intent: \<open>DurableExecutionStore.get_intent\<close> and
  \<open>DurableExecutionStore.transition\<close> of \<open>app/execution.py\<close>. One call is one immediate transaction over
  the tables \<open>order_intents\<close>, \<open>order_events\<close>, \<open>orders\<close> and \<open>risk_reservations\<close>; an error leaves them as
  they were. The columns of an intent or of a reservation that the transition does not touch are kept as one
  dictionary.
  The take-profit tables are a parameter, with the update of \<open>app/profit_milestones.py\<close> that a terminal
  state triggers; so are the clock and the fresh UUID.
\<close>

section \<open>State\<close>

record order_intent =
  oi_id :: string
  oi_approval :: "string option"
  oi_state :: string
  oi_broker_order :: "string option"
  oi_first_submission :: "string option"
  oi_terminal_at :: "string option"
  oi_error :: "string option"
  oi_summary :: "string option"
  oi_attempts :: int
  oi_counter :: int
  oi_broker_invoked :: int
  oi_updated :: string
  oi_data :: pydict

text \<open>The columns of an event that only the recording of a fill writes; the creation of an intent is the only event
  without a source state, and records the type of its source.\<close>

record event_fill =
  ef_key :: "string option"
  ef_quantity :: string
  ef_price :: string
  ef_detail :: string

record order_event =
  oe_id :: string
  oe_intent :: string
  oe_key :: string
  oe_from :: "string option"
  oe_to :: string
  oe_type :: string
  oe_error :: "string option"
  oe_summary :: "string option"
  oe_created :: string
  oe_counter :: int
  oe_fill :: "event_fill option"
  oe_origin :: "string option"

record order_row =
  or_id :: string
  or_client :: string
  or_proposal :: pyval
  or_data :: pydict
  or_broker_order :: "string option"
  or_status :: string
  or_updated :: string

record reservation =
  rr_intent :: string
  rr_active_notional :: string
  rr_active_risk :: string
  rr_state :: string
  rr_released_at :: "string option"
  rr_reason :: "string option"
  rr_updated :: string
  rr_version :: int
  rr_data :: pydict

record 'm durable_store =
  order_intents :: "order_intent list"
  order_events :: "order_event list"
  orders :: "order_row list"
  risk_reservations :: "reservation list"
  milestones :: 'm

text \<open>What a transition reads besides the tables, and its arguments.\<close>

record 'm exec_env =
  ee_now :: string
  ee_fresh :: string
  ee_milestone_terminal :: "string \<Rightarrow> string \<Rightarrow> string \<Rightarrow> 'm \<Rightarrow> 'm res"

record transition_args =
  ta_event_type :: string
  ta_broker_order :: "string option"
  ta_error :: "string option"
  ta_summary :: "string option"
  ta_expected :: "order_state option"

definition coalesce :: "'a option \<Rightarrow> 'a option \<Rightarrow> 'a option" where
  "coalesce a b = (case a of None \<Rightarrow> b | Some x \<Rightarrow> Some x)"

section \<open>Operations\<close>

definition get_intent :: "string \<Rightarrow> ('m, 'z) durable_store_scheme \<Rightarrow> order_intent res" where
  "get_intent i s = (case fetch_one (\<lambda>r. oi_id r = i) (order_intents s) of
     None \<Rightarrow> Inl (LookupError (''order intent not found: '' @ i)) | Some r \<Rightarrow> Inr r)"

definition move_intent :: "string \<Rightarrow> transition_args \<Rightarrow> order_state \<Rightarrow> order_intent \<Rightarrow> order_intent" where
  "move_intent now a destination r = r\<lparr>
     oi_state := state_value destination,
     oi_broker_order := coalesce (ta_broker_order a) (oi_broker_order r),
     oi_updated := now,
     oi_first_submission := (if destination = SUBMITTING \<and> oi_first_submission r \<in> {None, Some []} then Some now
                             else oi_first_submission r),
     oi_terminal_at := coalesce (if destination \<in> set TERMINAL_STATES then Some now else None) (oi_terminal_at r),
     oi_error := ta_error a,
     oi_summary := ta_summary a,
     oi_attempts := (if destination = SUBMITTING then oi_attempts r + 1 else oi_attempts r),
     oi_counter := oi_counter r + 1\<rparr>"

definition transition_event :: "'m exec_env \<Rightarrow> transition_args \<Rightarrow> order_intent \<Rightarrow> order_state \<Rightarrow> order_state \<Rightarrow> order_event" where
  "transition_event env a r source destination =
     \<lparr>oe_id = ee_fresh env, oe_intent = oi_id r,
      oe_key = oi_id r @ '':'' @ state_value destination @ '':'' @ int_text (oi_counter r + 1),
      oe_from = Some (state_value source), oe_to = state_value destination, oe_type = ta_event_type a,
      oe_error = ta_error a, oe_summary = ta_summary a, oe_created = ee_now env, oe_counter = oi_counter r + 1,
      oe_fill = None, oe_origin = None\<rparr>"

definition release_reservation :: "string \<Rightarrow> string \<Rightarrow> reservation \<Rightarrow> reservation" where
  "release_reservation now why r = r\<lparr>rr_active_notional := ''0'', rr_active_risk := ''0'', rr_state := ''released'',
     rr_released_at := coalesce (rr_released_at r) (Some now), rr_reason := coalesce (rr_reason r) (Some why),
     rr_updated := now, rr_version := rr_version r + 1\<rparr>"

text \<open>The writes of one transition, in the order of the code, after its checks.\<close>

definition write_transition ::
  "'m exec_env \<Rightarrow> transition_args \<Rightarrow> order_intent \<Rightarrow> order_state \<Rightarrow> order_state
    \<Rightarrow> ('m, 'z) durable_store_scheme \<Rightarrow> ('m, 'z) durable_store_scheme res" where
  "write_transition env a r source destination s =
     (let i = oi_id r; e = transition_event env a r source destination;
          s1 = s\<lparr>order_intents := update_where (\<lambda>x. oi_id x = i) (move_intent (ee_now env) a destination) (order_intents s)\<rparr>
      in if \<exists>f\<in>set (order_events s). oe_id f = oe_id e \<or> oe_key f = oe_key e
         then Inl (IntegrityError ''UNIQUE constraint failed: order_events'')
         else let s2 = s1\<lparr>order_events := order_events s1 @ [e],
                   orders := update_where (\<lambda>x. or_id x = i) (\<lambda>x. x\<lparr>or_broker_order := coalesce (ta_broker_order a) (or_broker_order x),
                     or_status := state_value destination, or_updated := ee_now env\<rparr>) (orders s1)\<rparr>
              in if destination \<notin> set TERMINAL_STATES then Inr s2
                 else rbind (ee_milestone_terminal env i (state_value destination) (ee_now env) (milestones s2)) (\<lambda>m.
                   Inr (s2\<lparr>risk_reservations := update_where (\<lambda>x. rr_intent x = i \<and> rr_state x = ''active'')
                       (release_reservation (ee_now env) (state_value destination)) (risk_reservations s2),
                     milestones := m\<rparr>)))"

definition check_expected :: "transition_args \<Rightarrow> order_state \<Rightarrow> unit res" where
  "check_expected a current = (case ta_expected a of
     None \<Rightarrow> Inr ()
   | Some e \<Rightarrow> if current \<noteq> e
       then Inl (InvalidOrderTransition (''expected '' @ state_value e @ '', found '' @ state_value current))
       else Inr ())"

definition intent_transition ::
  "'m exec_env \<Rightarrow> string \<Rightarrow> order_state \<Rightarrow> transition_args \<Rightarrow> ('m, 'z) durable_store_scheme
    \<Rightarrow> (order_intent \<times> ('m, 'z) durable_store_scheme) res" where
  "intent_transition env i target a s =
     rbind (get_intent i s) (\<lambda>r.
     rbind (order_state_of (oi_state r)) (\<lambda>current.
     rbind (check_expected a current) (\<lambda>_.
     rbind (validate_transition (state_value current) (state_value target)) (\<lambda>st.
       if fst st = snd st then Inr (r, s)
       else rbind (write_transition env a r (fst st) (snd st) s) (\<lambda>s'.
         rbind (get_intent i s') (\<lambda>r'. Inr (r', s')))))))"

section \<open>One transition\<close>

interpretation intents: keyed_table oi_id "\<lambda>(now, a, d). move_intent now a d"
  by unfold_locales (auto simp: move_intent_def)

lemma move_intent_simps [simp]:
  "oi_id (move_intent now a d r) = oi_id r" "oi_state (move_intent now a d r) = state_value d"
  "oi_counter (move_intent now a d r) = oi_counter r + 1"
  by (simp_all add: move_intent_def)

lemma state_value_inject [simp]: "state_value a = state_value b \<longleftrightarrow> a = b"
  by (metis order_state_of_value sum.inject(2))

lemma get_intent_Inr: "get_intent i s = Inr r \<longleftrightarrow> fetch_one (\<lambda>r. oi_id r = i) (order_intents s) = Some r"
  by (auto simp: get_intent_def split: option.splits)

lemma get_intent_id: "get_intent i s = Inr r \<Longrightarrow> oi_id r = i \<and> r \<in> set (order_intents s)"
  by (auto simp: get_intent_Inr dest: fetch_one_Some)

definition terminal_values :: "string list" where
  "terminal_values = map state_value TERMINAL_STATES"

lemma terminal_value [simp]: "state_value q \<in> set terminal_values \<longleftrightarrow> q \<in> set TERMINAL_STATES"
  by (auto simp: terminal_values_def)

text \<open>What a successful transition has done: nothing, or one allowed step with its event.\<close>

lemma intent_transition_result:
  assumes "intent_transition env i target a s = Inr (r', s')"
  shows "\<exists>r q. get_intent i s = Inr r \<and> oi_state r = state_value q \<and> (\<forall>e. ta_expected a = Some e \<longrightarrow> q = e)
    \<and> ((q = target \<and> r' = r \<and> s' = s) \<or>
       (q \<noteq> target \<and> order_allowed q target
        \<and> order_intents s' = update_where (\<lambda>x. oi_id x = i) (move_intent (ee_now env) a target) (order_intents s)
        \<and> order_events s' = order_events s @ [transition_event env a r q target]
        \<and> r' = move_intent (ee_now env) a target r
        \<and> risk_reservations s' = (if target \<in> set TERMINAL_STATES
            then update_where (\<lambda>x. rr_intent x = i \<and> rr_state x = ''active'')
                   (release_reservation (ee_now env) (state_value target)) (risk_reservations s)
            else risk_reservations s)))"
proof -
  from assms obtain r q where r: "get_intent i s = Inr r" and q: "order_state_of (oi_state r) = Inr q"
    and e: "check_expected a q = Inr ()"
    and rest: "rbind (validate_transition (state_value q) (state_value target)) (\<lambda>st.
       if fst st = snd st then Inr (r, s)
       else rbind (write_transition env a r (fst st) (snd st) s) (\<lambda>s'.
         rbind (get_intent i s') (\<lambda>r'. Inr (r', s')))) = Inr (r', s')"
    by (auto simp: intent_transition_def result_simps)
  have qv: "oi_state r = state_value q" by (rule order_state_of_Inr [OF q])
  have id: "oi_id r = i" using get_intent_id [OF r] by simp
  have e': "\<forall>e. ta_expected a = Some e \<longrightarrow> q = e"
    using e by (auto simp: check_expected_def split: option.splits if_splits)
  from rest consider "q = target" "r' = r" "s' = s"
    | "q \<noteq> target" "order_allowed q target" "write_transition env a r q target s = Inr s'" "get_intent i s' = Inr r'"
    by (auto simp: result_simps validate_transition_iff guarded_step_def split: if_splits)
  then show ?thesis
  proof cases
    case 1
    then show ?thesis using r qv e' by blast
  next
    case 2
    have w: "order_intents s' = update_where (\<lambda>x. oi_id x = i) (move_intent (ee_now env) a target) (order_intents s)"
      "order_events s' = order_events s @ [transition_event env a r q target]"
      "risk_reservations s' = (if target \<in> set TERMINAL_STATES
            then update_where (\<lambda>x. rr_intent x = i \<and> rr_state x = ''active'')
                   (release_reservation (ee_now env) (state_value target)) (risk_reservations s)
            else risk_reservations s)"
      using 2(3) by (auto simp: write_transition_def Let_def id result_simps split: if_splits)
    have "r' = move_intent (ee_now env) a target r"
      using 2(4) r intents.fetch_same [of i "(ee_now env, a, target)" "order_intents s"] by (simp add: get_intent_Inr w(1))
    then show ?thesis using 2 r qv e' w by blast
  qed
qed

section \<open>Runs of transitions\<close>

text \<open>Requests in any order, on any intents; one that raises is rolled back.\<close>

record 'm request =
  rq_env :: "'m exec_env"
  rq_intent :: string
  rq_target :: order_state
  rq_args :: transition_args

definition request_step :: "'m request \<Rightarrow> ('m, 'z) durable_store_scheme \<Rightarrow> ('m, 'z) durable_store_scheme" where
  "request_step q s = (case intent_transition (rq_env q) (rq_intent q) (rq_target q) (rq_args q) s of
     Inl _ \<Rightarrow> s | Inr r \<Rightarrow> snd r)"

definition run_requests :: "'m request list \<Rightarrow> ('m, 'z) durable_store_scheme \<Rightarrow> ('m, 'z) durable_store_scheme" where
  "run_requests qs s = fold request_step qs s"

definition intent_events :: "string \<Rightarrow> ('m, 'z) durable_store_scheme \<Rightarrow> order_event list" where
  "intent_events i s = filter (\<lambda>e. oe_intent e = i) (order_events s)"

text \<open>The events that take an intent in state \<open>q\<close> with counter \<open>n\<close> through the states \<open>ts\<close>.\<close>

fun event_chain :: "order_state \<Rightarrow> int \<Rightarrow> order_state list \<Rightarrow> order_event list \<Rightarrow> bool" where
  "event_chain q n [] es = (es = [])"
| "event_chain q n (t # ts) [] = False"
| "event_chain q n (t # ts) (e # es) = (oe_from e = Some (state_value q) \<and> oe_to e = state_value t
     \<and> oe_counter e = n + 1 \<and> event_chain t (n + 1) ts es)"

lemma event_chain_append:
  "event_chain q n ts es \<Longrightarrow> event_chain (last (q # ts)) (n + int (length ts)) us fs \<Longrightarrow> event_chain q n (ts @ us) (es @ fs)"
  by (induction q n ts es rule: event_chain.induct) (auto simp: algebra_simps)

text \<open>The abstract machine of \<open>Order_State\<close> simulates one request: zero or one of its steps.\<close>

lemma request_simulates:
  assumes "get_intent i s = Inr r" and "oi_state r = state_value q"
  shows "\<exists>r' ts new. get_intent i (request_step rq s) = Inr r' \<and> guarded_run order_allowed q ts
    \<and> oi_state r' = state_value (last (q # ts)) \<and> oi_counter r' = oi_counter r + int (length ts)
    \<and> intent_events i (request_step rq s) = intent_events i s @ new \<and> event_chain q (oi_counter r) ts new"
proof (cases "intent_transition (rq_env rq) (rq_intent rq) (rq_target rq) (rq_args rq) s")
  case (Inl e)
  then show ?thesis using assms by (intro exI [of _ r] exI [of _ "[]"]) (simp add: request_step_def)
next
  case (Inr p)
  obtain r1 s1 where p: "p = (r1, s1)" by fastforce
  have step: "request_step rq s = s1" using Inr p by (simp add: request_step_def)
  from intent_transition_result [OF Inr [unfolded p]] obtain r0 q0 where
    r0: "get_intent (rq_intent rq) s = Inr r0" "oi_state r0 = state_value q0" and
    moved: "s1 = s \<or> (q0 \<noteq> rq_target rq \<and> order_allowed q0 (rq_target rq)
        \<and> order_intents s1 = update_where (\<lambda>x. oi_id x = rq_intent rq)
              (move_intent (ee_now (rq_env rq)) (rq_args rq) (rq_target rq)) (order_intents s)
        \<and> order_events s1 = order_events s @ [transition_event (rq_env rq) (rq_args rq) r0 q0 (rq_target rq)])"
    by blast
  show ?thesis
  proof (cases "s1 = s")
    case True
    then show ?thesis using assms step by (intro exI [of _ r] exI [of _ "[]"]) simp
  next
    case False
    then have mv: "order_allowed q0 (rq_target rq)"
      "order_intents s1 = update_where (\<lambda>x. oi_id x = rq_intent rq)
          (move_intent (ee_now (rq_env rq)) (rq_args rq) (rq_target rq)) (order_intents s)"
      "order_events s1 = order_events s @ [transition_event (rq_env rq) (rq_args rq) r0 q0 (rq_target rq)]"
      using moved by auto
    let ?k = "(ee_now (rq_env rq), rq_args rq, rq_target rq)"
    have rid: "oi_id r0 = rq_intent rq" using get_intent_id [OF r0(1)] by simp
    show ?thesis
    proof (cases "i = rq_intent rq")
      case True
      then have eq: "r0 = r" "q0 = q" using assms r0 by auto
      have "get_intent i s1 = Inr (move_intent (ee_now (rq_env rq)) (rq_args rq) (rq_target rq) r)"
        using assms(1) intents.fetch_same [of i ?k "order_intents s"] by (simp add: get_intent_Inr mv(2) True)
      moreover have "intent_events i s1 = intent_events i s @ [transition_event (rq_env rq) (rq_args rq) r q (rq_target rq)]"
        using rid True eq by (simp add: intent_events_def mv(3) transition_event_def Let_def)
      ultimately show ?thesis unfolding step using mv(1) eq
        by (intro exI [of _ "move_intent (ee_now (rq_env rq)) (rq_args rq) (rq_target rq) r"]
              exI [of _ "[rq_target rq]"] exI [of _ "[transition_event (rq_env rq) (rq_args rq) r q (rq_target rq)]"])
          (simp add: guarded_step_def transition_event_def Let_def)
    next
      case False
      have "get_intent i s1 = Inr r"
        using assms(1) intents.fetch_other [OF False, of ?k "order_intents s"] by (simp add: get_intent_Inr mv(2))
      moreover have "intent_events i s1 = intent_events i s"
        using rid False by (simp add: intent_events_def mv(3) transition_event_def Let_def)
      ultimately show ?thesis unfolding step using assms
        by (intro exI [of _ r] exI [of _ "[]"]) simp
    qed
  qed
qed

section \<open>Reservations\<close>

text \<open>
  An active reservation belongs to an intent that is not terminal, and a released one holds nothing.
\<close>

definition reservation_ok :: "('m, 'z) durable_store_scheme \<Rightarrow> reservation \<Rightarrow> bool" where
  "reservation_ok s x \<longleftrightarrow>
     (rr_state x = ''active'' \<longrightarrow> (case get_intent (rr_intent x) s of Inl _ \<Rightarrow> False | Inr r \<Rightarrow> oi_state r \<notin> set terminal_values))
     \<and> (rr_state x = ''released'' \<longrightarrow> rr_active_notional x = ''0'' \<and> rr_active_risk x = ''0'')"

lemma release_reservation_simps [simp]:
  "rr_state (release_reservation now w x) = ''released''" "rr_active_notional (release_reservation now w x) = ''0''"
  "rr_active_risk (release_reservation now w x) = ''0''" "rr_intent (release_reservation now w x) = rr_intent x"
  by (simp_all add: release_reservation_def)

lemma reservation_ok_step:
  assumes ok: "\<forall>x\<in>set (risk_reservations s). reservation_ok s x"
    and x: "x \<in> set (risk_reservations (request_step rq s))"
  shows "reservation_ok (request_step rq s) x"
proof (cases "intent_transition (rq_env rq) (rq_intent rq) (rq_target rq) (rq_args rq) s")
  case (Inl e)
  then show ?thesis using ok x by (simp add: request_step_def)
next
  case (Inr p)
  let ?i = "rq_intent rq" and ?t = "rq_target rq" and ?k = "(ee_now (rq_env rq), rq_args rq, rq_target rq)"
  obtain r1 s1 where p: "p = (r1, s1)" by fastforce
  have step: "request_step rq s = s1" using Inr p by (simp add: request_step_def)
  from intent_transition_result [OF Inr [unfolded p]] obtain r q where r: "get_intent ?i s = Inr r"
    and cases: "s1 = s \<or> (order_intents s1 = update_where (\<lambda>x. oi_id x = ?i) (move_intent (ee_now (rq_env rq)) (rq_args rq) ?t) (order_intents s)
        \<and> risk_reservations s1 = (if ?t \<in> set TERMINAL_STATES
            then update_where (\<lambda>x. rr_intent x = ?i \<and> rr_state x = ''active'')
                   (release_reservation (ee_now (rq_env rq)) (state_value ?t)) (risk_reservations s)
            else risk_reservations s))" by blast
  show ?thesis
  proof (cases "s1 = s")
    case True
    then show ?thesis using ok x step by simp
  next
    case False
    then have rows: "order_intents s1 = update_where (\<lambda>x. oi_id x = ?i) (move_intent (ee_now (rq_env rq)) (rq_args rq) ?t) (order_intents s)"
      and res: "risk_reservations s1 = (if ?t \<in> set TERMINAL_STATES
            then update_where (\<lambda>x. rr_intent x = ?i \<and> rr_state x = ''active'')
                   (release_reservation (ee_now (rq_env rq)) (state_value ?t)) (risk_reservations s)
            else risk_reservations s)" using cases by auto
    have same: "get_intent ?i s1 = Inr (move_intent (ee_now (rq_env rq)) (rq_args rq) ?t r)"
      using r intents.fetch_same [of ?i ?k "order_intents s"] by (simp add: get_intent_Inr rows)
    have other: "get_intent j s1 = get_intent j s" if "j \<noteq> ?i" for j
      using intents.fetch_other [OF that, of ?k "order_intents s"] by (simp add: get_intent_def rows)
    show ?thesis
    proof (cases "x \<in> set (risk_reservations s) \<and> (?t \<in> set TERMINAL_STATES \<longrightarrow> \<not> (rr_intent x = ?i \<and> rr_state x = ''active''))")
      case True
      then have "reservation_ok s x" using ok by simp
      then show ?thesis using True same other [of "rr_intent x"] unfolding step
        by (cases "rr_intent x = ?i") (auto simp: reservation_ok_def)
    next
      case False
      then obtain x0 where "x = release_reservation (ee_now (rq_env rq)) (state_value ?t) x0"
        using x by (auto simp: step res dest!: set_update_where split: if_splits)
      then show ?thesis by (simp add: reservation_ok_def)
    qed
  qed
qed

section \<open>Properties\<close>

text \<open>the durable store refines the abstract state machine. After any sequence of transition requests, on
  any intents and with failures in between, the new events of an intent are a run of the allowed
  transitions from its old state to its new one: each event starts where the one before ended, the
  transition counters are consecutive, and the row stores the last state and the last counter.\<close>

theorem intent_log_refines_machine:
  assumes "get_intent i s = Inr r" and "oi_state r = state_value q"
  shows "\<exists>r' ts new. get_intent i (run_requests rqs s) = Inr r' \<and> guarded_run order_allowed q ts
    \<and> oi_state r' = state_value (last (q # ts)) \<and> oi_counter r' = oi_counter r + int (length ts)
    \<and> intent_events i (run_requests rqs s) = intent_events i s @ new \<and> event_chain q (oi_counter r) ts new"
  using assms unfolding run_requests_def
proof (induction rqs arbitrary: s r q)
  case Nil
  then show ?case by (intro exI [of _ r] exI [of _ "[]"]) simp
next
  case (Cons rq rqs)
  from request_simulates [OF Cons.prems, of rq] obtain r1 ts new where
    1: "get_intent i (request_step rq s) = Inr r1" "guarded_run order_allowed q ts"
      "oi_state r1 = state_value (last (q # ts))" "oi_counter r1 = oi_counter r + int (length ts)"
      "intent_events i (request_step rq s) = intent_events i s @ new" "event_chain q (oi_counter r) ts new"
    by blast
  from Cons.IH [OF 1(1,3)] obtain r2 us new2 where
    2: "get_intent i (fold request_step rqs (request_step rq s)) = Inr r2" "guarded_run order_allowed (last (q # ts)) us"
      "oi_state r2 = state_value (last (last (q # ts) # us))" "oi_counter r2 = oi_counter r1 + int (length us)"
      "intent_events i (fold request_step rqs (request_step rq s)) = intent_events i (request_step rq s) @ new2"
      "event_chain (last (q # ts)) (oi_counter r1) us new2" by blast
  have "last (q # ts @ us) = last (last (q # ts) # us)" by (cases us rule: rev_cases) auto
  then show ?case using 1 2 guarded_run_append [OF 1(2) 2(2)] event_chain_append [OF 1(6), of us new2]
    by (intro exI [of _ r2] exI [of _ "ts @ us"] exI [of _ "new @ new2"]) simp
qed

text \<open>no terminal order holds risk. If every active reservation belongs to an intent that is not terminal and
  every released one holds nothing, the same is true after any sequence of transition requests.\<close>

theorem terminal_orders_hold_no_risk:
  assumes "\<forall>x\<in>set (risk_reservations s). reservation_ok s x"
  shows "\<forall>x\<in>set (risk_reservations (run_requests rqs s)). reservation_ok (run_requests rqs s) x"
  using assms unfolding run_requests_def
proof (induction rqs arbitrary: s)
  case (Cons rq rqs)
  have "\<forall>x\<in>set (risk_reservations (request_step rq s)). reservation_ok (request_step rq s) x"
    using reservation_ok_step [OF Cons.prems] by blast
  then show ?case using Cons.IH by simp
qed simp

text \<open>A store with one reserved intent, and the requests of a submission that is rejected.\<close>

definition sample_store :: "unit durable_store" where
  "sample_store = \<lparr>order_intents = [\<lparr>oi_id = ''i1'', oi_approval = Some ''a1'', oi_state = ''reserved'', oi_broker_order = None,
       oi_first_submission = None, oi_terminal_at = None, oi_error = None, oi_summary = None, oi_attempts = 0,
       oi_counter = 1, oi_broker_invoked = 0, oi_updated = ''t0'', oi_data = Map.empty\<rparr>],
     order_events = [], orders = [\<lparr>or_id = ''i1'', or_client = ''c1'', or_proposal = PyStr ''p1'', or_data = Map.empty, or_broker_order = None, or_status = ''reserved'', or_updated = ''t0''\<rparr>],
     risk_reservations = [\<lparr>rr_intent = ''i1'', rr_active_notional = ''90'', rr_active_risk = ''4'', rr_state = ''active'',
       rr_released_at = None, rr_reason = None, rr_updated = ''t0'', rr_version = 0, rr_data = Map.empty\<rparr>], milestones = ()\<rparr>"

definition sample_request :: "string \<Rightarrow> order_state \<Rightarrow> unit request" where
  "sample_request tag target = \<lparr>rq_env = \<lparr>ee_now = tag, ee_fresh = tag, ee_milestone_terminal = (\<lambda>_ _ _ m. Inr m)\<rparr>,
     rq_intent = ''i1'', rq_target = target,
     rq_args = \<lparr>ta_event_type = ''test'', ta_broker_order = None, ta_error = None, ta_summary = None, ta_expected = None\<rparr>\<rparr>"

definition sample_requests :: "unit request list" where
  "sample_requests = [sample_request ''t1'' FILLED, sample_request ''t2'' SUBMITTING, sample_request ''t3'' REJECTED]"

theorem intent_log_refines_machine_witness:
  "\<exists>ts new. guarded_run order_allowed RESERVED ts \<and> intent_events ''i1'' (run_requests sample_requests sample_store) = new
    \<and> event_chain RESERVED 1 ts new \<and> length new = 2"
proof -
  let ?r = "hd (order_intents sample_store)"
  have r: "get_intent ''i1'' sample_store = Inr ?r" "oi_state ?r = state_value RESERVED" "oi_counter ?r = 1"
    by (simp_all add: sample_store_def get_intent_def fetch_one_def)
  have none: "intent_events ''i1'' sample_store = []" by (simp add: sample_store_def intent_events_def)
  have two: "length (intent_events ''i1'' (run_requests sample_requests sample_store)) = 2" by code_simp
  from intent_log_refines_machine [OF r(1,2), of sample_requests] none two r(3) show ?thesis by fastforce
qed

theorem terminal_orders_hold_no_risk_witness:
  "list_all (reservation_ok (run_requests sample_requests sample_store)) (risk_reservations (run_requests sample_requests sample_store))
   \<and> map rr_state (risk_reservations (run_requests sample_requests sample_store)) = [''released'']"
proof
  have "\<forall>x\<in>set (risk_reservations sample_store). reservation_ok sample_store x" by code_simp
  from terminal_orders_hold_no_risk [OF this, of sample_requests]
  show "list_all (reservation_ok (run_requests sample_requests sample_store)) (risk_reservations (run_requests sample_requests sample_store))"
    by (simp add: list_all_iff)
qed code_simp

end
