(* ===== verification/Approval_Workflow.thy ===== *)
theory Approval_Workflow
  imports Intent_Store
begin

text \<open>
  \<open>app/approval_workflow.py\<close>: the durable workflow of an approval. The tables \<open>approval_workflows\<close>,
  \<open>approvals\<close>, \<open>telegram_updates\<close> and \<open>audit_events\<close> extend the durable store of \<open>Intent_Store\<close>; every
  method of \<open>ApprovalWorkflowStore\<close> but \<open>ensure_intent\<close> and \<open>recover\<close> is one immediate transaction followed
  by an audit row. Timestamps are ISO texts and are compared as texts, as SQLite does. The clock, the
  fresh UUIDs, and the display envelope of a proposal (\<open>app/approval_display.py\<close>) with its JSON text and
  fingerprint (\<open>app/approval_authority.py\<close>) are arguments.
\<close>

section \<open>States\<close>

datatype workflow_state =
    RECEIVED | AUTHORIZED | TARGET_RESOLVED | VALIDATING | BLOCKED | APPROVED_PENDING_INTENT
  | INTENT_CREATED | SUBMISSION_PENDING | SUBMISSION_STARTED | SUBMITTED_WF | UNKNOWN_WF | TERMINAL
  | MANUAL_REVIEW

fun workflow_value :: "workflow_state \<Rightarrow> string" where
  "workflow_value RECEIVED = ''received''"
| "workflow_value AUTHORIZED = ''authorized''"
| "workflow_value TARGET_RESOLVED = ''target_resolved''"
| "workflow_value VALIDATING = ''validating''"
| "workflow_value BLOCKED = ''blocked''"
| "workflow_value APPROVED_PENDING_INTENT = ''approved_pending_intent''"
| "workflow_value INTENT_CREATED = ''intent_created''"
| "workflow_value SUBMISSION_PENDING = ''submission_pending''"
| "workflow_value SUBMISSION_STARTED = ''submission_started''"
| "workflow_value SUBMITTED_WF = ''submitted''"
| "workflow_value UNKNOWN_WF = ''unknown''"
| "workflow_value TERMINAL = ''terminal''"
| "workflow_value MANUAL_REVIEW = ''manual_review''"

definition TERMINAL_WORKFLOW_STATES :: "workflow_state list" where
  "TERMINAL_WORKFLOW_STATES = [BLOCKED, TERMINAL, MANUAL_REVIEW]"

definition RECOVERABLE_WORKFLOW_STATES :: "workflow_state list" where
  "RECOVERABLE_WORKFLOW_STATES = [RECEIVED, AUTHORIZED, TARGET_RESOLVED, VALIDATING,
     APPROVED_PENDING_INTENT, INTENT_CREATED, SUBMISSION_PENDING, SUBMISSION_STARTED, SUBMITTED_WF, UNKNOWN_WF]"

fun ALLOWED_WORKFLOW_TRANSITIONS :: "workflow_state \<Rightarrow> workflow_state list" where
  "ALLOWED_WORKFLOW_TRANSITIONS RECEIVED = [AUTHORIZED, BLOCKED, TERMINAL, MANUAL_REVIEW]"
| "ALLOWED_WORKFLOW_TRANSITIONS AUTHORIZED = [TARGET_RESOLVED, BLOCKED, TERMINAL, MANUAL_REVIEW]"
| "ALLOWED_WORKFLOW_TRANSITIONS TARGET_RESOLVED = [VALIDATING, BLOCKED, TERMINAL, MANUAL_REVIEW]"
| "ALLOWED_WORKFLOW_TRANSITIONS VALIDATING = [APPROVED_PENDING_INTENT, BLOCKED, TERMINAL, MANUAL_REVIEW]"
| "ALLOWED_WORKFLOW_TRANSITIONS APPROVED_PENDING_INTENT = [INTENT_CREATED, BLOCKED, TERMINAL, MANUAL_REVIEW]"
| "ALLOWED_WORKFLOW_TRANSITIONS INTENT_CREATED = [SUBMISSION_PENDING, SUBMISSION_STARTED, TERMINAL,
     UNKNOWN_WF, MANUAL_REVIEW]"
| "ALLOWED_WORKFLOW_TRANSITIONS SUBMISSION_PENDING = [SUBMISSION_STARTED, BLOCKED, TERMINAL, UNKNOWN_WF,
     MANUAL_REVIEW]"
| "ALLOWED_WORKFLOW_TRANSITIONS SUBMISSION_STARTED = [SUBMISSION_PENDING, SUBMITTED_WF, UNKNOWN_WF, TERMINAL,
     MANUAL_REVIEW]"
| "ALLOWED_WORKFLOW_TRANSITIONS SUBMITTED_WF = [UNKNOWN_WF, TERMINAL, MANUAL_REVIEW]"
| "ALLOWED_WORKFLOW_TRANSITIONS UNKNOWN_WF = [SUBMITTED_WF, TERMINAL, MANUAL_REVIEW]"
| "ALLOWED_WORKFLOW_TRANSITIONS BLOCKED = []"
| "ALLOWED_WORKFLOW_TRANSITIONS TERMINAL = []"
| "ALLOWED_WORKFLOW_TRANSITIONS MANUAL_REVIEW = []"

definition workflow_allowed :: "workflow_state \<Rightarrow> workflow_state \<Rightarrow> bool" where
  "workflow_allowed s t \<longleftrightarrow> t \<in> set (ALLOWED_WORKFLOW_TRANSITIONS s)"

definition workflow_final :: "workflow_state \<Rightarrow> bool" where
  "workflow_final s \<longleftrightarrow> s \<in> set TERMINAL_WORKFLOW_STATES"

section \<open>Tables\<close>

record workflow =
  wf_id :: string
  wf_approval :: string
  wf_proposal :: string
  wf_telegram_update :: "int option"
  wf_key :: "string option"
  wf_state :: workflow_state
  wf_intent :: "string option"
  wf_validation :: "string option"
  wf_detail :: "string option"
  wf_owner :: "string option"
  wf_until :: "string option"
  wf_attempts :: int
  wf_error :: "string option"
  wf_update_processed :: "string option"
  wf_created :: string
  wf_updated :: string
  wf_terminal_at :: "string option"
  wf_version :: int

record approval =
  ap_id :: string
  ap_run :: "string option"
  ap_proposal :: string
  ap_sender :: string
  ap_raw_message :: string
  ap_action :: string
  ap_status :: string
  ap_created :: string
  ap_reply_to :: "string option"
  ap_targeting :: "string option"
  ap_acknowledgement :: string
  ap_received :: string
  ap_envelope_json :: string
  ap_fingerprint :: "string option"
  ap_display_id :: pyval
  ap_displayed_fingerprint :: pyval
  ap_source_type :: string
  ap_execution_path :: string
  ap_envelope :: pydict

record telegram_update =
  tu_id :: int
  tu_state :: string
  tu_processed_at :: "string option"
  tu_approval :: "string option"

record audit_event =
  au_type :: string
  au_workflow :: string
  au_target :: "(string \<times> string) option"
  au_detail :: "(string \<times> pyval) list"

record 'm approval_store = "'m durable_store" +
  workflows :: "workflow list"
  approvals :: "approval list"
  telegram_updates :: "telegram_update list"
  audit_events :: "audit_event list"

definition stable_key :: "string \<Rightarrow> string" where
  "stable_key approval_id = ''approval:'' @ approval_id"

definition get_workflow :: "string \<Rightarrow> ('m, 'z) approval_store_scheme \<Rightarrow> workflow res" where
  "get_workflow i s = (case fetch_one (\<lambda>w. wf_id w = i) (workflows s) of
     None \<Rightarrow> Inl (LookupError (''approval workflow not found: '' @ i)) | Some w \<Rightarrow> Inr w)"

definition get_by_approval :: "string \<Rightarrow> ('m, 'z) approval_store_scheme \<Rightarrow> workflow option" where
  "get_by_approval a s = fetch_one (\<lambda>w. wf_approval w = a) (workflows s)"

definition opt_str :: "string option \<Rightarrow> pyval" where
  "opt_str v = (case v of None \<Rightarrow> PyNone | Some t \<Rightarrow> PyStr t)"

definition audit :: "string \<Rightarrow> string \<Rightarrow> (string \<times> pyval) list \<Rightarrow> ('m, 'z) approval_store_scheme \<Rightarrow> ('m, 'z) approval_store_scheme" where
  "audit ty i detail s = s\<lparr>audit_events := audit_events s @ [\<lparr>au_type = ty, au_workflow = i,
     au_target = map_option (\<lambda>w. (wf_approval w, wf_proposal w)) (fetch_one (\<lambda>w. wf_id w = i) (workflows s)),
     au_detail = detail\<rparr>]\<rparr>"

section \<open>Creating a workflow\<close>

text \<open>
  The checks both ways of creation share: the workflow to return instead of a new one, if any. A second
  active workflow of a proposal is a conflict.
\<close>

definition admit :: "string \<Rightarrow> string \<Rightarrow> int option \<Rightarrow> ('m, 'z) approval_store_scheme \<Rightarrow> workflow option res" where
  "admit approval_id proposal_id update s =
     (case fetch_one (\<lambda>w. wf_approval w = approval_id \<or> wf_key w = Some (stable_key approval_id)) (workflows s) of
        Some w \<Rightarrow> if wf_proposal w \<noteq> proposal_id
          then Inl (ApprovalWorkflowConflict ''stable approval identity targets a different proposal'')
          else Inr (Some w)
      | None \<Rightarrow>
          (case (case update of None \<Rightarrow> None
                 | Some u \<Rightarrow> fetch_one (\<lambda>w. wf_telegram_update w = Some u) (workflows s)) of
             Some w \<Rightarrow> Inr (Some w)
           | None \<Rightarrow> if list_ex (\<lambda>w. wf_proposal w = proposal_id \<and> \<not> workflow_final (wf_state w)) (workflows s)
               then Inl (ApprovalWorkflowConflict ''proposal already has an active executable workflow'')
               else Inr None))"

definition new_workflow :: "string \<Rightarrow> string \<Rightarrow> string \<Rightarrow> string \<Rightarrow> int option \<Rightarrow> workflow_state \<Rightarrow> workflow" where
  "new_workflow now i approval_id proposal_id update state = \<lparr>wf_id = i, wf_approval = approval_id,
     wf_proposal = proposal_id, wf_telegram_update = update, wf_key = Some (stable_key approval_id), wf_state = state,
     wf_intent = None, wf_validation = None, wf_detail = None, wf_owner = None, wf_until = None, wf_attempts = 0,
     wf_error = None, wf_update_processed = None, wf_created = now, wf_updated = now, wf_terminal_at = None,
     wf_version = 0\<rparr>"

text \<open>The unique columns of the table: id, approval, update and logical key.\<close>

definition workflow_clash :: "workflow \<Rightarrow> workflow \<Rightarrow> bool" where
  "workflow_clash v w \<longleftrightarrow> wf_id v = wf_id w \<or> wf_approval v = wf_approval w
     \<or> (wf_telegram_update v \<noteq> None \<and> wf_telegram_update v = wf_telegram_update w)
     \<or> (wf_key v \<noteq> None \<and> wf_key v = wf_key w)"

definition insert_workflow :: "workflow \<Rightarrow> ('m, 'z) approval_store_scheme \<Rightarrow> ('m, 'z) approval_store_scheme res" where
  "insert_workflow w s = (if list_ex (\<lambda>v. workflow_clash v w) (workflows s)
     then Inl (IntegrityError ''UNIQUE constraint failed: approval_workflows'')
     else Inr (s\<lparr>workflows := workflows s @ [w]\<rparr>))"

definition create_or_get ::
  "string \<Rightarrow> string \<Rightarrow> string \<Rightarrow> string \<Rightarrow> int option \<Rightarrow> workflow_state \<Rightarrow> ('m, 'z) approval_store_scheme
    \<Rightarrow> (workflow \<times> ('m, 'z) approval_store_scheme) res" where
  "create_or_get now fresh approval_id proposal_id update initial_state s =
     rbind (admit approval_id proposal_id update s) (\<lambda>found. case found of
       Some w \<Rightarrow> Inr (w, s)
     | None \<Rightarrow> let w = new_workflow now fresh approval_id proposal_id update initial_state in
         rbind (insert_workflow w s) (\<lambda>s'.
           Inr (w, audit ''approval_workflow_created'' fresh [(''state'', PyStr (workflow_value initial_state))] s')))"

section \<open>Accepting an approval\<close>

record acceptance =
  ac_approval_id :: string
  ac_run_id :: "string option"
  ac_proposal_id :: string
  ac_sender_id :: string
  ac_raw_message :: string
  ac_parsed_action :: string
  ac_telegram_update :: "int option"
  ac_reply_to :: "string option"
  ac_targeting :: "string option"
  ac_acknowledgement :: string
  ac_received_at :: string

record display_env =
  de_load_display :: "string \<Rightarrow> string option \<Rightarrow> (pydict \<times> pydict) res"
  de_canonical_json :: "pydict \<Rightarrow> string"
  de_fingerprint :: "pydict \<Rightarrow> string"

text \<open>
  The columns that are copied from the envelope (request basis, emergency trigger, rotation step,
  eligibility) are kept as the envelope itself.
\<close>

definition accepted_row :: "display_env \<Rightarrow> string \<Rightarrow> acceptance \<Rightarrow> pydict \<Rightarrow> pydict \<Rightarrow> approval" where
  "accepted_row env now a display envelope = \<lparr>ap_id = ac_approval_id a, ap_run = ac_run_id a,
     ap_proposal = ac_proposal_id a, ap_sender = ac_sender_id a, ap_raw_message = ac_raw_message a,
     ap_action = ac_parsed_action a, ap_status = ''accepted'', ap_created = now, ap_reply_to = ac_reply_to a,
     ap_targeting = ac_targeting a, ap_acknowledgement = ac_acknowledgement a, ap_received = ac_received_at a,
     ap_envelope_json = de_canonical_json env envelope, ap_fingerprint = Some (de_fingerprint env envelope),
     ap_display_id = dget display ''id'', ap_displayed_fingerprint = dget display ''displayed_fingerprint'',
     ap_source_type = py_str (py_or (dget envelope ''approval_source_type'') (PyStr ''proposal'')),
     ap_execution_path = py_str (py_or (dget envelope ''execution_path'') (PyStr ''manual_paper_order'')),
     ap_envelope = envelope\<rparr>"

definition insert_approval :: "approval \<Rightarrow> ('m, 'z) approval_store_scheme \<Rightarrow> ('m, 'z) approval_store_scheme res" where
  "insert_approval p s = (if list_ex (\<lambda>q. ap_id q = ap_id p \<or> (ap_proposal q = ap_proposal p \<and> ap_status q = ap_status p)) (approvals s)
     then Inl (IntegrityError ''UNIQUE constraint failed: approvals'')
     else Inr (s\<lparr>approvals := approvals s @ [p]\<rparr>))"

definition accept_approval ::
  "display_env \<Rightarrow> string \<Rightarrow> string \<Rightarrow> acceptance \<Rightarrow> ('m, 'z) approval_store_scheme
    \<Rightarrow> (workflow \<times> ('m, 'z) approval_store_scheme) res" where
  "accept_approval env now fresh a s =
     rbind (admit (ac_approval_id a) (ac_proposal_id a) (ac_telegram_update a) s) (\<lambda>found. case found of
       Some w \<Rightarrow> Inr (w, s)
     | None \<Rightarrow>
         rbind (de_load_display env (ac_proposal_id a) (ac_reply_to a)) (\<lambda>de.
         rbind (insert_approval (accepted_row env now a (fst de) (snd de)) s) (\<lambda>s1.
         let w = new_workflow now fresh (ac_approval_id a) (ac_proposal_id a) (ac_telegram_update a) TARGET_RESOLVED in
         rbind (insert_workflow w s1) (\<lambda>s2.
           Inr (w, audit ''approval_workflow_accepted'' fresh [(''state'', PyStr ''target_resolved'')] s2)))))"

section \<open>Transition, lease, release\<close>

record workflow_args =
  wa_expected_state :: "workflow_state option"
  wa_expected_version :: "int option"
  wa_owner :: "string option"
  wa_intent :: "string option"
  wa_validation :: "string option"
  wa_detail :: "string option"

definition check_workflow :: "workflow \<Rightarrow> workflow_state \<Rightarrow> workflow_args \<Rightarrow> unit res" where
  "check_workflow w target a =
     (if \<not> guarded_step workflow_allowed (wf_state w) target
      then Inl (ApprovalWorkflowConflict (''invalid approval workflow transition: '' @ workflow_value (wf_state w)
             @ '' -> '' @ workflow_value target))
      else if wa_expected_state a \<noteq> None \<and> wa_expected_state a \<noteq> Some (wf_state w)
      then Inl (ApprovalWorkflowConflict ''workflow state changed before transition'')
      else if wa_expected_version a \<noteq> None \<and> wa_expected_version a \<noteq> Some (wf_version w)
      then Inl (ApprovalWorkflowConflict ''workflow version changed before transition'')
      else if wa_owner a \<noteq> None \<and> wf_owner w \<noteq> wa_owner a
      then Inl (ApprovalWorkflowConflict ''workflow recovery ownership was lost'')
      else Inr ())"

definition move_workflow :: "string \<Rightarrow> workflow_state \<Rightarrow> workflow_args \<Rightarrow> workflow \<Rightarrow> workflow" where
  "move_workflow now target a w = w\<lparr>wf_state := target, wf_intent := coalesce (wa_intent a) (wf_intent w),
     wf_validation := coalesce (wa_validation a) (wf_validation w), wf_detail := coalesce (wa_detail a) (wf_detail w),
     wf_terminal_at := (if target \<in> set TERMINAL_WORKFLOW_STATES then Some now else wf_terminal_at w),
     wf_updated := now, wf_version := wf_version w + 1\<rparr>"

definition workflow_transition ::
  "string \<Rightarrow> string \<Rightarrow> workflow_state \<Rightarrow> workflow_args \<Rightarrow> ('m, 'z) approval_store_scheme
    \<Rightarrow> (workflow \<times> ('m, 'z) approval_store_scheme) res" where
  "workflow_transition now i target a s =
     rbind (get_workflow i s) (\<lambda>w.
     rbind (check_workflow w target a) (\<lambda>_.
       let here = (\<lambda>v. wf_id v = i \<and> wf_version v = wf_version w) in
       if count_where here (workflows s) \<noteq> 1
       then Inl (ApprovalWorkflowConflict ''workflow compare-and-swap lost'')
       else let s' = s\<lparr>workflows := update_where here (move_workflow now target a) (workflows s)\<rparr> in
         rbind (get_workflow i s') (\<lambda>w'.
           Inr (w', audit ''approval_workflow_transition'' i [(''from'', PyStr (workflow_value (wf_state w))),
             (''to'', PyStr (workflow_value target)), (''intent_id'', opt_str (wa_intent a))] s'))))"

definition claimable :: "string \<Rightarrow> string \<Rightarrow> workflow \<Rightarrow> bool" where
  "claimable now owner w \<longleftrightarrow> wf_owner w = Some owner \<or> (case wf_until w of None \<Rightarrow> True | Some u \<Rightarrow> u \<le> now)"

definition lease_workflow :: "string \<Rightarrow> string \<Rightarrow> string \<Rightarrow> workflow \<Rightarrow> workflow" where
  "lease_workflow now until owner w = w\<lparr>wf_owner := Some owner, wf_until := Some until,
     wf_attempts := wf_attempts w + 1, wf_updated := now, wf_version := wf_version w + 1\<rparr>"

text \<open>\<open>until now seconds\<close> is the text of the moment \<open>seconds\<close> after \<open>now\<close>.\<close>

definition claim_next ::
  "(string \<Rightarrow> int \<Rightarrow> string) \<Rightarrow> string \<Rightarrow> string \<Rightarrow> int \<Rightarrow> ('m, 'z) approval_store_scheme
    \<Rightarrow> (workflow option \<times> ('m, 'z) approval_store_scheme) res" where
  "claim_next until now owner lease_seconds s =
     (case sort_key wf_updated (sort_key wf_id (filter (\<lambda>w. wf_state w \<in> set RECOVERABLE_WORKFLOW_STATES
          \<and> claimable now owner w) (workflows s))) of
        [] \<Rightarrow> Inr (None, s)
      | w # _ \<Rightarrow>
          let here = (\<lambda>v. wf_id v = wf_id w \<and> wf_version v = wf_version w \<and> claimable now owner v) in
          if count_where here (workflows s) \<noteq> 1 then Inr (None, s)
          else let s' = s\<lparr>workflows := update_where here (lease_workflow now (until now (max 1 lease_seconds)) owner) (workflows s)\<rparr> in
            rbind (get_workflow (wf_id w) s') (\<lambda>w'.
              Inr (Some w', audit ''approval_workflow_recovery_claimed'' (wf_id w') [(''owner'', PyStr owner)] s')))"

definition unlease_workflow :: "string \<Rightarrow> string option \<Rightarrow> workflow \<Rightarrow> workflow" where
  "unlease_workflow now err w = w\<lparr>wf_owner := None, wf_until := None, wf_error := coalesce err (wf_error w),
     wf_updated := now, wf_version := wf_version w + 1\<rparr>"

definition release_claim ::
  "string \<Rightarrow> string \<Rightarrow> string \<Rightarrow> string option \<Rightarrow> ('m, 'z) approval_store_scheme \<Rightarrow> (unit \<times> ('m, 'z) approval_store_scheme) res" where
  "release_claim now i owner err s =
     (let here = (\<lambda>v. wf_id v = i \<and> wf_owner v = Some owner) in
      if count_where here (workflows s) \<noteq> 1
      then Inl (ApprovalWorkflowConflict ''workflow recovery ownership was lost'')
      else Inr ((), audit ''approval_workflow_recovery_released'' i [(''retryable_error'', opt_str err)]
             (s\<lparr>workflows := update_where here (unlease_workflow now err) (workflows s)\<rparr>)))"

section \<open>The inbox\<close>

definition represented :: "workflow \<Rightarrow> bool" where
  "represented w \<longleftrightarrow> (wf_intent w \<noteq> None \<and> wf_intent w \<noteq> Some [])
     \<or> wf_state w \<in> set [BLOCKED, UNKNOWN_WF, TERMINAL, MANUAL_REVIEW]"

definition process_workflow :: "string \<Rightarrow> workflow \<Rightarrow> workflow" where
  "process_workflow now w = w\<lparr>wf_update_processed := Some now, wf_updated := now, wf_version := wf_version w + 1\<rparr>"

definition mark_update_processed ::
  "string \<Rightarrow> string \<Rightarrow> ('m, 'z) approval_store_scheme \<Rightarrow> (unit \<times> ('m, 'z) approval_store_scheme) res" where
  "mark_update_processed now i s =
     rbind (get_workflow i s) (\<lambda>w.
       if \<not> represented w then Inl (ApprovalWorkflowConflict ''business operation is not durably represented'')
       else let s1 = (case wf_telegram_update w of None \<Rightarrow> s
              | Some u \<Rightarrow> s\<lparr>telegram_updates := update_where (\<lambda>x. tu_id x = u) (\<lambda>x. x\<lparr>tu_state := ''processed'',
                    tu_processed_at := Some now, tu_approval := Some (wf_approval w)\<rparr>) (telegram_updates s)\<rparr>)
         in Inr ((), audit ''approval_workflow_update_processed'' i []
              (s1\<lparr>workflows := update_where (\<lambda>v. wf_id v = i) (process_workflow now) (workflows s1)\<rparr>)))"

section \<open>What an operation may do to the table\<close>

definition wf_identity :: "workflow \<Rightarrow> string \<times> string \<times> string \<times> int option \<times> string option \<times> string" where
  "wf_identity w = (wf_id w, wf_approval w, wf_proposal w, wf_telegram_update w, wf_key w, wf_created w)"

text \<open>A row changes only along allowed transitions, and every change raises its version.\<close>

definition wf_evolves :: "workflow \<Rightarrow> workflow \<Rightarrow> bool" where
  "wf_evolves w w' \<longleftrightarrow> wf_identity w' = wf_identity w \<and> (w' = w \<or> wf_version w < wf_version w')
     \<and> workflow_allowed\<^sup>*\<^sup>* (wf_state w) (wf_state w')"

definition evolves :: "('m, 'z) approval_store_scheme \<Rightarrow> ('m, 'z) approval_store_scheme \<Rightarrow> bool" where
  "evolves s s' \<longleftrightarrow> (\<exists>ws vs. workflows s' = ws @ vs \<and> list_all2 wf_evolves (workflows s) ws)"

definition active_wf :: "string \<Rightarrow> workflow \<Rightarrow> bool" where
  "active_wf p w \<longleftrightarrow> wf_proposal w = p \<and> \<not> workflow_final (wf_state w)"

definition workflows_ok :: "workflow list \<Rightarrow> bool" where
  "workflows_ok ws \<longleftrightarrow> distinct (map wf_id ws) \<and> distinct (map wf_approval ws) \<and> (\<forall>p. count_where (active_wf p) ws \<le> 1)"

definition sound_step :: "('m, 'z) approval_store_scheme \<Rightarrow> ('m, 'z) approval_store_scheme \<Rightarrow> bool" where
  "sound_step s s' \<longleftrightarrow> evolves s s' \<and> (workflows_ok (workflows s) \<longrightarrow> workflows_ok (workflows s'))"

lemma wf_evolves_refl [simp]: "wf_evolves w w"
  by (simp add: wf_evolves_def)

lemma wf_evolves_trans: "wf_evolves u v \<Longrightarrow> wf_evolves v w \<Longrightarrow> wf_evolves u w"
  by (auto simp: wf_evolves_def)

lemma list_all2_evolves_refl [simp]: "list_all2 wf_evolves ws ws"
  by (simp add: list.rel_refl)

lemma evolves_refl: "evolves s s"
  unfolding evolves_def by (intro exI [of _ "workflows s"] exI [of _ "[]"]) simp

lemma evolves_trans:
  assumes "evolves s t" and "evolves t u"
  shows "evolves s u"
proof -
  obtain ws vs where 1: "workflows t = ws @ vs" "list_all2 wf_evolves (workflows s) ws" using assms(1) by (auto simp: evolves_def)
  obtain xs ys where 2: "workflows u = xs @ ys" "list_all2 wf_evolves (workflows t) xs" using assms(2) by (auto simp: evolves_def)
  from 2(2) obtain x1 x2 where 3: "xs = x1 @ x2" "list_all2 wf_evolves ws x1" by (auto simp: 1(1) list_all2_append1)
  have "list_all2 wf_evolves (workflows s) x1" using list_all2_trans [OF wf_evolves_trans 1(2) 3(2)] by simp
  then show ?thesis using 2 3 by (auto simp: evolves_def)
qed

lemma evolves_update:
  assumes "workflows s' = update_where p f (workflows s)" and "\<And>w. w \<in> set (workflows s) \<Longrightarrow> p w \<Longrightarrow> wf_evolves w (f w)"
  shows "evolves s s'"
proof -
  have "list_all2 wf_evolves ws (update_where p f ws)" if "\<And>w. w \<in> set ws \<Longrightarrow> p w \<Longrightarrow> wf_evolves w (f w)" for ws
    using that by (induction ws) auto
  then show ?thesis using assms unfolding evolves_def
    by (intro exI [of _ "update_where p f (workflows s)"] exI [of _ "[]"]) simp
qed

lemma evolves_append: "workflows s' = workflows s @ [w] \<Longrightarrow> evolves s s'"
  unfolding evolves_def by (intro exI [of _ "workflows s"] exI [of _ "[w]"]) simp

lemma evolves_same: "workflows s' = workflows s \<Longrightarrow> evolves s s'"
  unfolding evolves_def by (intro exI [of _ "workflows s"] exI [of _ "[]"]) simp

interpretation wm: guarded_machine workflow_allowed workflow_final
  "\<lambda>s. if workflow_final s then 0 else 1"
proof
  fix s :: workflow_state
  show "\<not> workflow_allowed s t" if "workflow_final s" for t
    using that by (cases s) (simp_all add: workflow_allowed_def workflow_final_def TERMINAL_WORKFLOW_STATES_def)
  show "\<exists>t. workflow_allowed s t \<and> (if workflow_final t then 0 else 1) < (if workflow_final s then 0 else (1::nat))"
    if "\<not> workflow_final s"
    using that by (intro exI [of _ TERMINAL], cases s)
      (simp_all add: workflow_allowed_def workflow_final_def TERMINAL_WORKFLOW_STATES_def)
qed

lemma wf_evolves_final: "wf_evolves w w' \<Longrightarrow> workflow_final (wf_state w) \<Longrightarrow> wf_state w' = wf_state w"
proof -
  assume "wf_evolves w w'" and final: "workflow_final (wf_state w)"
  then have "workflow_allowed\<^sup>*\<^sup>* (wf_state w) (wf_state w')" by (simp add: wf_evolves_def)
  then show ?thesis by (cases rule: converse_rtranclpE) (simp_all add: wm.final_stuck [OF final])
qed

lemma wf_evolves_active: "wf_evolves w w' \<Longrightarrow> active_wf p w' \<Longrightarrow> active_wf p w"
proof -
  assume e: "wf_evolves w w'" and a: "active_wf p w'"
  have "wf_proposal w' = wf_proposal w" using e by (simp add: wf_evolves_def wf_identity_def)
  moreover have "\<not> workflow_final (wf_state w)"
    using wf_evolves_final [OF e] a by (cases "workflow_final (wf_state w)") (simp_all add: active_wf_def)
  ultimately show ?thesis using a by (simp add: active_wf_def)
qed

lemma evolves_ok:
  assumes "list_all2 wf_evolves ws ws'" and "workflows_ok ws"
  shows "workflows_ok ws'"
proof -
  have "map wf_id ws' = map wf_id ws \<and> map wf_approval ws' = map wf_approval ws"
    using assms(1) by (induction rule: list_all2_induct) (auto simp: wf_evolves_def wf_identity_def)
  moreover have "count_where (active_wf p) ws' \<le> count_where (active_wf p) ws" for p
    using assms(1) by (induction rule: list_all2_induct) (auto dest: wf_evolves_active)
  ultimately show ?thesis using assms(2) unfolding workflows_ok_def by (metis order_trans)
qed

lemma sound_update:
  assumes "workflows s' = update_where p f (workflows s)" and "\<And>w. w \<in> set (workflows s) \<Longrightarrow> p w \<Longrightarrow> wf_evolves w (f w)"
  shows "sound_step s s'"
proof -
  have "list_all2 wf_evolves ws (update_where p f ws)" if "\<And>w. w \<in> set ws \<Longrightarrow> p w \<Longrightarrow> wf_evolves w (f w)" for ws
    using that by (induction ws) auto
  then show ?thesis using assms evolves_ok evolves_update [OF assms] by (auto simp: sound_step_def)
qed

lemma sound_same: "workflows s' = workflows s \<Longrightarrow> sound_step s s'"
  by (simp add: sound_step_def evolves_same)


section \<open>Every operation is sound\<close>

lemma audit_workflows [simp]: "workflows (audit ty i d s) = workflows s"
  by (simp add: audit_def)

lemma guarded_step_rtranclp: "guarded_step r s t \<Longrightarrow> r\<^sup>*\<^sup>* s t"
  by (auto simp: guarded_step_def)

lemma workflow_transition_result:
  assumes "workflow_transition now i target a s = Inr (w', s')"
  shows "\<exists>w. get_workflow i s = Inr w \<and> check_workflow w target a = Inr ()
    \<and> count_where (\<lambda>v. wf_id v = i \<and> wf_version v = wf_version w) (workflows s) = 1
    \<and> workflows s' = update_where (\<lambda>v. wf_id v = i \<and> wf_version v = wf_version w) (move_workflow now target a) (workflows s)"
  using assms by (auto simp: workflow_transition_def result_simps Let_def split: if_splits)

lemma check_workflow_Inr: "check_workflow w target a = Inr u \<Longrightarrow> guarded_step workflow_allowed (wf_state w) target
    \<and> (\<forall>o'. wa_owner a = Some o' \<longrightarrow> wf_owner w = Some o')"
  by (auto simp: check_workflow_def split: if_splits)

lemma get_workflow_Inr: "get_workflow i s = Inr w \<longleftrightarrow> fetch_one (\<lambda>w. wf_id w = i) (workflows s) = Some w"
  by (auto simp: get_workflow_def split: option.splits)

lemma get_workflow_in: "get_workflow i s = Inr w \<Longrightarrow> w \<in> set (workflows s) \<and> wf_id w = i"
  by (auto simp: get_workflow_Inr dest: fetch_one_Some)

lemma count_one_unique:
  "count_where p rs = 1 \<Longrightarrow> x \<in> set rs \<Longrightarrow> p x \<Longrightarrow> y \<in> set rs \<Longrightarrow> p y \<Longrightarrow> x = y"
  by (induction rs) (auto simp: count_where_0_iff split: if_splits)

lemma move_workflow_evolves:
  "guarded_step workflow_allowed (wf_state w) target \<Longrightarrow> wf_evolves w (move_workflow now target a w)"
  by (simp add: wf_evolves_def wf_identity_def move_workflow_def guarded_step_rtranclp)

lemma transition_sound: "workflow_transition now i target a s = Inr (w', s') \<Longrightarrow> sound_step s s'"
proof -
  assume "workflow_transition now i target a s = Inr (w', s')"
  then obtain w where w: "get_workflow i s = Inr w" "check_workflow w target a = Inr ()"
    "count_where (\<lambda>v. wf_id v = i \<and> wf_version v = wf_version w) (workflows s) = 1"
    "workflows s' = update_where (\<lambda>v. wf_id v = i \<and> wf_version v = wf_version w) (move_workflow now target a) (workflows s)"
    using workflow_transition_result by blast
  show ?thesis
  proof (rule sound_update [OF w(4)])
    fix v assume "v \<in> set (workflows s)" "wf_id v = i \<and> wf_version v = wf_version w"
    then have "v = w" using count_one_unique [OF w(3)] get_workflow_in [OF w(1)] by blast
    then show "wf_evolves v (move_workflow now target a v)"
      using move_workflow_evolves check_workflow_Inr [OF w(2)] by simp
  qed
qed

lemma lease_evolves [simp]: "wf_evolves w (lease_workflow now until owner w)"
  by (simp add: wf_evolves_def wf_identity_def lease_workflow_def)

lemma unlease_evolves [simp]: "wf_evolves w (unlease_workflow now err w)"
  by (simp add: wf_evolves_def wf_identity_def unlease_workflow_def)

lemma process_evolves [simp]: "wf_evolves w (process_workflow now w)"
  by (simp add: wf_evolves_def wf_identity_def process_workflow_def)

lemma claim_next_result:
  assumes "claim_next until now owner secs s = Inr (claimed, s')"
  shows "(claimed = None \<and> s' = s) \<or> (\<exists>w w'. claimed = Some w' \<and> w \<in> set (workflows s)
    \<and> wf_state w \<in> set RECOVERABLE_WORKFLOW_STATES \<and> claimable now owner w
    \<and> get_workflow (wf_id w) s' = Inr w'
    \<and> workflows s' = update_where (\<lambda>v. wf_id v = wf_id w \<and> wf_version v = wf_version w \<and> claimable now owner v)
        (lease_workflow now (until now (max 1 secs)) owner) (workflows s))"
proof -
  let ?ws = "sort_key wf_updated (sort_key wf_id (filter (\<lambda>w. wf_state w \<in> set RECOVERABLE_WORKFLOW_STATES
          \<and> claimable now owner w) (workflows s)))"
  show ?thesis
  proof (cases ?ws)
    case Nil
    then show ?thesis using assms by (auto simp: claim_next_def)
  next
    case (Cons w ws)
    then have "w \<in> set ?ws" by simp
    then have w: "w \<in> set (workflows s)" "wf_state w \<in> set RECOVERABLE_WORKFLOW_STATES" "claimable now owner w" by auto
    show ?thesis using assms w unfolding claim_next_def Cons list.case
      by (auto simp: result_simps Let_def get_workflow_def split: if_splits)
  qed
qed

lemma claim_sound: "claim_next until now owner secs s = Inr (claimed, s') \<Longrightarrow> sound_step s s'"
  by (drule claim_next_result) (auto intro: sound_same sound_update [OF _ lease_evolves])

lemma release_sound: "release_claim now i owner err s = Inr (u, s') \<Longrightarrow> sound_step s s'"
  by (rule sound_update [OF _ unlease_evolves]) (auto simp: release_claim_def Let_def split: if_splits)

lemma mark_sound: "mark_update_processed now i s = Inr (u, s') \<Longrightarrow> sound_step s s'"
  by (rule sound_update [OF _ process_evolves])
    (auto simp: mark_update_processed_def result_simps Let_def split: if_splits option.splits)

text \<open>Creation: the checks leave no active workflow of the proposal and no row with its keys.\<close>

lemma admit_None:
  assumes "admit a p u s = Inr None"
  shows "(\<forall>w\<in>set (workflows s). wf_approval w \<noteq> a \<and> \<not> active_wf p w)"
  using assms by (auto simp: admit_def active_wf_def fetch_one_None list_ex_iff split: option.splits if_splits)

lemma insert_sound:
  assumes "admit a p u s = Inr None" and "workflows s1 = workflows s"
    and "insert_workflow (new_workflow now i a p u st) s1 = Inr s'"
  shows "sound_step s s'"
proof -
  have ws: "workflows s' = workflows s @ [new_workflow now i a p u st]"
    and clash: "\<forall>v\<in>set (workflows s). \<not> workflow_clash v (new_workflow now i a p u st)"
    using assms(2,3) by (auto simp: insert_workflow_def list_ex_iff split: if_splits)
  have "workflows_ok (workflows s')" if "workflows_ok (workflows s)"
  proof -
    have "count_where (active_wf q) (workflows s') \<le> 1" for q
    proof (cases "active_wf q (new_workflow now i a p u st)")
      case True
      then have "count_where (active_wf q) (workflows s) = 0"
        using admit_None [OF assms(1)] by (auto simp: count_where_0_iff active_wf_def new_workflow_def)
      then show ?thesis using True by (simp add: ws)
    next
      case False
      then show ?thesis using that by (simp add: ws workflows_ok_def)
    qed
    then show ?thesis using that clash
      by (auto simp: workflows_ok_def ws workflow_clash_def new_workflow_def)
  qed
  then show ?thesis using evolves_append [OF ws] by (simp add: sound_step_def)
qed

lemma create_sound: "create_or_get now i a p u st s = Inr (w, s') \<Longrightarrow> sound_step s s'"
proof -
  assume c: "create_or_get now i a p u st s = Inr (w, s')"
  then obtain found where f: "admit a p u s = Inr found" by (auto simp: create_or_get_def result_simps)
  show ?thesis
  proof (cases found)
    case None
    with c f obtain s1 where s1: "insert_workflow (new_workflow now i a p u st) s = Inr s1" "workflows s' = workflows s1"
      by (auto simp: create_or_get_def result_simps Let_def)
    from insert_sound [OF f [unfolded None] refl s1(1)] show ?thesis by (simp add: sound_step_def evolves_def s1(2))
  next
    case (Some x)
    then show ?thesis using c f by (auto simp: create_or_get_def intro: sound_same)
  qed
qed
lemma insert_approval_workflows: "insert_approval p s = Inr s' \<Longrightarrow> workflows s' = workflows s"
  by (auto simp: insert_approval_def split: if_splits)

lemma accept_sound: "accept_approval env now i a s = Inr (w, s') \<Longrightarrow> sound_step s s'"
proof -
  assume c: "accept_approval env now i a s = Inr (w, s')"
  then obtain found where f: "admit (ac_approval_id a) (ac_proposal_id a) (ac_telegram_update a) s = Inr found"
    by (auto simp: accept_approval_def result_simps)
  show ?thesis
  proof (cases found)
    case None
    from c obtain row s1 s2 where row: "insert_approval row s = Inr s1" and
      s2: "insert_workflow (new_workflow now i (ac_approval_id a) (ac_proposal_id a) (ac_telegram_update a) TARGET_RESOLVED) s1 = Inr s2"
        "workflows s' = workflows s2"
      by (auto simp: accept_approval_def f None result_simps Let_def)
    note s1 = insert_approval_workflows [OF row]
    from insert_sound [OF f [unfolded None] s1 s2(1)] show ?thesis by (simp add: sound_step_def evolves_def s2(2))
  next
    case (Some x)
    then show ?thesis using c f by (auto simp: accept_approval_def intro: sound_same)
  qed
qed

end
