(* ===== verification/Approval_Recovery.thy ===== *)
theory Approval_Recovery
  imports Approval_Workflow
begin

text \<open>
  \<open>ApprovalWorkflowStore.ensure_intent\<close> and \<open>ApprovalWorkflowStore.recover\<close> of
  \<open>app/approval_workflow.py\<close>: the recovery loop that claims one workflow at a time, resumes it as far as
  the durable state proves is safe, and releases the claim. Every call is a transaction of its own, so the
  loop is a sequence of actions on the recovery state: the store, the counters of \<open>RecoverySummary\<close>, the
  number of clock readings and the Python local \<open>reason\<close>, which outlives an iteration of the loop. The
  callbacks of the caller (loader, validators, submitter, lookup) are actions on the store, and so is
  \<open>create_or_get_intent\<close>; an absent callback is \<open>None\<close>.
\<close>

section \<open>State and environment\<close>

record recovery_counts =
  rn_claimed :: nat
  rn_intent_created :: nat
  rn_existing_linked :: nat
  rn_submission_pending :: nat
  rn_ambiguity :: nat
  rn_blocked :: nat
  rn_failed :: nat

definition no_counts :: recovery_counts where
  "no_counts = \<lparr>rn_claimed = 0, rn_intent_created = 0, rn_existing_linked = 0, rn_submission_pending = 0,
     rn_ambiguity = 0, rn_blocked = 0, rn_failed = 0\<rparr>"

definition inc_claimed :: "recovery_counts \<Rightarrow> recovery_counts" where
  "inc_claimed c = c\<lparr>rn_claimed := Suc (rn_claimed c)\<rparr>"

definition inc_created :: "recovery_counts \<Rightarrow> recovery_counts" where
  "inc_created c = c\<lparr>rn_intent_created := Suc (rn_intent_created c)\<rparr>"

definition inc_linked :: "recovery_counts \<Rightarrow> recovery_counts" where
  "inc_linked c = c\<lparr>rn_existing_linked := Suc (rn_existing_linked c)\<rparr>"

definition inc_pending :: "recovery_counts \<Rightarrow> recovery_counts" where
  "inc_pending c = c\<lparr>rn_submission_pending := Suc (rn_submission_pending c)\<rparr>"

definition inc_ambiguity :: "recovery_counts \<Rightarrow> recovery_counts" where
  "inc_ambiguity c = c\<lparr>rn_ambiguity := Suc (rn_ambiguity c)\<rparr>"

definition inc_blocked :: "recovery_counts \<Rightarrow> recovery_counts" where
  "inc_blocked c = c\<lparr>rn_blocked := Suc (rn_blocked c)\<rparr>"

definition inc_failed :: "recovery_counts \<Rightarrow> recovery_counts" where
  "inc_failed c = c\<lparr>rn_failed := Suc (rn_failed c)\<rparr>"

record 'm recovery =
  rc_store :: "'m approval_store"
  rc_counts :: recovery_counts
  rc_tick :: nat
  rc_reason :: "string option option"

type_synonym ('a, 'm) store_act = "('a, 'm approval_store) act"
type_synonym ('a, 'm) rec_act = "('a, 'm recovery) act"

text \<open>A validation callback returns a decision, possibly a proposal, and possibly a reason.\<close>

type_synonym 'm validation = "workflow \<Rightarrow> pydict option \<Rightarrow> (string \<times> pydict option \<times> string option, 'm) store_act"

record 'm recovery_env =
  re_owner :: string
  re_run :: "string option"
  re_loader :: "string \<Rightarrow> (pydict option, 'm) store_act"
  re_validator :: "'m validation option"
  re_action_validator :: "'m validation option"
  re_submitter :: "(workflow \<Rightarrow> order_intent \<Rightarrow> (string, 'm) store_act) option"
  re_reconciler :: "(workflow \<Rightarrow> order_intent option \<Rightarrow> (string, 'm) store_act) option"
  re_create_intent :: "pydict \<Rightarrow> string option \<Rightarrow> string \<Rightarrow> string \<Rightarrow> (order_intent, 'm) store_act"
  re_clock :: "nat \<Rightarrow> string"
  re_fresh :: "nat \<Rightarrow> string"
  re_until :: "string \<Rightarrow> int \<Rightarrow> string"
  re_milestone :: "string \<Rightarrow> string \<Rightarrow> string \<Rightarrow> 'm \<Rightarrow> 'm res"

text \<open>Lifting an action or a transaction on the store; \<open>timed\<close> also reads the clock.\<close>

definition on_store :: "('a, 'm) store_act \<Rightarrow> ('a, 'm) rec_act" where
  "on_store m s = (case m (rc_store s) of (r, d) \<Rightarrow> (r, s\<lparr>rc_store := d\<rparr>))"

definition timed :: "(nat \<Rightarrow> ('a, 'm) store_act) \<Rightarrow> ('a, 'm) rec_act" where
  "timed f s = (case f (rc_tick s) (rc_store s) of (r, d) \<Rightarrow> (r, s\<lparr>rc_store := d, rc_tick := Suc (rc_tick s)\<rparr>))"

definition tally :: "(recovery_counts \<Rightarrow> recovery_counts) \<Rightarrow> (unit, 'm) rec_act" where
  "tally f = amodify (\<lambda>s. s\<lparr>rc_counts := f (rc_counts s)\<rparr>)"

definition set_reason :: "string option \<Rightarrow> (unit, 'm) rec_act" where
  "set_reason r = amodify (\<lambda>s. s\<lparr>rc_reason := Some r\<rparr>)"

section \<open>The calls of the loop\<close>

definition no_args :: workflow_args where
  "no_args = \<lparr>wa_expected_state = None, wa_expected_version = None, wa_owner = None, wa_intent = None,
     wa_validation = None, wa_detail = None\<rparr>"

definition owned :: "'m recovery_env \<Rightarrow> string option \<Rightarrow> workflow_args" where
  "owned env detail = no_args\<lparr>wa_owner := Some (re_owner env), wa_detail := detail\<rparr>"

definition act_get :: "string \<Rightarrow> (workflow, 'm) rec_act" where
  "act_get i = on_store (areads (get_workflow i))"

definition act_move :: "'m recovery_env \<Rightarrow> string \<Rightarrow> workflow_state \<Rightarrow> workflow_args \<Rightarrow> (unit, 'm) rec_act" where
  "act_move env i target a = abind (timed (\<lambda>n. txn (workflow_transition (re_clock env n) i target a))) (\<lambda>_. areturn ())"

definition act_audit :: "string \<Rightarrow> string \<Rightarrow> (string \<times> pyval) list \<Rightarrow> (unit, 'm) rec_act" where
  "act_audit ty i detail = on_store (amodify (audit ty i detail))"

definition act_intents :: "string \<Rightarrow> (order_intent list, 'm) rec_act" where
  "act_intents a = on_store (areads (\<lambda>d. Inr (filter (\<lambda>r. oi_approval r = Some a) (order_intents d))))"

definition act_get_intent :: "string \<Rightarrow> (order_intent, 'm) rec_act" where
  "act_get_intent i = on_store (areads (get_intent i))"

definition act_intent_move ::
  "'m recovery_env \<Rightarrow> string \<Rightarrow> order_state \<Rightarrow> string \<Rightarrow> string \<Rightarrow> order_state \<Rightarrow> (unit, 'm) rec_act" where
  "act_intent_move env i target event summary expected =
     abind (timed (\<lambda>n. txn (intent_transition
         \<lparr>ee_now = re_clock env n, ee_fresh = re_fresh env n, ee_milestone_terminal = re_milestone env\<rparr> i target
         \<lparr>ta_event_type = event, ta_broker_order = None, ta_error = None, ta_summary = Some summary, ta_expected = Some expected\<rparr>)))
       (\<lambda>_. areturn ())"

text \<open>\<open>text or default\<close>\<close>

definition or_text :: "string option \<Rightarrow> string \<Rightarrow> string" where
  "or_text r d = (case r of None \<Rightarrow> d | Some t \<Rightarrow> if t = [] then d else t)"

definition pre_submission_value :: "string \<Rightarrow> bool" where
  "pre_submission_value v \<longleftrightarrow> v \<in> set [''created'', ''reserved'', ''retryable_pre_submission'']"

definition first_row :: "'a list \<Rightarrow> 'a option" where
  "first_row rs = (case rs of [] \<Rightarrow> None | r # _ \<Rightarrow> Some r)"

definition missing_intent :: "workflow \<Rightarrow> bool" where
  "missing_intent w \<longleftrightarrow> wf_intent w = None \<or> wf_intent w = Some []"

section \<open>Creating the intent\<close>

definition durable_proposal :: "workflow \<Rightarrow> pydict \<Rightarrow> approval list \<Rightarrow> pydict" where
  "durable_proposal w proposal aps =
     (let p = proposal(''proposal_id'' \<mapsto> PyStr (wf_proposal w), ''source_id'' \<mapsto> PyStr (wf_proposal w))
      in case map_option ap_fingerprint (fetch_one (\<lambda>a. ap_id a = wf_approval w \<and> ap_proposal a = wf_proposal w) aps) of
           Some (Some f) \<Rightarrow> if f = [] then p else p(''approval_authority_fingerprint'' \<mapsto> PyStr f)
         | _ \<Rightarrow> p)"

definition ensure_intent ::
  "'m recovery_env \<Rightarrow> string \<Rightarrow> pydict \<Rightarrow> string option \<Rightarrow> string \<Rightarrow> (order_intent, 'm) rec_act" where
  "ensure_intent env i proposal run source_type =
     abind (act_get i) (\<lambda>w.
       if \<not> missing_intent w then act_get_intent (case wf_intent w of None \<Rightarrow> [] | Some j \<Rightarrow> j)
       else abind (act_intents (wf_approval w)) (\<lambda>existing. case existing of
         r # _ \<Rightarrow> abind (act_move env i INTENT_CREATED
               (no_args\<lparr>wa_intent := Some (oi_id r), wa_detail := Some ''linked existing durable intent''\<rparr>)) (\<lambda>_. areturn r)
       | [] \<Rightarrow>
           if wf_state w \<noteq> APPROVED_PENDING_INTENT
           then araise (ApprovalWorkflowConflict ''workflow is not eligible to create an intent'')
           else abind (on_store (areads (\<lambda>d. Inr (durable_proposal w proposal (approvals d))))) (\<lambda>p.
                abind (on_store (re_create_intent env p run source_type (wf_approval w))) (\<lambda>r.
                abind (act_get i) (\<lambda>refreshed.
                  if wf_state refreshed = INTENT_CREATED then areturn r
                  else abind (act_move env i INTENT_CREATED
                         (no_args\<lparr>wa_intent := Some (oi_id r), wa_detail := Some ''intent and reservation committed''\<rparr>))
                       (\<lambda>_. areturn r))))))"

section \<open>The steps of one recovery\<close>

definition link_existing :: "'m recovery_env \<Rightarrow> workflow \<Rightarrow> order_intent list \<Rightarrow> (workflow_state, 'm) rec_act" where
  "link_existing env w rows = (case rows of
     [] \<Rightarrow> areturn (wf_state w)
   | r # _ \<Rightarrow> if missing_intent w
       then abind (act_move env (wf_id w) INTENT_CREATED
              ((owned env (Some ''recovery linked existing intent''))\<lparr>wa_intent := Some (oi_id r)\<rparr>)) (\<lambda>_.
            abind (tally inc_linked) (\<lambda>_. areturn INTENT_CREATED))
       else areturn (wf_state w))"

text \<open>A started submission whose broker flag is still unset goes back to pending.\<close>

definition prove_not_invoked ::
  "'m recovery_env \<Rightarrow> workflow \<Rightarrow> workflow_state \<Rightarrow> order_intent list \<Rightarrow> (workflow_state \<times> order_intent list, 'm) rec_act" where
  "prove_not_invoked env w st rows = (case rows of
     [] \<Rightarrow> areturn (st, rows)
   | r # _ \<Rightarrow>
     if st = SUBMISSION_STARTED \<and> oi_broker_invoked r = 0
        \<and> oi_state r \<in> set [''submitting'', ''retryable_pre_submission'']
     then abind (if oi_state r = ''submitting''
            then act_intent_move env (oi_id r) RETRYABLE_PRE_SUBMISSION ''restart_proved_submission_never_invoked_broker''
                   ''broker invocation flag proves deterministic pre-submission recovery'' SUBMITTING
            else areturn ()) (\<lambda>_.
          abind (act_move env (wf_id w) SUBMISSION_PENDING
            (owned env (Some ''broker was never invoked; lookup reconciliation suppressed''))) (\<lambda>_.
          abind (act_intents (wf_approval w)) (\<lambda>rows'. areturn (SUBMISSION_PENDING, rows'))))
     else areturn (st, rows))"

text \<open>The walk of an approved workflow towards \<open>approved_pending_intent\<close>.\<close>

fun approve_path ::
  "'m recovery_env \<Rightarrow> string \<Rightarrow> string option \<Rightarrow> workflow_state \<Rightarrow> workflow_state list \<Rightarrow> (workflow_state, 'm) rec_act" where
  "approve_path env i reason current [] = areturn current"
| "approve_path env i reason current (target # targets) =
     (if current = target then approve_path env i reason current targets
      else if target \<notin> set (ALLOWED_WORKFLOW_TRANSITIONS current) then approve_path env i reason current targets
      else abind (act_move env i target ((owned env reason)\<lparr>wa_validation :=
               (if target = APPROVED_PENDING_INTENT then Some ''passed'' else None)\<rparr>))
             (\<lambda>_. approve_path env i reason target targets))"

text \<open>The state, the workflow and the proposal with which the recovery goes on after a decision.\<close>

definition apply_decision ::
  "'m recovery_env \<Rightarrow> workflow \<Rightarrow> workflow_state \<Rightarrow> pydict option \<Rightarrow> string \<times> pydict option \<times> string option
    \<Rightarrow> (workflow_state \<times> workflow \<times> pydict option, 'm) rec_act" where
  "apply_decision env w st proposal d = (case d of (decision, validated, reason) \<Rightarrow>
     if decision = ''approved'' then
       abind (approve_path env (wf_id w) reason st [AUTHORIZED, TARGET_RESOLVED, VALIDATING, APPROVED_PENDING_INTENT]) (\<lambda>st'.
       abind (act_get (wf_id w)) (\<lambda>w'.
         areturn (st', w', (case validated of None \<Rightarrow> proposal | Some p \<Rightarrow> Some p))))
     else if decision = ''blocked'' then
       abind (act_move env (wf_id w) TERMINAL
         ((owned env (Some (or_text reason ''recovery validation blocked'')))\<lparr>wa_validation := Some ''blocked''\<rparr>)) (\<lambda>_.
       abind (tally inc_blocked) (\<lambda>_. areturn (TERMINAL, w, proposal)))
     else if decision = ''manual_review'' then
       abind (act_move env (wf_id w) MANUAL_REVIEW
         ((owned env (Some (or_text reason ''validation ambiguity requires operator review'')))\<lparr>wa_validation := Some ''ambiguous''\<rparr>)) (\<lambda>_.
       abind (tally inc_ambiguity) (\<lambda>_. areturn (MANUAL_REVIEW, w, proposal)))
     else if decision = ''retry'' then areturn (st, w, proposal)
     else araise (ValueError ''validator returned an unsupported recovery decision''))"

definition validate_workflow ::
  "'m recovery_env \<Rightarrow> workflow \<Rightarrow> workflow_state \<Rightarrow> (workflow_state \<times> workflow \<times> pydict option, 'm) rec_act" where
  "validate_workflow env w st = (case re_validator env of
     None \<Rightarrow> areturn (st, w, None)
   | Some validator \<Rightarrow>
       if st \<in> set [RECEIVED, AUTHORIZED, TARGET_RESOLVED, VALIDATING] then
         abind (on_store (re_loader env (wf_proposal w))) (\<lambda>proposal.
         abind (on_store (validator w proposal)) (\<lambda>d.
         abind (set_reason (snd (snd d))) (\<lambda>_. apply_decision env w st proposal d)))
       else areturn (st, w, None))"

text \<open>An empty dictionary counts as absent.\<close>

definition no_keys :: "pydict \<Rightarrow> bool" where
  "no_keys p \<longleftrightarrow> p = Map.empty"

definition load_proposal :: "'m recovery_env \<Rightarrow> workflow \<Rightarrow> pydict option \<Rightarrow> (pydict option, 'm) rec_act" where
  "load_proposal env w held = (case held of
     None \<Rightarrow> on_store (re_loader env (wf_proposal w))
   | Some p \<Rightarrow> if no_keys p then on_store (re_loader env (wf_proposal w)) else areturn (Some p))"

text \<open>The decision on the authority to act: the proposal to use, and whether to go on.\<close>

definition action_decision ::
  "'m recovery_env \<Rightarrow> workflow \<Rightarrow> workflow_state \<Rightarrow> pydict option \<Rightarrow> (pydict option \<times> bool, 'm) rec_act" where
  "action_decision env w st proposal = (case (proposal, re_action_validator env) of
     (Some p, Some action_validator) \<Rightarrow>
       abind (act_get (wf_id w)) (\<lambda>w'.
       abind (on_store (action_validator w' (Some p))) (\<lambda>(decision, validated, reason).
         let proposal' = (case validated of None \<Rightarrow> Some p | Some q \<Rightarrow> Some q) in
         if decision = ''blocked'' then
           abind (act_move env (wf_id w) TERMINAL
             ((owned env (Some (or_text reason ''recovery action authority is no longer current'')))\<lparr>wa_validation := Some ''blocked''\<rparr>)) (\<lambda>_.
           abind (tally inc_blocked) (\<lambda>_. areturn (proposal', False)))
         else if decision = ''retry'' then
           abind (act_audit ''approval_workflow_recovery_deferred'' (wf_id w) [(''state'', PyStr (workflow_value st)),
             (''reason'', PyStr (or_text reason ''upstream coordinator owns recovery''))]) (\<lambda>_. areturn (proposal', False))
         else if decision = ''approved'' then areturn (proposal', True)
         else araise (ValueError ''action validator returned an unsupported recovery decision'')))
   | _ \<Rightarrow> areturn (proposal, True))"

definition create_pending ::
  "'m recovery_env \<Rightarrow> workflow \<Rightarrow> workflow_state \<Rightarrow> pydict option \<Rightarrow> (unit, 'm) rec_act" where
  "create_pending env w st held =
     abind (load_proposal env w held) (\<lambda>loaded.
     abind (action_decision env w st loaded) (\<lambda>(proposal, allowed). case proposal of
       None \<Rightarrow>
         abind (act_move env (wf_id w) MANUAL_REVIEW (owned env (Some ''proposal record unavailable during recovery''))) (\<lambda>_.
           tally inc_ambiguity)
     | Some p \<Rightarrow>
         if \<not> allowed then areturn ()
         else if py_str (dget p ''status'') \<in> set [''expired'', ''rejected'', ''superseded''] then
           abind (act_move env (wf_id w) TERMINAL
             ((owned env (Some ''recovery did not revive an ineligible proposal''))\<lparr>wa_validation := Some ''expired_or_ineligible''\<rparr>)) (\<lambda>_.
             tally inc_blocked)
         else
           abind (ensure_intent env (wf_id w) p (re_run env)
             (py_str (py_or (dget p ''approval_source_type'') (PyStr ''proposal'')))) (\<lambda>_.
           abind (tally inc_created) (\<lambda>_.
           abind (act_move env (wf_id w) SUBMISSION_PENDING
             (owned env (Some ''local recovery completed; broker submission remains separately bounded''))) (\<lambda>_.
             tally inc_pending)))))"

section \<open>From the state of the intent\<close>

definition from_intent_created :: "'m recovery_env \<Rightarrow> workflow \<Rightarrow> order_intent list \<Rightarrow> (unit, 'm) rec_act" where
  "from_intent_created env w rows =
     (let st = (case rows of [] \<Rightarrow> ''missing'' | r # _ \<Rightarrow> oi_state r);
          invoked = (case rows of [] \<Rightarrow> True | r # _ \<Rightarrow> oi_broker_invoked r \<noteq> 0);
          move = (\<lambda>target detail. act_move env (wf_id w) target (owned env (Some detail)))
      in if pre_submission_value st then
           abind (move SUBMISSION_PENDING ''existing reserved intent ready for bounded submission'') (\<lambda>_. tally inc_pending)
         else if st = ''submitting'' \<and> \<not> invoked then
           abind (act_intent_move env (case rows of [] \<Rightarrow> [] | r # _ \<Rightarrow> oi_id r) RETRYABLE_PRE_SUBMISSION
             ''restart_proved_no_broker_invocation'' ''submission state recovered before any broker invocation'' SUBMITTING) (\<lambda>_.
           abind (move SUBMISSION_PENDING ''pre-submission state is deterministically retryable'') (\<lambda>_. tally inc_pending))
         else if st \<in> set [''submitting'', ''unknown'', ''reconciliation_required''] then
           abind (move UNKNOWN_WF ''intent state proves external submission ambiguity; lookup only'') (\<lambda>_. tally inc_ambiguity)
         else if st \<in> set [''submitted'', ''partially_filled'', ''cancel_pending''] then
           abind (move SUBMISSION_STARTED ''workflow submission reconstructed from broker-relevant intent state'') (\<lambda>_.
             move SUBMITTED_WF ''workflow reconstructed from broker-relevant intent state'')
         else if st \<in> set [''filled'', ''cancelled'', ''rejected'', ''expired''] then
           abind (move SUBMISSION_STARTED ''workflow submission reconstructed from terminal intent state'') (\<lambda>_.
             move TERMINAL ''workflow reconstructed from terminal intent state'')
         else
           abind (move MANUAL_REVIEW ''intent state cannot be determined safely'') (\<lambda>_. tally inc_ambiguity))"

section \<open>Submission\<close>

fun error_class :: "py_error \<Rightarrow> string" where
  "error_class (ValueError _) = ''ValueError''"
| "error_class (TypeError _) = ''TypeError''"
| "error_class (PermissionError _) = ''PermissionError''"
| "error_class (RuntimeError _) = ''RuntimeError''"
| "error_class (LookupError _) = ''LookupError''"
| "error_class (KeyError _) = ''KeyError''"
| "error_class AssertionError = ''AssertionError''"
| "error_class (InvalidOrderTransition _) = ''InvalidOrderTransition''"
| "error_class (ApprovalWorkflowConflict _) = ''ApprovalWorkflowConflict''"
| "error_class (CryptoSizingError _) = ''CryptoSizingError''"
| "error_class (IntegrityError _) = ''IntegrityError''"
| "error_class (OperationalError _) = ''OperationalError''"
| "error_class InvalidOperation = ''InvalidOperation''"
| "error_class ZeroDivisionError = ''ZeroDivisionError''"
| "error_class OverflowError = ''OverflowError''"

text \<open>The callback raised: the broker flag of the intent decides between retry and unknown.\<close>

definition submit_failed :: "'m recovery_env \<Rightarrow> order_intent \<Rightarrow> py_error \<Rightarrow> (string, 'm) rec_act" where
  "submit_failed env intent e =
     abind (act_get_intent (oi_id intent)) (\<lambda>current.
     abind (if oi_broker_invoked current = 0
            then abind (if oi_state current = state_value SUBMITTING
                   then act_intent_move env (oi_id intent) RETRYABLE_PRE_SUBMISSION ''submission_callback_failed_before_broker_io''
                          ''callback failed before broker invocation'' SUBMITTING
                   else areturn ()) (\<lambda>_. areturn ''retry'')
            else areturn ''unknown'') (\<lambda>outcome.
     abind (set_reason (Some (error_class e))) (\<lambda>_. areturn outcome)))"

definition submit_target :: "string \<Rightarrow> workflow_state option" where
  "submit_target outcome =
     (if lower outcome = ''submitted'' then Some SUBMITTED_WF
      else if lower outcome = ''terminal'' then Some TERMINAL
      else if lower outcome = ''unknown'' then Some UNKNOWN_WF
      else if lower outcome = ''retry'' then Some SUBMISSION_PENDING else None)"

text \<open>\<open>locals().get('reason', 'unknown')\<close>: whatever the local holds, from this or an earlier iteration.\<close>

definition submit_detail :: "workflow_state \<Rightarrow> string option option \<Rightarrow> string" where
  "submit_detail target reason =
     (if target \<noteq> UNKNOWN_WF then ''bounded submission result persisted''
      else ''ambiguous submission outcome: '' @ (case reason of
          None \<Rightarrow> ''unknown'' | Some None \<Rightarrow> ''None'' | Some (Some t) \<Rightarrow> t))"

definition submit_result :: "'m recovery_env \<Rightarrow> string \<Rightarrow> string \<Rightarrow> (unit, 'm) rec_act" where
  "submit_result env i outcome = (case submit_target outcome of
     None \<Rightarrow> araise (ValueError ''submitter returned an unsupported recovery outcome'')
   | Some target \<Rightarrow>
       abind (areads (\<lambda>s. Inr (rc_reason s))) (\<lambda>reason.
       abind (act_move env i target (owned env (Some (submit_detail target reason)))) (\<lambda>_.
         if target = UNKNOWN_WF then tally inc_ambiguity
         else if target = SUBMISSION_PENDING then tally inc_pending else areturn ())))"

definition submit :: "'m recovery_env \<Rightarrow> string \<Rightarrow> order_intent \<Rightarrow> (workflow \<Rightarrow> order_intent \<Rightarrow> (string, 'm) store_act) \<Rightarrow> (unit, 'm) rec_act" where
  "submit env i intent submitter =
     abind (act_move env i SUBMISSION_STARTED (owned env (Some ''bounded submission callback starting''))) (\<lambda>_.
     abind (acatch (abind (act_get i) (\<lambda>w'. on_store (submitter w' intent))) (submit_failed env intent)) (\<lambda>outcome.
       submit_result env i outcome))"

text \<open>The state of the intent, for the compare of the next transition.\<close>

definition act_order_state :: "order_intent \<Rightarrow> (order_state, 'm) rec_act" where
  "act_order_state intent = areads (\<lambda>_. order_state_of (oi_state intent))"

definition submission_authority :: "'m recovery_env \<Rightarrow> workflow \<Rightarrow> workflow_state \<Rightarrow> order_intent \<Rightarrow> (bool, 'm) rec_act" where
  "submission_authority env w st intent =
     abind (on_store (re_loader env (wf_proposal w))) (\<lambda>proposal. case re_action_validator env of
       None \<Rightarrow> areturn True
     | Some action_validator \<Rightarrow>
         abind (act_get (wf_id w)) (\<lambda>w'.
         abind (on_store (action_validator w' proposal)) (\<lambda>(decision, _, reason).
           if decision = ''blocked'' then
             abind (act_order_state intent) (\<lambda>expected.
             abind (act_intent_move env (oi_id intent) EXPIRED ''recovery_action_authority_expired''
               (or_text reason ''dependent authority expired'') expected) (\<lambda>_.
             abind (act_move env (wf_id w) TERMINAL
               ((owned env (Some (or_text reason ''recovery submission authority is no longer current'')))\<lparr>wa_validation := Some ''blocked''\<rparr>)) (\<lambda>_.
             abind (tally inc_blocked) (\<lambda>_. areturn False))))
           else if decision = ''retry'' then
             abind (if pre_submission_value (oi_state intent) \<and> oi_broker_invoked intent = 0
                    then abind (act_order_state intent) (\<lambda>expected.
                      act_intent_move env (oi_id intent) RETRYABLE_PRE_SUBMISSION ''recovery_deferred_before_broker_io''
                        (or_text reason ''pre-submission recovery deferred'') expected)
                    else areturn ()) (\<lambda>_.
             abind (act_audit ''approval_workflow_recovery_deferred'' (wf_id w) [(''state'', PyStr (workflow_value st)),
               (''reason'', PyStr (or_text reason ''upstream coordinator owns submission''))]) (\<lambda>_. areturn False))
           else if decision = ''approved'' then areturn True
           else araise (ValueError ''action validator returned an unsupported recovery decision''))))"

definition workflow_intent :: "workflow \<Rightarrow> order_intent list \<Rightarrow> (order_intent option, 'm) rec_act" where
  "workflow_intent w rows = (case rows of
     r # _ \<Rightarrow> areturn (Some r)
   | [] \<Rightarrow> if missing_intent w then areturn None
       else abind (act_get_intent (case wf_intent w of None \<Rightarrow> [] | Some j \<Rightarrow> j)) (\<lambda>r. areturn (Some r)))"

definition submit_pending ::
  "'m recovery_env \<Rightarrow> workflow \<Rightarrow> workflow_state \<Rightarrow> order_intent list
    \<Rightarrow> (workflow \<Rightarrow> order_intent \<Rightarrow> (string, 'm) store_act) \<Rightarrow> (unit, 'm) rec_act" where
  "submit_pending env w st rows submitter =
     abind (workflow_intent w rows) (\<lambda>found. case found of
       None \<Rightarrow> abind (act_move env (wf_id w) MANUAL_REVIEW (owned env (Some ''submission-pending workflow has no durable intent''))) (\<lambda>_.
         tally inc_ambiguity)
     | Some intent \<Rightarrow>
         if \<not> pre_submission_value (oi_state intent) then
           abind (act_move env (wf_id w) UNKNOWN_WF
             (owned env (Some ''submission callback suppressed because intent is already broker-relevant''))) (\<lambda>_. tally inc_ambiguity)
         else abind (submission_authority env w st intent) (\<lambda>allowed.
           if allowed then submit env (wf_id w) intent submitter else areturn ()))"

section \<open>Lookup\<close>

definition lookup_unknown ::
  "'m recovery_env \<Rightarrow> workflow \<Rightarrow> order_intent list \<Rightarrow> (workflow \<Rightarrow> order_intent option \<Rightarrow> (string, 'm) store_act) \<Rightarrow> (unit, 'm) rec_act" where
  "lookup_unknown env w rows reconciler =
     abind (on_store (reconciler w (first_row rows))) (\<lambda>answer.
       let outcome = lower answer in
       if outcome = ''submitted'' \<or> outcome = ''terminal'' then
         act_move env (wf_id w) (if outcome = ''submitted'' then SUBMITTED_WF else TERMINAL)
           (owned env (Some ''lookup-only reconciliation persisted''))
       else if outcome = ''unknown'' then tally inc_ambiguity
       else araise (ValueError ''lookup reconciler returned an unsupported recovery outcome''))"

definition lookup_started ::
  "'m recovery_env \<Rightarrow> workflow \<Rightarrow> workflow_state \<Rightarrow> order_intent list
    \<Rightarrow> (workflow \<Rightarrow> order_intent option \<Rightarrow> (string, 'm) store_act) \<Rightarrow> (unit, 'm) rec_act" where
  "lookup_started env w st rows reconciler =
     abind (on_store (reconciler w (first_row rows))) (\<lambda>answer.
       let outcome = lower answer in
       if outcome = ''terminal'' then
         act_move env (wf_id w) TERMINAL
           (owned env (Some ''lookup-only reconciliation terminalised broker-relevant workflow''))
       else if outcome = ''unknown'' then
         abind (act_move env (wf_id w) UNKNOWN_WF
           (owned env (Some ''lookup-only reconciliation found unresolved broker state''))) (\<lambda>_. tally inc_ambiguity)
       else if outcome = ''submitted'' then
         (if st = SUBMISSION_STARTED
          then act_move env (wf_id w) SUBMITTED_WF (owned env (Some ''lookup-only reconciliation confirmed submitted intent''))
          else areturn ())
       else araise (ValueError ''lookup reconciler returned an unsupported recovery outcome''))"

section \<open>The loop\<close>

definition resume ::
  "'m recovery_env \<Rightarrow> workflow \<Rightarrow> workflow_state \<Rightarrow> order_intent list \<Rightarrow> pydict option \<Rightarrow> (unit, 'm) rec_act" where
  "resume env w st rows held =
     (if st = APPROVED_PENDING_INTENT then create_pending env w st held
      else if st = INTENT_CREATED then from_intent_created env w rows
      else case (st, re_submitter env, re_reconciler env) of
        (SUBMISSION_PENDING, Some submitter, _) \<Rightarrow> submit_pending env w st rows submitter
      | (UNKNOWN_WF, _, Some reconciler) \<Rightarrow> lookup_unknown env w rows reconciler
      | (SUBMISSION_STARTED, _, Some reconciler) \<Rightarrow> lookup_started env w st rows reconciler
      | (SUBMITTED_WF, _, Some reconciler) \<Rightarrow> lookup_started env w st rows reconciler
      | _ \<Rightarrow>
          if st \<in> set [SUBMISSION_STARTED, SUBMITTED_WF, UNKNOWN_WF]
          then abind (tally inc_ambiguity) (\<lambda>_.
            act_audit ''approval_workflow_recovery_reconciliation_required'' (wf_id w)
              [(''state'', PyStr (workflow_value st)), (''automatic_resubmission'', PyBool False)])
          else act_audit ''approval_workflow_recovery_deferred'' (wf_id w)
              [(''state'', PyStr (workflow_value st)), (''reason'', PyStr ''requires deterministic upstream handler'')])"

definition recover_one :: "'m recovery_env \<Rightarrow> workflow \<Rightarrow> (unit, 'm) rec_act" where
  "recover_one env w =
     abind (act_intents (wf_approval w)) (\<lambda>rows.
     abind (link_existing env w rows) (\<lambda>st.
     abind (prove_not_invoked env w st rows) (\<lambda>(st', rows').
     abind (validate_workflow env w st') (\<lambda>(st'', w', held). resume env w' st'' rows' held))))"

fun retryable_error :: "py_error \<Rightarrow> bool" where
  "retryable_error (OperationalError _) = True"
| "retryable_error (ApprovalWorkflowConflict _) = True"
| "retryable_error (ValueError _) = True"
| "retryable_error (CryptoSizingError _) = True"
| "retryable_error _ = False"

definition act_release :: "'m recovery_env \<Rightarrow> string \<Rightarrow> string option \<Rightarrow> (unit, 'm) rec_act" where
  "act_release env i err = timed (\<lambda>n. txn (release_claim (re_clock env n) i (re_owner env) err))"

definition act_claim :: "'m recovery_env \<Rightarrow> (workflow option, 'm) rec_act" where
  "act_claim env = timed (\<lambda>n. txn (claim_next (re_until env) (re_clock env n) (re_owner env) 30))"

text \<open>The caught errors leave the workflow for a later sweep; any other error ends the recovery.\<close>

definition recover_claimed :: "'m recovery_env \<Rightarrow> workflow \<Rightarrow> (unit, 'm) rec_act" where
  "recover_claimed env w s = (case recover_one env w s of
     (Inr _, s') \<Rightarrow> act_release env (wf_id w) None s'
   | (Inl e, s') \<Rightarrow> if retryable_error e
       then abind (tally inc_failed) (\<lambda>_. act_release env (wf_id w) (Some (error_class e))) s'
       else (Inl e, s'))"

fun recover_loop :: "'m recovery_env \<Rightarrow> nat \<Rightarrow> string list \<Rightarrow> (unit, 'm) rec_act" where
  "recover_loop env 0 seen = areturn ()"
| "recover_loop env (Suc n) seen =
     abind (act_claim env) (\<lambda>claimed. case claimed of
       None \<Rightarrow> areturn ()
     | Some w \<Rightarrow>
         if wf_id w \<in> set seen then act_release env (wf_id w) None
         else abind (tally inc_claimed) (\<lambda>_.
              abind (recover_claimed env w) (\<lambda>_. recover_loop env n (wf_id w # seen))))"

definition recover :: "'m recovery_env \<Rightarrow> nat \<Rightarrow> (recovery_counts, 'm approval_store) act" where
  "recover env max_items d =
     (case recover_loop env max_items [] \<lparr>rc_store = d, rc_counts = no_counts, rc_tick = 0, rc_reason = None\<rparr> of
        (Inl e, s) \<Rightarrow> (Inl e, rc_store s) | (Inr _, s) \<Rightarrow> (Inr (rc_counts s), rc_store s))"

section \<open>Relations the recovery keeps\<close>

lemma snd_on_store: "snd (on_store m s) = s\<lparr>rc_store := snd (m (rc_store s))\<rparr>"
  by (simp add: on_store_def split: prod.split)

lemma snd_timed: "snd (timed f s) = s\<lparr>rc_store := snd (f (rc_tick s) (rc_store s)), rc_tick := Suc (rc_tick s)\<rparr>"
  by (simp add: timed_def split: prod.split)

text \<open>The callbacks of an environment respect a relation between stores.\<close>

definition callbacks_keep :: "('m approval_store \<Rightarrow> 'm approval_store \<Rightarrow> bool) \<Rightarrow> 'm recovery_env \<Rightarrow> bool" where
  "callbacks_keep Q env \<longleftrightarrow>
     (\<forall>p d. Q d (snd (re_loader env p d)))
     \<and> (\<forall>v w p d. re_validator env = Some v \<longrightarrow> Q d (snd (v w p d)))
     \<and> (\<forall>v w p d. re_action_validator env = Some v \<longrightarrow> Q d (snd (v w p d)))
     \<and> (\<forall>f w r d. re_submitter env = Some f \<longrightarrow> Q d (snd (f w r d)))
     \<and> (\<forall>f w r d. re_reconciler env = Some f \<longrightarrow> Q d (snd (f w r d)))
     \<and> (\<forall>p r t a d. Q d (snd (re_create_intent env p r t a d)))"

text \<open>
  A relation between recovery states that every call of the loop keeps is kept by the recovery of one
  workflow. \<open>Q\<close> is what the callbacks are asked to respect.
\<close>

locale recovery_relation = kept_relation R for R :: "'m recovery \<Rightarrow> 'm recovery \<Rightarrow> bool" +
  fixes Q :: "'m approval_store \<Rightarrow> 'm approval_store \<Rightarrow> bool"
  assumes store: "Q (rc_store s) s1 \<Longrightarrow> R s (s\<lparr>rc_store := s1\<rparr>)"
    and move: "R s (snd (act_move env i target a s))"
    and intent_move: "R s (snd (act_intent_move env i t ev su ex s))"
    and audits: "R s (snd (act_audit ty i d s))"
    and reason: "R s (snd (set_reason r s))"
    and tallies: "f \<in> {inc_created, inc_linked, inc_pending, inc_ambiguity, inc_blocked} \<Longrightarrow> R s (snd (tally f s))"
begin

lemma keeps_on_store: "(\<And>d. Q d (snd (m d))) \<Longrightarrow> keeps (on_store m)"
  by (simp add: keeps_def store snd_on_store)

lemma keeps_calls [simp, intro!]:
  "keeps (act_move env i target a)" "keeps (act_intent_move env i t ev su ex)" "keeps (act_audit ty i d)"
  "keeps (set_reason r)" "keeps (tally inc_created)" "keeps (tally inc_linked)" "keeps (tally inc_pending)"
  "keeps (tally inc_ambiguity)" "keeps (tally inc_blocked)"
  by (simp_all add: keeps_def move intent_move audits reason tallies)

lemma keeps_store_reads [simp, intro!]: "keeps (on_store (areads f))"
  by (simp add: keeps_def on_store_def areads_def R_refl)

lemma keeps_queries [simp, intro!]: "keeps (act_get i)" "keeps (act_intents a)" "keeps (act_get_intent j)" "keeps (act_order_state r)"
  by (simp_all add: act_get_def act_intents_def act_get_intent_def act_order_state_def)

lemma keeps_callbacks:
  assumes "callbacks_keep Q env"
  shows "keeps (on_store (re_loader env p))"
    and "re_validator env = Some v \<Longrightarrow> keeps (on_store (v w q))"
    and "re_action_validator env = Some v \<Longrightarrow> keeps (on_store (v w q))"
    and "re_submitter env = Some f \<Longrightarrow> keeps (on_store (f w r))"
    and "re_reconciler env = Some g \<Longrightarrow> keeps (on_store (g w ro))"
    and "keeps (on_store (re_create_intent env pr ru ty ap))"
  using assms by (auto simp: callbacks_keep_def intro!: keeps_on_store)

lemma keeps_link: "keeps (link_existing env w rows)"
  by (auto simp: link_existing_def intro!: keeps_bind split: list.split)

lemma keeps_prove: "keeps (prove_not_invoked env w st rows)"
  by (auto simp: prove_not_invoked_def intro!: keeps_bind split: list.split)

lemma keeps_path: "keeps (approve_path env i r st ts)"
  by (induction env i r st ts rule: approve_path.induct) (auto intro!: keeps_bind)

lemma keeps_decision: "keeps (apply_decision env w st p d)"
  by (cases d) (simp add: apply_decision_def keeps_bind keeps_path)

lemma keeps_validate:
  assumes "callbacks_keep Q env"
  shows "keeps (validate_workflow env w st)"
proof (cases "re_validator env")
  case (Some v)
  note calls = keeps_callbacks(1) [OF assms] keeps_callbacks(2) [OF assms Some]
  show ?thesis unfolding validate_workflow_def Some option.case
    by (intro keeps_if keeps_bind calls keeps_decision keeps_calls keeps_return)
qed (simp add: validate_workflow_def)

lemma keeps_load: "callbacks_keep Q env \<Longrightarrow> keeps (load_proposal env w held)"
  by (auto simp: load_proposal_def intro!: keeps_callbacks(1) split: option.split)

lemma keeps_action: "callbacks_keep Q env \<Longrightarrow> keeps (action_decision env w st p)"
  by (auto simp: action_decision_def Let_def intro!: keeps_bind keeps_callbacks(3) split: option.split prod.split)

lemma keeps_ensure: "callbacks_keep Q env \<Longrightarrow> keeps (ensure_intent env i p run ty)"
  by (auto simp: ensure_intent_def intro!: keeps_bind keeps_callbacks(6) split: list.split)

lemma keeps_create: "callbacks_keep Q env \<Longrightarrow> keeps (create_pending env w st held)"
  by (auto simp: create_pending_def intro!: keeps_bind keeps_load keeps_action keeps_ensure split: option.split prod.split)

lemma keeps_from_intent: "keeps (from_intent_created env w rows)"
  by (simp add: from_intent_created_def Let_def keeps_bind keeps_if)

lemma keeps_submit_failed: "keeps (submit_failed env intent e)"
  by (auto simp: submit_failed_def intro!: keeps_bind)

lemma keeps_submit_result: "keeps (submit_result env i outcome)"
  by (auto simp: submit_result_def intro!: keeps_bind split: option.split)

lemma keeps_submit: "callbacks_keep Q env \<Longrightarrow> re_submitter env = Some f \<Longrightarrow> keeps (submit env i intent f)"
  by (auto simp: submit_def intro!: keeps_bind keeps_catch keeps_callbacks(4) keeps_submit_failed keeps_submit_result)

lemma keeps_authority: "callbacks_keep Q env \<Longrightarrow> keeps (submission_authority env w st intent)"
  by (auto simp: submission_authority_def intro!: keeps_bind keeps_callbacks(1,3) split: option.split prod.split)

lemma keeps_submit_pending:
  "callbacks_keep Q env \<Longrightarrow> re_submitter env = Some f \<Longrightarrow> keeps (submit_pending env w st rows f)"
  by (auto simp: submit_pending_def workflow_intent_def intro!: keeps_bind keeps_authority keeps_submit
      split: option.split list.split)

lemma keeps_lookups:
  assumes "callbacks_keep Q env" and "re_reconciler env = Some g"
  shows "keeps (lookup_unknown env w rows g)" and "keeps (lookup_started env w st rows g)"
  using assms by (auto simp: lookup_unknown_def lookup_started_def Let_def intro!: keeps_bind keeps_callbacks(5))

lemma keeps_resume: "callbacks_keep Q env \<Longrightarrow> keeps (resume env w st rows held)"
  by (auto simp: resume_def intro!: keeps_bind keeps_create keeps_from_intent keeps_submit_pending keeps_lookups
      split: option.split workflow_state.split)

lemma keeps_recover_one: "callbacks_keep Q env \<Longrightarrow> keeps (recover_one env w)"
  by (auto simp: recover_one_def intro!: keeps_bind keeps_link keeps_prove keeps_validate keeps_resume split: prod.split)

end


section \<open>Soundness of the recovery\<close>

text \<open>The transition of an intent leaves the workflow tables alone.\<close>

lemma intent_transition_workflows:
  assumes "intent_transition e i t a s = Inr (r, s')"
  shows "workflows s' = workflows s"
proof -
  have w: "workflows s2 = workflows s1" if "write_transition e a r0 p q s1 = Inr s2"
    for r0 p q and s1 s2 :: "('a, 'b) approval_store_scheme"
    using that by (auto simp: write_transition_def Let_def result_simps split: if_splits)
  show ?thesis using assms by (auto simp: intent_transition_def result_simps split: if_splits dest: w)
qed

lemma snd_txn_cases: "snd (txn f s) = s \<or> (\<exists>x. f s = Inr (x, snd (txn f s)))"
  by (auto simp: txn_def split: sum.split prod.split)

lemma snd_discard: "snd (abind m (\<lambda>_. areturn ()) s) = snd (m s)"
  by (auto simp: abind_def areturn_def split: prod.split sum.split)

lemma snd_act_move: "snd (act_move env i target a s) =
    s\<lparr>rc_store := snd (txn (workflow_transition (re_clock env (rc_tick s)) i target a) (rc_store s)), rc_tick := Suc (rc_tick s)\<rparr>"
  by (simp add: act_move_def snd_discard snd_timed)

lemma snd_act_intent_move: "\<exists>e a. snd (act_intent_move env i t ev su ex s) =
    s\<lparr>rc_store := snd (txn (intent_transition e i t a) (rc_store s)), rc_tick := Suc (rc_tick s)\<rparr>"
  by (auto simp: act_intent_move_def snd_discard snd_timed)

lemma snd_act_audit: "snd (act_audit ty i d s) = s\<lparr>rc_store := audit ty i d (rc_store s)\<rparr>"
  by (simp add: act_audit_def snd_on_store amodify_def)

lemma snd_tally: "snd (tally f s) = s\<lparr>rc_counts := f (rc_counts s)\<rparr>"
  by (simp add: tally_def amodify_def)

lemma snd_set_reason: "snd (set_reason r s) = s\<lparr>rc_reason := Some r\<rparr>"
  by (simp add: set_reason_def amodify_def)

lemma txn_intent_workflows: "workflows (snd (txn (intent_transition e i t a) s)) = workflows s"
  using snd_txn_cases [of "intent_transition e i t a" s] intent_transition_workflows by (metis prod.collapse)

lemmas snd_calls = snd_act_move snd_act_audit snd_tally snd_set_reason snd_on_store snd_timed

lemma sound_refl: "sound_step s s"
  by (simp add: sound_same)

lemma sound_trans: "sound_step s t \<Longrightarrow> sound_step t u \<Longrightarrow> sound_step s u"
  by (auto simp: sound_step_def intro: evolves_trans)

lemma sound_txn: "(\<And>x s'. f s = Inr (x, s') \<Longrightarrow> sound_step s s') \<Longrightarrow> sound_step s (snd (txn f s))"
  using snd_txn_cases [of f s] by (metis sound_refl)

interpretation rec_sound: recovery_relation "\<lambda>s s'. sound_step (rc_store s) (rc_store s')" sound_step
proof
  fix s s1 and env :: "'a recovery_env" and i target a t ev su ex
  show "sound_step (rc_store s) (rc_store (snd (act_intent_move env i t ev su ex s)))"
    using snd_act_intent_move [of env i t ev su ex s] by (auto intro!: sound_same simp: txn_intent_workflows)
qed (auto simp: snd_calls sound_refl intro: sound_trans sound_same sound_txn transition_sound)

text \<open>The recovery of one workflow leaves the counters of the loop alone.\<close>

interpretation rec_counts: recovery_relation
  "\<lambda>s s'. rn_claimed (rc_counts s') = rn_claimed (rc_counts s) \<and> rn_failed (rc_counts s') = rn_failed (rc_counts s)"
  "\<lambda>_ _. True"
proof
  fix s and env :: "'a recovery_env" and i t ev su ex
  show "rn_claimed (rc_counts (snd (act_intent_move env i t ev su ex s))) = rn_claimed (rc_counts s)
    \<and> rn_failed (rc_counts (snd (act_intent_move env i t ev su ex s))) = rn_failed (rc_counts s)"
    using snd_act_intent_move [of env i t ev su ex s] by auto
qed (auto simp: snd_calls inc_created_def inc_linked_def inc_pending_def inc_ambiguity_def inc_blocked_def)

definition same_claims :: "('m, 'z) approval_store_scheme \<Rightarrow> ('m, 'z) approval_store_scheme \<Rightarrow> bool" where
  "same_claims s s' \<longleftrightarrow> map (\<lambda>w. (wf_id w, wf_owner w)) (workflows s') = map (\<lambda>w. (wf_id w, wf_owner w)) (workflows s)"

lemma transition_claims: "workflow_transition now i target a s = Inr (w', s') \<Longrightarrow> same_claims s s'"
  by (drule workflow_transition_result) (auto simp: same_claims_def move_workflow_def intro!: map_update_where)

interpretation rec_claims: recovery_relation "\<lambda>s s'. same_claims (rc_store s) (rc_store s')" same_claims
proof
  fix s and env :: "'a recovery_env" and i target a t ev su ex
  show "same_claims (rc_store s) (rc_store (snd (act_intent_move env i t ev su ex s)))"
    using snd_act_intent_move [of env i t ev su ex s] by (auto simp: same_claims_def txn_intent_workflows)
  show "same_claims (rc_store s) (rc_store (snd (act_move env i target a s)))"
    using snd_txn_cases [of "workflow_transition (re_clock env (rc_tick s)) i target a" "rc_store s"] transition_claims
    by (fastforce simp: snd_act_move same_claims_def)
qed (auto simp: snd_calls same_claims_def)


section \<open>What the loop keeps\<close>

lemma snd_act_release: "snd (act_release env i err s) =
    s\<lparr>rc_store := snd (txn (release_claim (re_clock env (rc_tick s)) i (re_owner env) err) (rc_store s)), rc_tick := Suc (rc_tick s)\<rparr>"
  by (simp add: act_release_def snd_timed)

lemma snd_act_claim: "snd (act_claim env s) =
    s\<lparr>rc_store := snd (txn (claim_next (re_until env) (re_clock env (rc_tick s)) (re_owner env) 30) (rc_store s)), rc_tick := Suc (rc_tick s)\<rparr>"
  by (simp add: act_claim_def snd_timed)

lemma sound_claim: "rec_sound.keeps (act_claim env)"
  unfolding rec_sound.keeps_def by (auto simp: snd_act_claim intro!: sound_txn dest: claim_sound)

lemma sound_release: "rec_sound.keeps (act_release env i err)"
  unfolding rec_sound.keeps_def by (auto simp: snd_act_release intro!: sound_txn dest: release_sound)

lemma sound_tally: "rec_sound.keeps (tally f)"
  unfolding rec_sound.keeps_def by (simp add: snd_tally sound_refl)

lemma recover_claimed_bind: "snd (recover_claimed env w s) = (let s1 = snd (recover_one env w s) in
    case fst (recover_one env w s) of
      Inr _ \<Rightarrow> snd (act_release env (wf_id w) None s1)
    | Inl e \<Rightarrow> if retryable_error e then snd (abind (tally inc_failed) (\<lambda>_. act_release env (wf_id w) (Some (error_class e))) s1) else s1)"
  by (auto simp: recover_claimed_def Let_def split: prod.split sum.split)

lemma sound_recover_claimed: "callbacks_keep sound_step env \<Longrightarrow> rec_sound.keeps (recover_claimed env w)"
proof -
  assume "callbacks_keep sound_step env"
  then have one: "rec_sound.keeps (recover_one env w)" by (rule rec_sound.keeps_recover_one)
  have rel: "rec_sound.keeps (act_release env (wf_id w) None)"
    "rec_sound.keeps (abind (tally inc_failed) (\<lambda>_. act_release env (wf_id w) (Some (error_class e))))" for e
    by (simp_all add: sound_release sound_tally rec_sound.keeps_bind)
  show ?thesis unfolding rec_sound.keeps_def
  proof
    fix s
    let ?s1 = "snd (recover_one env w s)"
    have "sound_step (rc_store s) (rc_store ?s1)" using one by (simp add: rec_sound.keeps_def)
    moreover have "sound_step (rc_store ?s1) (rc_store (snd (recover_claimed env w s)))"
      using rel unfolding rec_sound.keeps_def recover_claimed_bind Let_def
      by (simp add: sound_refl split: sum.split)
    ultimately show "sound_step (rc_store s) (rc_store (snd (recover_claimed env w s)))" by (rule sound_trans)
  qed
qed

lemma sound_recover_loop: "callbacks_keep sound_step env \<Longrightarrow> rec_sound.keeps (recover_loop env n seen)"
  by (induction n arbitrary: seen)
    (auto intro!: rec_sound.keeps_bind sound_claim sound_release sound_tally sound_recover_claimed split: option.split)

lemma snd_recover: "snd (recover env n d) = rc_store (snd (recover_loop env n []
    \<lparr>rc_store = d, rc_counts = no_counts, rc_tick = 0, rc_reason = None\<rparr>))"
  by (simp add: recover_def split: prod.split sum.split)

lemma recover_sound: "callbacks_keep sound_step env \<Longrightarrow> sound_step d (snd (recover env n d))"
  using sound_recover_loop [of env n "[]"] unfolding rec_sound.keeps_def snd_recover by (metis recovery.select_convs(1))

text \<open>Inversion of a bound action.\<close>

lemma abind_Inr: "abind m f s = (Inr y, s') \<longleftrightarrow> (\<exists>x s1. m s = (Inr x, s1) \<and> f x s1 = (Inr y, s'))"
  by (auto simp: abind_def split: prod.splits sum.splits)

lemma recover_claimed_Inr:
  assumes "recover_claimed env w s = (Inr u, s')"
  shows "\<exists>r s1 s2 err. recover_one env w s = (r, s1) \<and> act_release env (wf_id w) err s2 = (Inr u, s')
    \<and> rc_store s2 = rc_store s1 \<and> rn_claimed (rc_counts s2) = rn_claimed (rc_counts s1)
    \<and> rn_failed (rc_counts s2) \<le> Suc (rn_failed (rc_counts s1))"
proof -
  obtain r s1 where one: "recover_one env w s = (r, s1)" by fastforce
  show ?thesis
  proof (cases r)
    case (Inr x)
    then show ?thesis using assms one by (auto simp: recover_claimed_def)
  next
    case (Inl e)
    then have "act_release env (wf_id w) (Some (error_class e)) (s1\<lparr>rc_counts := inc_failed (rc_counts s1)\<rparr>) = (Inr u, s')"
      using assms one by (auto simp: recover_claimed_def abind_def tally_def amodify_def split: if_splits)
    then show ?thesis using one by (fastforce simp: inc_failed_def)
  qed
qed

lemma counts_release: "act_release env i err s = (r, s') \<Longrightarrow> rc_counts s' = rc_counts s"
  using snd_act_release [of env i err s] by simp

lemma counts_claim: "act_claim env s = (r, s') \<Longrightarrow> rc_counts s' = rc_counts s"
  using snd_act_claim [of env s] by simp

lemma callbacks_keep_True: "callbacks_keep (\<lambda>_ _. True) env"
  by (simp add: callbacks_keep_def)

lemma counts_recover_claimed:
  assumes "recover_claimed env w s = (Inr u, s')"
  shows "rn_claimed (rc_counts s') = rn_claimed (rc_counts s) \<and> rn_failed (rc_counts s') \<le> Suc (rn_failed (rc_counts s))"
proof -
  from recover_claimed_Inr [OF assms] obtain r s1 s2 err where
    one: "recover_one env w s = (r, s1)" and rel: "act_release env (wf_id w) err s2 = (Inr u, s')" and
    c: "rn_claimed (rc_counts s2) = rn_claimed (rc_counts s1)" "rn_failed (rc_counts s2) \<le> Suc (rn_failed (rc_counts s1))"
    by blast
  have "rn_claimed (rc_counts s1) = rn_claimed (rc_counts s) \<and> rn_failed (rc_counts s1) = rn_failed (rc_counts s)"
    using rec_counts.keepsD [OF rec_counts.keeps_recover_one [OF callbacks_keep_True] one] by simp
  then show ?thesis using c counts_release [OF rel] by simp
qed

lemma counts_recover_loop:
  "recover_loop env n seen s = (Inr u, s') \<Longrightarrow> rn_claimed (rc_counts s') \<le> rn_claimed (rc_counts s) + n
    \<and> rn_failed (rc_counts s') + rn_claimed (rc_counts s) \<le> rn_failed (rc_counts s) + rn_claimed (rc_counts s')"
proof (induction n arbitrary: seen s)
  case 0
  then show ?case by (simp add: areturn_def)
next
  case (Suc n)
  from Suc.prems obtain claimed s1 where cl: "act_claim env s = (Inr claimed, s1)"
    and rest: "(case claimed of None \<Rightarrow> areturn () | Some w \<Rightarrow> if wf_id w \<in> set seen then act_release env (wf_id w) None
      else abind (tally inc_claimed) (\<lambda>_. abind (recover_claimed env w) (\<lambda>_. recover_loop env n (wf_id w # seen)))) s1 = (Inr u, s')"
    by (auto simp: abind_Inr)
  note c1 = counts_claim [OF cl]
  show ?case
  proof (cases claimed)
    case None
    then show ?thesis using rest c1 by (simp add: areturn_def)
  next
    case (Some w)
    show ?thesis
    proof (cases "wf_id w \<in> set seen")
      case True
      then show ?thesis using rest c1 Some by (auto dest: counts_release)
    next
      case False
      let ?s2 = "s1\<lparr>rc_counts := inc_claimed (rc_counts s1)\<rparr>"
      from rest Some False obtain v s3 where 3: "recover_claimed env w ?s2 = (Inr v, s3)"
        "recover_loop env n (wf_id w # seen) s3 = (Inr u, s')"
        by (auto simp: abind_Inr tally_def amodify_def)
      show ?thesis using counts_recover_claimed [OF 3(1)] Suc.IH [OF 3(2)] c1 by (simp add: inc_claimed_def)
    qed
  qed
qed


text \<open>Only the row \<open>i\<close> may be claimed by a worker.\<close>

definition claims_only :: "string \<Rightarrow> string \<Rightarrow> ('m, 'z) approval_store_scheme \<Rightarrow> bool" where
  "claims_only owner i s \<longleftrightarrow> (\<forall>v\<in>set (workflows s). wf_owner v = Some owner \<longrightarrow> wf_id v = i)"

definition unclaimed :: "string \<Rightarrow> ('m, 'z) approval_store_scheme \<Rightarrow> bool" where
  "unclaimed owner s \<longleftrightarrow> (\<forall>v\<in>set (workflows s). wf_owner v \<noteq> Some owner)"

lemma same_claims_transfer:
  assumes "same_claims s s'" and "claims_only owner i s"
  shows "claims_only owner i s'"
proof -
  have "set (map (\<lambda>w. (wf_id w, wf_owner w)) (workflows s')) = set (map (\<lambda>w. (wf_id w, wf_owner w)) (workflows s))"
    using assms(1) by (simp only: same_claims_def)
  then have img: "(\<lambda>w. (wf_id w, wf_owner w)) ` set (workflows s') = (\<lambda>w. (wf_id w, wf_owner w)) ` set (workflows s)"
    by simp
  show ?thesis unfolding claims_only_def
  proof (intro ballI impI)
    fix v assume v: "v \<in> set (workflows s')" "wf_owner v = Some owner"
    then have "(wf_id v, wf_owner v) \<in> (\<lambda>w. (wf_id w, wf_owner w)) ` set (workflows s)" using img by blast
    then obtain v0 where "v0 \<in> set (workflows s)" "wf_id v0 = wf_id v" "wf_owner v0 = wf_owner v" by auto
    then show "wf_id v = i" using assms(2) v(2) unfolding claims_only_def by metis
  qed
qed

lemma release_unclaims:
  assumes "act_release env i err s = (Inr u, s')" and "claims_only (re_owner env) i (rc_store s)"
  shows "unclaimed (re_owner env) (rc_store s')"
proof -
  have "workflows (rc_store s') = update_where (\<lambda>v. wf_id v = i \<and> wf_owner v = Some (re_owner env))
      (unlease_workflow (re_clock env (rc_tick s)) err) (workflows (rc_store s))"
    using assms(1) by (auto simp: act_release_def timed_def txn_def release_claim_def Let_def split: if_splits)
  then show ?thesis using assms(2)
    by (auto simp: unclaimed_def claims_only_def unlease_workflow_def dest!: set_update_where)
qed

lemma claim_claims:
  assumes "act_claim env s = (Inr claimed, s')" and "unclaimed (re_owner env) (rc_store s)"
  shows "case claimed of None \<Rightarrow> unclaimed (re_owner env) (rc_store s')
    | Some w \<Rightarrow> claims_only (re_owner env) (wf_id w) (rc_store s')"
proof -
  have "claim_next (re_until env) (re_clock env (rc_tick s)) (re_owner env) 30 (rc_store s) = Inr (claimed, rc_store s')"
    using assms(1) by (auto simp: act_claim_def timed_def txn_def split: sum.splits)
  from claim_next_result [OF this] show ?thesis
  proof (elim disjE exE conjE)
    fix w w'
    assume c: "claimed = Some w'" and g: "get_workflow (wf_id w) (rc_store s') = Inr w'"
      and ws: "workflows (rc_store s') = update_where (\<lambda>v. wf_id v = wf_id w \<and> wf_version v = wf_version w
          \<and> claimable (re_clock env (rc_tick s)) (re_owner env) v)
        (lease_workflow (re_clock env (rc_tick s)) (re_until env (re_clock env (rc_tick s)) (max 1 30)) (re_owner env))
        (workflows (rc_store s))"
    have "wf_id w' = wf_id w" using get_workflow_in [OF g] by simp
    then show ?thesis using assms(2)
      by (auto simp: c ws claims_only_def unclaimed_def lease_workflow_def dest!: set_update_where)
  qed (use assms(2) in simp)
qed

lemma unclaimed_loop:
  "recover_loop env n seen s = (Inr u, s') \<Longrightarrow> callbacks_keep same_claims env
    \<Longrightarrow> unclaimed (re_owner env) (rc_store s) \<Longrightarrow> unclaimed (re_owner env) (rc_store s')"
proof (induction n arbitrary: seen s)
  case 0
  then show ?case by (simp add: areturn_def)
next
  case (Suc n)
  from Suc.prems(1) obtain claimed s1 where cl: "act_claim env s = (Inr claimed, s1)"
    and rest: "(case claimed of None \<Rightarrow> areturn () | Some w \<Rightarrow> if wf_id w \<in> set seen then act_release env (wf_id w) None
      else abind (tally inc_claimed) (\<lambda>_. abind (recover_claimed env w) (\<lambda>_. recover_loop env n (wf_id w # seen)))) s1 = (Inr u, s')"
    by (auto simp: abind_Inr)
  note c1 = claim_claims [OF cl Suc.prems(3)]
  show ?case
  proof (cases claimed)
    case None
    then show ?thesis using rest c1 by (simp add: areturn_def)
  next
    case (Some w)
    then have only: "claims_only (re_owner env) (wf_id w) (rc_store s1)" using c1 by simp
    show ?thesis
    proof (cases "wf_id w \<in> set seen")
      case True
      then show ?thesis using rest Some release_unclaims [OF _ only] by simp
    next
      case False
      from rest Some False obtain v s3 where 3: "recover_claimed env w (s1\<lparr>rc_counts := inc_claimed (rc_counts s1)\<rparr>) = (Inr v, s3)"
        "recover_loop env n (wf_id w # seen) s3 = (Inr u, s')"
        by (auto simp: abind_Inr tally_def amodify_def)
      from recover_claimed_Inr [OF 3(1)] obtain r t1 t2 err where
        one: "recover_one env w (s1\<lparr>rc_counts := inc_claimed (rc_counts s1)\<rparr>) = (r, t1)" and
        rel: "act_release env (wf_id w) err t2 = (Inr v, s3)" and t2: "rc_store t2 = rc_store t1" by blast
      have "same_claims (rc_store s1) (rc_store t1)"
        using rec_claims.keepsD [OF rec_claims.keeps_recover_one [OF Suc.prems(2)] one] by simp
      then have "claims_only (re_owner env) (wf_id w) (rc_store t2)" using same_claims_transfer only t2 by metis
      then have "unclaimed (re_owner env) (rc_store s3)" by (rule release_unclaims [OF rel])
      then show ?thesis by (rule Suc.IH [OF 3(2) Suc.prems(2)])
    qed
  qed
qed

section \<open>The submitter\<close>

text \<open>
  When a recovery may hand an intent to the submission callback, from what it reads first: the workflow
  waits for its submission and its intent was never submitted, or the submission was started and the
  intent proves that the broker was not called.
\<close>

definition submittable :: "workflow \<Rightarrow> order_intent list \<Rightarrow> bool" where
  "submittable w rows \<longleftrightarrow>
     (wf_state w = SUBMISSION_PENDING \<and> (case rows of [] \<Rightarrow> True | r # _ \<Rightarrow> pre_submission_value (oi_state r)))
     \<or> (wf_state w = SUBMISSION_STARTED \<and> (case rows of [] \<Rightarrow> False | r # _ \<Rightarrow> oi_broker_invoked r = 0
          \<and> oi_state r \<in> set [''submitting'', ''retryable_pre_submission'']))"

text \<open>Two environments that differ at most in the submitter they both have.\<close>

definition with_submitter :: "(workflow \<Rightarrow> order_intent \<Rightarrow> (string, 'm) store_act) \<Rightarrow> 'm recovery_env \<Rightarrow> 'm recovery_env" where
  "with_submitter f env = env\<lparr>re_submitter := Some f\<rparr>"

lemma with_submitter_calls [simp]:
  "act_move (with_submitter f env) = act_move env" "owned (with_submitter f env) = owned env"
  "act_intent_move (with_submitter f env) = act_intent_move env"
  "re_loader (with_submitter f env) = re_loader env" "re_validator (with_submitter f env) = re_validator env"
  "re_action_validator (with_submitter f env) = re_action_validator env" "re_reconciler (with_submitter f env) = re_reconciler env"
  "re_create_intent (with_submitter f env) = re_create_intent env" "re_run (with_submitter f env) = re_run env"
  "re_submitter (with_submitter f env) = Some f"
  by (simp_all add: with_submitter_def act_move_def owned_def act_intent_move_def fun_eq_iff)

lemma with_submitter_steps [simp]:
  "link_existing (with_submitter f env) = link_existing env" "prove_not_invoked (with_submitter f env) = prove_not_invoked env"
  "load_proposal (with_submitter f env) = load_proposal env" "action_decision (with_submitter f env) = action_decision env"
  "ensure_intent (with_submitter f env) = ensure_intent env" "from_intent_created (with_submitter f env) = from_intent_created env"
  "lookup_unknown (with_submitter f env) = lookup_unknown env" "lookup_started (with_submitter f env) = lookup_started env"
  by (unfold link_existing_def prove_not_invoked_def load_proposal_def action_decision_def ensure_intent_def
      from_intent_created_def lookup_unknown_def lookup_started_def with_submitter_calls, (rule refl)+)

lemma with_submitter_path [simp]: "approve_path (with_submitter f env) i r st ts = approve_path env i r st ts"
  by (induction env i r st ts rule: approve_path.induct) (simp_all cong: if_cong)

lemma with_submitter_decisions [simp]:
  "apply_decision (with_submitter f env) = apply_decision env" "validate_workflow (with_submitter f env) = validate_workflow env"
  "create_pending (with_submitter f env) = create_pending env"
  by (unfold validate_workflow_def apply_decision_def create_pending_def with_submitter_calls with_submitter_steps
      with_submitter_path, (rule refl)+)

text \<open>What an action can return, and replacing what is bound to it.\<close>

definition returns :: "('a \<Rightarrow> bool) \<Rightarrow> ('a, 's) act \<Rightarrow> bool" where
  "returns P m \<longleftrightarrow> (\<forall>s x s'. m s = (Inr x, s') \<longrightarrow> P x)"

lemma returns_intros:
  "P x \<Longrightarrow> returns P (areturn x)" "returns P (araise e)" "(\<And>x. returns P (f x)) \<Longrightarrow> returns P (abind m f)"
  by (auto simp: returns_def areturn_def araise_def abind_Inr)

lemma abind_cong_returns: "returns P m \<Longrightarrow> (\<And>x. P x \<Longrightarrow> f x = g x) \<Longrightarrow> abind m f = abind m g"
  by (auto simp: abind_def fun_eq_iff returns_def split: prod.split sum.split)

lemma returns_path: "P st \<Longrightarrow> (\<And>t. t \<in> set ts \<Longrightarrow> P t) \<Longrightarrow> returns P (approve_path env i r st ts)"
  by (induction env i r st ts rule: approve_path.induct) (auto intro: returns_intros)

lemma returns_link: "returns (\<lambda>st. st = wf_state w \<or> st = INTENT_CREATED) (link_existing env w rows)"
  by (auto simp: link_existing_def intro!: returns_intros split: list.split)

lemma returns_prove:
  assumes "\<not> submittable w rows" and "st = wf_state w \<or> st = INTENT_CREATED"
  shows "returns (\<lambda>x. x = (st, rows)) (prove_not_invoked env w st rows)"
  using assms by (auto simp: prove_not_invoked_def submittable_def intro!: returns_intros split: list.splits)

lemma returns_validate:
  assumes "st = SUBMISSION_PENDING \<Longrightarrow> c"
  shows "returns (\<lambda>(st', _, _). st' = SUBMISSION_PENDING \<longrightarrow> c) (validate_workflow env w st)"
proof -
  have early: "returns (\<lambda>(st', _, _). st' \<noteq> SUBMISSION_PENDING) (apply_decision env w st p d)"
    if "st \<noteq> SUBMISSION_PENDING" for p d
  proof -
    have "returns (\<lambda>st'. st' \<noteq> SUBMISSION_PENDING) (approve_path env (wf_id w) r st [AUTHORIZED, TARGET_RESOLVED, VALIDATING, APPROVED_PENDING_INTENT])" for r
      using that by (intro returns_path) auto
    then show ?thesis using that
      by (cases d) (auto simp: apply_decision_def returns_def abind_Inr areturn_def araise_def)
  qed
  show ?thesis
  proof (cases "st = SUBMISSION_PENDING")
    case True
    then show ?thesis using assms by (auto simp: validate_workflow_def intro!: returns_intros split: option.split)
  next
    case False
    then have "returns (\<lambda>(st', _, _). st' \<noteq> SUBMISSION_PENDING) (validate_workflow env w st)"
      using early by (auto simp: validate_workflow_def intro!: returns_intros split: option.split)
    then show ?thesis by (auto simp: returns_def)
  qed
qed

lemma resume_submitter:
  assumes "st = SUBMISSION_PENDING \<Longrightarrow> \<exists>r rs. rows = r # rs \<and> \<not> pre_submission_value (oi_state r)"
  shows "resume (with_submitter f env) w st rows held = resume (with_submitter g env) w st rows held"
proof (cases "st = SUBMISSION_PENDING")
  case True
  obtain r rs where "rows = r # rs" "\<not> pre_submission_value (oi_state r)" using assms [OF True] by blast
  then have "submit_pending (with_submitter h env) w st rows h = abind (act_move env (wf_id w) UNKNOWN_WF
      (owned env (Some ''submission callback suppressed because intent is already broker-relevant''))) (\<lambda>_. tally inc_ambiguity)" for h
    by (simp add: submit_pending_def workflow_intent_def abind_def areturn_def fun_eq_iff)
  then show ?thesis using True by (simp add: resume_def)
next
  case False
  then show ?thesis by (cases st) (simp_all add: resume_def split: option.split)
qed

lemma recover_one_submitter:
  assumes no: "\<not> submittable w (filter (\<lambda>r. oi_approval r = Some (wf_approval w)) (order_intents (rc_store s)))"
  shows "recover_one (with_submitter f env) w s = recover_one (with_submitter g env) w s"
proof -
  let ?rows = "filter (\<lambda>r. oi_approval r = Some (wf_approval w)) (order_intents (rc_store s))"
  let ?rest = "\<lambda>h. abind (link_existing env w ?rows) (\<lambda>st. abind (prove_not_invoked env w st ?rows) (\<lambda>(st', rows').
      abind (validate_workflow env w st') (\<lambda>(st'', w', held). resume (with_submitter h env) w' st'' rows' held)))"
  have one: "recover_one (with_submitter h env) w s = ?rest h s" for h
    by (simp add: recover_one_def act_intents_def on_store_def areads_def abind_def [of "\<lambda>s. _ s"])
  have "?rest f = ?rest g"
  proof (rule abind_cong_returns [OF returns_link], rule abind_cong_returns [OF returns_prove [OF no]], assumption)
    fix st x
    assume st: "st = wf_state w \<or> st = INTENT_CREATED" and x: "x = (st, ?rows)"
    have c: "\<exists>r rs. ?rows = r # rs \<and> \<not> pre_submission_value (oi_state r)" if "st = SUBMISSION_PENDING"
      using no st that by (auto simp: submittable_def split: list.splits)
    have "abind (validate_workflow env w st) (\<lambda>(st'', w', held). resume (with_submitter f env) w' st'' ?rows held)
        = abind (validate_workflow env w st) (\<lambda>(st'', w', held). resume (with_submitter g env) w' st'' ?rows held)"
    proof (rule abind_cong_returns [OF returns_validate [OF c]], assumption)
      fix y :: "workflow_state \<times> workflow \<times> pydict option"
      assume "case y of (st', _, _) \<Rightarrow> st' = SUBMISSION_PENDING \<longrightarrow> (\<exists>r rs. ?rows = r # rs \<and> \<not> pre_submission_value (oi_state r))"
      then show "(case y of (st'', w', held) \<Rightarrow> resume (with_submitter f env) w' st'' ?rows held)
          = (case y of (st'', w', held) \<Rightarrow> resume (with_submitter g env) w' st'' ?rows held)"
        by (auto split: prod.splits intro!: resume_submitter)
    qed
    then show "(case x of (st', rows') \<Rightarrow> abind (validate_workflow env w st') (\<lambda>(st'', w', held). resume (with_submitter f env) w' st'' rows' held))
        = (case x of (st', rows') \<Rightarrow> abind (validate_workflow env w st') (\<lambda>(st'', w', held). resume (with_submitter g env) w' st'' rows' held))"
      by (simp add: x)
  qed
  then show ?thesis by (simp add: one)
qed


end
