(* ===== verification/Profit_Milestones.thy ===== *)
theory Profit_Milestones
  imports Lot_Ledger Intent_Store
begin

text \<open>
  \<open>app/profit_milestones.py\<close>: the progress of the take-profit levels of a position, which only broker
  fills advance. The tables \<open>take_profit_milestones\<close>, \<open>take_profit_milestone_actions\<close> and
  \<open>take_profit_milestone_fill_links\<close>, with the two tables the module reads or marks. The REAL columns are
  projections of the decimal text beside them and are left out, as in \<open>Lot_Ledger\<close>; the schema creation is
  left out too. The decoder of JSON text and the fresh ids are arguments.
\<close>

section \<open>State\<close>

record milestone =
  tm_id :: string
  tm_lifecycle :: string
  tm_symbol :: string
  tm_level :: int
  tm_target :: pyval
  tm_filled :: pyval
  tm_fraction :: pyval
  tm_status :: string
  tm_created :: string
  tm_updated :: string
  tm_completed :: "string option"

record milestone_action =
  ta_id :: string
  ta_milestone :: string
  ta_proposal :: string
  ta_intent :: string
  ta_requested :: pyval
  ta_filled :: pyval
  ta_fraction :: pyval
  ta_status :: string
  ta_created :: string
  ta_updated :: string

record fill_link =
  fl_id :: string
  fl_milestone :: string
  fl_action :: string
  fl_event :: string
  fl_key :: string
  fl_delta :: pyval
  fl_cumulative :: pyval
  fl_price :: pyval
  fl_occurred :: string
  fl_applied :: string

record lifecycle_row =
  lc_id :: string
  lc_symbol :: string
  lc_state :: string

record management_state =
  pm_symbol :: string
  pm_lifecycle :: string
  pm_hit_1 :: int
  pm_hit_2 :: int
  pm_hit_3 :: int
  pm_updated :: string

record milestone_tables =
  tp_milestones :: "milestone list"
  tp_actions :: "milestone_action list"
  tp_links :: "fill_link list"
  tp_lifecycles :: "lifecycle_row list"
  tp_management :: "management_state list"

definition exact_column :: "string \<Rightarrow> pyval \<Rightarrow> rat res" where
  "exact_column column v = rbind (require_exact_decimal [column \<mapsto> v] column (Some 0) False) (\<lambda>r.
     case r of None \<Rightarrow> Inl AssertionError | Some x \<Rightarrow> Inr x)"

definition milestone_decimal :: "pyval \<Rightarrow> string \<Rightarrow> rat res" where
  "milestone_decimal v label = (case to_pydec v of
     None \<Rightarrow> Inl (ValueError (label @ '' must be a finite decimal''))
   | Some (Fin x) \<Rightarrow> if x < 0 then Inl (ValueError (label @ '' must be finite and non-negative'')) else Inr x
   | Some _ \<Rightarrow> Inl (ValueError (label @ '' must be finite and non-negative'')))"

definition dec_column :: "rat \<Rightarrow> pyval" where
  "dec_column x = PyStr (dec_text x)"

section \<open>The level of a proposal\<close>

text \<open>The value of \<open>position_management_decision\<close>: falsy, a text, a dictionary, or anything else.\<close>

datatype decision_value = NoDecision | DecisionText string | DecisionDict pydict | DecisionOther

text \<open>\<open>(decision or {}).get\<close>, with \<open>None\<close> for the \<open>AttributeError\<close>.\<close>

fun decision_dict :: "decision_value \<Rightarrow> pydict option" where
  "decision_dict NoDecision = Some Map.empty"
| "decision_dict (DecisionText t) = (if t = [] then Some Map.empty else None)"
| "decision_dict (DecisionDict d) = Some d"
| "decision_dict DecisionOther = None"

definition take_profit_level ::
  "(string \<Rightarrow> decision_value option) \<Rightarrow> decision_value \<Rightarrow> pydict \<Rightarrow> int option res" where
  "take_profit_level json decision proposal =
     (if py_str (py_or (dget proposal ''position_management_decision_type'') (PyStr [])) \<noteq> ''TAKE_PROFIT_PARTIAL''
      then Inr None
      else let d = (case decision of DecisionText t \<Rightarrow> (case json t of None \<Rightarrow> DecisionDict Map.empty | Some e \<Rightarrow> e) | e \<Rightarrow> e)
      in case decision_dict d of
           None \<Rightarrow> Inr None
         | Some m \<Rightarrow> rbind (py_int (py_or (py_or (dget m ''take_profit_level'') (dget proposal ''take_profit_level'')) (PyInt 0)))
             (\<lambda>l. Inr (case l of None \<Rightarrow> None | Some n \<Rightarrow> if n \<in> {1, 2, 3} then Some n else None)))"

section \<open>Binding an intent\<close>

record bind_args =
  ba_json :: "string \<Rightarrow> decision_value option"
  ba_decision :: decision_value
  ba_intent :: pydict
  ba_proposal :: pydict
  ba_now :: string
  ba_fresh_milestone :: string
  ba_fresh_action :: string

definition new_milestone :: "bind_args \<Rightarrow> string \<Rightarrow> string \<Rightarrow> int \<Rightarrow> rat \<Rightarrow> milestone" where
  "new_milestone a lifecycle symbol level q = \<lparr>tm_id = ba_fresh_milestone a, tm_lifecycle = lifecycle, tm_symbol = symbol,
     tm_level = level, tm_target = dec_column q, tm_filled = PyStr ''0'', tm_fraction = PyStr ''0'',
     tm_status = ''pending_fill'', tm_created = ba_now a, tm_updated = ba_now a, tm_completed = None\<rparr>"

definition new_action :: "bind_args \<Rightarrow> string \<Rightarrow> string \<Rightarrow> string \<Rightarrow> rat \<Rightarrow> milestone_action" where
  "new_action a milestone proposal intent q = \<lparr>ta_id = ba_fresh_action a, ta_milestone = milestone, ta_proposal = proposal,
     ta_intent = intent, ta_requested = dec_column q, ta_filled = PyStr ''0'', ta_fraction = PyStr ''0'',
     ta_status = ''submitted_zero_fill'', ta_created = ba_now a, ta_updated = ba_now a\<rparr>"

text \<open>The milestone of the intent: a new one, or the stored one when the quantity still fits.\<close>

definition bind_milestone ::
  "bind_args \<Rightarrow> string \<Rightarrow> string \<Rightarrow> int \<Rightarrow> rat \<Rightarrow> milestone_tables \<Rightarrow> (string \<times> milestone_tables) res" where
  "bind_milestone a lifecycle symbol level q s =
     (case fetch_one (\<lambda>m. tm_lifecycle m = lifecycle \<and> tm_level m = level) (tp_milestones s) of
        None \<Rightarrow> if list_ex (\<lambda>m. tm_id m = ba_fresh_milestone a) (tp_milestones s)
            then Inl (IntegrityError ''UNIQUE constraint failed: take_profit_milestones.id'')
            else Inr (ba_fresh_milestone a, s\<lparr>tp_milestones := tp_milestones s @ [new_milestone a lifecycle symbol level q]\<rparr>)
      | Some m \<Rightarrow>
          if tm_status m = ''filled'' then Inl (RuntimeError ''take-profit milestone is already fully filled'')
          else rbind (exact_column ''target_quantity_decimal'' (tm_target m)) (\<lambda>target.
               rbind (exact_column ''cumulative_filled_quantity_decimal'' (tm_filled m)) (\<lambda>filled.
                 if q > max 0 (dsub target filled)
                 then Inl (RuntimeError ''take-profit intent exceeds the unfilled milestone quantity'')
                 else Inr (tm_id m, s))))"

definition bind_action ::
  "bind_args \<Rightarrow> string \<Rightarrow> string \<Rightarrow> string \<Rightarrow> rat \<Rightarrow> milestone_tables \<Rightarrow> (string \<times> milestone_tables) res" where
  "bind_action a milestone proposal intent q s =
     (case fetch_one (\<lambda>x. ta_intent x = intent) (tp_actions s) of
        None \<Rightarrow> if list_ex (\<lambda>x. ta_id x = ba_fresh_action a) (tp_actions s)
            then Inl (IntegrityError ''UNIQUE constraint failed: take_profit_milestone_actions.id'')
            else Inr (ba_fresh_action a, s\<lparr>tp_actions := tp_actions s @ [new_action a milestone proposal intent q]\<rparr>)
      | Some x \<Rightarrow> if ta_milestone x \<noteq> milestone \<or> ta_proposal x \<noteq> proposal
            then Inl (RuntimeError ''take-profit intent linkage changed'') else Inr (ta_id x, s))"

definition bind_take_profit_intent ::
  "bind_args \<Rightarrow> milestone_tables \<Rightarrow> ((string \<times> string \<times> int) option \<times> milestone_tables) res" where
  "bind_take_profit_intent a s =
     rbind (take_profit_level (ba_json a) (ba_decision a) (ba_proposal a)) (\<lambda>level. case level of
       None \<Rightarrow> Inr (None, s)
     | Some n \<Rightarrow>
       let i = ba_intent a; p = ba_proposal a in
       if lower (or_str [dget i ''side'']) \<noteq> ''sell''
       then Inl (RuntimeError ''take-profit milestone must be linked to a SELL intent'')
       else let lifecycle = or_str [dget i ''position_lifecycle_id'', dget p ''position_lifecycle_id''];
                proposal = or_str [dget i ''proposal_id'', dget p ''id'', dget p ''proposal_id''];
                symbol = upper (or_str [dget i ''symbol'', dget p ''symbol'']) in
         rbind (exact_column ''requested_quantity_decimal'' (dget i ''requested_quantity_decimal'')) (\<lambda>q.
           if lifecycle = [] \<or> proposal = [] \<or> symbol = [] \<or> q \<le> 0
           then Inl (RuntimeError ''take-profit intent requires lifecycle, proposal, symbol, and positive quantity'')
           else if \<not> list_ex (\<lambda>l. lc_id l = lifecycle \<and> lc_symbol l = symbol \<and> lc_state l = ''active'') (tp_lifecycles s)
           then Inl (RuntimeError ''take-profit intent is not linked to the active position lifecycle'')
           else rbind (bind_milestone a lifecycle symbol n q s) (\<lambda>(m, s1).
                rbind (dget_req i ''id'') (\<lambda>intent_id.
                rbind (bind_action a m proposal (py_str intent_id) q s1) (\<lambda>(x, s2). Inr (Some (m, x, n), s2))))))"

section \<open>Terminal orders\<close>

definition apply_take_profit_terminal_state ::
  "string \<Rightarrow> string \<Rightarrow> string \<Rightarrow> milestone_tables \<Rightarrow> milestone_tables res" where
  "apply_take_profit_terminal_state intent terminal_state now s =
     (case fetch_one (\<lambda>x. ta_intent x = intent) (tp_actions s) of
        None \<Rightarrow> Inr s
      | Some x \<Rightarrow> rbind (exact_column ''cumulative_filled_quantity_decimal'' (ta_filled x)) (\<lambda>filled.
          let status = (if binary64 filled > 0 then ''partially_filled_'' @ terminal_state else terminal_state @ ''_zero_fill'')
          in Inr (s\<lparr>tp_actions := update_where (\<lambda>y. ta_id y = ta_id x) (\<lambda>y. y\<lparr>ta_status := status, ta_updated := now\<rparr>)
               (tp_actions s)\<rparr>)))"

section \<open>Fills\<close>

record take_profit_fill =
  tf_intent :: pydict
  tf_event :: string
  tf_key :: string
  tf_cumulative :: pyval
  tf_delta :: pyval
  tf_price :: pyval
  tf_occurred :: string
  tf_now :: string
  tf_fresh :: string

definition new_link :: "take_profit_fill \<Rightarrow> milestone_action \<Rightarrow> rat \<Rightarrow> rat \<Rightarrow> rat \<Rightarrow> fill_link" where
  "new_link f x delta cumulative price = \<lparr>fl_id = tf_fresh f, fl_milestone = ta_milestone x, fl_action = ta_id x,
     fl_event = tf_event f, fl_key = tf_key f, fl_delta = dec_column delta, fl_cumulative = dec_column cumulative,
     fl_price = dec_column price, fl_occurred = tf_occurred f, fl_applied = tf_now f\<rparr>"

text \<open>\<open>INSERT OR IGNORE\<close> with the unique id, fill event and broker key.\<close>

definition link_exists :: "take_profit_fill \<Rightarrow> milestone_tables \<Rightarrow> bool" where
  "link_exists f s \<longleftrightarrow> list_ex (\<lambda>l. fl_id l = tf_fresh f \<or> fl_event l = tf_event f \<or> fl_key l = tf_key f) (tp_links s)"

text \<open>The filled quantity and fraction after a fill, never above the goal.\<close>

definition advance :: "rat \<Rightarrow> rat \<Rightarrow> rat \<Rightarrow> (rat \<times> rat) res" where
  "advance goal previous delta =
     (let filled = min goal (dadd previous delta)
      in if goal = 0 then Inl ZeroDivisionError else Inr (filled, min 1 (ddiv filled goal)))"

definition fill_status :: "rat \<Rightarrow> string" where
  "fill_status fraction = (if fraction \<ge> 1 then ''filled'' else ''partially_filled'')"

definition fill_action :: "string \<Rightarrow> rat \<Rightarrow> rat \<Rightarrow> milestone_action \<Rightarrow> milestone_action" where
  "fill_action now filled fraction x = x\<lparr>ta_filled := dec_column filled, ta_fraction := dec_column fraction,
     ta_status := fill_status fraction, ta_updated := now\<rparr>"

definition fill_milestone :: "string \<Rightarrow> rat \<Rightarrow> rat \<Rightarrow> milestone \<Rightarrow> milestone" where
  "fill_milestone now filled fraction m = m\<lparr>tm_filled := dec_column filled, tm_fraction := dec_column fraction,
     tm_status := fill_status fraction, tm_updated := now,
     tm_completed := (if fill_status fraction = ''filled'' then coalesce (tm_completed m) (Some now) else tm_completed m)\<rparr>"

definition mark_level :: "string \<Rightarrow> int \<Rightarrow> bool \<Rightarrow> management_state \<Rightarrow> management_state" where
  "mark_level now level full p = p\<lparr>
     pm_hit_1 := (if level = 1 \<and> full then 1 else pm_hit_1 p),
     pm_hit_2 := (if level = 2 \<and> full then 1 else pm_hit_2 p),
     pm_hit_3 := (if level = 3 \<and> full then 1 else pm_hit_3 p), pm_updated := now\<rparr>"

text \<open>The updates after the link was inserted.\<close>

definition advance_tables :: "take_profit_fill \<Rightarrow> rat \<Rightarrow> milestone_action \<Rightarrow> milestone \<Rightarrow> milestone_tables \<Rightarrow> milestone_tables res" where
  "advance_tables f delta x m s =
     rbind (exact_column ''requested_quantity_decimal'' (ta_requested x)) (\<lambda>requested.
     rbind (exact_column ''cumulative_filled_quantity_decimal'' (ta_filled x)) (\<lambda>previous_action.
     rbind (exact_column ''target_quantity_decimal'' (tm_target m)) (\<lambda>target.
     rbind (exact_column ''milestone_filled_decimal'' (tm_filled m)) (\<lambda>previous_milestone.
     rbind (advance requested previous_action delta) (\<lambda>(action_filled, action_fraction).
     rbind (advance target previous_milestone delta) (\<lambda>(milestone_filled, milestone_fraction).
       Inr (s\<lparr>tp_actions := update_where (\<lambda>y. ta_id y = ta_id x) (fill_action (tf_now f) action_filled action_fraction) (tp_actions s),
         tp_milestones := update_where (\<lambda>n. tm_id n = ta_milestone x)
           (fill_milestone (tf_now f) milestone_filled milestone_fraction) (tp_milestones s),
         tp_management := update_where (\<lambda>p. pm_symbol p = tm_symbol m \<and> pm_lifecycle p = tm_lifecycle m)
           (mark_level (tf_now f) (tm_level m) (fill_status milestone_fraction = ''filled'')) (tp_management s)\<rparr>)))))))"

text \<open>The join of an action with its milestone.\<close>

definition action_milestone :: "string \<Rightarrow> milestone_tables \<Rightarrow> (milestone_action \<times> milestone) option" where
  "action_milestone intent s = (case fetch_one (\<lambda>x. ta_intent x = intent
       \<and> list_ex (\<lambda>m. tm_id m = ta_milestone x) (tp_milestones s)) (tp_actions s) of
     None \<Rightarrow> None
   | Some x \<Rightarrow> map_option (\<lambda>m. (x, m)) (fetch_one (\<lambda>m. tm_id m = ta_milestone x) (tp_milestones s)))"

definition apply_take_profit_fill :: "take_profit_fill \<Rightarrow> milestone_tables \<Rightarrow> milestone_tables res" where
  "apply_take_profit_fill f s =
     (if lower (or_str [dget (tf_intent f) ''side'']) \<noteq> ''sell'' then Inr s
      else rbind (milestone_decimal (tf_delta f) ''take-profit delta quantity'') (\<lambda>delta.
           rbind (milestone_decimal (tf_cumulative f) ''take-profit cumulative quantity'') (\<lambda>cumulative.
           rbind (milestone_decimal (tf_price f) ''take-profit fill price'') (\<lambda>price.
             if delta \<le> 0 then Inr s
             else rbind (dget_req (tf_intent f) ''id'') (\<lambda>intent_id.
               case action_milestone (py_str intent_id) s of
                 None \<Rightarrow> Inr s
               | Some (x, m) \<Rightarrow>
                   if link_exists f s then Inr s
                   else advance_tables f delta x m (s\<lparr>tp_links := tp_links s @ [new_link f x delta cumulative price]\<rparr>))))))"

definition remaining_take_profit_quantity :: "string \<Rightarrow> int \<Rightarrow> milestone_tables \<Rightarrow> rat option res" where
  "remaining_take_profit_quantity lifecycle level s =
     (case fetch_one (\<lambda>m. tm_lifecycle m = lifecycle \<and> tm_level m = level) (tp_milestones s) of
        None \<Rightarrow> Inr None
      | Some m \<Rightarrow>
          rbind (exact_column ''target_quantity_decimal'' (tm_target m)) (\<lambda>target.
          rbind (exact_column ''cumulative_filled_quantity_decimal'' (tm_filled m)) (\<lambda>filled.
            Inr (Some (binary64 (max 0 (dsub target filled)))))))"

section \<open>Columns\<close>

lemma exact_column_Inr: "exact_column c v = Inr x \<Longrightarrow> v = dec_column x \<and> 0 \<le> x"
  using require_exact_Some [of "[c \<mapsto> v]" c "Some 0" False x]
  by (auto simp: exact_column_def dec_column_def result_simps split: option.splits)

lemma dec_column_inject: "is_decimal x \<Longrightarrow> is_decimal y \<Longrightarrow> dec_column x = dec_column y \<longleftrightarrow> x = y"
  unfolding dec_column_def by (metis parse_dec_text pyval.inject option.inject pydec.inject(1))

lemma dec_column_28: "dec28 x \<Longrightarrow> dec28 y \<Longrightarrow> dec_column x = dec_column y \<Longrightarrow> x = y"
  by (simp add: dec_column_inject is_decimal_dec28)

lemma dec_column_0: "dec_column 0 = PyStr ''0''"
  by (simp add: dec_column_def dec_text_0)

lemma exact_column_28: "exact_column c (dec_column y) = Inr x \<Longrightarrow> dec28 y \<Longrightarrow> is_decimal x \<Longrightarrow> x = y"
  by (auto dest!: exact_column_Inr simp: dec_column_inject is_decimal_dec28)

section \<open>Progress\<close>

text \<open>The values of a goal and of what is filled of it.\<close>

definition progress :: "pyval \<Rightarrow> pyval \<Rightarrow> rat \<Rightarrow> rat \<Rightarrow> bool" where
  "progress goal filled g x \<longleftrightarrow> goal = dec_column g \<and> filled = dec_column x \<and> dec28 g \<and> dec28 x \<and> 0 < g \<and> 0 \<le> x \<and> x \<le> g"

lemma dadd_ge: "dec28 x \<Longrightarrow> 0 \<le> y \<Longrightarrow> x \<le> dadd x y"
  using dctx.rd_mono [of x "x + y"] by (simp add: dadd_def dec28_def)

lemma ddiv_mono: "0 < g \<Longrightarrow> x \<le> y \<Longrightarrow> ddiv x g \<le> ddiv y g"
  unfolding ddiv_def by (rule dctx.rd_mono) (simp add: divide_right_mono)

lemma ddiv_self: "0 < g \<Longrightarrow> ddiv g g = 1"
  using dec28_of_int [of 1] by (simp add: ddiv_def dec28_def)

lemma advance_Inr:
  assumes "advance g x d = Inr (y, r)" and "dec28 g" and "dec28 x" and "0 \<le> x" and "x \<le> g" and "0 \<le> d"
  shows "0 < g \<and> dec28 y \<and> x \<le> y \<and> y \<le> g \<and> r = min 1 (ddiv y g)"
proof -
  have y: "y = min g (dadd x d)" "g \<noteq> 0" "r = min 1 (ddiv y g)"
    using assms(1) by (auto simp: advance_def Let_def split: if_splits)
  moreover have "x \<le> dadd x d" by (rule dadd_ge) (use assms in auto)
  ultimately show ?thesis using assms by (auto simp: min_def)
qed

definition milestone_ok :: "milestone \<Rightarrow> bool" where
  "milestone_ok m \<longleftrightarrow> (\<exists>g x. progress (tm_target m) (tm_filled m) g x \<and> (tm_status m = ''filled'' \<longleftrightarrow> 1 \<le> ddiv x g))"

definition action_ok :: "milestone_action \<Rightarrow> bool" where
  "action_ok a \<longleftrightarrow> (\<exists>g x. progress (ta_requested a) (ta_filled a) g x)"

definition tables_ok :: "milestone_tables \<Rightarrow> bool" where
  "tables_ok s \<longleftrightarrow> distinct (map tm_id (tp_milestones s)) \<and> distinct (map ta_id (tp_actions s))
     \<and> distinct (map (\<lambda>m. (tm_lifecycle m, tm_level m)) (tp_milestones s))
     \<and> (\<forall>m\<in>set (tp_milestones s). milestone_ok m) \<and> (\<forall>a\<in>set (tp_actions s). action_ok a)"

definition milestone_grows :: "milestone \<Rightarrow> milestone \<Rightarrow> bool" where
  "milestone_grows m m' \<longleftrightarrow> (tm_id m', tm_lifecycle m', tm_symbol m', tm_level m', tm_target m')
       = (tm_id m, tm_lifecycle m, tm_symbol m, tm_level m, tm_target m)
     \<and> (\<exists>x x'. dec28 x \<and> dec28 x' \<and> tm_filled m = dec_column x \<and> tm_filled m' = dec_column x' \<and> x \<le> x')
     \<and> (tm_status m = ''filled'' \<longrightarrow> tm_status m' = ''filled'')"

definition tables_grow :: "milestone_tables \<Rightarrow> milestone_tables \<Rightarrow> bool" where
  "tables_grow s s' \<longleftrightarrow> (\<exists>ms ns. tp_milestones s' = ms @ ns \<and> list_all2 milestone_grows (tp_milestones s) ms)"

lemma milestone_grows_refl: "milestone_ok m \<Longrightarrow> milestone_grows m m"
  by (auto simp: milestone_ok_def milestone_grows_def progress_def)

lemma milestone_grows_trans: "milestone_grows a b \<Longrightarrow> milestone_grows b c \<Longrightarrow> milestone_grows a c"
proof -
  assume ab: "milestone_grows a b" and bc: "milestone_grows b c"
  obtain x y where 1: "dec28 x" "dec28 y" "tm_filled a = dec_column x" "tm_filled b = dec_column y" "x \<le> y"
    using ab by (auto simp: milestone_grows_def)
  obtain y' z where 2: "dec28 y'" "dec28 z" "tm_filled b = dec_column y'" "tm_filled c = dec_column z" "y' \<le> z"
    using bc by (auto simp: milestone_grows_def)
  have "y = y'" using 1 2 dec_column_28 by metis
  then have "x \<le> z" using 1 2 by simp
  then show ?thesis using ab bc 1 2 by (auto simp: milestone_grows_def)
qed

lemma tables_grow_same: "tables_ok s \<Longrightarrow> tp_milestones s' = tp_milestones s @ ns \<Longrightarrow> tables_grow s s'"
  unfolding tables_grow_def
  by (intro exI [of _ "tp_milestones s"] exI [of _ ns]) (auto simp: tables_ok_def milestone_grows_refl list_all2_same)

lemma tables_grow_trans:
  assumes "tables_grow s t" and "tables_grow t u"
  shows "tables_grow s u"
proof -
  obtain ws vs where 1: "tp_milestones t = ws @ vs" "list_all2 milestone_grows (tp_milestones s) ws"
    using assms(1) by (auto simp: tables_grow_def)
  obtain xs ys where 2: "tp_milestones u = xs @ ys" "list_all2 milestone_grows (tp_milestones t) xs"
    using assms(2) by (auto simp: tables_grow_def)
  from 2(2) obtain x1 x2 where 3: "xs = x1 @ x2" "list_all2 milestone_grows ws x1" by (auto simp: 1(1) list_all2_append1)
  have "list_all2 milestone_grows (tp_milestones s) x1" using list_all2_trans [OF milestone_grows_trans 1(2) 3(2)] by simp
  then show ?thesis using 2 3 by (auto simp: tables_grow_def)
qed

section \<open>Binding\<close>

lemma bind_milestone_ok:
  assumes b: "bind_milestone a lifecycle symbol level q s = Inr (i, s')" and ok: "tables_ok s" and q: "dec28 q" "0 < q"
  shows "tables_ok s' \<and> tables_grow s s'"
proof (cases "fetch_one (\<lambda>m. tm_lifecycle m = lifecycle \<and> tm_level m = level) (tp_milestones s)")
  case None
  let ?m = "new_milestone a lifecycle symbol level q"
  have s': "s' = s\<lparr>tp_milestones := tp_milestones s @ [?m]\<rparr>" and fresh: "\<forall>m\<in>set (tp_milestones s). tm_id m \<noteq> ba_fresh_milestone a"
    using b None by (auto simp: bind_milestone_def list_ex_iff split: if_splits)
  have z: "ddiv 0 q = 0" by (simp add: ddiv_def dctx.rd_zero)
  have "milestone_ok ?m"
    unfolding milestone_ok_def
    by (intro exI [of _ q] exI [of _ 0]) (use q z in \<open>simp add: progress_def new_milestone_def dec_column_0\<close>)
  then have "tables_ok s'" using ok fresh None
    by (auto simp: s' tables_ok_def new_milestone_def fetch_one_None)
  then show ?thesis using tables_grow_same [OF ok] by (simp add: s')
next
  case (Some m)
  then have "s' = s" using b by (auto simp: bind_milestone_def result_simps split: if_splits)
  then show ?thesis using ok tables_grow_same [OF ok, of s "[]"] by simp
qed

lemma bind_action_ok:
  assumes b: "bind_action a m p i q s = Inr (x, s')" and ok: "tables_ok s" and q: "dec28 q" "0 < q"
  shows "tables_ok s' \<and> tables_grow s s'"
proof (cases "fetch_one (\<lambda>x. ta_intent x = i) (tp_actions s)")
  case None
  let ?x = "new_action a m p i q"
  have s': "s' = s\<lparr>tp_actions := tp_actions s @ [?x]\<rparr>" and fresh: "\<forall>x\<in>set (tp_actions s). ta_id x \<noteq> ba_fresh_action a"
    using b None by (auto simp: bind_action_def list_ex_iff split: if_splits)
  have "action_ok ?x" unfolding action_ok_def
    by (intro exI [of _ q] exI [of _ 0]) (use q in \<open>simp add: progress_def new_action_def dec_column_0\<close>)
  then have "tables_ok s'" using ok fresh by (auto simp: s' tables_ok_def new_action_def)
  then show ?thesis using tables_grow_same [OF ok, of s' "[]"] by (simp add: s')
next
  case (Some y)
  then have "s' = s" using b by (auto simp: bind_action_def split: if_splits)
  then show ?thesis using ok tables_grow_same [OF ok, of s "[]"] by simp
qed

text \<open>The requested quantity fits the decimal context.\<close>

definition bind_fits :: "bind_args \<Rightarrow> bool" where
  "bind_fits a \<longleftrightarrow> (case exact_column ''requested_quantity_decimal'' (dget (ba_intent a) ''requested_quantity_decimal'') of
     Inl _ \<Rightarrow> True | Inr q \<Rightarrow> dec28 q)"

lemma bind_ok:
  assumes b: "bind_take_profit_intent a s = Inr (r, s')" and ok: "tables_ok s" and fits: "bind_fits a"
  shows "tables_ok s' \<and> tables_grow s s'"
proof -
  from b obtain level where l: "take_profit_level (ba_json a) (ba_decision a) (ba_proposal a) = Inr level"
    by (auto simp: bind_take_profit_intent_def result_simps)
  show ?thesis
  proof (cases level)
    case None
    then have "s' = s" using b l by (simp add: bind_take_profit_intent_def)
    then show ?thesis using ok tables_grow_same [OF ok, of s "[]"] by simp
  next
    case (Some n)
    from b l Some obtain q lc sy m s1 i p x where
      q: "exact_column ''requested_quantity_decimal'' (dget (ba_intent a) ''requested_quantity_decimal'') = Inr q" "\<not> q \<le> 0" and
      1: "bind_milestone a lc sy n q s = Inr (m, s1)" and 2: "bind_action a m p i q s1 = Inr (x, s')"
      by (auto simp: bind_take_profit_intent_def Let_def result_simps split: if_splits)
    have d: "dec28 q" using q(1) fits by (simp add: bind_fits_def)
    have p: "0 < q" using q(2) by simp
    from bind_milestone_ok [OF 1 ok d p] have ok1: "tables_ok s1" "tables_grow s s1" by auto
    from bind_action_ok [OF 2 ok1(1) d p] show ?thesis using tables_grow_trans [OF ok1(2)] by blast
  qed
qed

lemma terminal_ok:
  assumes "apply_take_profit_terminal_state i st now s = Inr s'"
  shows "tp_milestones s' = tp_milestones s \<and> tp_links s' = tp_links s
    \<and> map (\<lambda>x. (ta_id x, ta_requested x, ta_filled x)) (tp_actions s') = map (\<lambda>x. (ta_id x, ta_requested x, ta_filled x)) (tp_actions s)"
  using assms by (auto simp: apply_take_profit_terminal_state_def result_simps Let_def intro!: map_update_where split: option.splits)


lemma terminal_tables:
  assumes t: "apply_take_profit_terminal_state i st now s = Inr s'" and ok: "tables_ok s"
  shows "tables_ok s' \<and> tables_grow s s'"
proof -
  note same = terminal_ok [OF t]
  have "map ta_id (tp_actions s') = map fst (map (\<lambda>x. (ta_id x, ta_requested x, ta_filled x)) (tp_actions s'))"
    by (simp add: comp_def)
  also have "\<dots> = map ta_id (tp_actions s)" using same by (simp add: comp_def)
  finally have ids: "map ta_id (tp_actions s') = map ta_id (tp_actions s)" .
  have "action_ok x'" if x': "x' \<in> set (tp_actions s')" for x'
  proof -
    have "(ta_id x', ta_requested x', ta_filled x') \<in> set (map (\<lambda>x. (ta_id x, ta_requested x, ta_filled x)) (tp_actions s))"
      using x' same by (metis (mono_tags, lifting) image_eqI list.set_map)
    then obtain x where "x \<in> set (tp_actions s)" "ta_requested x = ta_requested x'" "ta_filled x = ta_filled x'" by auto
    then show ?thesis using ok unfolding tables_ok_def action_ok_def by metis
  qed
  then have "tables_ok s'" using ok same ids by (simp add: tables_ok_def)
  then show ?thesis using same tables_grow_same [OF ok, of s' "[]"] by simp
qed

section \<open>Fills\<close>

lemma fetch_unique: "distinct (map key rs) \<Longrightarrow> fetch_one (\<lambda>r. key r = k) rs = Some r0 \<Longrightarrow> r \<in> set rs \<Longrightarrow> key r = k \<Longrightarrow> r = r0"
  using fetch_one_Some by (fastforce simp: distinct_map inj_on_def)

lemma action_milestone_Some:
  assumes "action_milestone i s = Some (x, m)" and "tables_ok s"
  shows "x \<in> set (tp_actions s) \<and> m \<in> set (tp_milestones s) \<and> tm_id m = ta_milestone x
    \<and> (\<forall>n\<in>set (tp_milestones s). tm_id n = ta_milestone x \<longrightarrow> n = m)
    \<and> (\<forall>y\<in>set (tp_actions s). ta_id y = ta_id x \<longrightarrow> y = x)"
proof -
  have x: "fetch_one (\<lambda>x. ta_intent x = i \<and> list_ex (\<lambda>m. tm_id m = ta_milestone x) (tp_milestones s)) (tp_actions s) = Some x"
    and m: "fetch_one (\<lambda>m. tm_id m = ta_milestone x) (tp_milestones s) = Some m"
    using assms(1) by (auto simp: action_milestone_def split: option.splits)
  have "\<forall>n\<in>set (tp_milestones s). tm_id n = ta_milestone x \<longrightarrow> n = m"
    using fetch_unique [OF _ m] assms(2) by (auto simp: tables_ok_def)
  moreover have "\<forall>y\<in>set (tp_actions s). ta_id y = ta_id x \<longrightarrow> y = x"
    using assms(2) fetch_one_Some [OF x] by (auto simp: tables_ok_def distinct_map inj_on_def)
  ultimately show ?thesis using fetch_one_Some [OF x] fetch_one_Some [OF m] by auto
qed

lemma progress_advance:
  assumes "progress goal filled g x" and "exact_column c goal = Inr g'" and "exact_column c' filled = Inr x'"
    and "advance g' x' d = Inr (y, r)" and "0 \<le> d"
  shows "progress goal (dec_column y) g y \<and> x \<le> y \<and> r = min 1 (ddiv y g)"
proof -
  have p: "goal = dec_column g" "filled = dec_column x" "dec28 g" "dec28 x" "0 < g" "0 \<le> x" "x \<le> g"
    using assms(1) by (auto simp: progress_def)
  have read: "v = z" if "exact_column k (dec_column z) = Inr v" "dec28 z" for k v z
  proof -
    have "dec_text v = dec_text z" using exact_column_Inr [OF that(1)] by (simp add: dec_column_def)
    moreover have "exact_column k (dec_column z) = Inr z \<or> (\<exists>e. exact_column k (dec_column z) = Inl e)"
      using parse_dec_text [OF is_decimal_dec28 [OF that(2)]] not_blank_text [OF is_decimal_dec28 [OF that(2)]]
      by (auto simp: exact_column_def require_exact_decimal_def decimal_value_def dec_column_def)
    ultimately show ?thesis using that(1) by auto
  qed
  have "g' = g" "x' = x" using assms(2,3) p read by auto
  then show ?thesis using advance_Inr [OF assms(4)] p assms(5) by (auto simp: progress_def)
qed

lemma fill_status_filled: "fill_status r = ''filled'' \<longleftrightarrow> 1 \<le> r"
  by (simp add: fill_status_def)

lemma list_all2_update:
  "(\<And>r. r \<in> set rs \<Longrightarrow> p r \<Longrightarrow> P r (f r)) \<Longrightarrow> (\<And>r. r \<in> set rs \<Longrightarrow> P r r) \<Longrightarrow> list_all2 P rs (update_where p f rs)"
  by (induction rs) auto

lemma advance_tables_ok:
  assumes a: "advance_tables f d x m s = Inr s'" and ok: "tables_ok s" and am: "action_milestone i s0 = Some (x, m)"
    and s0: "tp_actions s0 = tp_actions s" "tp_milestones s0 = tp_milestones s" and d: "0 \<le> d"
  shows "tables_ok s' \<and> tables_grow s s'"
proof -
  have "tables_ok s0" using ok s0 by (simp add: tables_ok_def)
  note xm = action_milestone_Some [OF am this, unfolded s0]
  from a obtain rq pa tg pm af ar mf mr where
    1: "exact_column ''requested_quantity_decimal'' (ta_requested x) = Inr rq"
       "exact_column ''cumulative_filled_quantity_decimal'' (ta_filled x) = Inr pa"
       "advance rq pa d = Inr (af, ar)" and
    2: "exact_column ''target_quantity_decimal'' (tm_target m) = Inr tg"
       "exact_column ''milestone_filled_decimal'' (tm_filled m) = Inr pm"
       "advance tg pm d = Inr (mf, mr)" and
    s': "tp_actions s' = update_where (\<lambda>y. ta_id y = ta_id x) (fill_action (tf_now f) af ar) (tp_actions s)"
        "tp_milestones s' = update_where (\<lambda>n. tm_id n = ta_milestone x) (fill_milestone (tf_now f) mf mr) (tp_milestones s)"
    by (auto simp: advance_tables_def result_simps)
  have mem: "x \<in> set (tp_actions s)" "m \<in> set (tp_milestones s)" using xm by blast+
  obtain g y where gy: "progress (ta_requested x) (ta_filled x) g y"
    using mem(1) ok unfolding tables_ok_def action_ok_def by blast
  obtain h z where hz: "progress (tm_target m) (tm_filled m) h z" "tm_status m = ''filled'' \<longleftrightarrow> 1 \<le> ddiv z h"
    using mem(2) ok unfolding tables_ok_def milestone_ok_def by blast
  note pa = progress_advance [OF gy 1 d] and pm = progress_advance [OF hz(1) 2 d]
  have h: "0 < h" using hz(1) by (simp add: progress_def)
  have act: "action_ok (fill_action (tf_now f) af ar x)" unfolding action_ok_def
    using pa by (intro exI [of _ g] exI [of _ af]) (simp add: fill_action_def)
  have mil: "milestone_ok (fill_milestone (tf_now f) mf mr m)" unfolding milestone_ok_def
    using pm by (intro exI [of _ h] exI [of _ mf]) (simp add: fill_milestone_def fill_status_filled)
  have grow: "milestone_grows m (fill_milestone (tf_now f) mf mr m)"
    unfolding milestone_grows_def
  proof (intro conjI impI)
    show "\<exists>a b. dec28 a \<and> dec28 b \<and> tm_filled m = dec_column a \<and> tm_filled (fill_milestone (tf_now f) mf mr m) = dec_column b \<and> a \<le> b"
      using pm hz(1) by (intro exI [of _ z] exI [of _ mf]) (simp add: fill_milestone_def progress_def)
    assume "tm_status m = ''filled''"
    then have "1 \<le> ddiv z h" using hz(2) by simp
    also have "\<dots> \<le> ddiv mf h" using ddiv_mono [OF h] pm by blast
    finally show "tm_status (fill_milestone (tf_now f) mf mr m) = ''filled''"
      using pm by (simp add: fill_milestone_def fill_status_filled)
  qed (simp add: fill_milestone_def)
  have all: "list_all2 milestone_grows (tp_milestones s) (tp_milestones s')" unfolding s'
    using xm grow ok by (intro list_all2_update) (auto simp: tables_ok_def milestone_grows_refl)
  have "map tm_id (tp_milestones s') = map tm_id (tp_milestones s)"
    "map (\<lambda>m. (tm_lifecycle m, tm_level m)) (tp_milestones s') = map (\<lambda>m. (tm_lifecycle m, tm_level m)) (tp_milestones s)"
    "map ta_id (tp_actions s') = map ta_id (tp_actions s)"
    by (simp_all add: s' map_update_where fill_milestone_def fill_action_def)
  then have "tables_ok s'" using ok act mil xm by (auto simp: tables_ok_def s' dest!: set_update_where)
  moreover have "tables_grow s s'" unfolding tables_grow_def
    by (intro exI [of _ "tp_milestones s'"] exI [of _ "[]"]) (simp add: all)
  ultimately show ?thesis ..
qed

lemma take_profit_fill_result:
  assumes "apply_take_profit_fill f s = Inr s'"
  shows "s' = s \<or> (\<exists>d c p i x m. action_milestone i s = Some (x, m) \<and> 0 < d \<and> \<not> link_exists f s
    \<and> advance_tables f d x m (s\<lparr>tp_links := tp_links s @ [new_link f x d c p]\<rparr>) = Inr s')"
proof (cases "s' = s")
  case False
  then obtain d c p iid where d: "\<not> d \<le> 0" and r: "(case action_milestone (py_str iid) s of
      None \<Rightarrow> Inr s
    | Some (x, m) \<Rightarrow> if link_exists f s then Inr s
        else advance_tables f d x m (s\<lparr>tp_links := tp_links s @ [new_link f x d c p]\<rparr>)) = Inr s'"
    using assms by (auto simp: apply_take_profit_fill_def result_simps split: if_splits)
  then obtain x m where am: "action_milestone (py_str iid) s = Some (x, m)"
    using False by (cases "action_milestone (py_str iid) s") auto
  then have "\<not> link_exists f s" "advance_tables f d x m (s\<lparr>tp_links := tp_links s @ [new_link f x d c p]\<rparr>) = Inr s'"
    using r False by (auto split: if_splits)
  then show ?thesis using am d by fastforce
qed simp

lemma fill_ok:
  assumes f: "apply_take_profit_fill f s = Inr s'" and ok: "tables_ok s"
  shows "tables_ok s' \<and> tables_grow s s'"
  using take_profit_fill_result [OF f]
proof (elim disjE exE conjE)
  assume "s' = s"
  then show ?thesis using ok tables_grow_same [OF ok, of s "[]"] by simp
next
  fix d c p i x m
  assume am: "action_milestone i s = Some (x, m)" and d: "0 < d"
    and a: "advance_tables f d x m (s\<lparr>tp_links := tp_links s @ [new_link f x d c p]\<rparr>) = Inr s'"
  have "tables_ok s' \<and> tables_grow (s\<lparr>tp_links := tp_links s @ [new_link f x d c p]\<rparr>) s'"
    by (rule advance_tables_ok [OF a _ am]) (use ok d in \<open>simp_all add: tables_ok_def\<close>)
  then show ?thesis by (simp add: tables_grow_def)
qed


section \<open>Properties\<close>

inductive milestone_call :: "milestone_tables \<Rightarrow> milestone_tables \<Rightarrow> bool" where
  bound: "bind_take_profit_intent a s = Inr (r, s') \<Longrightarrow> bind_fits a \<Longrightarrow> milestone_call s s'"
| filled: "apply_take_profit_fill f s = Inr s' \<Longrightarrow> milestone_call s s'"
| ended: "apply_take_profit_terminal_state i st now s = Inr s' \<Longrightarrow> milestone_call s s'"

lemma milestone_call_ok: "milestone_call s s' \<Longrightarrow> tables_ok s \<Longrightarrow> tables_ok s' \<and> tables_grow s s'"
  by (induction rule: milestone_call.induct) (simp_all add: bind_ok fill_ok terminal_tables)

lemma milestone_calls_ok: "milestone_call\<^sup>*\<^sup>* s s' \<Longrightarrow> tables_ok s \<Longrightarrow> tables_ok s' \<and> tables_grow s s'"
proof (induction rule: rtranclp_induct)
  case base
  then show ?case using tables_grow_same [of s s "[]"] by simp
next
  case (step y z)
  then show ?case using milestone_call_ok tables_grow_trans by blast
qed

text \<open>C29: when bound quantities have at most 28 digits, the progress of a take-profit level stays between nothing and its target, and is marked as filled exactly when
  the rounded fraction reaches one. It never goes back: any sequence of bindings, broker fills and
  terminal orders keeps every milestone with its target and a filled quantity at least the former one, and
  a filled milestone stays filled.\<close>

theorem milestone_progress_bounded:
  assumes "milestone_call\<^sup>*\<^sup>* s s'" and "tables_ok s" and "m \<in> set (tp_milestones s)"
  shows "\<exists>m'\<in>set (tp_milestones s'). \<exists>g x x'. tm_id m' = tm_id m \<and> tm_target m' = dec_column g
    \<and> tm_filled m = dec_column x \<and> tm_filled m' = dec_column x' \<and> 0 \<le> x \<and> x \<le> x' \<and> x' \<le> g
    \<and> (tm_status m' = ''filled'' \<longleftrightarrow> 1 \<le> ddiv x' g) \<and> (tm_status m = ''filled'' \<longrightarrow> tm_status m' = ''filled'')"
proof -
  have ok': "tables_ok s'" and "tables_grow s s'" using milestone_calls_ok [OF assms(1,2)] by auto
  then obtain ms ns where e: "tp_milestones s' = ms @ ns" "list_all2 milestone_grows (tp_milestones s) ms"
    by (auto simp: tables_grow_def)
  from assms(3) obtain k where k: "k < length (tp_milestones s)" "tp_milestones s ! k = m" by (auto simp: in_set_conv_nth)
  define m' where "m' = ms ! k"
  have m': "milestone_grows m m'" "m' \<in> set (tp_milestones s')" using e k by (auto simp: list_all2_conv_all_nth m'_def)
  obtain x y where xy: "dec28 x" "dec28 y" "tm_filled m = dec_column x" "tm_filled m' = dec_column y" "x \<le> y"
    using m'(1) by (auto simp: milestone_grows_def)
  obtain g z where gz: "progress (tm_target m') (tm_filled m') g z" "tm_status m' = ''filled'' \<longleftrightarrow> 1 \<le> ddiv z g"
    using m'(2) ok' by (auto simp: tables_ok_def milestone_ok_def)
  obtain h w where hw: "progress (tm_target m) (tm_filled m) h w" using assms(2,3) by (auto simp: tables_ok_def milestone_ok_def)
  have "y = z" "x = w" using xy gz(1) hw dec_column_28 unfolding progress_def by metis+
  then show ?thesis using m' xy gz hw
    by (intro bexI [of _ m'] exI [of _ g] exI [of _ x] exI [of _ y]) (auto simp: milestone_grows_def progress_def)
qed

text \<open>a broker fill counts once. After a fill has changed the tables, applying it again, even as another fill event with a new
  id at another time, changes nothing as long as its broker event key is the same.\<close>

theorem milestone_fill_counts_once:
  assumes "apply_take_profit_fill f s = Inr s'" and "tf_key f' = tf_key f" and "tf_intent f' = tf_intent f"
    and "tf_delta f' = tf_delta f" and "tf_cumulative f' = tf_cumulative f" and "tf_price f' = tf_price f"
    and "s' \<noteq> s"
  shows "apply_take_profit_fill f' s' = Inr s'"
proof -
  obtain d0 c0 p0 i0 x0 m0 where
    "advance_tables f d0 x0 m0 (s\<lparr>tp_links := tp_links s @ [new_link f x0 d0 c0 p0]\<rparr>) = Inr s'"
    using take_profit_fill_result [OF assms(1)] assms(7) by blast
  then have "tp_links s' = tp_links s @ [new_link f x0 d0 c0 p0]"
    by (auto simp: advance_tables_def result_simps)
  then have linked: "link_exists f' s'" using assms(2) by (simp add: link_exists_def new_link_def)
  show ?thesis
  proof (cases "lower (or_str [dget (tf_intent f) ''side'']) = ''sell''")
    case True
    then obtain d c p where "milestone_decimal (tf_delta f) ''take-profit delta quantity'' = Inr d"
      "milestone_decimal (tf_cumulative f) ''take-profit cumulative quantity'' = Inr c"
      "milestone_decimal (tf_price f) ''take-profit fill price'' = Inr p"
      "d \<le> 0 \<or> (\<exists>i. dget_req (tf_intent f) ''id'' = Inr i)"
      using assms(1) by (auto simp: apply_take_profit_fill_def result_simps split: if_splits)
    then show ?thesis using True linked assms(3-6) by (auto simp: apply_take_profit_fill_def split: option.split)
  next
    case False
    then show ?thesis using assms(3) by (simp add: apply_take_profit_fill_def)
  qed
qed

text \<open>only fills advance a milestone. Whatever transitions are requested of whatever orders, terminal ones included,
  no milestone, no fill link and no filled quantity of an action changes.\<close>

theorem order_states_leave_progress:
  assumes "\<forall>rq\<in>set rqs. ee_milestone_terminal (rq_env rq) = apply_take_profit_terminal_state"
  shows "tp_milestones (milestones (run_requests rqs s)) = tp_milestones (milestones s)
    \<and> tp_links (milestones (run_requests rqs s)) = tp_links (milestones s)
    \<and> map (\<lambda>x. (ta_id x, ta_requested x, ta_filled x)) (tp_actions (milestones (run_requests rqs s)))
      = map (\<lambda>x. (ta_id x, ta_requested x, ta_filled x)) (tp_actions (milestones s))"
  using assms unfolding run_requests_def
proof (induction rqs arbitrary: s)
  case (Cons rq rqs)
  have one: "milestones (request_step rq s) = milestones s
    \<or> (\<exists>i st now. apply_take_profit_terminal_state i st now (milestones s) = Inr (milestones (request_step rq s)))"
  proof (cases "intent_transition (rq_env rq) (rq_intent rq) (rq_target rq) (rq_args rq) s")
    case (Inr p)
    then obtain r s1 where p: "intent_transition (rq_env rq) (rq_intent rq) (rq_target rq) (rq_args rq) s = Inr (r, s1)" by (cases p) auto
    have "milestones s1 = milestones s
      \<or> (\<exists>i st now. apply_take_profit_terminal_state i st now (milestones s) = Inr (milestones s1))"
      using p Cons.prems by (auto simp: intent_transition_def write_transition_def Let_def result_simps split: if_splits)
    then show ?thesis by (simp add: request_step_def p)
  qed (simp add: request_step_def)
  then show ?case using Cons.IH [of "request_step rq s"] Cons.prems terminal_ok by fastforce
qed simp


text \<open>A position of ten units whose first level asks for four; a fill of three, then the order is cancelled.\<close>

definition sample_bind :: bind_args where
  "sample_bind = \<lparr>ba_json = (\<lambda>_. None), ba_decision = DecisionDict [''take_profit_level'' \<mapsto> PyInt 1],
     ba_intent = [''id'' \<mapsto> PyStr ''i1'', ''side'' \<mapsto> PyStr ''sell'', ''symbol'' \<mapsto> PyStr ''abc'',
       ''position_lifecycle_id'' \<mapsto> PyStr ''l1'', ''proposal_id'' \<mapsto> PyStr ''p1'',
       ''requested_quantity_decimal'' \<mapsto> PyStr ''4''],
     ba_proposal = [''position_management_decision_type'' \<mapsto> PyStr ''TAKE_PROFIT_PARTIAL''],
     ba_now = ''t0'', ba_fresh_milestone = ''m1'', ba_fresh_action = ''x1''\<rparr>"

definition sample_tables :: milestone_tables where
  "sample_tables = \<lparr>tp_milestones = [], tp_actions = [], tp_links = [],
     tp_lifecycles = [\<lparr>lc_id = ''l1'', lc_symbol = ''ABC'', lc_state = ''active''\<rparr>],
     tp_management = [\<lparr>pm_symbol = ''ABC'', pm_lifecycle = ''l1'', pm_hit_1 = 0, pm_hit_2 = 0, pm_hit_3 = 0, pm_updated = ''t0''\<rparr>]\<rparr>"

definition sample_fill :: "string \<Rightarrow> int \<Rightarrow> take_profit_fill" where
  "sample_fill k q = \<lparr>tf_intent = [''id'' \<mapsto> PyStr ''i1'', ''side'' \<mapsto> PyStr ''SELL''], tf_event = ''e'' @ k, tf_key = k,
     tf_cumulative = PyInt q, tf_delta = PyInt q, tf_price = PyInt 10, tf_occurred = ''t1'', tf_now = ''t1'', tf_fresh = ''f'' @ k\<rparr>"

definition bound_tables :: milestone_tables where
  "bound_tables = (case bind_take_profit_intent sample_bind sample_tables of Inl _ \<Rightarrow> sample_tables | Inr (_, s) \<Rightarrow> s)"

definition filled_tables :: milestone_tables where
  "filled_tables = (case apply_take_profit_fill (sample_fill ''k1'' 3) bound_tables of Inl _ \<Rightarrow> bound_tables | Inr s \<Rightarrow> s)"

lemma sample_bound: "bind_take_profit_intent sample_bind sample_tables = Inr (Some (''m1'', ''x1'', 1), bound_tables)"
  by code_simp

lemma sample_filled: "apply_take_profit_fill (sample_fill ''k1'' 3) bound_tables = Inr filled_tables"
  by code_simp

lemma bound_tables_ok: "tables_ok bound_tables"
proof -
  have "exact_column ''requested_quantity_decimal'' (dget (ba_intent sample_bind) ''requested_quantity_decimal'') = Inr 4" by code_simp
  then have "bind_fits sample_bind" using dec28_of_int [of 4] by (simp add: bind_fits_def)
  moreover have "tables_ok sample_tables" by (simp add: tables_ok_def sample_tables_def)
  ultimately show ?thesis using bind_ok [OF sample_bound] by blast
qed

theorem milestone_progress_bounded_witness:
  "\<exists>m'\<in>set (tp_milestones filled_tables). \<exists>g x x'. tm_id m' = ''m1'' \<and> tm_target m' = dec_column g
    \<and> tm_filled m' = dec_column x' \<and> 0 \<le> x \<and> x \<le> x' \<and> x' \<le> g"
proof -
  have m: "hd (tp_milestones bound_tables) \<in> set (tp_milestones bound_tables)"
    "tm_id (hd (tp_milestones bound_tables)) = ''m1''" by code_simp+
  have "milestone_call\<^sup>*\<^sup>* bound_tables filled_tables" using sample_filled by (blast intro: milestone_call.filled)
  from milestone_progress_bounded [OF this bound_tables_ok m(1)] show ?thesis unfolding m(2) by blast
qed

theorem milestone_fill_counts_once_witness:
  "apply_take_profit_fill (sample_fill ''k1'' 3\<lparr>tf_event := ''e2'', tf_fresh := ''f2'', tf_now := ''t9''\<rparr>) filled_tables = Inr filled_tables"
proof -
  have "filled_tables \<noteq> bound_tables" by code_simp
  then show ?thesis using milestone_fill_counts_once [OF sample_filled] by (simp add: sample_fill_def)
qed

text \<open>The order of the sample fill is cancelled: its milestone keeps its three units.\<close>

definition milestone_store :: "milestone_tables durable_store" where
  "milestone_store = \<lparr>order_intents = order_intents sample_store, order_events = [], orders = [], risk_reservations = [],
     milestones = filled_tables\<rparr>"

definition milestone_requests :: "milestone_tables request list" where
  "milestone_requests = [\<lparr>rq_env = \<lparr>ee_now = ''t5'', ee_fresh = ''f5'', ee_milestone_terminal = apply_take_profit_terminal_state\<rparr>,
     rq_intent = ''i1'', rq_target = EXPIRED,
     rq_args = \<lparr>ta_event_type = ''test'', ta_broker_order = None, ta_error = None, ta_summary = None, ta_expected = None\<rparr>\<rparr>]"

theorem order_states_leave_progress_witness:
  "tp_milestones (milestones (run_requests milestone_requests milestone_store)) = tp_milestones filled_tables
   \<and> map ta_status (tp_actions (milestones (run_requests milestone_requests milestone_store))) = [''partially_filled_expired'']"
proof
  show "tp_milestones (milestones (run_requests milestone_requests milestone_store)) = tp_milestones filled_tables"
    using order_states_leave_progress [of milestone_requests milestone_store]
    by (simp add: milestone_requests_def milestone_store_def)
qed code_simp


end
