(* ===== verification/Fill_Recording.thy ===== *)
theory Fill_Recording
  imports Profit_Milestones
begin

text \<open>
  \<open>DurableExecutionStore.record_fill\<close> of \<open>app/execution.py\<close>: one broker fill, recorded in one immediate
  transaction over the intent, its event log, its order row and reservation (\<open>Intent_Store\<close>), the immutable
  broker evidence, the fill events, the FIFO ledger (\<open>Lot_Ledger\<close>), the take-profit milestones
  (\<open>Profit_Milestones\<close>) and the aggregate fill row. The clock, the UUIDs, SHA-256, the two JSON printers and
  the implementation shortfall (a binary float that no modelled code reads) are arguments. The REAL
  columns are projections and are left out; the values of a broker response are scalars.
\<close>

section \<open>State\<close>

record fill_evidence =
  fe_id :: string
  fe_intent :: string
  fe_key :: string
  fe_order :: string
  fe_client :: string
  fe_symbol :: string
  fe_side :: string
  fe_status :: string
  fe_payload :: string
  fe_fingerprint :: string
  fe_source :: string
  fe_account :: "string option"
  fe_captured :: string

record fill_event =
  fv_id :: string
  fv_intent :: string
  fv_key :: string
  fv_order :: "string option"
  fv_cumulative :: string
  fv_delta :: string
  fv_price :: string
  fv_fees :: string
  fv_adjustments :: string
  fv_occurred :: string
  fv_received :: string
  fv_payload :: string

record fill_row =
  fr_run :: pyval
  fr_order :: string
  fr_quantity :: string
  fr_price :: string
  fr_filled_at :: string
  fr_payload :: string
  fr_shortfall :: pyval
  fr_notified_at :: pyval
  fr_notify_status :: pyval
  fr_notify_error :: pyval

record fill_store = "milestone_tables durable_store" +
  fill_ledger :: ledger
  broker_evidence :: "fill_evidence list"
  broker_fills :: "fill_event list"
  aggregate_fills :: "fill_row list"

text \<open>What a call reads besides the tables, and its arguments. A broker response is a dictionary in the
  order of its keys.\<close>

record record_env =
  rc_now :: string
  rc_fresh :: "nat \<Rightarrow> string"
  rc_testing :: bool
  rc_canonical_json :: "pydict \<Rightarrow> string"
  rc_dumps :: "pydict \<Rightarrow> string"
  rc_sha256 :: "string \<Rightarrow> string"
  rc_shortfall :: "pyval \<Rightarrow> pyval \<Rightarrow> pyval \<Rightarrow> rat \<Rightarrow> pyval"
  rc_ledger :: fill_env

record record_args =
  rf_intent :: string
  rf_cumulative :: pyval
  rf_price :: pyval
  rf_key :: string
  rf_order :: "string option"
  rf_occurred :: "string option"
  rf_fees :: pyval
  rf_adjustments :: pyval
  rf_source :: string
  rf_average :: bool
  rf_evidence :: "(string \<times> pyval) list option"
  rf_account :: "string option"

definition text_val :: "string option \<Rightarrow> pyval" where
  "text_val t = (case t of None \<Rightarrow> PyNone | Some s \<Rightarrow> PyStr s)"

text \<open>The row of an intent as the dictionary the other components read.\<close>

definition intent_row :: "order_intent \<Rightarrow> pydict" where
  "intent_row r = (oi_data r)(''id'' \<mapsto> PyStr (oi_id r), ''state'' \<mapsto> PyStr (oi_state r),
     ''approval_id'' \<mapsto> text_val (oi_approval r), ''broker_order_id'' \<mapsto> text_val (oi_broker_order r),
     ''transition_counter'' \<mapsto> PyInt (oi_counter r), ''terminal_at'' \<mapsto> text_val (oi_terminal_at r),
     ''updated_at'' \<mapsto> PyStr (oi_updated r))"

text \<open>\<open>occurred_at or now\<close>\<close>

definition occurred :: "record_env \<Rightarrow> record_args \<Rightarrow> string" where
  "occurred env a = (case rf_occurred a of Some t \<Rightarrow> if t \<noteq> [] then t else rc_now env | None \<Rightarrow> rc_now env)"

section \<open>The figures of a fill\<close>

record fill_figures =
  fg_cumulative :: rat
  fg_price :: rat
  fg_fees :: rat
  fg_adjustments :: rat

definition read_figures :: "record_args \<Rightarrow> fill_figures res" where
  "read_figures a =
     rbind (decimal_required (rf_cumulative a) ''cumulative_quantity'' (Some 0)) (\<lambda>cumulative.
     rbind (decimal_required (rf_price a) ''fill_price'' (Some 0)) (\<lambda>price.
     rbind (decimal_required (rf_fees a) ''fees'' (Some 0)) (\<lambda>fees.
     rbind (decimal_required (rf_adjustments a) ''adjustments'' None) (\<lambda>adjustments.
     if cumulative = 0 then Inl (ValueError ''cumulative_quantity must be positive for a fill event'')
     else if price = 0 then Inl (ValueError ''fill_price must be positive for a fill event'')
     else Inr \<lparr>fg_cumulative = cumulative, fg_price = price, fg_fees = fees, fg_adjustments = adjustments\<rparr>))))"

definition requested_authority :: "order_intent \<Rightarrow> rat res" where
  "requested_authority r = (let v = dget (oi_data r) ''requested_quantity_decimal'' in
     decimal_required (if \<not> blank v then v else dget (oi_data r) ''requested_quantity'') ''requested_quantity'' (Some 0))"

section \<open>Broker evidence\<close>

text \<open>\<open>_broker_evidence_safe\<close> on a scalar, and the keys it keeps.\<close>

fun broker_evidence_safe :: "pyval \<Rightarrow> pyval res" where
  "broker_evidence_safe (PyDec d) = rbind (decimal_text (PyDec d)) (\<lambda>t. Inr (PyStr t))"
| "broker_evidence_safe (PyFloat d) = Inr (PyStr (float_repr d))"
| "broker_evidence_safe v = Inr v"

definition kept_key :: "string \<Rightarrow> bool" where
  "kept_key k \<longleftrightarrow> \<not> is_substring ''secret'' (lower k) \<and> \<not> is_substring ''token'' (lower k) \<and> \<not> is_substring ''key'' (lower k)"

definition broker_evidence_payload :: "(string \<times> pyval) list \<Rightarrow> pydict res" where
  "broker_evidence_payload raw =
     rbind (res_map (\<lambda>(k, v). rbind (broker_evidence_safe v) (\<lambda>w. Inr (k, w))) (filter (\<lambda>(k, v). kept_key k) raw)) (\<lambda>kvs.
       Inr (map_of kvs))"

definition broker_evidence_fingerprint :: "record_env \<Rightarrow> pydict \<Rightarrow> string" where
  "broker_evidence_fingerprint env payload = rc_sha256 env (rc_canonical_json env payload)"

definition fill_status_text :: "fill_figures \<Rightarrow> rat \<Rightarrow> string" where
  "fill_status_text g requested = (if fg_cumulative g \<ge> requested then ''filled'' else ''partially_filled'')"

text \<open>A call without a broker response is refused outside of tests.\<close>

definition given_evidence :: "record_env \<Rightarrow> record_args \<Rightarrow> order_intent \<Rightarrow> fill_figures \<Rightarrow> rat \<Rightarrow> (string \<times> pyval) list res" where
  "given_evidence env a r g requested = (case rf_evidence a of
     Some e \<Rightarrow> Inr e
   | None \<Rightarrow>
       if \<not> rc_testing env then Inl (ValueError ''verified broker evidence is required before recording a fill'')
       else Inr [(''source'', PyStr ''test_fixture_broker_evidence''),
         (''broker_order_id'', PyStr (case rf_order a of Some t \<Rightarrow> if t \<noteq> [] then t else ''test-broker-order:'' @ rf_intent a
            | None \<Rightarrow> ''test-broker-order:'' @ rf_intent a)),
         (''client_order_id'', dget (oi_data r) ''client_order_id''),
         (''symbol'', dget (oi_data r) ''symbol''), (''side'', dget (oi_data r) ''side''),
         (''status'', PyStr (fill_status_text g requested)),
         (''execution_id'', PyStr (rf_key a)),
         (''filled_qty'', PyStr (dec_text (fg_cumulative g))), (''filled_avg_price'', PyStr (dec_text (fg_price g))),
         (''fees'', PyStr (dec_text (fg_fees g))), (''adjustments'', PyStr (dec_text (fg_adjustments g)))])"

record evidence_identity =
  id_order :: string
  id_client :: string
  id_symbol :: string
  id_side :: string
  id_status :: string

definition read_identity :: "record_args \<Rightarrow> order_intent \<Rightarrow> fill_figures \<Rightarrow> rat \<Rightarrow> pydict \<Rightarrow> evidence_identity" where
  "read_identity a r g requested p =
     \<lparr>id_order = or_str [dget p ''broker_order_id'', text_val (rf_order a), text_val (oi_broker_order r)],
      id_client = or_str [dget p ''client_order_id'', dget (oi_data r) ''client_order_id''],
      id_symbol = upper (or_str [dget p ''symbol'', dget (oi_data r) ''symbol'']),
      id_side = lower (or_str [dget p ''side'', dget (oi_data r) ''side'']),
      id_status = lower (py_str (py_or (dget p ''status'') (PyStr (fill_status_text g requested))))\<rparr>"

definition FILL_STATUSES :: "string list" where
  "FILL_STATUSES = [''partially_filled'', ''partial_fill'', ''filled'', ''late_fill_after_cancelled'']"

definition check_reported :: "pyval \<Rightarrow> string \<Rightarrow> rat \<Rightarrow> string \<Rightarrow> unit res" where
  "check_reported reported label value message =
     (if blank reported then Inr ()
      else rbind (decimal_value reported label (Some 0) False) (\<lambda>x.
        if x \<noteq> Some value then Inl (ValueError message) else Inr ()))"

definition check_identity :: "order_intent \<Rightarrow> fill_figures \<Rightarrow> pydict \<Rightarrow> evidence_identity \<Rightarrow> unit res" where
  "check_identity r g p d =
     (if id_order d = [] \<or> id_client d = []
      then Inl (ValueError ''broker evidence must contain broker and client order identities'')
      else if id_client d \<noteq> py_str (dget (oi_data r) ''client_order_id'')
      then Inl (ValueError ''broker evidence client-order identity does not match intent'')
      else if oi_broker_order r \<notin> {None, Some []} \<and> Some (id_order d) \<noteq> oi_broker_order r
      then Inl (ValueError ''broker evidence broker-order identity does not match intent'')
      else if id_symbol d \<noteq> upper (py_str (dget (oi_data r) ''symbol'')) \<or> id_side d \<noteq> lower (py_str (dget (oi_data r) ''side''))
      then Inl (ValueError ''broker evidence symbol/side does not match intent'')
      else if id_status d \<notin> set FILL_STATUSES then Inl (ValueError ''broker evidence status is not a fill status'')
      else rbind (check_reported (dget_or p ''filled_qty'' (dget p ''cumulative_quantity'')) ''broker evidence filled quantity''
                    (fg_cumulative g) ''broker evidence quantity does not match the fill event'') (\<lambda>_.
        check_reported (dget_or p ''filled_avg_price'' (dget p ''fill_price'')) ''broker evidence fill price''
                    (fg_price g) ''broker evidence price does not match the fill event''))"

definition bound_payload :: "record_args \<Rightarrow> order_intent \<Rightarrow> fill_figures \<Rightarrow> evidence_identity \<Rightarrow> pydict \<Rightarrow> pydict" where
  "bound_payload a r g d p = p(''intent_id'' \<mapsto> PyStr (oi_id r), ''broker_event_key'' \<mapsto> PyStr (rf_key a),
     ''broker_order_id'' \<mapsto> PyStr (id_order d), ''client_order_id'' \<mapsto> PyStr (id_client d),
     ''symbol'' \<mapsto> PyStr (id_symbol d), ''side'' \<mapsto> PyStr (id_side d), ''status'' \<mapsto> PyStr (id_status d),
     ''filled_qty'' \<mapsto> PyStr (dec_text (fg_cumulative g)), ''filled_avg_price'' \<mapsto> PyStr (dec_text (fg_price g)),
     ''fees'' \<mapsto> PyStr (dec_text (fg_fees g)), ''adjustments'' \<mapsto> PyStr (dec_text (fg_adjustments g)))"

definition new_evidence :: "record_env \<Rightarrow> record_args \<Rightarrow> order_intent \<Rightarrow> evidence_identity \<Rightarrow> pydict \<Rightarrow> fill_evidence" where
  "new_evidence env a r d p = (let fingerprint = broker_evidence_fingerprint env p in
     \<lparr>fe_id = take 32 fingerprint, fe_intent = oi_id r, fe_key = rf_key a, fe_order = id_order d, fe_client = id_client d,
      fe_symbol = id_symbol d, fe_side = id_side d, fe_status = id_status d, fe_payload = rc_canonical_json env p,
      fe_fingerprint = fingerprint, fe_source = py_str (py_or (dget p ''source'') (PyStr (rf_source a))),
      fe_account = rf_account a, fe_captured = occurred env a\<rparr>)"

text \<open>
  The evidence of the fill is stored, or compared with what is stored under its key. \<open>Inr None\<close> is
  the early return of a fill that is already recorded.
\<close>

definition bind_evidence :: "fill_evidence \<Rightarrow> fill_store \<Rightarrow> fill_store option res" where
  "bind_evidence e s =
     (case fetch_one (\<lambda>x. fe_key x = fe_key e) (broker_evidence s) of
        Some x \<Rightarrow>
          if fe_intent x \<noteq> fe_intent e \<or> fe_fingerprint x \<noteq> fe_fingerprint e \<or> fe_order x \<noteq> fe_order e \<or> fe_client x \<noteq> fe_client e
          then Inl (ValueError ''duplicate broker fill event payload conflicts with immutable evidence'')
          else if list_ex (\<lambda>f. fv_key f = fe_key e) (broker_fills s) then Inr None else Inr (Some s)
      | None \<Rightarrow>
          if list_ex (\<lambda>x. fe_id x = fe_id e \<or> fe_fingerprint x = fe_fingerprint e) (broker_evidence s)
          then Inl (IntegrityError ''UNIQUE constraint failed: broker_fill_evidence'')
          else Inr (Some (s\<lparr>broker_evidence := broker_evidence s @ [e]\<rparr>)))"

definition adopt_broker_order :: "string \<Rightarrow> string \<Rightarrow> order_intent \<Rightarrow> ('m, 'z) durable_store_scheme \<Rightarrow> ('m, 'z) durable_store_scheme" where
  "adopt_broker_order now order_id r s =
     (if oi_broker_order r \<in> {None, Some []}
      then s\<lparr>order_intents := update_where (\<lambda>x. oi_id x = oi_id r)
             (\<lambda>x. x\<lparr>oi_broker_order := Some order_id, oi_updated := now\<rparr>) (order_intents s)\<rparr>
      else s)"

section \<open>Writing a fill event and its log entry\<close>

definition new_fill_event :: "record_env \<Rightarrow> record_args \<Rightarrow> order_intent \<Rightarrow> fill_figures \<Rightarrow> rat \<Rightarrow> rat \<Rightarrow> pydict \<Rightarrow> fill_event" where
  "new_fill_event env a r g delta price detail =
     \<lparr>fv_id = rc_fresh env 0, fv_intent = rf_intent a, fv_key = rf_key a, fv_order = rf_order a,
      fv_cumulative = dec_text (fg_cumulative g), fv_delta = dec_text delta, fv_price = dec_text price,
      fv_fees = dec_text (fg_fees g), fv_adjustments = dec_text (fg_adjustments g), fv_occurred = occurred env a,
      fv_received = rc_now env, fv_payload = rc_dumps env detail\<rparr>"

definition insert_fill_event :: "fill_event \<Rightarrow> fill_store \<Rightarrow> fill_store res" where
  "insert_fill_event f s =
     (if list_ex (\<lambda>x. fv_id x = fv_id f \<or> fv_key x = fv_key f) (broker_fills s)
      then Inl (IntegrityError ''UNIQUE constraint failed: broker_fill_events'')
      else Inr (s\<lparr>broker_fills := broker_fills s @ [f]\<rparr>))"

definition insert_order_event :: "order_event \<Rightarrow> ('m, 'z) durable_store_scheme \<Rightarrow> ('m, 'z) durable_store_scheme res" where
  "insert_order_event e s =
     (if \<exists>f\<in>set (order_events s). oe_id f = oe_id e \<or> oe_key f = oe_key e
      then Inl (IntegrityError ''UNIQUE constraint failed: order_events'')
      else Inr (s\<lparr>order_events := order_events s @ [e]\<rparr>))"

definition fill_log_entry ::
  "record_env \<Rightarrow> record_args \<Rightarrow> order_intent \<Rightarrow> string \<Rightarrow> string \<Rightarrow> string \<Rightarrow> string \<Rightarrow> event_fill \<Rightarrow> order_event" where
  "fill_log_entry env a r key source destination type f =
     \<lparr>oe_id = rc_fresh env 1, oe_intent = rf_intent a, oe_key = key, oe_from = Some source, oe_to = destination, oe_type = type,
      oe_error = None, oe_summary = None, oe_created = rc_now env, oe_counter = oi_counter r + 1, oe_fill = Some f, oe_origin = None\<rparr>"

section \<open>A late report of a lower quantity\<close>

definition count_transition :: "string \<Rightarrow> int \<Rightarrow> order_intent \<Rightarrow> order_intent" where
  "count_transition now n r = r\<lparr>oi_counter := n, oi_updated := now\<rparr>"

definition distrust_ledger :: "string \<Rightarrow> string \<Rightarrow> ledger \<Rightarrow> ledger" where
  "distrust_ledger now moment l = l\<lparr>pnl_ledger_status := map_option (\<lambda>st. st\<lparr>status_confidence := ''partially_reconstructed'',
     status_provenance := ''late lower cumulative broker event; authoritative history required'',
     last_event_at := Some moment, status_updated_at := now\<rparr>) (pnl_ledger_status l)\<rparr>"

definition retain_quantity ::
  "record_env \<Rightarrow> record_args \<Rightarrow> order_intent \<Rightarrow> fill_figures \<Rightarrow> fill_evidence \<Rightarrow> rat \<Rightarrow> fill_store \<Rightarrow> fill_store res" where
  "retain_quantity env a r g e previous s =
     rbind (insert_fill_event (new_fill_event env a r g 0 (fg_price g)
         [''out_of_order'' \<mapsto> PyBool True, ''retained_cumulative'' \<mapsto> PyStr (dec_text previous),
          ''canonical_decimal_evidence'' \<mapsto> PyBool True, ''broker_evidence_id'' \<mapsto> PyStr (fe_id e),
          ''broker_evidence_fingerprint'' \<mapsto> PyStr (fe_fingerprint e)]) s) (\<lambda>s1.
     let s2 = s1\<lparr>fill_ledger := distrust_ledger (rc_now env) (occurred env a) (fill_ledger s1)\<rparr> in
     rbind (insert_order_event (fill_log_entry env a r (rf_intent a @ '':out_of_order_fill:'' @ rf_key a) (oi_state r) (oi_state r)
         ''out_of_order_fill_ignored''
         \<lparr>ef_key = None, ef_quantity = dec_text (fg_cumulative g), ef_price = dec_text (fg_price g),
          ef_detail = rc_dumps env [''reported'' \<mapsto> PyStr (dec_text (fg_cumulative g)), ''retained'' \<mapsto> PyStr (dec_text previous)]\<rparr>) s2) (\<lambda>s3.
     Inr (s3\<lparr>order_intents := update_where (\<lambda>x. oi_id x = rf_intent a) (count_transition (rc_now env) (oi_counter r + 1))
       (order_intents s3)\<rparr>)))"

section \<open>A fill that advances the order\<close>

text \<open>\<open>legacy_float\<close>: the decimal that the \<open>repr\<close> of the nearest binary float denotes, which has the fewest
  digits of those that are read back as that float, and of these is the closest.\<close>

definition candidates_at :: "nat \<Rightarrow> rat \<Rightarrow> rat list" where
  "candidates_at d v = (let q = 10 powi (lead 10 v - int d); lo = of_int \<lfloor>v / q\<rfloor> * q; hi = of_int \<lceil>v / q\<rceil> * q
     in filter (\<lambda>y. binary64 y = v) (if v - lo \<le> hi - v then [lo, hi] else [hi, lo]))"

fun shortest_decimal :: "nat list \<Rightarrow> rat \<Rightarrow> rat" where
  "shortest_decimal [] v = v"
| "shortest_decimal (d # ds) v = (case candidates_at d v of [] \<Rightarrow> shortest_decimal ds v | y # ys \<Rightarrow> y)"

definition repr_decimal :: "rat \<Rightarrow> rat" where
  "repr_decimal v = (if v = 0 then 0 else shortest_decimal [1..<18] v)"

definition legacy_val :: "rat \<Rightarrow> pyval" where
  "legacy_val x = PyFloat (Fin (repr_decimal (binary64 x)))"

text \<open>The price of the new units and the new average price.\<close>

definition fill_prices :: "bool \<Rightarrow> rat \<Rightarrow> rat \<Rightarrow> rat \<Rightarrow> rat \<Rightarrow> rat \<Rightarrow> rat \<times> rat" where
  "fill_prices averaged cumulative price previous prior_avg delta =
     (if averaged \<and> delta > 0
      then (max 0 (ddiv (dsub (dmul cumulative price) (dmul previous prior_avg)) delta), price)
      else (price, ddiv (dadd (dmul previous prior_avg) (dmul delta price)) cumulative))"

definition late_fill :: "order_state \<Rightarrow> rat \<Rightarrow> rat \<Rightarrow> bool" where
  "late_fill current cumulative previous \<longleftrightarrow> current = CANCELLED \<and> cumulative > previous"

definition fill_target :: "order_state \<Rightarrow> rat \<Rightarrow> rat \<Rightarrow> rat \<Rightarrow> order_state" where
  "fill_target current cumulative previous requested =
     (if late_fill current cumulative previous then current
      else if cumulative \<ge> requested then FILLED else PARTIALLY_FILLED)"

text \<open>The ledger and the milestones, inside the transaction of the fill.\<close>

definition ledger_fill :: "record_env \<Rightarrow> record_args \<Rightarrow> order_intent \<Rightarrow> fill_figures \<Rightarrow> rat \<Rightarrow> rat \<Rightarrow> fill_args" where
  "ledger_fill env a r g delta price = \<lparr>fa_intent = intent_row r, fa_event_key = rf_key a, fa_delta_quantity = PyDec (Fin delta),
     fa_fill_price = PyDec (Fin price), fa_occurred_at = occurred env a, fa_fees = PyDec (Fin (fg_fees g)),
     fa_adjustments = PyDec (Fin (fg_adjustments g)), fa_source = rf_source a, fa_timezone = None\<rparr>"

definition milestone_fill :: "record_env \<Rightarrow> record_args \<Rightarrow> order_intent \<Rightarrow> fill_figures \<Rightarrow> rat \<Rightarrow> rat \<Rightarrow> take_profit_fill" where
  "milestone_fill env a r g delta price = \<lparr>tf_intent = intent_row r, tf_event = rc_fresh env 0, tf_key = rf_key a,
     tf_cumulative = legacy_val (fg_cumulative g), tf_delta = legacy_val delta, tf_price = legacy_val price,
     tf_occurred = occurred env a, tf_now = rc_now env, tf_fresh = rc_fresh env 2\<rparr>"

definition account_fill :: "record_env \<Rightarrow> record_args \<Rightarrow> order_intent \<Rightarrow> fill_figures \<Rightarrow> rat \<Rightarrow> rat \<Rightarrow> fill_store \<Rightarrow> fill_store res" where
  "account_fill env a r g delta price s =
     rbind (apply_fill_in_transaction (rc_ledger env) (ledger_fill env a r g delta price) (fill_ledger s)) (\<lambda>l.
     rbind (apply_take_profit_fill (milestone_fill env a r g delta price) (milestones s)) (\<lambda>m.
     Inr (s\<lparr>fill_ledger := l, milestones := m\<rparr>)))"

definition fill_intent :: "string \<Rightarrow> string option \<Rightarrow> order_state \<Rightarrow> rat \<Rightarrow> rat \<Rightarrow> pyval \<Rightarrow> int \<Rightarrow> order_intent \<Rightarrow> order_intent" where
  "fill_intent now order target cumulative average shortfall n r = r\<lparr>
     oi_state := state_value target, oi_broker_order := coalesce order (oi_broker_order r), oi_updated := now,
     oi_terminal_at := (if target = FILLED then Some now else None), oi_counter := n,
     oi_data := (oi_data r)(''filled_quantity_decimal'' \<mapsto> PyStr (dec_text cumulative),
       ''average_fill_price_decimal'' \<mapsto> PyStr (dec_text average), ''implementation_shortfall_bps'' \<mapsto> shortfall,
       ''decimal_provenance'' \<mapsto> PyStr EXACT_DECIMAL_PROVENANCE,
       ''decimal_accounting_version'' \<mapsto> PyStr FIXED_POINT_ACCOUNTING_VERSION)\<rparr>"

text \<open>The share of the reservation that is still to be filled.\<close>

definition remaining_ratio :: "bool \<Rightarrow> rat \<Rightarrow> rat \<Rightarrow> rat" where
  "remaining_ratio late requested cumulative = (if late then 0 else ddiv (max 0 (dsub requested cumulative)) requested)"

definition reserve_fill :: "string \<Rightarrow> bool \<Rightarrow> rat \<Rightarrow> rat \<Rightarrow> reservation \<Rightarrow> reservation" where
  "reserve_fill now released notional risk x = x\<lparr>rr_active_notional := dec_text notional, rr_active_risk := dec_text risk,
     rr_state := (if released then ''released'' else ''active''),
     rr_released_at := (if released then coalesce (rr_released_at x) (Some now) else rr_released_at x),
     rr_reason := (if released then coalesce (rr_reason x) (Some ''filled'') else rr_reason x),
     rr_updated := now, rr_version := rr_version x + 1\<rparr>"

definition update_reservation :: "string \<Rightarrow> string \<Rightarrow> order_state \<Rightarrow> bool \<Rightarrow> rat \<Rightarrow> rat \<Rightarrow> fill_store \<Rightarrow> fill_store res" where
  "update_reservation now i target late requested cumulative s =
     (case fetch_one (\<lambda>x. rr_intent x = i \<and> (rr_state x = ''active'' \<or> rr_state x = ''released'')) (risk_reservations s) of
        None \<Rightarrow> Inl (ValueError ''risk reservation is missing while recording a fill'')
      | Some x \<Rightarrow>
          rbind (exact_column ''initial_notional_decimal'' (dget (rr_data x) ''initial_notional_decimal'')) (\<lambda>notional.
          rbind (exact_column ''initial_stop_risk_decimal'' (dget (rr_data x) ''initial_stop_risk_decimal'')) (\<lambda>risk.
          let ratio = remaining_ratio late requested cumulative in
          Inr (s\<lparr>risk_reservations := update_where (\<lambda>y. rr_intent y = i)
            (reserve_fill now (target = FILLED \<or> late) (dmul notional ratio) (dmul risk ratio)) (risk_reservations s)\<rparr>))))"

definition move_order :: "string \<Rightarrow> string \<Rightarrow> string option \<Rightarrow> order_state \<Rightarrow> ('m, 'z) durable_store_scheme \<Rightarrow> ('m, 'z) durable_store_scheme" where
  "move_order now i order target s = s\<lparr>orders := update_where (\<lambda>x. or_id x = i)
     (\<lambda>x. x\<lparr>or_broker_order := coalesce order (or_broker_order x), or_status := state_value target, or_updated := now\<rparr>) (orders s)\<rparr>"

definition aggregate_row :: "record_env \<Rightarrow> record_args \<Rightarrow> order_intent \<Rightarrow> rat \<Rightarrow> rat \<Rightarrow> pyval \<Rightarrow> fill_row" where
  "aggregate_row env a r cumulative average shortfall = \<lparr>fr_run = dget (oi_data r) ''run_id'', fr_order = rf_intent a,
     fr_quantity = dec_text cumulative, fr_price = dec_text average, fr_filled_at = occurred env a,
     fr_payload = rc_dumps env [''aggregate'' \<mapsto> PyBool True, ''intent_id'' \<mapsto> PyStr (rf_intent a),
       ''canonical_decimal_evidence'' \<mapsto> PyBool True], fr_shortfall = shortfall,
     fr_notified_at = PyNone, fr_notify_status = PyStr ''pending'', fr_notify_error = PyNone\<rparr>"

definition write_aggregate :: "record_env \<Rightarrow> record_args \<Rightarrow> order_intent \<Rightarrow> order_state \<Rightarrow> rat \<Rightarrow> rat \<Rightarrow> pyval \<Rightarrow> fill_store \<Rightarrow> fill_store" where
  "write_aggregate env a r target cumulative average shortfall s = (let f = aggregate_row env a r cumulative average shortfall in
     if list_ex (\<lambda>x. fr_order x = rf_intent a) (aggregate_fills s)
     then s\<lparr>aggregate_fills := update_where (\<lambda>x. fr_order x = rf_intent a) (\<lambda>x. x\<lparr>fr_quantity := fr_quantity f, fr_price := fr_price f,
         fr_filled_at := fr_filled_at f, fr_payload := fr_payload f, fr_shortfall := shortfall,
         fr_notified_at := (if target = FILLED then PyNone else fr_notified_at x),
         fr_notify_status := (if target = FILLED then PyStr ''pending'' else fr_notify_status x),
         fr_notify_error := (if target = FILLED then PyNone else fr_notify_error x)\<rparr>) (aggregate_fills s)\<rparr>
     else s\<lparr>aggregate_fills := aggregate_fills s @ [f]\<rparr>)"

text \<open>The average price so far, zero when there is none.\<close>

definition prior_average :: "order_intent \<Rightarrow> rat res" where
  "prior_average r = rbind (require_exact_decimal (oi_data r) ''average_fill_price_decimal'' (Some 0) True) (\<lambda>v.
     Inr (case v of None \<Rightarrow> 0 | Some x \<Rightarrow> x))"

definition advance_order ::
  "record_env \<Rightarrow> record_args \<Rightarrow> order_intent \<Rightarrow> fill_figures \<Rightarrow> fill_evidence \<Rightarrow> rat \<Rightarrow> rat \<Rightarrow> fill_store \<Rightarrow> fill_store res" where
  "advance_order env a r g e requested previous s =
     (let cumulative = fg_cumulative g; delta = max 0 (dsub cumulative previous) in
      if delta = 0 \<and> (fg_fees g \<noteq> 0 \<or> fg_adjustments g \<noteq> 0)
      then Inl (ValueError ''zero-delta fill events cannot introduce fees or adjustments'')
      else
      rbind (prior_average r) (\<lambda>prior_avg.
      let (price, average) = fill_prices (rf_average a) cumulative (fg_price g) previous prior_avg delta;
          shortfall = rc_shortfall env (dget (oi_data r) ''quote_bid'') (dget (oi_data r) ''quote_ask'') (dget (oi_data r) ''side'')
            (if average \<noteq> 0 then average else fg_price g) in
      rbind (order_state_of (oi_state r)) (\<lambda>current.
      let late = late_fill current cumulative previous; target = fill_target current cumulative previous requested in
      rbind (if current \<noteq> target then rbind (validate_transition (state_value current) (state_value target)) (\<lambda>_. Inr ()) else Inr ()) (\<lambda>_.
      rbind (insert_fill_event (new_fill_event env a r g delta price
         [''aggregate'' \<mapsto> PyBool True, ''reported_price'' \<mapsto> PyStr (dec_text (fg_price g)),
          ''price_semantics'' \<mapsto> PyStr (if rf_average a then ''cumulative_average'' else ''delta_execution''),
          ''canonical_decimal_evidence'' \<mapsto> PyBool True, ''broker_evidence_id'' \<mapsto> PyStr (fe_id e),
          ''broker_evidence_fingerprint'' \<mapsto> PyStr (fe_fingerprint e)]) s) (\<lambda>s1.
      rbind (account_fill env a r g delta price s1) (\<lambda>s2.
      let s3 = s2\<lparr>order_intents := update_where (\<lambda>x. oi_id x = rf_intent a)
            (fill_intent (rc_now env) (rf_order a) target cumulative average shortfall (oi_counter r + 1)) (order_intents s2)\<rparr> in
      rbind (update_reservation (rc_now env) (rf_intent a) target late requested cumulative s3) (\<lambda>s4.
      rbind (insert_order_event (fill_log_entry env a r (rf_intent a @ '':fill:'' @ rf_key a) (state_value current) (state_value target)
         (if late then ''late_fill_after_cancelled'' else if target = FILLED then ''final_fill'' else ''partial_fill'')
         \<lparr>ef_key = Some (rf_key a), ef_quantity = dec_text cumulative, ef_price = dec_text price,
          ef_detail = rc_dumps env [''delta_quantity'' \<mapsto> PyStr (dec_text delta)]\<rparr>) s4) (\<lambda>s5.
      Inr (write_aggregate env a r target cumulative average shortfall (move_order (rc_now env) (rf_intent a) (rf_order a) target s5))))))))))"

section \<open>Recording a fill\<close>

definition record_evidence :: "record_env \<Rightarrow> record_args \<Rightarrow> order_intent \<Rightarrow> fill_figures \<Rightarrow> rat \<Rightarrow> fill_evidence res" where
  "record_evidence env a r g requested =
     (if strip (rf_key a) = [] then Inl (ValueError ''broker_event_key is required'')
      else rbind (given_evidence env a r g requested) (\<lambda>raw.
      rbind (broker_evidence_payload raw) (\<lambda>p.
      let d = read_identity a r g requested p in
      rbind (check_identity r g p d) (\<lambda>_. Inr (new_evidence env a r d (bound_payload a r g d p))))))"

definition apply_recorded ::
  "record_env \<Rightarrow> record_args \<Rightarrow> order_intent \<Rightarrow> fill_figures \<Rightarrow> fill_evidence \<Rightarrow> rat \<Rightarrow> fill_store
    \<Rightarrow> (order_intent \<times> fill_store) res" where
  "apply_recorded env a r g e requested s =
     rbind (exact_column ''filled_quantity_decimal'' (dget (oi_data r) ''filled_quantity_decimal'')) (\<lambda>previous.
     if requested = 0 then Inl (ValueError ''requested_quantity must be positive'')
     else if fg_cumulative g < previous
     then rbind (retain_quantity env a r g e previous s) (\<lambda>s'. Inr (r, s'))
     else if fg_cumulative g > requested then Inl (ValueError ''broker fill cumulative quantity exceeds the requested quantity'')
     else rbind (advance_order env a r g e requested previous s) (\<lambda>s'.
       rbind (get_intent (rf_intent a) s') (\<lambda>r'. Inr (r', s'))))"

definition record_fill :: "record_env \<Rightarrow> record_args \<Rightarrow> fill_store \<Rightarrow> (order_intent \<times> fill_store) res" where
  "record_fill env a s =
     rbind (read_figures a) (\<lambda>g.
     rbind (get_intent (rf_intent a) s) (\<lambda>r.
     rbind (requested_authority r) (\<lambda>requested.
     rbind (record_evidence env a r g requested) (\<lambda>e.
     rbind (bind_evidence e s) (\<lambda>bound. case bound of
       None \<Rightarrow> Inr (r, s)
     | Some s1 \<Rightarrow> apply_recorded env a r g e requested (adopt_broker_order (rc_now env) (fe_order e) r s1))))))"

section \<open>What a recorded fill has written\<close>

lemma insert_fill_event_Inr:
  "insert_fill_event f s = Inr s' \<longleftrightarrow> (\<forall>x\<in>set (broker_fills s). fv_id x \<noteq> fv_id f \<and> fv_key x \<noteq> fv_key f)
     \<and> s' = s\<lparr>broker_fills := broker_fills s @ [f]\<rparr>"
  by (auto simp: insert_fill_event_def list_ex_iff)

lemma insert_order_event_Inr:
  "insert_order_event e s = Inr s' \<longleftrightarrow> (\<forall>x\<in>set (order_events s). oe_id x \<noteq> oe_id e \<and> oe_key x \<noteq> oe_key e)
     \<and> s' = s\<lparr>order_events := order_events s @ [e]\<rparr>"
  by (auto simp: insert_order_event_def)

lemma write_aggregate_fields [simp]:
  "order_intents (write_aggregate env a r t c v h s) = order_intents s"
  "order_events (write_aggregate env a r t c v h s) = order_events s"
  "risk_reservations (write_aggregate env a r t c v h s) = risk_reservations s"
  "milestones (write_aggregate env a r t c v h s) = milestones s"
  "fill_ledger (write_aggregate env a r t c v h s) = fill_ledger s"
  "broker_evidence (write_aggregate env a r t c v h s) = broker_evidence s"
  "broker_fills (write_aggregate env a r t c v h s) = broker_fills s"
  by (simp_all add: write_aggregate_def Let_def)

lemma move_order_fields [simp]:
  "order_intents (move_order now i b t s) = order_intents s" "order_events (move_order now i b t s) = order_events s"
  "risk_reservations (move_order now i b t s) = risk_reservations s" "milestones (move_order now i b t s) = milestones s"
  by (simp_all add: move_order_def)

lemma move_order_more [simp]:
  "fill_ledger (move_order now i b t s) = fill_ledger s" "broker_evidence (move_order now i b t s) = broker_evidence s"
  "broker_fills (move_order now i b t s) = broker_fills s"
  by (simp_all add: move_order_def)

lemma adopt_fields [simp]:
  "order_events (adopt_broker_order now d r s) = order_events s"
  "risk_reservations (adopt_broker_order now d r s) = risk_reservations s"
  "milestones (adopt_broker_order now d r s) = milestones s"
  by (simp_all add: adopt_broker_order_def)

lemma adopt_more [simp]:
  "fill_ledger (adopt_broker_order now d r s) = fill_ledger s"
  "broker_evidence (adopt_broker_order now d r s) = broker_evidence s"
  "broker_fills (adopt_broker_order now d r s) = broker_fills s"
  by (simp_all add: adopt_broker_order_def)

lemma account_fill_Inr:
  "account_fill env a r g delta price s = Inr s' \<longleftrightarrow>
     (\<exists>l m. apply_fill_in_transaction (rc_ledger env) (ledger_fill env a r g delta price) (fill_ledger s) = Inr l
        \<and> apply_take_profit_fill (milestone_fill env a r g delta price) (milestones s) = Inr m
        \<and> s' = s\<lparr>fill_ledger := l, milestones := m\<rparr>)"
  by (auto simp: account_fill_def result_simps)

lemma update_reservation_Inr:
  assumes "update_reservation now i target late requested cumulative s = Inr s'"
  shows "\<exists>n k. s' = s\<lparr>risk_reservations := update_where (\<lambda>y. rr_intent y = i)
    (reserve_fill now (target = FILLED \<or> late) (dmul n (remaining_ratio late requested cumulative))
      (dmul k (remaining_ratio late requested cumulative))) (risk_reservations s)\<rparr>"
  using assms by (auto simp: update_reservation_def Let_def result_simps split: option.splits)

definition logged_fill :: "record_args \<Rightarrow> order_intent \<Rightarrow> string \<Rightarrow> string \<Rightarrow> order_event \<Rightarrow> bool" where
  "logged_fill a r source destination e \<longleftrightarrow> oe_intent e = rf_intent a \<and> oe_from e = Some source \<and> oe_to e = destination
     \<and> oe_counter e = oi_counter r + 1"

definition fill_reserve :: "record_env \<Rightarrow> order_state \<Rightarrow> rat \<Rightarrow> rat \<Rightarrow> rat \<Rightarrow> rat \<Rightarrow> rat \<Rightarrow> reservation \<Rightarrow> reservation" where
  "fill_reserve env q cumulative previous requested n k =
     (let late = late_fill q cumulative previous; ratio = remaining_ratio late requested cumulative
      in reserve_fill (rc_now env) (fill_target q cumulative previous requested = FILLED \<or> late) (dmul n ratio) (dmul k ratio))"

definition advance_effect ::
  "record_env \<Rightarrow> record_args \<Rightarrow> order_intent \<Rightarrow> fill_figures \<Rightarrow> rat \<Rightarrow> rat \<Rightarrow> fill_store \<Rightarrow> fill_store \<Rightarrow> order_state \<Rightarrow> rat \<Rightarrow> rat \<Rightarrow> pyval
    \<Rightarrow> order_event \<Rightarrow> pydict \<Rightarrow> rat \<Rightarrow> rat \<Rightarrow> bool" where
  "advance_effect env a r g requested previous s s' q price average shortfall l d n k \<longleftrightarrow>
     (let target = fill_target q (fg_cumulative g) previous requested; delta = max 0 (dsub (fg_cumulative g) previous) in
     oi_state r = state_value q \<and> guarded_step order_allowed q target
   \<and> order_intents s' = update_where (\<lambda>x. oi_id x = rf_intent a)
        (fill_intent (rc_now env) (rf_order a) target (fg_cumulative g) average shortfall (oi_counter r + 1)) (order_intents s)
   \<and> order_events s' = order_events s @ [l] \<and> logged_fill a r (state_value q) (state_value target) l
   \<and> risk_reservations s' = update_where (\<lambda>y. rr_intent y = rf_intent a)
        (fill_reserve env q (fg_cumulative g) previous requested n k) (risk_reservations s)
   \<and> broker_fills s' = broker_fills s @ [new_fill_event env a r g delta price d]
   \<and> (\<forall>x\<in>set (broker_fills s). fv_id x \<noteq> rc_fresh env 0 \<and> fv_key x \<noteq> rf_key a)
   \<and> broker_evidence s' = broker_evidence s
   \<and> apply_fill_in_transaction (rc_ledger env) (ledger_fill env a r g delta price) (fill_ledger s) = Inr (fill_ledger s')
   \<and> apply_take_profit_fill (milestone_fill env a r g delta price) (milestones s) = Inr (milestones s'))"

lemma advance_order_result:
  assumes "advance_order env a r g e requested previous s = Inr s'"
  obtains q price average shortfall l d n k where "advance_effect env a r g requested previous s s' q price average shortfall l d n k"
proof -
  let ?c = "fg_cumulative g" and ?delta = "max 0 (dsub (fg_cumulative g) previous)"
  obtain prior_avg where avg: "prior_average r = Inr prior_avg"
    using assms by (auto simp: advance_order_def Let_def result_simps split: if_splits)
  obtain price average where pa: "fill_prices (rf_average a) ?c (fg_price g) previous prior_avg ?delta = (price, average)"
    by fastforce
  obtain q where q: "order_state_of (oi_state r) = Inr q"
    using assms avg pa by (auto simp: advance_order_def Let_def result_simps split: if_splits)
  let ?late = "late_fill q ?c previous" and ?t = "fill_target q ?c previous requested"
  from assms avg pa q obtain s1 s2 s3 s4 d l where
    step: "q \<noteq> ?t \<longrightarrow> (\<exists>x. validate_transition (state_value q) (state_value ?t) = Inr x)" and
    1: "insert_fill_event (new_fill_event env a r g ?delta price d) s = Inr s1" and
    2: "account_fill env a r g ?delta price s1 = Inr s2" and
    3: "update_reservation (rc_now env) (rf_intent a) ?t ?late requested ?c (s2\<lparr>order_intents := update_where (\<lambda>x. oi_id x = rf_intent a)
            (fill_intent (rc_now env) (rf_order a) ?t ?c average (rc_shortfall env (dget (oi_data r) ''quote_bid'') (dget (oi_data r) ''quote_ask'') (dget (oi_data r) ''side'')
            (if average \<noteq> 0 then average else fg_price g)) (oi_counter r + 1)) (order_intents s2)\<rparr>) = Inr s3" and
    4: "insert_order_event l s3 = Inr s4" and l: "logged_fill a r (state_value q) (state_value ?t) l" and
    5: "s' = write_aggregate env a r ?t ?c average (rc_shortfall env (dget (oi_data r) ''quote_bid'') (dget (oi_data r) ''quote_ask'') (dget (oi_data r) ''side'')
            (if average \<noteq> 0 then average else fg_price g)) (move_order (rc_now env) (rf_intent a) (rf_order a) ?t s4)"
    by (auto simp: advance_order_def Let_def result_simps logged_fill_def fill_log_entry_def split: if_splits)
  have qv: "oi_state r = state_value q" by (rule order_state_of_Inr [OF q])
  have run: "guarded_step order_allowed q ?t"
    using step by (cases "q = ?t") (auto simp: validate_transition_iff guarded_step_def)
  define h where "h = rc_shortfall env (dget (oi_data r) ''quote_bid'') (dget (oi_data r) ''quote_ask'') (dget (oi_data r) ''side'')
            (if average \<noteq> 0 then average else fg_price g)"
  define s2' where "s2' = s2\<lparr>order_intents := update_where (\<lambda>x. oi_id x = rf_intent a)
            (fill_intent (rc_now env) (rf_order a) ?t ?c average h (oi_counter r + 1)) (order_intents s2)\<rparr>"
  obtain n k where s3: "s3 = s2'\<lparr>risk_reservations := update_where (\<lambda>y. rr_intent y = rf_intent a)
    (reserve_fill (rc_now env) (?t = FILLED \<or> ?late) (dmul n (remaining_ratio ?late requested ?c))
      (dmul k (remaining_ratio ?late requested ?c))) (risk_reservations s2')\<rparr>"
    using update_reservation_Inr [OF 3 [folded h_def, folded s2'_def]] by blast
  have s1: "s1 = s\<lparr>broker_fills := broker_fills s @ [new_fill_event env a r g ?delta price d]\<rparr>"
    and new: "\<forall>x\<in>set (broker_fills s). fv_id x \<noteq> rc_fresh env 0 \<and> fv_key x \<noteq> rf_key a"
    using 1 by (simp_all add: insert_fill_event_Inr new_fill_event_def)
  obtain l' m where acc: "apply_fill_in_transaction (rc_ledger env) (ledger_fill env a r g ?delta price) (fill_ledger s) = Inr l'"
      "apply_take_profit_fill (milestone_fill env a r g ?delta price) (milestones s) = Inr m"
      "s2 = s1\<lparr>fill_ledger := l', milestones := m\<rparr>"
    using 2 by (auto simp: account_fill_Inr s1)
  have s4: "s4 = s3\<lparr>order_events := order_events s3 @ [l]\<rparr>" using 4 by (simp add: insert_order_event_Inr)
  have fields: "order_intents s' = update_where (\<lambda>x. oi_id x = rf_intent a)
            (fill_intent (rc_now env) (rf_order a) ?t ?c average h (oi_counter r + 1)) (order_intents s)"
    "order_events s' = order_events s @ [l]"
    "broker_fills s' = broker_fills s @ [new_fill_event env a r g ?delta price d]"
    "broker_evidence s' = broker_evidence s" "fill_ledger s' = l'" "milestones s' = m"
    "risk_reservations s' = update_where (\<lambda>y. rr_intent y = rf_intent a)
       (reserve_fill (rc_now env) (?t = FILLED \<or> ?late) (dmul n (remaining_ratio ?late requested ?c))
      (dmul k (remaining_ratio ?late requested ?c))) (risk_reservations s)"
    by (simp_all add: 5 s4 s3 s2'_def acc(3) s1)
  show thesis
    by (rule that [of q price average h l d n k])
      (simp only: advance_effect_def Let_def fill_reserve_def qv run fields new acc(1,2) l simp_thms, rule new)
qed

lemma retain_quantity_result:
  assumes "retain_quantity env a r g e previous s = Inr s'"
  shows "\<exists>l d. s' = s\<lparr>broker_fills := broker_fills s @ [new_fill_event env a r g 0 (fg_price g) d],
       fill_ledger := distrust_ledger (rc_now env) (occurred env a) (fill_ledger s),
       order_events := order_events s @ [l],
       order_intents := update_where (\<lambda>x. oi_id x = rf_intent a) (count_transition (rc_now env) (oi_counter r + 1)) (order_intents s)\<rparr>
     \<and> logged_fill a r (oi_state r) (oi_state r) l
     \<and> (\<forall>x\<in>set (broker_fills s). fv_id x \<noteq> rc_fresh env 0 \<and> fv_key x \<noteq> rf_key a)"
  using assms
  by (auto simp: retain_quantity_def Let_def result_simps insert_fill_event_Inr insert_order_event_Inr
      logged_fill_def fill_log_entry_def new_fill_event_def)

definition evidence_after :: "fill_evidence \<Rightarrow> fill_evidence list \<Rightarrow> fill_evidence list" where
  "evidence_after e es = (if list_ex (\<lambda>x. fe_key x = fe_key e) es then es else es @ [e])"

definition same_evidence :: "fill_evidence \<Rightarrow> fill_evidence \<Rightarrow> bool" where
  "same_evidence x e \<longleftrightarrow> fe_key x = fe_key e \<and> fe_intent x = fe_intent e \<and> fe_fingerprint x = fe_fingerprint e
     \<and> fe_order x = fe_order e \<and> fe_client x = fe_client e"

lemma bind_evidence_Some:
  assumes "bind_evidence e s = Inr (Some s1)"
  shows "s1 = s\<lparr>broker_evidence := evidence_after e (broker_evidence s)\<rparr>
    \<and> (\<forall>x. fetch_one (\<lambda>x. fe_key x = fe_key e) (broker_evidence s) = Some x \<longrightarrow> same_evidence x e)
    \<and> (fetch_one (\<lambda>x. fe_key x = fe_key e) (broker_evidence s) = None \<longrightarrow>
        (\<forall>x\<in>set (broker_evidence s). fe_id x \<noteq> fe_id e \<and> fe_fingerprint x \<noteq> fe_fingerprint e))"
proof (cases "fetch_one (\<lambda>x. fe_key x = fe_key e) (broker_evidence s)")
  case None
  then have "\<not> list_ex (\<lambda>x. fe_key x = fe_key e) (broker_evidence s)" by (auto simp: fetch_one_None list_ex_iff)
  then show ?thesis using assms None by (auto simp: bind_evidence_def evidence_after_def list_ex_iff split: if_splits)
next
  case (Some x)
  then have "list_ex (\<lambda>x. fe_key x = fe_key e) (broker_evidence s)" "fe_key x = fe_key e"
    using fetch_one_Some by (fastforce simp: list_ex_iff)+
  then show ?thesis using assms Some by (auto simp: bind_evidence_def evidence_after_def same_evidence_def split: if_splits)
qed

text \<open>The row of the intent before its figures are written: it may have got the broker's order id.\<close>

definition adopted_row :: "string \<Rightarrow> string \<Rightarrow> order_intent \<Rightarrow> order_intent \<Rightarrow> order_intent" where
  "adopted_row now d r x = (if oi_broker_order r \<in> {None, Some []} then x\<lparr>oi_broker_order := Some d, oi_updated := now\<rparr> else x)"

lemma adopted_row_fields [simp]:
  "oi_id (adopted_row now d r x) = oi_id x" "oi_state (adopted_row now d r x) = oi_state x"
  "oi_counter (adopted_row now d r x) = oi_counter x" "oi_data (adopted_row now d r x) = oi_data x"
  "oi_terminal_at (adopted_row now d r x) = oi_terminal_at x"
  by (simp_all add: adopted_row_def)

lemma count_transition_fields [simp]:
  "oi_id (count_transition now n x) = oi_id x" "oi_state (count_transition now n x) = oi_state x"
  "oi_counter (count_transition now n x) = n" "oi_data (count_transition now n x) = oi_data x"
  "oi_broker_order (count_transition now n x) = oi_broker_order x"
  by (simp_all add: count_transition_def)

lemma fill_intent_fields [simp]:
  "oi_id (fill_intent now b t c v h n x) = oi_id x" "oi_state (fill_intent now b t c v h n x) = state_value t"
  "oi_counter (fill_intent now b t c v h n x) = n"
  "oi_broker_order (fill_intent now b t c v h n x) = coalesce b (oi_broker_order x)"
  "oi_terminal_at (fill_intent now b t c v h n x) = (if t = FILLED then Some now else None)"
  by (simp_all add: fill_intent_def)

lemma fill_intent_data:
  "dget (oi_data (fill_intent now b t c v h n x)) ''filled_quantity_decimal'' = PyStr (dec_text c)"
  "k \<notin> {''filled_quantity_decimal'', ''average_fill_price_decimal'', ''implementation_shortfall_bps'', ''decimal_provenance'',
      ''decimal_accounting_version''} \<Longrightarrow> dget (oi_data (fill_intent now b t c v h n x)) k = dget (oi_data x) k"
  by (simp_all add: fill_intent_def)

lemma adopt_intents:
  "order_intents (adopt_broker_order now d r s) = update_where (\<lambda>x. oi_id x = oi_id r) (adopted_row now d r) (order_intents s)"
proof (cases "oi_broker_order r \<in> {None, Some []}")
  case True
  then show ?thesis by (auto simp: adopt_broker_order_def adopted_row_def update_where_def)
next
  case False
  then have "adopted_row now d r = (\<lambda>x. x)" by (auto simp: adopted_row_def)
  then show ?thesis using False by (auto simp: adopt_broker_order_def update_where_def)
qed

lemma update_where_twice:
  "(\<And>x. p x \<Longrightarrow> p (f x)) \<Longrightarrow> update_where p g (update_where p f rs) = update_where p (g \<circ> f) rs"
  by (induction rs) auto

text \<open>The three ways in which a call succeeds.\<close>

lemma record_fill_cases:
  assumes "record_fill env a s = Inr (r', s')"
  obtains
    (replayed) g r requested e where "read_figures a = Inr g" "get_intent (rf_intent a) s = Inr r" "requested_authority r = Inr requested"
      "record_evidence env a r g requested = Inr e" "bind_evidence e s = Inr None" "r' = r" "s' = s"
  | (retained) g r requested e s1 previous where "read_figures a = Inr g" "get_intent (rf_intent a) s = Inr r"
      "requested_authority r = Inr requested" "record_evidence env a r g requested = Inr e" "bind_evidence e s = Inr (Some s1)"
      "exact_column ''filled_quantity_decimal'' (dget (oi_data r) ''filled_quantity_decimal'') = Inr previous"
      "requested \<noteq> 0" "fg_cumulative g < previous" "r' = r"
      "retain_quantity env a r g e previous (adopt_broker_order (rc_now env) (fe_order e) r s1) = Inr s'"
  | (advanced) g r requested e s1 previous where "read_figures a = Inr g" "get_intent (rf_intent a) s = Inr r"
      "requested_authority r = Inr requested" "record_evidence env a r g requested = Inr e" "bind_evidence e s = Inr (Some s1)"
      "exact_column ''filled_quantity_decimal'' (dget (oi_data r) ''filled_quantity_decimal'') = Inr previous"
      "requested \<noteq> 0" "previous \<le> fg_cumulative g" "fg_cumulative g \<le> requested"
      "advance_order env a r g e requested previous (adopt_broker_order (rc_now env) (fe_order e) r s1) = Inr s'"
      "get_intent (rf_intent a) s' = Inr r'"
proof -
  from assms obtain g r requested e bound where
    1: "read_figures a = Inr g" "get_intent (rf_intent a) s = Inr r" "requested_authority r = Inr requested"
      "record_evidence env a r g requested = Inr e" "bind_evidence e s = Inr bound"
    and 2: "(case bound of None \<Rightarrow> Inr (r, s)
     | Some s1 \<Rightarrow> apply_recorded env a r g e requested (adopt_broker_order (rc_now env) (fe_order e) r s1)) = Inr (r', s')"
    by (auto simp: record_fill_def result_simps)
  show thesis
  proof (cases bound)
    case None
    then show thesis using 1 2 by (intro replayed) auto
  next
    case (Some s1)
    then have "apply_recorded env a r g e requested (adopt_broker_order (rc_now env) (fe_order e) r s1) = Inr (r', s')"
      using 2 by simp
    then show thesis using retained [OF 1(1-4)] advanced [OF 1(1-4)] 1(5) Some
      by (auto simp: apply_recorded_def result_simps not_less split: if_splits)
  qed
qed

lemma requested_authority_cong:
  "dget (oi_data x) ''requested_quantity_decimal'' = dget (oi_data r) ''requested_quantity_decimal''
    \<Longrightarrow> dget (oi_data x) ''requested_quantity'' = dget (oi_data r) ''requested_quantity''
    \<Longrightarrow> requested_authority x = requested_authority r"
  by (simp add: requested_authority_def Let_def)

lemma read_figures_Inr:
  "read_figures a = Inr g \<Longrightarrow> 0 < fg_cumulative g \<and> 0 < fg_price g \<and> 0 \<le> fg_fees g
     \<and> (wf_pyval (rf_cumulative a) \<longrightarrow> is_decimal (fg_cumulative g))"
  by (auto simp: read_figures_def result_simps decimal_value_Some_iff less_le intro: to_pydec_is_decimal split: if_splits)

lemma record_evidence_key: "record_evidence env a r g requested = Inr e \<Longrightarrow> fe_key e = rf_key a \<and> fe_intent e = oi_id r"
  by (auto simp: record_evidence_def new_evidence_def Let_def result_simps split: if_splits)

lemma record_evidence_order:
  "record_evidence env a r g requested = Inr e \<Longrightarrow> oi_broker_order r \<notin> {None, Some []} \<Longrightarrow> oi_broker_order r = Some (fe_order e)"
  by (auto simp: record_evidence_def new_evidence_def check_identity_def Let_def result_simps split: if_splits)

abbreviation filled_column :: "order_intent \<Rightarrow> pyval" where
  "filled_column r \<equiv> dget (oi_data r) ''filled_quantity_decimal''"

text \<open>The columns of an intent that identify it to the broker.\<close>

definition same_identity :: "order_intent \<Rightarrow> order_intent \<Rightarrow> bool" where
  "same_identity x r \<longleftrightarrow> oi_id x = oi_id r
     \<and> (\<forall>k\<in>{''client_order_id'', ''symbol'', ''side'', ''logical_action_key''}. dget (oi_data x) k = dget (oi_data r) k)"

definition state_step :: "string \<Rightarrow> string \<Rightarrow> bool" where
  "state_step u v \<longleftrightarrow> u = v \<or> (\<exists>q t. u = state_value q \<and> v = state_value t \<and> guarded_step order_allowed q t)"

text \<open>Both ways of recording a fill move one row, log one event and store one fill with its evidence.\<close>

lemma record_fill_effect:
  assumes "record_fill env a s = Inr (r', s')"
  obtains (same) g r requested e where "s' = s" "read_figures a = Inr g" "get_intent (rf_intent a) s = Inr r"
      "requested_authority r = Inr requested" "record_evidence env a r g requested = Inr e" "bind_evidence e s = Inr None"
  | (moved) g r requested e previous y f l ev where
      "read_figures a = Inr g" "get_intent (rf_intent a) s = Inr r" "requested_authority r = Inr requested"
      "exact_column ''filled_quantity_decimal'' (filled_column r) = Inr previous"
      "order_intents s' = update_where (\<lambda>x. oi_id x = rf_intent a) f (order_intents s)"
      "\<And>x. oi_id (f x) = oi_id x" "oi_counter (f r) = oi_counter r + 1" "state_step (oi_state r) (oi_state (f r))"
      "order_events s' = order_events s @ [l]" "logged_fill a r (oi_state r) (oi_state (f r)) l"
      "requested_authority (f r) = Inr requested" "filled_column (f r) = dec_column y" "previous \<le> y"
      "y = previous \<or> (y = fg_cumulative g \<and> y \<le> requested)"
      "broker_fills s' = broker_fills s @ [ev]" "fv_key ev = rf_key a" "fv_intent ev = rf_intent a"
      "fv_cumulative ev = dec_text (fg_cumulative g)"
      "fv_delta ev = dec_text (max 0 (dsub y previous))" "\<forall>x\<in>set (broker_fills s). fv_key x \<noteq> rf_key a"
      "broker_evidence s' = evidence_after e (broker_evidence s)" "fe_key e = rf_key a" "fe_intent e = rf_intent a"
      "\<exists>s1. bind_evidence e s = Inr (Some s1)" "record_evidence env a r g requested = Inr e" "same_identity (f r) r"
      "oi_broker_order (f r) = (if oi_state (f r) = oi_state r \<and> y = previous \<and> y \<noteq> fg_cumulative g then Some (fe_order e)
         else coalesce (rf_order a) (Some (fe_order e)))"
  using assms
proof (cases rule: record_fill_cases)
  case (retained g r requested e s1 previous)
  have id: "oi_id r = rf_intent a" using get_intent_id [OF retained(2)] by simp
  let ?f = "count_transition (rc_now env) (oi_counter r + 1) \<circ> adopted_row (rc_now env) (fe_order e) r"
  note s1 = bind_evidence_Some [OF retained(5), THEN conjunct1]
  obtain l d where s': "order_intents s' = update_where (\<lambda>x. oi_id x = rf_intent a) (count_transition (rc_now env) (oi_counter r + 1))
        (order_intents (adopt_broker_order (rc_now env) (fe_order e) r s1))"
    and w: "order_events s' = order_events s @ [l]" "logged_fill a r (oi_state r) (oi_state r) l"
      "broker_fills s' = broker_fills s @ [new_fill_event env a r g 0 (fg_price g) d]"
      "broker_evidence s' = evidence_after e (broker_evidence s)"
      "\<forall>x\<in>set (broker_fills s). fv_key x \<noteq> rf_key a"
    using retain_quantity_result [OF retained(10)] by (auto simp: s1)
  have rows: "order_intents s' = update_where (\<lambda>x. oi_id x = rf_intent a) ?f (order_intents s)"
    using s' by (simp add: adopt_intents s1 id update_where_twice)
  have req: "requested_authority (?f r) = Inr requested"
    using retained(3) requested_authority_cong [of "?f r" r] by simp
  show ?thesis
    by (rule moved [where e = e, OF retained(1-3,6) rows _ _ _ w(1) _ req _ _ _ w(3) _ _ _ _ w(5) w(4)])
      (use retained w(2) exact_column_Inr [OF retained(6)] record_evidence_key [OF retained(4)] record_evidence_order [OF retained(4)] id
       in \<open>auto simp: state_step_def new_fill_event_def same_identity_def adopted_row_def\<close>)
next
  case (advanced g r requested e s1 previous)
  have id: "oi_id r = rf_intent a" using get_intent_id [OF advanced(2)] by simp
  note s1 = bind_evidence_Some [OF advanced(5), THEN conjunct1]
  obtain q price average h l d n k where eff: "advance_effect env a r g requested previous
      (adopt_broker_order (rc_now env) (fe_order e) r s1) s' q price average h l d n k"
    using advance_order_result [OF advanced(10)] .
  let ?t = "fill_target q (fg_cumulative g) previous requested"
  have st: "oi_state r = state_value q" "guarded_step order_allowed q ?t" and
    s': "order_intents s' = update_where (\<lambda>x. oi_id x = rf_intent a)
        (fill_intent (rc_now env) (rf_order a) ?t (fg_cumulative g) average h (oi_counter r + 1))
        (order_intents (adopt_broker_order (rc_now env) (fe_order e) r s1))" and
    w: "order_events s' = order_events s @ [l]" "logged_fill a r (state_value q) (state_value ?t) l"
      "broker_fills s' = broker_fills s @ [new_fill_event env a r g (max 0 (dsub (fg_cumulative g) previous)) price d]"
      "broker_evidence s' = evidence_after e (broker_evidence s)"
      "\<forall>x\<in>set (broker_fills s). fv_key x \<noteq> rf_key a"
    using eff unfolding advance_effect_def Let_def adopt_fields adopt_more by (simp_all add: s1)
  let ?f = "fill_intent (rc_now env) (rf_order a) ?t (fg_cumulative g) average h (oi_counter r + 1) \<circ> adopted_row (rc_now env) (fe_order e) r"
  have rows: "order_intents s' = update_where (\<lambda>x. oi_id x = rf_intent a) ?f (order_intents s)"
    using s' by (simp add: adopt_intents s1 id update_where_twice)
  have req: "requested_authority (?f r) = Inr requested"
    using advanced(3) requested_authority_cong [of "?f r" r] by (simp add: fill_intent_data)
  show ?thesis
    by (rule moved [where e = e, OF advanced(1-3,6) rows _ _ _ w(1) _ req _ _ _ w(3) _ _ _ _ w(5) w(4)])
      (use advanced w(2) st record_evidence_key [OF advanced(4)] record_evidence_order [OF advanced(4)] id
       in \<open>auto simp: state_step_def new_fill_event_def fill_intent_data dec_column_def same_identity_def adopted_row_def\<close>)
qed blast

end
