(* ===== verification/Intent_Creation.thy ===== *)
theory Intent_Creation
  imports Fill_Recording Approval_Workflow Accounting
begin

text \<open>
  \<open>DurableExecutionStore.create_or_get_intent\<close> of \<open>app/execution.py\<close>: the intent of an approved proposal is created
  with its reservation, its log entry, its order row, its take-profit binding and the link of its approval workflow in one
  immediate transaction, or the intent of the same logical action is returned. The model is the production
  configuration: the process is not a test run (\<open>TRADING_AGENT_TESTING\<close> is not 1). The verified loads of the display
  authority, of the risk snapshot, of the strategy registry and of the allocation are arguments, with SHA-256, the JSON
  printer and reader, the clock and the UUIDs. A nested value of a proposal, an envelope or a candidate is carried by its JSON
  text; the reservation limits of a snapshot are a dictionary of their own, \<open>None\<close> when they are missing or empty. Of the REAL columns only those without a
  decimal column are kept.
\<close>

section \<open>What the transaction reads\<close>

record snapshot_row =
  sn_id :: string
  sn_proposal :: string
  sn_approval :: string
  sn_run :: "string option"
  sn_config :: pyval
  sn_captured :: string

record approval_row =
  aw_id :: string
  aw_proposal :: string
  aw_authorized :: int
  aw_status :: string
  aw_consumed_at :: "string option"
  aw_authority :: pyval
  aw_displayed :: pyval

record add_risk_row =
  dr_id :: string
  dr_proposal :: pyval
  dr_stage :: string
  dr_eligible :: int
  dr_milestone :: pyval
  dr_key :: pyval
  dr_incremental :: pyval

record pyramiding_row =
  py_id :: string
  py_key :: string
  py_proposal :: pyval
  py_status :: string

text \<open>A verified allocation: the sleeve of each strategy, the authorised strategies, the registry snapshot, the equity of
  the replayed portfolio, and for each strategy the reservations and the claims it has already deducted (\<open>None\<close> when they
  are missing or malformed).\<close>

record sleeve_allocation =
  sl_sleeves :: "string \<Rightarrow> pydict option"
  sl_authorized :: "string list"
  sl_registry :: pyval
  sl_equity :: pyval
  sl_included :: "string \<Rightarrow> string list option"
  sl_claims :: "string \<Rightarrow> pydict list option"

record creation_tables =
  ct_snapshots :: "snapshot_row list"
  ct_approvals :: "approval_row list"
  ct_lots :: "lot list"
  ct_strategy_state :: "string \<Rightarrow> string option"
  ct_add_risk :: "add_risk_row list"
  ct_pyramiding :: "pyramiding_row list"

record creation_env =
  ce_now :: string
  ce_time :: rat
  ce_intent :: string
  ce_event :: string
  ce_reservation :: string
  ce_milestone :: string
  ce_action :: string
  ce_sha256 :: "string \<Rightarrow> string"
  ce_dumps :: "pydict \<Rightarrow> string"
  ce_json :: "string \<Rightarrow> decision_value option"
  ce_decision :: decision_value
  ce_parse_time :: "string \<Rightarrow> rat res"
  ce_display :: "string \<Rightarrow> string \<Rightarrow> string \<Rightarrow> (pyval \<times> pydict) res"
  ce_verify :: "string \<Rightarrow> string \<Rightarrow> string \<Rightarrow> string option \<Rightarrow> string \<Rightarrow> pyval \<Rightarrow> (pydict \<times> pydict option) res"
  ce_fingerprint :: "pydict \<Rightarrow> string"
  ce_registry :: "string \<Rightarrow> string \<Rightarrow> (string \<Rightarrow> bool option) option"
  ce_allocation :: "string \<Rightarrow> string \<Rightarrow> string \<Rightarrow> string \<Rightarrow> string \<Rightarrow> sleeve_allocation option"

record creation_args =
  cr_proposal :: pydict
  cr_run :: "string option"
  cr_source_type :: string
  cr_approval :: "string option"
  cr_sequence :: int

text \<open>A decimal that must not be \<open>None\<close>.\<close>

definition decimal_or :: "pyval \<Rightarrow> string \<Rightarrow> rat option \<Rightarrow> py_error \<Rightarrow> rat res" where
  "decimal_or v field minimum e = rbind (decimal_value v field minimum False) (\<lambda>r. case r of None \<Rightarrow> Inl e | Some x \<Rightarrow> Inr x)"

definition given_text :: "string option \<Rightarrow> bool" where
  "given_text t \<longleftrightarrow> t \<noteq> None \<and> t \<noteq> Some []"

section \<open>Binding the verified evidence\<close>

definition check_caller :: "pydict \<Rightarrow> string option \<Rightarrow> string res" where
  "check_caller p approval =
     (if truthy (dget p ''shadow_only'') \<or> truthy (dget p ''observation_only'') \<or> truthy (dget p ''research_only'')
      then Inl (ValueError ''shadow, observation-only and research-only records cannot create order intents'')
      else if or_str [dget p ''trading_mode'', dget p ''mode'', PyStr ''paper''] \<noteq> ''paper''
      then Inl (PermissionError ''durable execution supports paper mode only'')
      else case approval of
        None \<Rightarrow> Inl (PermissionError ''manual approval is required before intent creation'')
      | Some i \<Rightarrow> if i = [] then Inl (PermissionError ''manual approval is required before intent creation'') else Inr i)"

definition proposal_identity :: "pydict \<Rightarrow> string" where
  "proposal_identity p = or_str [dget p ''proposal_id'', dget p ''id'']"

definition latest_snapshot :: "string \<Rightarrow> string \<Rightarrow> string option \<Rightarrow> snapshot_row list \<Rightarrow> string option" where
  "latest_snapshot proposal approval run rows =
     (case sort_key sn_captured (sort_key sn_id
        (filter (\<lambda>s. sn_proposal s = proposal \<and> sn_approval s = approval \<and> run \<noteq> None \<and> sn_run s = run) rows)) of
        [] \<Rightarrow> None | r # rs \<Rightarrow> Some (sn_id (last (r # rs))))"

record bound_evidence =
  be_display :: pyval
  be_envelope :: pydict
  be_snapshot :: string
  be_config :: string
  be_candidate :: pydict
  be_limits :: "pydict option"

text \<open>The reservation limits of the snapshot; \<open>None\<close> when it has none or an empty dictionary, for which the code skips the
  check of the ceilings.\<close>

definition limits_of :: "bound_evidence \<Rightarrow> pydict" where
  "limits_of b = (case be_limits b of None \<Rightarrow> Map.empty | Some l \<Rightarrow> l)"

definition bound_evidence_of :: "creation_env \<Rightarrow> creation_tables \<Rightarrow> creation_args \<Rightarrow> string \<Rightarrow> bound_evidence res" where
  "bound_evidence_of env t a approval = (let p = cr_proposal a; identity = proposal_identity p in
     rbind (ce_display env approval identity (cr_source_type a)) (\<lambda>(display, envelope).
     let snapshot = or_str [dget p ''risk_snapshot_id''] in
     if snapshot = [] then Inl (RuntimeError ''authoritative risk snapshot identity is required'')
     else case fetch_one (\<lambda>s. sn_id s = snapshot) (ct_snapshots t) of
       None \<Rightarrow> Inl (RuntimeError ''authoritative risk snapshot is missing'')
     | Some raw \<Rightarrow>
         if latest_snapshot identity approval (if given_text (cr_run a) then cr_run a else sn_run raw) (ct_snapshots t) \<noteq> Some snapshot
         then Inl (RuntimeError ''intent creation is not bound to the latest authoritative risk snapshot'')
         else let config = or_str [dget envelope ''config_hash'', sn_config raw] in
           rbind (dget_req envelope ''formula_versions'') (\<lambda>formulas.
           rbind (ce_verify env snapshot identity approval (if given_text (cr_run a) then cr_run a else None) config formulas)
             (\<lambda>(candidate, limits). Inr \<lparr>be_display = display, be_envelope = envelope, be_snapshot = snapshot, be_config = config,
               be_candidate = candidate, be_limits = limits\<rparr>))))"

text \<open>\<open>==\<close> of two values: numbers by their value.\<close>

fun number_value :: "pyval \<Rightarrow> pydec option" where
  "number_value (PyBool b) = Some (Fin (if b then 1 else 0))"
| "number_value (PyInt n) = Some (Fin (of_int n))"
| "number_value (PyFloat d) = Some d"
| "number_value (PyDec d) = Some d"
| "number_value v = None"

definition py_eq :: "pyval \<Rightarrow> pyval \<Rightarrow> bool" where
  "py_eq a b \<longleftrightarrow> (case (number_value a, number_value b) of
     (Some x, Some y) \<Rightarrow> x = y \<and> x \<noteq> NaN
   | (None, None) \<Rightarrow> a = b
   | _ \<Rightarrow> False)"

text \<open>\<open>execution_candidate_evidence\<close> of \<open>app/execution_risk_snapshot.py\<close>, with \<open>_plain\<close> on a scalar.\<close>

definition CANDIDATE_FIELDS :: "string list" where
  "CANDIDATE_FIELDS = [
     ''proposal_id'', ''id'', ''source_id'', ''candidate_id'', ''symbol'', ''side'', ''action'',
     ''intended_action'', ''approval_source_type'', ''execution_path'', ''request_basis'',
     ''position_lifecycle_id'', ''strategy_version'', ''relationship_type'',
     ''relationship_group_id'', ''rotation_group_id'', ''rotation_step_id'',
     ''emergency_exit_triggered'', ''emergency_exit_hard_trigger'',
     ''emergency_exit_trigger_reason'', ''emergency_exit_mode'', ''proposal_version'',
     ''approved_quantity_ceiling'', ''approved_notional_ceiling'',
     ''approved_stop_risk_ceiling'', ''qty'', ''quantity'', ''notional'', ''latest_price'',
     ''reference_price'', ''limit_price'', ''stop_price'', ''intended_stop_price'',
     ''stop_risk_dollars'', ''quote_bid'', ''quote_ask'', ''quote_timestamp'',
     ''quote_spread_bps'', ''order_type'', ''expires_at'', ''config_hash'',
     ''formula_versions'', ''strategy_registry_snapshot_id'', ''sleeve_allocation_id'',
     ''strategy_sleeve'', ''sleeve_notional_ceiling'', ''sleeve_stop_risk_ceiling'',
     ''winner_expansion_decision_id'', ''pyramiding_milestone_id'',
     ''pyramiding_milestone_key'', ''management_mode'', ''pre_add_open_risk'',
     ''post_add_open_risk'', ''incremental_risk'', ''cluster_name'', ''phase4_mode'',
     ''strategy_state'', ''strategy_policy_version'', ''order_role'', ''trading_mode'',
     ''client_order_id'', ''display_envelope_id'', ''display_context_type'',
     ''display_context_id'', ''approval_authority_fingerprint'', ''displayed_fingerprint'',
     ''position_management_decision_type'', ''position_management_decision'',
     ''take_profit_level'', ''take_profit_target_quantity'']"

fun plain_value :: "pyval \<Rightarrow> pyval" where
  "plain_value (PyDec d) = PyStr (py_str (PyDec d))"
| "plain_value v = v"

definition execution_candidate_evidence :: "pydict \<Rightarrow> pydict" where
  "execution_candidate_evidence c = (let side = lower (or_str [dget c ''side'']) in
     (\<lambda>k. if k \<in> set CANDIDATE_FIELDS \<and> dget c k \<noteq> PyNone then Some (plain_value (dget c k)) else None)
     (''proposal_id'' \<mapsto> PyStr (or_str [dget c ''proposal_id'', dget c ''id'']),
      ''symbol'' \<mapsto> PyStr (upper (or_str [dget c ''symbol''])), ''side'' \<mapsto> PyStr side,
      ''action'' \<mapsto> PyStr (lower (or_str [dget c ''action'', dget c ''intended_action'', PyStr (if side = ''sell'' then ''exit'' else ''entry'')]))))"

definition EXACT_SNAPSHOT_FIELDS :: "string list" where
  "EXACT_SNAPSHOT_FIELDS = [
     ''proposal_id'', ''symbol'', ''side'', ''action'', ''approval_source_type'',
     ''execution_path'', ''request_basis'', ''position_lifecycle_id'', ''strategy_version'',
     ''relationship_type'', ''relationship_group_id'', ''rotation_group_id'',
     ''rotation_step_id'', ''emergency_exit_triggered'', ''emergency_exit_hard_trigger'',
     ''emergency_exit_trigger_reason'', ''emergency_exit_mode'', ''config_hash'',
     ''formula_versions'', ''proposal_version'', ''display_envelope_id'',
     ''display_context_type'', ''display_context_id'',
     ''approved_quantity_ceiling'', ''approved_notional_ceiling'', ''approved_stop_risk_ceiling'']"

text \<open>A field of the caller's proposal, when it is there, is the one of the snapshot.\<close>

definition check_caller_evidence :: "pydict \<Rightarrow> pydict \<Rightarrow> unit res" where
  "check_caller_evidence p candidate = (let caller = execution_candidate_evidence p in
     case filter (\<lambda>k. p k \<noteq> None \<and> \<not> py_eq (dget caller k) (dget candidate k)) EXACT_SNAPSHOT_FIELDS of
       [] \<Rightarrow> Inr ()
     | k # ks \<Rightarrow> Inl (RuntimeError (''caller '' @ k @ '' does not match the authoritative risk snapshot'')))"

definition ENVELOPE_CANDIDATE_FIELDS :: "(string \<times> string) list" where
  "ENVELOPE_CANDIDATE_FIELDS = [
     (''proposal_id'', ''proposal_id''), (''symbol'', ''symbol''), (''side'', ''side''), (''action'', ''action''),
     (''approval_source_type'', ''approval_source_type''), (''execution_path'', ''execution_path''),
     (''request_basis'', ''request_basis''), (''position_lifecycle_id'', ''position_lifecycle_id''),
     (''strategy_version'', ''strategy_version''), (''relationship_type'', ''relationship_type''),
     (''relationship_group_id'', ''relationship_group_id''), (''rotation_group_id'', ''rotation_group_id''),
     (''rotation_step_id'', ''rotation_step_id''), (''emergency_triggered'', ''emergency_exit_triggered''),
     (''emergency_trigger_identity'', ''emergency_exit_hard_trigger''),
     (''emergency_trigger_reason'', ''emergency_exit_trigger_reason''),
     (''emergency_trigger_mode'', ''emergency_exit_mode''), (''config_hash'', ''config_hash''),
     (''formula_versions'', ''formula_versions''), (''proposal_version'', ''proposal_version''),
     (''display_context_type'', ''display_context_type''), (''display_context_id'', ''display_context_id'')]"

definition check_envelope_evidence :: "bound_evidence \<Rightarrow> string \<Rightarrow> unit res" where
  "check_envelope_evidence b source_type =
     (case filter (\<lambda>(e, c). \<not> py_eq (dget (be_envelope b) e) (dget (be_candidate b) c)) ENVELOPE_CANDIDATE_FIELDS of
        (e, c) # rest \<Rightarrow> Inl (RuntimeError (''risk snapshot '' @ c @ '' does not match immutable display authority''))
      | [] \<Rightarrow>
          if or_str [dget (be_envelope b) ''approval_source_type''] \<noteq> source_type
          then Inl (RuntimeError ''execution source type changed after display'')
          else if or_str [be_display b] \<noteq> or_str [dget (be_candidate b) ''display_envelope_id'', be_display b]
          then Inl (RuntimeError ''risk snapshot display identity is invalid'')
          else Inr ())"

section \<open>The terms of the order\<close>

text \<open>All terms come from the verified snapshot and the display authority.\<close>

definition execution_terms :: "creation_env \<Rightarrow> bound_evidence \<Rightarrow> pydict" where
  "execution_terms env b = (let e = be_envelope b; fingerprint = PyStr (ce_fingerprint env e) in
     (be_candidate b)(''risk_snapshot_id'' \<mapsto> PyStr (be_snapshot b),
       ''approved_quantity_ceiling'' \<mapsto> dget e ''max_quantity'', ''approved_notional_ceiling'' \<mapsto> dget e ''max_notional'',
       ''approved_stop_risk_ceiling'' \<mapsto> dget e ''max_stop_risk'', ''approval_authority_fingerprint'' \<mapsto> fingerprint,
       ''displayed_fingerprint'' \<mapsto> fingerprint, ''execution_path'' \<mapsto> dget e ''execution_path''))"

definition check_expiry :: "creation_env \<Rightarrow> pydict \<Rightarrow> pydict \<Rightarrow> unit res" where
  "check_expiry env p envelope = (let expires = py_or (dget p ''expires_at'') (dget envelope ''expires_at'') in
     if \<not> truthy expires then Inl (ValueError ''authoritative proposal expiry is required'')
     else rbind (ce_parse_time env (py_str expires)) (\<lambda>t.
       if t \<le> ce_time env then Inl (ValueError ''expired approval cannot create an order intent'') else Inr ()))"

record intent_terms =
  it_symbol :: string
  it_side :: string
  it_action :: string
  it_source :: string
  it_key :: string
  it_client :: string
  it_sizing :: canonical_sizing_record

definition required_ceilings :: "pydict \<Rightarrow> string \<Rightarrow> string \<Rightarrow> unit res" where
  "required_ceilings p side basis =
     (if blank (dget p (if basis = ''quantity'' then ''approved_quantity_ceiling'' else ''approved_notional_ceiling''))
      then Inl (RuntimeError (''immutable displayed '' @ (if basis = ''quantity'' then ''quantity'' else ''notional'') @ '' ceiling is required''))
      else if side = ''buy'' \<and> or_str [dget p ''action'', PyStr ''entry''] \<in> {''entry'', ''add''} \<and> blank (dget p ''approved_stop_risk_ceiling'')
      then Inl (RuntimeError ''immutable displayed stop-risk ceiling is required for a risk-increasing order'')
      else Inr ())"

definition intent_terms_of :: "creation_env \<Rightarrow> creation_args \<Rightarrow> pydict \<Rightarrow> pydict \<Rightarrow> intent_terms res" where
  "intent_terms_of env a candidate p =
     (let symbol = upper (or_str [dget p ''symbol'']); side = lower (or_str [dget p ''side'']) in
      if symbol = [] \<or> side \<notin> {''buy'', ''sell''} then Inl (ValueError ''intent requires a symbol and buy/sell side'')
      else rbind (canonical_sizing p) (\<lambda>z.
      rbind (required_ceilings p side (cs_request_basis z)) (\<lambda>_.
      rbind (enforce_ceilings z p False) (\<lambda>_.
      let source = or_str [dget p ''source_id'', PyStr (proposal_identity (cr_proposal a))] in
      if source = [] then Inl (ValueError ''intent requires a stable proposal or emergency-action source ID'')
      else let action = lower (or_str [dget p ''action'', PyStr (if side = ''sell'' then ''exit'' else ''entry'')]);
               key = logical_action_key (p(''source_id'' \<mapsto> PyStr source, ''symbol'' \<mapsto> PyStr symbol, ''side'' \<mapsto> PyStr side,
                 ''action'' \<mapsto> PyStr action)) (cr_source_type a) (cr_sequence a);
               client = stable_client_order_id (ce_sha256 env) key in
        if dget candidate ''client_order_id'' \<notin> {PyNone, PyStr client}
        then Inl (RuntimeError ''risk snapshot logical action key does not match the final candidate'')
        else Inr \<lparr>it_symbol = symbol, it_side = side, it_action = action, it_source = source, it_key = key,
               it_client = client, it_sizing = z\<rparr>))))"

section \<open>The amounts that are reserved\<close>

text \<open>\<open>_winner_add_reservation_risk\<close>; the second figure goes through a binary float.\<close>

definition winner_add_reservation_risk :: "pydict \<Rightarrow> rat \<Rightarrow> rat \<Rightarrow> rat option \<Rightarrow> (rat \<times> rat) res" where
  "winner_add_reservation_risk p quantity reference stop =
     (let unavailable = ValueError ''winner ADD canonical quantity or reference is unavailable'' in
      rbind (decimal_or (PyDec (Fin quantity)) ''winner ADD quantity'' (Some 0) unavailable) (\<lambda>q.
      rbind (decimal_or (PyDec (Fin reference)) ''winner ADD reference price'' (Some 0) unavailable) (\<lambda>r.
      rbind (case stop of None \<Rightarrow> Inr r
        | Some s \<Rightarrow> rbind (decimal_or (PyDec (Fin s)) ''winner ADD stop price'' (Some 0) AssertionError) (\<lambda>s. Inr (if s = 0 then r else s))) (\<lambda>s.
      if dget p ''incremental_risk'' = PyNone then Inl (ValueError ''winner ADD requires canonical incremental-risk provenance'')
      else rbind (decimal_required (dget p ''incremental_risk'') ''winner ADD incremental risk'' None) (\<lambda>incremental.
      let leg = dmul q (max (dsub r s) 0) in
      rbind (if dget p ''pending_add_stop_risk'' = PyNone then Inr leg
             else decimal_required (dget p ''pending_add_stop_risk'') ''winner ADD pending leg risk'' (Some 0)) (\<lambda>stated.
      if stated \<noteq> leg then Inl (ValueError ''winner ADD pending leg risk does not match final quantity, price, and stop'')
      else Inr (incremental, repr_decimal (binary64 leg))))))))"

record reserved_amounts =
  ra_notional :: rat
  ra_stop_risk :: rat
  ra_incremental :: rat

definition winner_add :: "intent_terms \<Rightarrow> pydict \<Rightarrow> bool" where
  "winner_add w p \<longleftrightarrow> it_side w = ''buy'' \<and> truthy (dget p ''winner_expansion_decision_id'')"

definition reserved_amounts_of :: "intent_terms \<Rightarrow> pydict \<Rightarrow> reserved_amounts res" where
  "reserved_amounts_of w p = (let z = it_sizing w; buy = it_side w = ''buy'';
       notional = (if buy then cs_notional z else 0); risk = (if buy then cs_stop_risk z else 0) in
     if winner_add w p then
       rbind (winner_add_reservation_risk p (cs_quantity z) (cs_reference_price z) (cs_stop_price z)) (\<lambda>(incremental, projection).
       rbind (decimal_or (PyFloat (Fin projection)) ''winner ADD reserved stop risk'' (Some 0)
           (ValueError ''winner ADD reserved stop risk is unavailable'')) (\<lambda>reserved.
       if \<not> truthy (dget p ''pyramiding_milestone_id'') \<or> \<not> truthy (dget p ''pyramiding_milestone_key'')
       then Inl (ValueError ''winner ADD requires a durable pyramiding milestone'')
       else Inr \<lparr>ra_notional = notional, ra_stop_risk = reserved, ra_incremental = incremental\<rparr>))
     else Inr \<lparr>ra_notional = notional, ra_stop_risk = risk, ra_incremental = risk\<rparr>)"

record approved_amounts =
  aa_quantity :: rat
  aa_notional :: "rat option"
  aa_initial_risk :: "rat option"

definition approved_amounts_of :: "canonical_sizing_record \<Rightarrow> pydict \<Rightarrow> approved_amounts res" where
  "approved_amounts_of z p =
     rbind (decimal_required (dget_or p ''approved_quantity_ceiling'' (PyDec (Fin (cs_quantity z)))) ''approved quantity ceiling'' (Some 0)) (\<lambda>quantity.
     rbind (decimal_value (dget_or p ''approved_notional_ceiling'' (dget_or p ''approved_notional'' (PyDec (Fin (cs_notional z)))))
         ''approved notional ceiling'' (Some 0) True) (\<lambda>notional.
     rbind (decimal_value (dget p ''initial_risk_dollars'') ''initial risk dollars'' (Some 0) True) (\<lambda>risk.
     Inr \<lparr>aa_quantity = quantity, aa_notional = notional, aa_initial_risk = risk\<rparr>)))"

section \<open>An intent that exists\<close>

definition rebind_snapshot :: "string \<Rightarrow> string \<Rightarrow> order_intent \<Rightarrow> order_intent" where
  "rebind_snapshot now snapshot r = r\<lparr>oi_updated := now, oi_data := (oi_data r)(''risk_snapshot_id'' \<mapsto> PyStr snapshot)\<rparr>"

definition return_existing ::
  "string \<Rightarrow> string \<Rightarrow> string \<Rightarrow> order_intent \<Rightarrow> ('m, 'z) durable_store_scheme \<Rightarrow> (order_intent \<times> ('m, 'z) durable_store_scheme) res" where
  "return_existing now snapshot approval r s =
     (if (case oi_approval r of None \<Rightarrow> [] | Some i \<Rightarrow> i) \<noteq> approval
      then Inl (RuntimeError ''logical action is already bound to another approval'')
      else if oi_state r \<in> {''created'', ''reserved'', ''retryable_pre_submission''} \<and> oi_broker_invoked r = 0
      then Inr (rebind_snapshot now snapshot r, s\<lparr>order_intents := update_where (\<lambda>x. oi_id x = oi_id r)
             (rebind_snapshot now snapshot) (order_intents s)\<rparr>)
      else Inr (r, s))"

section \<open>Approval and conflicts\<close>

definition check_approval :: "creation_tables \<Rightarrow> string \<Rightarrow> pydict \<Rightarrow> workflow list \<Rightarrow> pydict res" where
  "check_approval t approval p ws =
     (case fetch_one (\<lambda>w. wf_approval w = approval) ws of
        None \<Rightarrow> Inl (RuntimeError ''durable approval workflow is required before intent creation'')
      | Some w \<Rightarrow>
          if given_text (wf_intent w) then Inl (RuntimeError ''approval workflow references an unavailable existing intent'')
          else if wf_state w \<noteq> APPROVED_PENDING_INTENT
          then Inl (RuntimeError ''approval workflow is not eligible for intent creation'')
          else let row = fetch_one (\<lambda>x. aw_id x = approval \<and> PyStr (aw_proposal x) = py_or (dget p ''proposal_id'') (dget p ''id'')
                     \<and> aw_authorized x = 1 \<and> aw_status x = ''consumed'' \<and> aw_consumed_at x \<noteq> None) (ct_approvals t);
                   stored = (case row of None \<Rightarrow> [] | Some x \<Rightarrow> or_str [aw_authority x]);
                   displayed = (case row of None \<Rightarrow> [] | Some x \<Rightarrow> or_str [aw_displayed x]);
                   given = or_str [dget p ''approval_authority_fingerprint''] in
            if stored = [] then Inl (RuntimeError ''approval authority envelope is missing'')
            else if given \<noteq> [] \<and> given \<noteq> stored
            then Inl (RuntimeError ''approval authority fingerprint does not match the durable approval'')
            else if displayed \<noteq> stored then Inl (RuntimeError ''approval is not bound to the displayed authority'')
            else Inr (if given = [] then p(''approval_authority_fingerprint'' \<mapsto> PyStr stored) else p))"

definition CONFLICT_STATES :: "order_state list" where
  "CONFLICT_STATES = [RESERVED, SUBMITTING, SUBMITTED, PARTIALLY_FILLED, CANCEL_PENDING, UNKNOWN,
     RECONCILIATION_REQUIRED, CREATED, RETRYABLE_PRE_SUBMISSION]"

definition check_conflict :: "intent_terms \<Rightarrow> order_intent list \<Rightarrow> unit res" where
  "check_conflict w rs =
     (case fetch_one (\<lambda>r. dget (oi_data r) ''symbol'' = PyStr (it_symbol w) \<and> dget (oi_data r) ''side'' = PyStr (it_side w)
          \<and> oi_state r \<in> set (map state_value CONFLICT_STATES)) rs of
        None \<Rightarrow> Inr ()
      | Some r \<Rightarrow> Inl (RuntimeError (''conflicting active order intent exists: '' @ oi_state r)))"

definition exact_risk_is :: "pyval \<Rightarrow> rat \<Rightarrow> bool" where
  "exact_risk_is v x \<longleftrightarrow> \<not> blank v \<and> decimal_value v ''winner authority incremental risk'' None False = Inr (Some x)"

definition check_winner :: "creation_tables \<Rightarrow> intent_terms \<Rightarrow> pydict \<Rightarrow> rat \<Rightarrow> unit res" where
  "check_winner t w p incremental = (let proposal = py_or (dget p ''proposal_id'') (dget p ''id'') in
     if winner_add w p
        \<and> (\<not> list_ex (\<lambda>d. PyStr (dr_id d) = dget p ''winner_expansion_decision_id'' \<and> dr_proposal d = proposal \<and> proposal \<noteq> PyNone
              \<and> dr_stage d = ''final_revalidation'' \<and> dr_eligible d = 1 \<and> dr_milestone d = dget p ''pyramiding_milestone_id''
              \<and> dr_key d = dget p ''pyramiding_milestone_key'' \<and> exact_risk_is (dr_incremental d) incremental) (ct_add_risk t)
         \<or> \<not> list_ex (\<lambda>m. PyStr (py_id m) = dget p ''pyramiding_milestone_id'' \<and> PyStr (py_key m) = dget p ''pyramiding_milestone_key''
              \<and> py_proposal m = proposal \<and> proposal \<noteq> PyNone \<and> py_status m = ''APPROVED'') (ct_pyramiding t))
     then Inl (RuntimeError ''winner ADD lacks final canonical risk and milestone authority'') else Inr ())"

section \<open>The ceilings of the portfolio\<close>

text \<open>The decimal column of an active reservation, or its REAL column where there is none.\<close>

definition exact_reservation :: "string \<Rightarrow> string \<Rightarrow> pyval \<Rightarrow> rat res" where
  "exact_reservation field text legacy = decimal_or (if text = [] then legacy else PyStr text) (''active reservation '' @ field) (Some 0)
     (RuntimeError (''active reservation '' @ field @ '' is unavailable''))"

definition reservation_amounts :: "reservation \<Rightarrow> (rat \<times> rat) res" where
  "reservation_amounts r =
     rbind (exact_reservation ''active_notional'' (rr_active_notional r) (dget (rr_data r) ''active_notional'')) (\<lambda>notional.
     rbind (exact_reservation ''active_stop_risk'' (rr_active_risk r) (dget (rr_data r) ''active_stop_risk'')) (\<lambda>risk.
     Inr (notional, risk)))"

definition active_reservations :: "reservation list \<Rightarrow> reservation list" where
  "active_reservations rs = sort_key (\<lambda>r. py_str (dget (rr_data r) ''created_at'')) (sort_key (\<lambda>r. py_str (dget (rr_data r) ''id''))
     (filter (\<lambda>r. rr_state r = ''active'') rs))"

record exposure =
  ex_notional :: rat
  ex_risk :: rat
  ex_symbol :: rat
  ex_cluster :: rat

definition no_exposure :: exposure where
  "no_exposure = \<lparr>ex_notional = 0, ex_risk = 0, ex_symbol = 0, ex_cluster = 0\<rparr>"

definition add_exposure :: "string \<Rightarrow> pyval \<Rightarrow> reservation \<Rightarrow> rat \<Rightarrow> rat \<Rightarrow> exposure \<Rightarrow> exposure" where
  "add_exposure symbol cluster r notional risk e =
     \<lparr>ex_notional = dadd (ex_notional e) notional, ex_risk = dadd (ex_risk e) risk,
      ex_symbol = (if upper (or_str [dget (rr_data r) ''symbol'']) = symbol then dadd (ex_symbol e) notional else ex_symbol e),
      ex_cluster = (if truthy cluster \<and> or_str [dget (rr_data r) ''cluster_name''] = py_str cluster
        then dadd (ex_cluster e) notional else ex_cluster e)\<rparr>"

fun total_exposure :: "string \<Rightarrow> pyval \<Rightarrow> reservation list \<Rightarrow> exposure \<Rightarrow> exposure res" where
  "total_exposure symbol cluster [] e = Inr e"
| "total_exposure symbol cluster (r # rs) e =
     rbind (reservation_amounts r) (\<lambda>(notional, risk). total_exposure symbol cluster rs (add_exposure symbol cluster r notional risk e))"

definition exact_limit :: "pyval \<Rightarrow> string \<Rightarrow> rat res" where
  "exact_limit v label = decimal_or (if blank v then PyDec (Fin 0) else v) label (Some 0)
     (RuntimeError (''atomic reservation '' @ label @ '' is unavailable''))"

definition enforce_limit :: "pydict \<Rightarrow> string \<Rightarrow> rat \<Rightarrow> string \<Rightarrow> unit res" where
  "enforce_limit limits name projected key =
     (if blank (dget limits key) then Inr ()
      else rbind (exact_limit (dget limits key) (''atomic reservation '' @ key)) (\<lambda>ceiling.
        if projected > ceiling then Inl (RuntimeError (''atomic reservation blocked by '' @ name)) else Inr ()))"

text \<open>A ceiling on what the snapshot has measured, what is reserved and what is asked for.\<close>

definition enforce_projected :: "pydict \<Rightarrow> string \<Rightarrow> string \<Rightarrow> string \<Rightarrow> rat \<Rightarrow> rat \<Rightarrow> string \<Rightarrow> unit res" where
  "enforce_projected limits name base label held reserved key =
     rbind (exact_limit (dget limits base) label) (\<lambda>b. enforce_limit limits name (dadd (dadd b held) reserved) key)"

definition check_exposure :: "pydict \<Rightarrow> exposure \<Rightarrow> reserved_amounts \<Rightarrow> unit res" where
  "check_exposure limits e m =
     rbind (enforce_projected limits ''total exposure ceiling'' ''base_total_notional'' ''base total notional''
       (ex_notional e) (ra_notional m) ''total_notional_ceiling'') (\<lambda>_.
     rbind (enforce_projected limits ''symbol exposure ceiling'' ''base_symbol_notional'' ''base symbol notional''
       (ex_symbol e) (ra_notional m) ''symbol_notional_ceiling'') (\<lambda>_.
     rbind (enforce_projected limits ''cluster exposure ceiling'' ''base_cluster_notional'' ''base cluster notional''
       (ex_cluster e) (ra_notional m) ''cluster_notional_ceiling'') (\<lambda>_.
     rbind (enforce_projected limits ''open risk ceiling'' ''base_open_risk'' ''base open risk''
       (ex_risk e) (ra_stop_risk m) ''open_risk_ceiling'') (\<lambda>_.
     enforce_limit limits ''paper buying power'' (dadd (ex_notional e) (ra_notional m)) ''buying_power_ceiling''))))"

section \<open>The ceilings of probes\<close>

definition probe_proposal :: "creation_tables \<Rightarrow> pyval \<Rightarrow> bool" where
  "probe_proposal t v = (case v of PyStr i \<Rightarrow> ct_strategy_state t i = Some ''PROBE'' | _ \<Rightarrow> False)"

definition reservation_proposal :: "order_intent list \<Rightarrow> reservation \<Rightarrow> pyval" where
  "reservation_proposal is r = (case fetch_one (\<lambda>i. oi_id i = rr_intent r) is of None \<Rightarrow> PyNone | Some i \<Rightarrow> dget (oi_data i) ''proposal_id'')"

definition probe_reservations :: "creation_tables \<Rightarrow> order_intent list \<Rightarrow> reservation list \<Rightarrow> reservation list" where
  "probe_reservations t is rs = filter (\<lambda>r. rr_state r = ''active'' \<and> probe_proposal t (reservation_proposal is r)) rs"

definition probe_lots :: "creation_tables \<Rightarrow> lot list" where
  "probe_lots t = filter (\<lambda>l. remaining_qty l \<noteq> PyNone \<and> remaining_qty l \<noteq> PyStr ''0'' \<and> probe_proposal t (entry_proposal_id l)) (ct_lots t)"

fun sum_reservations :: "reservation list \<Rightarrow> rat \<times> rat \<Rightarrow> (rat \<times> rat) res" where
  "sum_reservations [] acc = Inr acc"
| "sum_reservations (r # rs) acc =
     rbind (reservation_amounts r) (\<lambda>(notional, risk). sum_reservations rs (dadd (fst acc) notional, dadd (snd acc) risk))"

fun sum_probe_lots :: "lot list \<Rightarrow> rat \<times> rat \<Rightarrow> (rat \<times> rat) res" where
  "sum_probe_lots [] acc = Inr acc"
| "sum_probe_lots (l # ls) acc =
     (let unavailable = RuntimeError ''PROBE lot exact accounting evidence is unavailable'' in
      rbind (decimal_or (remaining_qty l) ''PROBE lot remaining quantity'' (Some 0) unavailable) (\<lambda>remaining.
      rbind (decimal_or (unit_cost l) ''PROBE lot unit cost'' (Some 0) unavailable) (\<lambda>cost.
      rbind (decimal_or (initial_risk l) ''PROBE lot initial risk'' (Some 0) unavailable) (\<lambda>risk.
      rbind (decimal_or (original_qty l) ''PROBE lot original quantity'' (Some 0)
          (RuntimeError ''PROBE lot original quantity is invalid'')) (\<lambda>original.
      if original \<le> 0 then Inl (RuntimeError ''PROBE lot original quantity is invalid'')
      else sum_probe_lots ls (dadd (fst acc) (dmul remaining cost), dadd (snd acc) (ddiv (dmul risk remaining) original)))))))"

text \<open>\<open>int(limits.get("probe_max_active_count", 1))\<close>\<close>

definition probe_maximum :: "pydict \<Rightarrow> int res" where
  "probe_maximum limits = (let v = dget_or limits ''probe_max_active_count'' (PyInt 1) in
     rbind (py_int v) (\<lambda>n. case n of
       Some k \<Rightarrow> Inr k
     | None \<Rightarrow> if v = PyNone then Inl (TypeError ''int() argument must be a string or a number'') else Inl (ValueError ''invalid literal for int()'')))"

definition check_probe :: "creation_tables \<Rightarrow> pydict \<Rightarrow> reserved_amounts \<Rightarrow> ('m, 'z) durable_store_scheme \<Rightarrow> unit res" where
  "check_probe t limits m s = (let rs = probe_reservations t (order_intents s) (risk_reservations s); ls = probe_lots t;
       slots = length (remdups (map (reservation_proposal (order_intents s)) rs @ map entry_proposal_id ls)) in
     rbind (probe_maximum limits) (\<lambda>maximum.
     if int slots \<ge> maximum then Inl (RuntimeError ''atomic reservation blocked by PROBE active-count ceiling'')
     else rbind (sum_reservations rs (0, 0)) (\<lambda>acc.
     rbind (sum_probe_lots ls acc) (\<lambda>(gross, heat).
     rbind (enforce_limit limits ''PROBE gross-exposure ceiling'' (dadd gross (ra_notional m)) ''probe_gross_notional_ceiling'') (\<lambda>_.
     enforce_limit limits ''PROBE portfolio-heat ceiling'' (dadd heat (ra_stop_risk m)) ''probe_stop_risk_ceiling'')))))"

text \<open>\<open>None\<close> stands for limits that are missing or empty: both are falsy, and the block is skipped.\<close>

definition check_limits ::
  "creation_tables \<Rightarrow> intent_terms \<Rightarrow> pydict \<Rightarrow> pydict option \<Rightarrow> reserved_amounts \<Rightarrow> ('m, 'z) durable_store_scheme \<Rightarrow> unit res" where
  "check_limits t w p given m s = (case given of
       None \<Rightarrow> Inr ()
     | Some limits \<Rightarrow>
         if it_side w \<noteq> ''buy'' then Inr ()
         else rbind (total_exposure (it_symbol w) (dget p ''cluster_name'') (active_reservations (risk_reservations s)) no_exposure) (\<lambda>e.
         rbind (check_exposure limits e m) (\<lambda>_.
         if dget p ''phase4_mode'' = PyStr ''probe'' then check_probe t limits m s else Inr ())))"

section \<open>The ceilings of a strategy sleeve\<close>

definition SLEEVE_FIELDS :: "string list" where
  "SLEEVE_FIELDS = [''strategy_registry_snapshot_id'', ''strategy_sleeve'', ''sleeve_allocation_id'', ''sleeve_notional_ceiling'',
     ''sleeve_stop_risk_ceiling'']"

definition needs_sleeve :: "intent_terms \<Rightarrow> pydict \<Rightarrow> pydict \<Rightarrow> bool" where
  "needs_sleeve w p limits \<longleftrightarrow> it_side w = ''buy''
     \<and> (list_ex (\<lambda>k. dget p k \<noteq> PyNone) SLEEVE_FIELDS \<or> dget limits ''require_strategy_sleeve'' = PyBool True)"

definition sleeve_error :: "string \<Rightarrow> 'a res" where
  "sleeve_error m = Inl (RuntimeError m)"

text \<open>The verified sleeve of the strategy: the registry authorises it, and the allocation holds it.\<close>

definition authorized_sleeve :: "creation_env \<Rightarrow> creation_args \<Rightarrow> string \<Rightarrow> pydict \<Rightarrow> (sleeve_allocation \<times> pydict) res" where
  "authorized_sleeve env a config p = (let version = dget p ''strategy_version''; registry = dget p ''strategy_registry_snapshot_id'';
       run = (case cr_run a of None \<Rightarrow> ''None'' | Some r \<Rightarrow> r);
       missing = filter (\<lambda>k. blank (dget p k)) (SLEEVE_FIELDS @ [''strategy_version'']) in
     if missing \<noteq> [] then sleeve_error (''atomic strategy sleeve reservation missing '' @ join_words (sort missing))
     else case ce_registry env (py_str registry) run of
       None \<Rightarrow> sleeve_error ''atomic strategy sleeve persisted authority is invalid''
     | Some decisions \<Rightarrow>
         if decisions (py_str version) \<noteq> Some True then sleeve_error ''atomic strategy sleeve reservation lacks registry authority''
         else case ce_allocation env (py_str (dget p ''sleeve_allocation_id'')) run (py_str registry) (py_str version) config of
           None \<Rightarrow> sleeve_error ''atomic strategy sleeve persisted authority is invalid''
         | Some l \<Rightarrow> (case sl_sleeves l (py_str version) of
             None \<Rightarrow> Inl (KeyError (py_str version))
           | Some sleeve \<Rightarrow>
               if dget p ''strategy_sleeve'' \<noteq> version then sleeve_error ''atomic strategy sleeve identity does not match the strategy''
               else if dget sleeve ''strategy_version'' \<noteq> version
               then sleeve_error ''canonical allocation does not contain the requested strategy sleeve''
               else if version \<notin> set (map PyStr (sl_authorized l)) then sleeve_error ''canonical allocation does not authorize the requested strategy''
               else if sl_registry l \<noteq> registry then sleeve_error ''canonical allocation is not bound to the supplied registry snapshot''
               else Inr (l, sleeve)))"

text \<open>\<open>require_exact_decimal\<close> with its \<open>ValueError\<close> turned into the error of the sleeve.\<close>

definition sleeve_capacity :: "pydict \<Rightarrow> string \<Rightarrow> rat res" where
  "sleeve_capacity sleeve column = (case require_exact_decimal sleeve column (Some 0) False of
     Inl e \<Rightarrow> sleeve_error ''canonical strategy sleeve exact capacity is unavailable''
   | Inr None \<Rightarrow> sleeve_error ''canonical strategy risk capacity is unavailable''
   | Inr (Some x) \<Rightarrow> Inr x)"

definition sleeve_ceilings :: "sleeve_allocation \<Rightarrow> pydict \<Rightarrow> pydict \<Rightarrow> (rat \<times> rat) res" where
  "sleeve_ceilings l sleeve p = (let risk_unit = or_str [dget sleeve ''risk_unit''] in
     rbind (sleeve_capacity sleeve ''remaining_risk_decimal'') (\<lambda>capacity.
     rbind (sleeve_capacity sleeve ''remaining_notional_decimal'') (\<lambda>notional.
     rbind (if risk_unit = ''pct_equity'' then
              rbind (decimal_or (sl_equity l) ''canonical sleeve equity'' (Some 0)
                (RuntimeError ''canonical sleeve equity conversion is unavailable'')) (\<lambda>equity.
              if equity \<le> 0 then sleeve_error ''canonical sleeve equity conversion is unavailable''
              else Inr (ddiv (dmul equity capacity) 100))
            else if risk_unit \<noteq> ''stop_risk_dollars'' then sleeve_error ''canonical sleeve risk unit is unsupported''
            else Inr capacity) (\<lambda>risk.
     rbind (decimal_or (dget p ''sleeve_notional_ceiling'') ''proposal strategy sleeve notional ceiling'' (Some 0)
         (RuntimeError ''canonical strategy sleeve ceilings are unavailable'')) (\<lambda>supplied_notional.
     rbind (decimal_or (dget p ''sleeve_stop_risk_ceiling'') ''proposal strategy sleeve stop-risk ceiling'' (Some 0)
         (RuntimeError ''canonical strategy sleeve ceilings are unavailable'')) (\<lambda>supplied_risk.
     if supplied_notional > notional \<or> supplied_risk > risk
     then sleeve_error ''proposal-carried sleeve ceiling exceeds canonical persisted allocation''
     else Inr (min notional supplied_notional, min risk supplied_risk)))))))"

text \<open>The claims that the allocation has deducted, by proposal; \<open>None\<close> stands for the errors the code turns into one.\<close>

fun claim_map :: "pydict list \<Rightarrow> (string \<times> rat \<times> rat) list option" where
  "claim_map [] = Some []"
| "claim_map (c # cs) = (case (claim_map cs, require_exact_decimal c ''notional_decimal'' (Some 0) False,
       require_exact_decimal c ''stop_risk_decimal'' (Some 0) False) of
     (Some m, Inr (Some notional), Inr (Some risk)) \<Rightarrow> (let i = or_str [dget c ''proposal_id''] in
       if i = [] \<or> i \<in> set (map fst m) then None else Some ((i, notional, risk) # m))
   | _ \<Rightarrow> None)"

definition sleeve_baseline :: "sleeve_allocation \<Rightarrow> string \<Rightarrow> (string list \<times> (string \<times> rat \<times> rat) list) res" where
  "sleeve_baseline l version = (case (sl_included l version, sl_claims l version) of
     (Some ids, Some claims) \<Rightarrow> (case claim_map claims of
        Some m \<Rightarrow> if [] \<in> set ids \<or> \<not> distinct ids then sleeve_error ''canonical strategy sleeve reservation snapshot is unavailable''
          else Inr (ids, m)
      | None \<Rightarrow> sleeve_error ''canonical strategy sleeve reservation snapshot is unavailable'')
   | _ \<Rightarrow> sleeve_error ''canonical strategy sleeve reservation snapshot is unavailable'')"

definition pending_claim :: "(string \<times> rat \<times> rat) list \<Rightarrow> string \<Rightarrow> rat \<times> rat" where
  "pending_claim m i = (case map_of m i of None \<Rightarrow> (0, 0) | Some c \<Rightarrow> c)"

text \<open>What active reservations of the strategy hold beyond the baseline.\<close>

fun sleeve_growth ::
  "order_intent list \<Rightarrow> string list \<Rightarrow> (string \<times> rat \<times> rat) list \<Rightarrow> reservation list \<Rightarrow> rat \<times> rat \<Rightarrow> (rat \<times> rat) res" where
  "sleeve_growth is ids m [] acc = Inr acc"
| "sleeve_growth is ids m (r # rs) acc =
     (if py_str (dget (rr_data r) ''id'') \<in> set ids then sleeve_growth is ids m rs acc
      else let pending = pending_claim m (or_str [reservation_proposal is r]) in
        rbind (exact_column ''active_notional_decimal'' (PyStr (rr_active_notional r))) (\<lambda>notional.
        rbind (exact_column ''active_stop_risk_decimal'' (PyStr (rr_active_risk r))) (\<lambda>risk.
        sleeve_growth is ids m rs (dadd (fst acc) (max 0 (dsub notional (fst pending))),
          dadd (snd acc) (max 0 (dsub risk (snd pending)))))))"

definition strategy_reservations :: "pyval \<Rightarrow> reservation list \<Rightarrow> reservation list" where
  "strategy_reservations version rs = filter (\<lambda>r. rr_state r = ''active'' \<and> version \<noteq> PyNone
     \<and> dget (rr_data r) ''strategy_version'' = version) rs"

text \<open>
  The check reuses the variable of the order's incremental risk for the growth of the sleeve, so what it leaves there is
  what the rows will record.
\<close>

definition check_sleeve ::
  "creation_env \<Rightarrow> creation_args \<Rightarrow> string \<Rightarrow> intent_terms \<Rightarrow> pydict \<Rightarrow> pydict \<Rightarrow> reserved_amounts
    \<Rightarrow> ('m, 'z) durable_store_scheme \<Rightarrow> rat res" where
  "check_sleeve env a config w p limits m s =
     (if \<not> needs_sleeve w p limits then Inr (ra_incremental m)
      else rbind (authorized_sleeve env a config p) (\<lambda>(l, sleeve).
      rbind (sleeve_ceilings l sleeve p) (\<lambda>(notional_ceiling, risk_ceiling).
      rbind (sleeve_baseline l (py_str (dget p ''strategy_version''))) (\<lambda>(ids, claims).
      rbind (sleeve_growth (order_intents s) ids claims (strategy_reservations (dget p ''strategy_version'') (risk_reservations s)) (0, 0))
        (\<lambda>(notional, risk).
      let pending = pending_claim claims (or_str [dget p ''proposal_id'', dget p ''id'']) in
      if dadd notional (max 0 (dsub (ra_notional m) (fst pending))) > notional_ceiling
      then sleeve_error ''atomic reservation blocked by strategy sleeve notional ceiling''
      else if dadd risk (max 0 (dsub (ra_stop_risk m) (snd pending))) > risk_ceiling
      then sleeve_error ''atomic reservation blocked by strategy sleeve stop-risk ceiling''
      else Inr risk)))))"

section \<open>The rows of a new intent\<close>

text \<open>A REAL column that is absent or the float of a decimal.\<close>

definition optional_real :: "pydict \<Rightarrow> string \<Rightarrow> string \<Rightarrow> pyval res" where
  "optional_real p k label = (if dget p k = PyNone then Inr PyNone
     else rbind (decimal_required (dget p k) label None) (\<lambda>x. Inr (legacy_val x)))"

definition optional_decimal :: "rat option \<Rightarrow> pyval" where
  "optional_decimal x = (case x of None \<Rightarrow> PyNone | Some y \<Rightarrow> dec_column y)"

record ceiling_columns =
  cl_notional :: pyval
  cl_risk :: pyval
  cl_pre :: pyval
  cl_post :: pyval

definition ceiling_columns_of :: "pydict \<Rightarrow> ceiling_columns res" where
  "ceiling_columns_of p =
     rbind (optional_real p ''sleeve_notional_ceiling'' ''sleeve notional ceiling'') (\<lambda>notional.
     rbind (optional_real p ''sleeve_stop_risk_ceiling'' ''sleeve stop risk ceiling'') (\<lambda>risk.
     rbind (optional_real p ''pre_add_open_risk'' ''pre-add open risk'') (\<lambda>pre.
     rbind (optional_real p ''post_add_open_risk'' ''post-add open risk'') (\<lambda>post.
     Inr \<lparr>cl_notional = notional, cl_risk = risk, cl_pre = pre, cl_post = post\<rparr>))))"

definition flag_value :: "pyval \<Rightarrow> pyval" where
  "flag_value v = PyInt (if truthy v then 1 else 0)"

definition intent_columns ::
  "creation_env \<Rightarrow> creation_args \<Rightarrow> intent_terms \<Rightarrow> pydict \<Rightarrow> reserved_amounts \<Rightarrow> approved_amounts \<Rightarrow> ceiling_columns \<Rightarrow> pydict" where
  "intent_columns env a w p m aa cl = (let z = it_sizing w in map_of [
     (''symbol'', PyStr (it_symbol w)), (''side'', PyStr (it_side w)), (''logical_action_key'', PyStr (it_key w)),
     (''client_order_id'', PyStr (it_client w)), (''proposal_id'', py_or (dget p ''proposal_id'') (dget p ''id'')),
     (''run_id'', text_val (cr_run a)), (''source_id'', PyStr (it_source w)), (''source_type'', PyStr (cr_source_type a)),
     (''candidate_id'', dget p ''candidate_id''), (''position_lifecycle_id'', dget p ''position_lifecycle_id''),
     (''intended_action'', PyStr (it_action w)), (''request_basis'', PyStr (cs_request_basis z)),
     (''quote_bid'', dget p ''quote_bid''), (''quote_ask'', dget p ''quote_ask''), (''quote_timestamp'', dget p ''quote_timestamp''),
     (''quote_spread_bps'', dget p ''quote_spread_bps''), (''limit_price'', dget p ''limit_price''),
     (''implementation_shortfall_bps'', dget p ''implementation_shortfall_bps''), (''trading_mode'', PyStr ''paper''),
     (''created_at'', PyStr (ce_now env)), (''replacement_enabled'', flag_value (dget p ''replacement_enabled'')),
     (''parent_intent_id'', dget p ''parent_intent_id''), (''relationship_group_id'', dget p ''relationship_group_id''),
     (''relationship_type'', dget p ''relationship_type''), (''order_role'', dget_or p ''order_role'' (PyStr ''primary'')),
     (''protection_confirmed'', flag_value (dget p ''protection_confirmed'')), (''strategy_version'', dget p ''strategy_version''),
     (''entry_regime'', dget_or p ''entry_regime'' (dget p ''volatility_regime'')), (''entry_score'', dget_or p ''entry_score'' (dget p ''score'')),
     (''config_hash'', dget p ''config_hash''), (''evidence_version'', dget_or p ''evidence_version'' (PyStr EVIDENCE_VERSION)),
     (''formula_version'', dget_or p ''formula_version'' (PyStr ACCOUNTING_VERSION)),
     (''strategy_registry_snapshot_id'', dget p ''strategy_registry_snapshot_id''), (''strategy_sleeve'', dget p ''strategy_sleeve''),
     (''sleeve_allocation_id'', dget p ''sleeve_allocation_id''), (''sleeve_notional_ceiling'', cl_notional cl),
     (''sleeve_stop_risk_ceiling'', cl_risk cl), (''winner_expansion_decision_id'', dget p ''winner_expansion_decision_id''),
     (''pyramiding_milestone_id'', dget p ''pyramiding_milestone_id''), (''pyramiding_milestone_key'', dget p ''pyramiding_milestone_key''),
     (''management_mode'', dget p ''management_mode''), (''pre_add_open_risk'', cl_pre cl), (''post_add_open_risk'', cl_post cl),
     (''rotation_step_id'', dget p ''rotation_step_id''), (''approval_authority_fingerprint'', dget p ''approval_authority_fingerprint''),
     (''displayed_fingerprint'', py_or (dget p ''displayed_fingerprint'') (dget p ''approval_authority_fingerprint'')),
     (''execution_path'', dget p ''execution_path''), (''risk_snapshot_id'', dget p ''risk_snapshot_id''),
     (''approved_quantity_ceiling_decimal'', dec_column (aa_quantity aa)),
     (''approved_notional_ceiling_decimal'', optional_decimal (aa_notional aa)),
     (''requested_quantity_decimal'', dec_column (cs_quantity z)), (''requested_notional_decimal'', dec_column (cs_notional z)),
     (''reference_price_decimal'', dec_column (cs_reference_price z)),
     (''intended_stop_price_decimal'', optional_decimal (cs_stop_price z)),
     (''reserved_notional_decimal'', dec_column (ra_notional m)), (''reserved_stop_risk_decimal'', dec_column (ra_stop_risk m)),
     (''canonical_quantity_decimal'', dec_column (cs_quantity z)), (''canonical_notional_decimal'', dec_column (cs_notional z)),
     (''canonical_stop_risk_decimal'', dec_column (cs_stop_risk z)),
     (''initial_risk_dollars_decimal'', optional_decimal (aa_initial_risk aa)),
     (''incremental_risk_decimal'', dec_column (ra_incremental m)), (''filled_quantity_decimal'', PyStr ''0''),
     (''decimal_provenance'', PyStr EXACT_DECIMAL_PROVENANCE), (''decimal_accounting_version'', PyStr FIXED_POINT_ACCOUNTING_VERSION)])"

definition new_intent :: "creation_env \<Rightarrow> string \<Rightarrow> pydict \<Rightarrow> order_intent" where
  "new_intent env approval data = \<lparr>oi_id = ce_intent env, oi_approval = Some approval, oi_state = state_value RESERVED,
     oi_broker_order = None, oi_first_submission = None, oi_terminal_at = None, oi_error = None, oi_summary = None,
     oi_attempts = 0, oi_counter = 0, oi_broker_invoked = 0, oi_updated = ce_now env, oi_data = data\<rparr>"

text \<open>The unique columns of \<open>order_intents\<close>; the key of the action has been looked up before.\<close>

definition insert_intent :: "order_intent \<Rightarrow> ('m, 'z) durable_store_scheme \<Rightarrow> ('m, 'z) durable_store_scheme res" where
  "insert_intent r s =
     (if list_ex (\<lambda>x. oi_id x = oi_id r \<or> dget (oi_data x) ''logical_action_key'' = dget (oi_data r) ''logical_action_key''
           \<or> dget (oi_data x) ''client_order_id'' = dget (oi_data r) ''client_order_id'') (order_intents s)
      then Inl (IntegrityError ''UNIQUE constraint failed: order_intents'')
      else Inr (s\<lparr>order_intents := order_intents s @ [r]\<rparr>))"

definition new_reservation ::
  "creation_env \<Rightarrow> intent_terms \<Rightarrow> pydict \<Rightarrow> reserved_amounts \<Rightarrow> ceiling_columns \<Rightarrow> rat option \<Rightarrow> reservation" where
  "new_reservation env w p m cl equity = (let now = PyStr (ce_now env) in
     \<lparr>rr_intent = ce_intent env, rr_active_notional = dec_text (ra_notional m), rr_active_risk = dec_text (ra_stop_risk m),
      rr_state = ''active'', rr_released_at = None, rr_reason = None, rr_updated = ce_now env, rr_version = 0,
      rr_data = map_of [(''id'', PyStr (ce_reservation env)), (''symbol'', PyStr (it_symbol w)), (''cluster_name'', dget p ''cluster_name''),
        (''created_at'', now), (''strategy_version'', dget p ''strategy_version''), (''strategy_sleeve'', dget p ''strategy_sleeve''),
        (''sleeve_allocation_id'', dget p ''sleeve_allocation_id''), (''sleeve_notional_ceiling'', cl_notional cl),
        (''sleeve_stop_risk_ceiling'', cl_risk cl), (''risk_unit'', PyStr ''stop_risk_dollars''),
        (''conversion_equity'', dget p ''conversion_equity''), (''conversion_equity_as_of'', py_or (dget p ''conversion_equity_as_of'') now),
        (''risk_formula_version'', py_or (dget p ''risk_formula_version'') (PyStr ''risk_unit_to_stop_risk_dollars_v1'')),
        (''initial_notional_decimal'', dec_column (ra_notional m)), (''initial_stop_risk_decimal'', dec_column (ra_stop_risk m)),
        (''incremental_risk_decimal'', dec_column (ra_incremental m)), (''risk_value_decimal'', dec_column (ra_stop_risk m)),
        (''conversion_equity_decimal'', optional_decimal equity), (''decimal_provenance'', PyStr EXACT_DECIMAL_PROVENANCE),
        (''decimal_accounting_version'', PyStr FIXED_POINT_ACCOUNTING_VERSION)]\<rparr>)"

definition insert_reservation :: "reservation \<Rightarrow> ('m, 'z) durable_store_scheme \<Rightarrow> ('m, 'z) durable_store_scheme res" where
  "insert_reservation r s =
     (if list_ex (\<lambda>x. rr_intent x = rr_intent r \<or> dget (rr_data x) ''id'' = dget (rr_data r) ''id'') (risk_reservations s)
      then Inl (IntegrityError ''UNIQUE constraint failed: risk_reservations'')
      else Inr (s\<lparr>risk_reservations := risk_reservations s @ [r]\<rparr>))"

definition creation_event :: "creation_env \<Rightarrow> string \<Rightarrow> order_event" where
  "creation_event env source_type = \<lparr>oe_id = ce_event env, oe_intent = ce_intent env, oe_key = ce_intent env @ '':reserved:0'',
     oe_from = None, oe_to = state_value RESERVED, oe_type = ''intent_created_and_reserved'', oe_error = None, oe_summary = None,
     oe_created = ce_now env, oe_counter = 0, oe_fill = None, oe_origin = Some source_type\<rparr>"

text \<open>The order row is not inserted when its client order id is there already.\<close>

definition new_order :: "creation_env \<Rightarrow> creation_args \<Rightarrow> intent_terms \<Rightarrow> pydict \<Rightarrow> rat option \<Rightarrow> order_row" where
  "new_order env a w p notional = \<lparr>or_id = ce_intent env, or_client = it_client w,
     or_proposal = py_or (dget p ''proposal_id'') (dget p ''id''),
     or_data = map_of [(''run_id'', text_val (cr_run a)), (''symbol'', PyStr (it_symbol w)), (''side'', PyStr (it_side w)),
       (''payload'', PyStr (ce_dumps env (map_of [(''intent_id'', PyStr (ce_intent env)), (''source_type'', PyStr (cr_source_type a)),
          (''quote_bid'', dget p ''quote_bid''), (''quote_ask'', dget p ''quote_ask''), (''quote_timestamp'', dget p ''quote_timestamp''),
          (''quote_spread_bps'', dget p ''quote_spread_bps''), (''limit_price'', dget p ''limit_price'')]))),
       (''quote_bid'', dget p ''quote_bid''), (''quote_ask'', dget p ''quote_ask''), (''quote_timestamp'', dget p ''quote_timestamp''),
       (''quote_spread_bps'', dget p ''quote_spread_bps''), (''limit_price'', dget p ''limit_price''),
       (''implementation_shortfall_bps'', dget p ''implementation_shortfall_bps''), (''created_at'', PyStr (ce_now env)),
       (''notional_decimal'', optional_decimal notional), (''qty_decimal'', dec_column (cs_quantity (it_sizing w))),
       (''decimal_provenance'', PyStr EXACT_DECIMAL_PROVENANCE), (''decimal_accounting_version'', PyStr FIXED_POINT_ACCOUNTING_VERSION)],
     or_broker_order = None, or_status = state_value RESERVED, or_updated = ce_now env\<rparr>"

definition insert_order :: "order_row \<Rightarrow> ('m, 'z) durable_store_scheme \<Rightarrow> ('m, 'z) durable_store_scheme res" where
  "insert_order r s =
     (if list_ex (\<lambda>x. or_client x = or_client r) (orders s) then Inr s
      else if list_ex (\<lambda>x. or_id x = or_id r \<or> (or_proposal x = or_proposal r \<and> or_proposal r \<noteq> PyNone)) (orders s)
      then Inl (IntegrityError ''UNIQUE constraint failed: orders'')
      else Inr (s\<lparr>orders := orders s @ [r]\<rparr>))"

text \<open>\<open>order_notional_decimal\<close>: of a sale, the notional of the proposal, where it has one.\<close>

definition order_notional :: "intent_terms \<Rightarrow> pydict \<Rightarrow> rat option res" where
  "order_notional w p = (if it_side w \<noteq> ''buy'' \<and> dget p ''notional'' \<noteq> PyNone
     then rbind (decimal_required (dget p ''notional'') ''order notional'' None) (\<lambda>_.
       decimal_value (dget p ''notional'') ''order notional'' (Some 0) True)
     else Inr (Some (cs_notional (it_sizing w))))"

definition bind_new_intent :: "creation_env \<Rightarrow> pydict \<Rightarrow> order_intent \<Rightarrow> milestone_tables \<Rightarrow> milestone_tables res" where
  "bind_new_intent env p r m = rbind (bind_take_profit_intent \<lparr>ba_json = ce_json env, ba_decision = ce_decision env,
       ba_intent = intent_row r, ba_proposal = p, ba_now = ce_now env, ba_fresh_milestone = ce_milestone env,
       ba_fresh_action = ce_action env\<rparr> m) (\<lambda>(bound, m'). Inr m')"

text \<open>The compare-and-swap of the approval workflow.\<close>

definition link_workflow :: "string \<Rightarrow> string \<Rightarrow> workflow \<Rightarrow> workflow" where
  "link_workflow intent now w = w\<lparr>wf_intent := Some intent, wf_state := INTENT_CREATED, wf_updated := now, wf_version := wf_version w + 1\<rparr>"

definition awaits_intent :: "string \<Rightarrow> workflow \<Rightarrow> bool" where
  "awaits_intent approval w \<longleftrightarrow> wf_approval w = approval \<and> wf_state w = APPROVED_PENDING_INTENT \<and> wf_intent w = None"

definition link_approval :: "creation_env \<Rightarrow> string \<Rightarrow> workflow list \<Rightarrow> workflow list res" where
  "link_approval env approval ws = (if count_where (awaits_intent approval) ws \<noteq> 1
     then Inl (RuntimeError ''approval workflow compare-and-swap lost during intent creation'')
     else Inr (update_where (awaits_intent approval) (link_workflow (ce_intent env) (ce_now env)) ws))"

text \<open>The writes, in the order of the code.\<close>

definition write_intent ::
  "creation_env \<Rightarrow> creation_args \<Rightarrow> string \<Rightarrow> intent_terms \<Rightarrow> pydict \<Rightarrow> reserved_amounts \<Rightarrow> approved_amounts \<Rightarrow> workflow list
    \<Rightarrow> (milestone_tables, 'z) durable_store_scheme \<Rightarrow> (workflow list \<times> (milestone_tables, 'z) durable_store_scheme) res" where
  "write_intent env a approval w p m aa ws s =
     rbind (ceiling_columns_of p) (\<lambda>cl.
     let r = new_intent env approval (intent_columns env a w p m aa cl) in
     rbind (insert_intent r s) (\<lambda>s1.
     rbind (decimal_value (dget p ''conversion_equity'') ''conversion equity'' (Some 0) True) (\<lambda>equity.
     rbind (insert_reservation (new_reservation env w p m cl equity) s1) (\<lambda>s2.
     rbind (insert_order_event (creation_event env (cr_source_type a)) s2) (\<lambda>s3.
     rbind (order_notional w p) (\<lambda>notional.
     rbind (insert_order (new_order env a w p notional) s3) (\<lambda>s4.
     rbind (bind_new_intent env p r (milestones s4)) (\<lambda>ms.
     rbind (link_approval env approval ws) (\<lambda>ws'. Inr (ws', s4\<lparr>milestones := ms\<rparr>))))))))))"

section \<open>Creating an intent\<close>

definition create_intent ::
  "creation_env \<Rightarrow> creation_tables \<Rightarrow> creation_args \<Rightarrow> string \<Rightarrow> bound_evidence \<Rightarrow> intent_terms \<Rightarrow> pydict \<Rightarrow> reserved_amounts
    \<Rightarrow> approved_amounts \<Rightarrow> workflow list \<Rightarrow> (milestone_tables, 'z) durable_store_scheme
    \<Rightarrow> (order_intent \<times> workflow list \<times> (milestone_tables, 'z) durable_store_scheme) res" where
  "create_intent env t a approval b w p m aa ws s =
     rbind (check_approval t approval p ws) (\<lambda>p.
     rbind (check_conflict w (order_intents s)) (\<lambda>_.
     rbind (check_winner t w p (ra_incremental m)) (\<lambda>_.
     rbind (check_limits t w p (be_limits b) m s) (\<lambda>_.
     rbind (check_sleeve env a (be_config b) w p (limits_of b) m s) (\<lambda>incremental.
     rbind (write_intent env a approval w p (m\<lparr>ra_incremental := incremental\<rparr>) aa ws s) (\<lambda>(ws', s').
     rbind (get_intent (ce_intent env) s') (\<lambda>r. Inr (r, ws', s'))))))))"

text \<open>The evidence, the terms and the amounts of a call.\<close>

definition creation_plan ::
  "creation_env \<Rightarrow> creation_tables \<Rightarrow> creation_args
    \<Rightarrow> (string \<times> bound_evidence \<times> intent_terms \<times> pydict \<times> reserved_amounts \<times> approved_amounts) res" where
  "creation_plan env t a =
     rbind (check_caller (cr_proposal a) (cr_approval a)) (\<lambda>approval.
     rbind (bound_evidence_of env t a approval) (\<lambda>b.
     rbind (check_caller_evidence (cr_proposal a) (be_candidate b)) (\<lambda>_.
     rbind (check_envelope_evidence b (cr_source_type a)) (\<lambda>_.
     let p = execution_terms env b in
     rbind (check_expiry env p (be_envelope b)) (\<lambda>_.
     rbind (intent_terms_of env a (be_candidate b) p) (\<lambda>w.
     rbind (reserved_amounts_of w p) (\<lambda>m.
     rbind (approved_amounts_of (it_sizing w) p) (\<lambda>aa.
     Inr (approval, b, w, p, m, aa)))))))))"

definition create_or_get_intent ::
  "creation_env \<Rightarrow> creation_tables \<Rightarrow> creation_args \<Rightarrow> workflow list \<Rightarrow> (milestone_tables, 'z) durable_store_scheme
    \<Rightarrow> (order_intent \<times> workflow list \<times> (milestone_tables, 'z) durable_store_scheme) res" where
  "create_or_get_intent env t a ws s =
     rbind (creation_plan env t a) (\<lambda>(approval, b, w, p, m, aa).
     case fetch_one (\<lambda>r. dget (oi_data r) ''logical_action_key'' = PyStr (it_key w)) (order_intents s) of
       Some r \<Rightarrow> rbind (return_existing (ce_now env) (be_snapshot b) approval r s) (\<lambda>(r', s'). Inr (r', ws, s'))
     | None \<Rightarrow> create_intent env t a approval b w p m aa ws s)"

end
