(* ===== verification/Approval_Properties.thy ===== *)
theory Approval_Properties
  imports Approval_Recovery Intent_Creation
begin

text \<open>
  What the approval workflow guarantees, over any interleaving of its operations: the calls of the store as
  a step relation, the calls of other workers during a lease, and the properties of both and of the
  recovery.
\<close>

section \<open>The calls of the store\<close>

inductive store_call :: "'m approval_store \<Rightarrow> 'm approval_store \<Rightarrow> bool" where
  created: "create_or_get now i a p u st s = Inr (w, s') \<Longrightarrow> store_call s s'"
| accepted: "accept_approval denv now i acc s = Inr (w, s') \<Longrightarrow> store_call s s'"
| moved: "workflow_transition now i target args s = Inr (w, s') \<Longrightarrow> store_call s s'"
| claimed: "claim_next until now owner secs s = Inr (c, s') \<Longrightarrow> store_call s s'"
| released: "release_claim now i owner err s = Inr (r, s') \<Longrightarrow> store_call s s'"
| processed: "mark_update_processed now i s = Inr (r, s') \<Longrightarrow> store_call s s'"
| intent_moved: "intent_transition ienv i st targs s = Inr (x, s') \<Longrightarrow> store_call s s'"
| recovered: "callbacks_keep sound_step env \<Longrightarrow> store_call s (snd (recover env n s))"

lemma store_call_sound: "store_call s s' \<Longrightarrow> sound_step s s'"
  by (induction rule: store_call.induct)
    (blast intro: create_sound accept_sound transition_sound claim_sound release_sound mark_sound
      sound_same intent_transition_workflows recover_sound)+

lemma store_calls_sound: "store_call\<^sup>*\<^sup>* s s' \<Longrightarrow> sound_step s s'"
  by (induction rule: rtranclp_induct) (auto intro: sound_refl sound_trans store_call_sound)

section \<open>Leases\<close>

text \<open>
  What the other workers may do before the deadline of a lease of \<open>owner\<close>, transaction by transaction: claims, releases, moves of a
  workflow under another name or under none, creations, inbox marks, the link of a workflow to the intent created for it, and
  whatever leaves the table of workflows alone. \<open>ensure_intent\<close> and \<open>recover\<close> are sequences of these. When \<open>named\<close> holds, no
  call moves a workflow without an owner.
\<close>

inductive foreign_call :: "bool \<Rightarrow> string \<Rightarrow> string \<Rightarrow> 'm approval_store \<Rightarrow> 'm approval_store \<Rightarrow> bool"
  for named owner deadline where
  claims: "o' \<noteq> owner \<Longrightarrow> now < deadline \<Longrightarrow> claim_next until now o' secs s = Inr (c, s') \<Longrightarrow> foreign_call named owner deadline s s'"
| moves: "wa_owner args \<noteq> Some owner \<Longrightarrow> named \<longrightarrow> wa_owner args \<noteq> None \<Longrightarrow> workflow_transition now i target args s = Inr (w, s')
    \<Longrightarrow> foreign_call named owner deadline s s'"
| releases: "o' \<noteq> owner \<Longrightarrow> release_claim now i o' err s = Inr (r, s') \<Longrightarrow> foreign_call named owner deadline s s'"
| creates: "create_or_get now i a p u st s = Inr (w, s') \<Longrightarrow> foreign_call named owner deadline s s'"
| accepts: "accept_approval denv now i acc s = Inr (w, s') \<Longrightarrow> foreign_call named owner deadline s s'"
| processes: "mark_update_processed now i s = Inr (r, s') \<Longrightarrow> foreign_call named owner deadline s s'"
| links: "\<not> named \<Longrightarrow> link_approval cenv a (workflows s) = Inr (workflows s') \<Longrightarrow> foreign_call named owner deadline s s'"
| elsewhere: "workflows s' = workflows s \<Longrightarrow> foreign_call named owner deadline s s'"

text \<open>The rows of the workflow \<open>i\<close> are claimed, and in the named case as they were.\<close>

definition leased :: "bool \<Rightarrow> string \<Rightarrow> string \<Rightarrow> workflow \<Rightarrow> workflow list \<Rightarrow> bool" where
  "leased named owner deadline w ws \<longleftrightarrow> (\<exists>v\<in>set ws. wf_id v = wf_id w) \<and> (\<forall>v\<in>set ws. wf_id v = wf_id w \<longrightarrow>
     wf_owner v = Some owner \<and> wf_until v = Some deadline \<and> (named \<longrightarrow> wf_state v = wf_state w \<and> wf_intent v = wf_intent w))"

lemma leased_update:
  assumes "leased named owner deadline w ws" and "\<And>x. wf_id (f x) = wf_id x"
    and "\<And>x. x \<in> set ws \<Longrightarrow> wf_id x = wf_id w \<Longrightarrow> p x \<Longrightarrow> wf_owner (f x) = wf_owner x \<and> wf_until (f x) = wf_until x
      \<and> (named \<longrightarrow> wf_state (f x) = wf_state x \<and> wf_intent (f x) = wf_intent x)"
  shows "leased named owner deadline w (update_where p f ws)"
  unfolding leased_def
proof (intro conjI ballI impI)
  obtain v where v: "v \<in> set ws" "wf_id v = wf_id w" using assms(1) by (auto simp: leased_def)
  then have "(if p v then f v else v) \<in> set (update_where p f ws)" unfolding update_where_def by simp
  moreover have "wf_id (if p v then f v else v) = wf_id w" using v(2) assms(2) by simp
  ultimately show "\<exists>v\<in>set (update_where p f ws). wf_id v = wf_id w" by blast
next
  fix v assume "v \<in> set (update_where p f ws)" "wf_id v = wf_id w"
  then obtain x where x: "x \<in> set ws" "v = (if p x then f x else x)" "wf_id x = wf_id w"
    using assms(2) unfolding update_where_def by (auto split: if_splits)
  have "wf_owner x = Some owner \<and> wf_until x = Some deadline \<and> (named \<longrightarrow> wf_state x = wf_state w \<and> wf_intent x = wf_intent w)"
    using assms(1) x(1,3) unfolding leased_def by blast
  then show "wf_owner v = Some owner" "wf_until v = Some deadline"
    "named \<Longrightarrow> wf_state v = wf_state w" "named \<Longrightarrow> wf_intent v = wf_intent w"
    using assms(3) [OF x(1,3)] x(2) by auto
qed

lemma leased_append: "leased named owner deadline w ws \<Longrightarrow> \<forall>v\<in>set vs. wf_id v \<noteq> wf_id w \<Longrightarrow> leased named owner deadline w (ws @ vs)"
  by (auto simp: leased_def)

lemma insert_workflow_append:
  "insert_workflow v s = Inr s' \<Longrightarrow> leased named owner deadline w (workflows s) \<Longrightarrow> leased named owner deadline w (workflows s')"
  by (auto simp: insert_workflow_def list_ex_iff workflow_clash_def leased_def split: if_splits)

lemma foreign_call_keeps_lease:
  assumes "foreign_call named owner deadline s s'" and l: "leased named owner deadline w (workflows s)"
  shows "leased named owner deadline w (workflows s')"
  using assms(1)
proof cases
  case (claims o' now until secs c)
  have no: "\<not> claimable now o' v" if "v \<in> set (workflows s)" "wf_id v = wf_id w" for v
    using claims l that by (auto simp: claimable_def leased_def)
  from claim_next_result [OF claims(3)] show ?thesis
  proof (elim disjE exE conjE)
    fix w0 w1
    assume ws: "workflows s' = update_where (\<lambda>v. wf_id v = wf_id w0 \<and> wf_version v = wf_version w0 \<and> claimable now o' v)
        (lease_workflow now (until now (max 1 secs)) o') (workflows s)"
    show ?thesis unfolding ws by (rule leased_update [OF l]) (use no in \<open>auto simp: lease_workflow_def\<close>)
  qed (use l in auto)
next
  case (moves args now j target v)
  from workflow_transition_result [OF moves(3)] obtain w0 where w0: "get_workflow j s = Inr w0" "check_workflow w0 target args = Inr ()"
    "workflows s' = update_where (\<lambda>v. wf_id v = j \<and> wf_version v = wf_version w0) (move_workflow now target args) (workflows s)" by blast
  have "j \<noteq> wf_id w" if named
  proof
    assume "j = wf_id w"
    then have "wf_owner w0 = Some owner" using l get_workflow_in [OF w0(1)] by (auto simp: leased_def)
    then show False using check_workflow_Inr [OF w0(2)] moves(1,2) that by auto
  qed
  then show ?thesis unfolding w0(3) by (intro leased_update [OF l]) (auto simp: move_workflow_def)
next
  case (releases o' now j err r)
  have ws: "workflows s' = update_where (\<lambda>v. wf_id v = j \<and> wf_owner v = Some o') (unlease_workflow now err) (workflows s)"
    using releases(2) by (auto simp: release_claim_def Let_def split: if_splits)
  show ?thesis unfolding ws by (rule leased_update [OF l]) (use l releases(1) in \<open>auto simp: leased_def unlease_workflow_def\<close>)
next
  case (creates now j a p u st0 v)
  then show ?thesis using l
    by (auto simp: create_or_get_def result_simps Let_def dest!: insert_workflow_append split: option.splits if_splits)
next
  case (accepts denv now j acc v)
  then show ?thesis using l
    by (auto simp: accept_approval_def result_simps Let_def dest!: insert_approval_workflows insert_workflow_append split: option.splits if_splits)
next
  case (processes now j r)
  have ws: "workflows s' = update_where (\<lambda>v. wf_id v = j) (process_workflow now) (workflows s)"
    using processes by (auto simp: mark_update_processed_def result_simps Let_def split: if_splits option.splits)
  show ?thesis unfolding ws by (rule leased_update [OF l]) (simp_all add: process_workflow_def)
next
  case (links cenv a)
  then have ws: "workflows s' = update_where (awaits_intent a) (link_workflow (ce_intent cenv) (ce_now cenv)) (workflows s)"
    by (auto simp: link_approval_def split: if_splits)
  show ?thesis unfolding ws by (rule leased_update [OF l]) (use links(1) in \<open>simp_all add: link_workflow_def\<close>)
qed (use l in simp)

lemma fetch_updated:
  "distinct (map wf_id ws) \<Longrightarrow> w \<in> set ws \<Longrightarrow> p w \<Longrightarrow> (\<And>x. wf_id (f x) = wf_id x)
    \<Longrightarrow> fetch_one (\<lambda>v. wf_id v = wf_id w) (update_where p f ws) = Some (f w)"
proof (induction ws)
  case (Cons v ws)
  then show ?case by (cases "v = w") (auto simp: fetch_one_def image_iff)
qed simp

lemma claimed_row:
  assumes "claim_next until now owner secs s = Inr (Some w', s')" and "distinct (map wf_id (workflows s))"
  shows "\<exists>w\<in>set (workflows s). wf_state w \<in> set RECOVERABLE_WORKFLOW_STATES \<and> claimable now owner w
    \<and> w' = lease_workflow now (until now (max 1 secs)) owner w"
proof -
  from claim_next_result [OF assms(1)] obtain w where w: "w \<in> set (workflows s)"
    "wf_state w \<in> set RECOVERABLE_WORKFLOW_STATES" "claimable now owner w" "get_workflow (wf_id w) s' = Inr w'"
    "workflows s' = update_where (\<lambda>v. wf_id v = wf_id w \<and> wf_version v = wf_version w \<and> claimable now owner v)
        (lease_workflow now (until now (max 1 secs)) owner) (workflows s)" by blast
  have "w' = lease_workflow now (until now (max 1 secs)) owner w"
    using w(4) fetch_updated [OF assms(2) w(1), of "\<lambda>v. wf_id v = wf_id w \<and> wf_version v = wf_version w \<and> claimable now owner v"
        "lease_workflow now (until now (max 1 secs)) owner"] w(3)
    by (simp add: get_workflow_Inr w(5) lease_workflow_def)
  then show ?thesis using w by blast
qed

lemma count_where_unique:
  "distinct (map wf_id ws) \<Longrightarrow> w \<in> set ws \<Longrightarrow> q w \<Longrightarrow> count_where (\<lambda>v. wf_id v = wf_id w \<and> q v) ws = 1"
proof (induction ws)
  case (Cons v ws)
  show ?case
  proof (cases "v = w")
    case True
    then have "count_where (\<lambda>v. wf_id v = wf_id w \<and> q v) ws = 0" using Cons.prems by (auto simp: count_where_0_iff image_iff)
    then show ?thesis using True Cons.prems by simp
  next
    case False
    then have "wf_id v \<noteq> wf_id w" using Cons.prems by (auto simp: image_iff)
    then show ?thesis using Cons False by simp
  qed
qed simp

section \<open>Properties\<close>

text \<open>C21: a proposal has one active workflow at most. From a table with unique ids and approvals and at most one
  active workflow per proposal, every sequence of calls (creations, acceptances, transitions, claims,
  releases, inbox marks, intent transitions and recoveries whose callbacks keep the table so) leads to such
  a table again.\<close>

theorem one_active_workflow_per_proposal:
  assumes "store_call\<^sup>*\<^sup>* s s'" and "workflows_ok (workflows s)"
  shows "workflows_ok (workflows s')"
  using store_calls_sound [OF assms(1)] assms(2) by (simp add: sound_step_def)

text \<open>C22: the table refines the state machine of the workflows, under any interleaving of calls: no workflow is
  ever lost or re-targeted, its state moves only along allowed transitions, and whatever changes it raises
  its version, so the compare-and-swap of a transition misses no change.\<close>

theorem workflow_rows_refine_machine:
  assumes "store_call\<^sup>*\<^sup>* s s'" and "w \<in> set (workflows s)"
  shows "\<exists>w'\<in>set (workflows s'). wf_identity w' = wf_identity w
    \<and> workflow_allowed\<^sup>*\<^sup>* (wf_state w) (wf_state w') \<and> (w' = w \<or> wf_version w < wf_version w')"
proof -
  obtain ws vs where e: "workflows s' = ws @ vs" "list_all2 wf_evolves (workflows s) ws"
    using store_calls_sound [OF assms(1)] by (auto simp: sound_step_def evolves_def)
  from assms(2) obtain k where k: "k < length (workflows s)" "workflows s ! k = w" by (auto simp: in_set_conv_nth)
  then have "wf_evolves w (ws ! k)" "ws ! k \<in> set (workflows s')" using e by (auto simp: list_all2_conv_all_nth)
  then show ?thesis by (auto simp: wf_evolves_def)
qed

text \<open>C17: a claim is exclusive until its deadline. Whatever transactions other workers run before the deadline, in any order and
  number (claims, moves under another owner or none, releases, creations, inbox marks, the creation of its intent, anything that
  leaves the table of workflows alone), the claimed workflow still belongs to the claimant with the same deadline, and no other
  worker's claim returns it. If none of them moves a workflow without an owner, it also is in the same state and has the same
  intent; a move without an owner does not look at the claim.\<close>

theorem lease_is_exclusive:
  assumes "claim_next until now owner secs s = Inr (Some w, s1)" and "wf_until w = Some deadline"
    and "workflows_ok (workflows s)" and "(foreign_call named owner deadline)\<^sup>*\<^sup>* s1 s2"
  shows "(\<exists>w2. get_workflow (wf_id w) s2 = Inr w2 \<and> wf_owner w2 = Some owner \<and> wf_until w2 = Some deadline
      \<and> (named \<longrightarrow> wf_state w2 = wf_state w \<and> wf_intent w2 = wf_intent w))
    \<and> (\<forall>until' now' o' secs' c s3. claim_next until' now' o' secs' s2 = Inr (Some c, s3) \<longrightarrow> o' \<noteq> owner \<longrightarrow> now' < deadline \<longrightarrow> wf_id c \<noteq> wf_id w)"
proof -
  have ok: "distinct (map wf_id (workflows s))" using assms(3) by (simp add: workflows_ok_def)
  obtain w0 where w0: "w0 \<in> set (workflows s)" "claimable now owner w0" "w = lease_workflow now (until now (max 1 secs)) owner w0"
    using claimed_row [OF assms(1) ok] by blast
  have s1: "workflows s1 = update_where (\<lambda>v. wf_id v = wf_id w0 \<and> wf_version v = wf_version w0 \<and> claimable now owner v)
      (lease_workflow now (until now (max 1 secs)) owner) (workflows s)"
  proof -
    from claim_next_result [OF assms(1)] obtain v where v: "v \<in> set (workflows s)" "get_workflow (wf_id v) s1 = Inr w"
      "workflows s1 = update_where (\<lambda>x. wf_id x = wf_id v \<and> wf_version x = wf_version v \<and> claimable now owner x)
        (lease_workflow now (until now (max 1 secs)) owner) (workflows s)" by blast
    have "wf_id v = wf_id w0" using get_workflow_in [OF v(2)] w0(3) by (simp add: lease_workflow_def)
    then have "v = w0" using ok v(1) w0(1) by (auto simp: distinct_map dest: inj_onD)
    then show ?thesis using v(3) by simp
  qed
  have only: "x = w0" if "x \<in> set (workflows s)" "wf_id x = wf_id w0" for x
    using ok that w0(1) by (auto simp: distinct_map dest: inj_onD)
  have "w \<in> set (workflows s1)" unfolding s1 update_where_def using w0 by (force simp: image_iff)
  moreover have "x = w" if "x \<in> set (workflows s1)" "wf_id x = wf_id w" for x
    using that w0 only unfolding s1 update_where_def by (auto simp: lease_workflow_def split: if_splits)
  moreover have "wf_owner w = Some owner" by (simp add: w0(3) lease_workflow_def)
  ultimately have "leased named owner deadline w (workflows s1)" unfolding leased_def using assms(2) by blast
  with assms(4) have l: "leased named owner deadline w (workflows s2)"
    by (induction rule: rtranclp_induct) (auto intro: foreign_call_keeps_lease)
  have "fetch_one (\<lambda>v. wf_id v = wf_id w) (workflows s2) \<noteq> None"
    using l unfolding leased_def fetch_one_None by blast
  then obtain w2 where w2: "get_workflow (wf_id w) s2 = Inr w2" by (auto simp: get_workflow_def)
  have "wf_id c \<noteq> wf_id w" if c: "claim_next until' now' o' secs' s2 = Inr (Some c, s3)" "o' \<noteq> owner" "now' < deadline" for until' now' o' secs' c s3
  proof -
    from claim_next_result [OF c(1)] obtain v where v: "v \<in> set (workflows s2)" "claimable now' o' v" "get_workflow (wf_id v) s3 = Inr c" by blast
    have "wf_id v \<noteq> wf_id w" using v l c(2,3) by (auto simp: claimable_def leased_def)
    then show ?thesis using get_workflow_in [OF v(3)] by simp
  qed
  moreover have "wf_owner w2 = Some owner \<and> wf_until w2 = Some deadline \<and> (named \<longrightarrow> wf_state w2 = wf_state w \<and> wf_intent w2 = wf_intent w)"
    using l get_workflow_in [OF w2] by (auto simp: leased_def)
  ultimately show ?thesis using w2 by blast
qed

lemma sort_hd_least:
  fixes f g :: "'a \<Rightarrow> 'b::linorder"
  assumes "sort_key f (sort_key g xs) = y # ys" and "x \<in> set xs"
  shows "f y < f x \<or> f y = f x \<and> g y \<le> g x"
proof -
  have srt: "sorted (map f (y # ys))" using assms(1) sorted_sort_key [of f "sort_key g xs"] by simp
  have x: "x \<in> set (y # ys)" using assms by (metis set_sort)
  then have le: "f y \<le> f x" using srt by auto
  moreover have "g y \<le> g x" if eq: "f y = f x"
  proof -
    have "filter (\<lambda>z. f z = f y) (y # ys) = filter (\<lambda>z. f z = f y) (sort_key g xs)"
      unfolding assms(1) [symmetric] by (rule sort_key_stable)
    moreover have "sorted (map g (filter (\<lambda>z. f z = f y) (sort_key g xs)))" by (rule sorted_filter) simp
    ultimately have "sorted (map g (filter (\<lambda>z. f z = f y) (y # ys)))" by simp
    moreover have "x \<in> set (filter (\<lambda>z. f z = f y) (y # ys))" using x eq by auto
    ultimately show ?thesis by auto
  qed
  ultimately show ?thesis by auto
qed

text \<open>C36: interrupted work is found again. When a workflow is in no final state and has no claim, an expired one, or one of the
  worker itself, the next claim of the worker succeeds and leases, with a new deadline and a higher attempt count, a workflow that
  was updated no later than this one, the oldest first.\<close>

theorem recoverable_work_is_found:
  assumes "workflows_ok (workflows s)" and "w \<in> set (workflows s)"
    and "wf_state w \<notin> {BLOCKED, TERMINAL, MANUAL_REVIEW}"
    and "wf_owner w = Some owner \<or> wf_until w = None \<or> (\<exists>u\<le>now. wf_until w = Some u)"
  shows "\<exists>w1 w' s'. claim_next until now owner secs s = Inr (Some w', s') \<and> w1 \<in> set (workflows s) \<and> wf_id w' = wf_id w1
    \<and> (wf_updated w1 < wf_updated w \<or> wf_updated w1 = wf_updated w \<and> wf_id w1 \<le> wf_id w)
    \<and> wf_owner w' = Some owner \<and> wf_until w' = Some (until now (max 1 secs)) \<and> wf_attempts w' = wf_attempts w1 + 1
    \<and> wf_state w' = wf_state w1 \<and> wf_intent w' = wf_intent w1"
proof -
  let ?free = "\<lambda>w. wf_state w \<in> set RECOVERABLE_WORKFLOW_STATES \<and> claimable now owner w"
  let ?ws = "sort_key wf_updated (sort_key wf_id (filter ?free (workflows s)))"
  let ?f = "lease_workflow now (until now (max 1 secs)) owner"
  have "wf_state w \<in> set RECOVERABLE_WORKFLOW_STATES" using assms(3) by (cases "wf_state w") (simp_all add: RECOVERABLE_WORKFLOW_STATES_def)
  moreover have "claimable now owner w" using assms(4) by (auto simp: claimable_def)
  ultimately have w: "w \<in> set (filter ?free (workflows s))" using assms(2) by simp
  then obtain w1 ws where w1: "?ws = w1 # ws" by (cases ?ws) (metis list.distinct(1) list.set_cases set_empty set_sort, blast)
  have "w1 \<in> set ?ws" unfolding w1 by simp
  then have mem: "w1 \<in> set (workflows s)" "claimable now owner w1" by auto
  note least = sort_hd_least [OF w1 w]
  have ids: "distinct (map wf_id (workflows s))" using assms(1) by (simp add: workflows_ok_def)
  let ?here = "\<lambda>v. wf_id v = wf_id w1 \<and> wf_version v = wf_version w1 \<and> claimable now owner v"
  have 1: "count_where ?here (workflows s) = 1"
    using count_where_unique [OF ids mem(1), of "\<lambda>v. wf_version v = wf_version w1 \<and> claimable now owner v"] mem(2) by simp
  have g: "get_workflow (wf_id w1) (s\<lparr>workflows := update_where ?here ?f (workflows s)\<rparr>) = Inr (?f w1)"
    using fetch_updated [OF ids mem(1), of ?here ?f] mem(2) by (simp add: get_workflow_Inr lease_workflow_def)
  obtain s' where c: "claim_next until now owner secs s = Inr (Some (?f w1), s')"
    unfolding claim_next_def w1 list.case by (simp add: 1 Let_def g)
  show ?thesis using mem(1) least by (intro exI [of _ w1] exI [of _ "?f w1"] exI [of _ s']) (simp add: c lease_workflow_def)
qed

text \<open>C1: a submission is never repeated. Unless the workflow waits for its submission with an intent that was
  never submitted, or the stored flag proves that a started submission never reached the broker, the
  recovery of the workflow does the same whatever the submission callback is: it is not called.\<close>

theorem recovery_never_resubmits:
  assumes "\<not> submittable w (filter (\<lambda>r. oi_approval r = Some (wf_approval w)) (order_intents (rc_store s)))"
  shows "recover_one (env\<lparr>re_submitter := Some f\<rparr>) w s = recover_one (env\<lparr>re_submitter := Some g\<rparr>) w s"
  using recover_one_submitter [OF assms, of f env g] by (simp add: with_submitter_def)

text \<open>The recovery is bounded. It claims at most the given number of workflows and counts at most one retryable
  failure for each, whatever the callbacks do.\<close>

theorem recovery_is_bounded:
  assumes "recover env max_items d = (Inr c, d')"
  shows "rn_claimed c \<le> max_items \<and> rn_failed c \<le> rn_claimed c"
proof -
  obtain u s where "recover_loop env max_items [] \<lparr>rc_store = d, rc_counts = no_counts, rc_tick = 0, rc_reason = None\<rparr> = (Inr u, s)"
    and "c = rc_counts s"
    using assms by (auto simp: recover_def split: prod.splits sum.splits)
  then show ?thesis using counts_recover_loop by (fastforce simp: no_counts_def)
qed

text \<open>a recovery that returns leaves no claim of its worker behind, if its callbacks do not change who owns
  which workflow: retryable failures are released too.\<close>

theorem recovery_releases_its_claims:
  assumes "recover env max_items d = (Inr c, d')" and "callbacks_keep same_claims env"
    and "unclaimed (re_owner env) d"
  shows "unclaimed (re_owner env) d'"
proof -
  obtain u s where "recover_loop env max_items [] \<lparr>rc_store = d, rc_counts = no_counts, rc_tick = 0, rc_reason = None\<rparr> = (Inr u, s)"
    and "d' = rc_store s"
    using assms(1) by (auto simp: recover_def split: prod.splits sum.splits)
  then show ?thesis using unclaimed_loop assms(2,3) by fastforce
qed


section \<open>Sample runs\<close>

definition wf_sample :: "string \<Rightarrow> workflow_state \<Rightarrow> workflow" where
  "wf_sample i st = \<lparr>wf_id = i, wf_approval = ''a'' @ i, wf_proposal = ''p'' @ i, wf_telegram_update = None,
     wf_key = Some (stable_key (''a'' @ i)), wf_state = st, wf_intent = None, wf_validation = None, wf_detail = None,
     wf_owner = None, wf_until = None, wf_attempts = 0, wf_error = None, wf_update_processed = None, wf_created = [],
     wf_updated = i, wf_terminal_at = None, wf_version = 0\<rparr>"

definition intent_sample :: "string \<Rightarrow> string \<Rightarrow> order_state \<Rightarrow> order_intent" where
  "intent_sample i a st = \<lparr>oi_id = i, oi_approval = Some a, oi_state = state_value st, oi_broker_order = None,
     oi_first_submission = None, oi_terminal_at = None, oi_error = None, oi_summary = None, oi_attempts = 0,
     oi_counter = 1, oi_broker_invoked = 0, oi_updated = [], oi_data = Map.empty\<rparr>"

definition store_sample :: "workflow list \<Rightarrow> order_intent list \<Rightarrow> unit approval_store" where
  "store_sample ws is = \<lparr>order_intents = is, order_events = [], orders = [], risk_reservations = [], milestones = (),
     workflows = ws, approvals = [], telegram_updates = [], audit_events = []\<rparr>"

text \<open>Texts of moments grow with their number; a validator asks to retry, a submitter does not know.\<close>

definition env_sample :: "unit recovery_env" where
  "env_sample = \<lparr>re_owner = ''me'', re_run = None, re_loader = (\<lambda>_. areturn (Some Map.empty)),
     re_validator = None, re_action_validator = None, re_submitter = None, re_reconciler = None,
     re_create_intent = (\<lambda>_ _ _ _. araise (RuntimeError ''atomic reservation blocked'')),
     re_clock = (\<lambda>n. replicate (Suc n) CHR ''t''), re_fresh = (\<lambda>n. replicate n CHR ''f''),
     re_until = (\<lambda>now _. now @ ''ttt''), re_milestone = (\<lambda>_ _ _ m. Inr m)\<rparr>"

definition env_unsure :: "unit recovery_env" where
  "env_unsure = env_sample\<lparr>re_validator := Some (\<lambda>_ _. areturn (''retry'', None, Some ''quote is stale'')),
     re_submitter := Some (\<lambda>_ _. areturn ''unknown'')\<rparr>"

definition unsure_store :: "unit approval_store" where
  "unsure_store = store_sample [wf_sample ''1'' VALIDATING, (wf_sample ''2'' SUBMISSION_PENDING)\<lparr>wf_intent := Some ''i''\<rparr>,
     wf_sample ''3'' UNKNOWN_WF] [intent_sample ''i'' ''a2'' RESERVED]"

definition refused_store :: "unit approval_store" where
  "refused_store = store_sample [wf_sample ''1'' APPROVED_PENDING_INTENT, wf_sample ''2'' SUBMISSION_PENDING] []"

declare no_keys_def [code del]

text \<open>The recovery reports a stale reason. The local variable that names the error of a submission survives from
  an earlier workflow of the same sweep, so a submission whose callback answers that its outcome is unknown
  is recorded with the validator's remark on another workflow.\<close>

theorem stale_reason_is_recorded:
  "map (\<lambda>w. (wf_proposal w, wf_state w, wf_detail w)) (workflows (snd (recover env_unsure 5 unsure_store)))
   = [(''p1'', VALIDATING, None),
      (''p2'', UNKNOWN_WF, Some ''ambiguous submission outcome: quote is stale''),
      (''p3'', UNKNOWN_WF, None)]"
  by code_simp

text \<open>A refused intent ends the sweep. When the creation of an intent is refused with a \<open>RuntimeError\<close>, the recovery
  raises it: the refused workflow stays claimed and is not recorded as failed, and the workflows after it
  are not recovered.\<close>

theorem refused_intent_ends_the_sweep:
  "fst (recover env_sample 5 refused_store) = Inl (RuntimeError ''atomic reservation blocked'')
   \<and> map (\<lambda>w. (wf_proposal w, wf_state w, wf_owner w, wf_error w)) (workflows (snd (recover env_sample 5 refused_store)))
     = [(''p1'', APPROVED_PENDING_INTENT, Some ''me'', None), (''p2'', SUBMISSION_PENDING, None, None)]"
  by code_simp

text \<open>Facts about the sample runs.\<close>

lemma env_unsure_keeps: "(\<And>d. Q d d) \<Longrightarrow> callbacks_keep Q env_unsure"
  by (simp add: callbacks_keep_def env_unsure_def env_sample_def areturn_def araise_def)

lemma unsure_recovered: "store_call\<^sup>*\<^sup>* unsure_store (snd (recover env_unsure 5 unsure_store))"
  by (intro r_into_rtranclp store_call.recovered env_unsure_keeps sound_refl)

lemma unsure_ok: "workflows_ok (workflows unsure_store)"
  by (auto simp: workflows_ok_def unsure_store_def store_sample_def wf_sample_def active_wf_def)

definition unsure_counts :: recovery_counts where
  "unsure_counts = no_counts\<lparr>rn_claimed := 3, rn_ambiguity := 2\<rparr>"

lemma unsure_result: "recover env_unsure 5 unsure_store = (Inr unsure_counts, snd (recover env_unsure 5 unsure_store))"
proof -
  have "fst (recover env_unsure 5 unsure_store) = Inr unsure_counts" by code_simp
  then show ?thesis by (metis prod.collapse)
qed

theorem one_active_workflow_per_proposal_witness:
  "workflows_ok (workflows (snd (recover env_unsure 5 unsure_store)))"
  by (rule one_active_workflow_per_proposal [OF unsure_recovered unsure_ok])

theorem workflow_rows_refine_machine_witness:
  "\<exists>w'\<in>set (workflows (snd (recover env_unsure 5 unsure_store))). wf_id w' = ''1''
    \<and> workflow_allowed\<^sup>*\<^sup>* VALIDATING (wf_state w')"
proof -
  have "wf_sample ''1'' VALIDATING \<in> set (workflows unsure_store)" by (simp add: unsure_store_def store_sample_def)
  from workflow_rows_refine_machine [OF unsure_recovered this] show ?thesis
    by (auto simp: wf_identity_def wf_sample_def)
qed

definition claim_sample :: "string \<Rightarrow> string \<Rightarrow> unit approval_store \<Rightarrow> (workflow option \<times> unit approval_store) res" where
  "claim_sample owner now s = claim_next (\<lambda>now _. now @ ''9'') now owner 30 s"

definition lease_store :: "unit approval_store" where
  "lease_store = store_sample [wf_sample ''1'' VALIDATING] []"

definition leased_store :: "unit approval_store" where
  "leased_store = (case claim_sample ''me'' ''7'' lease_store of Inl _ \<Rightarrow> lease_store | Inr (_, s) \<Rightarrow> s)"

lemma leased_store: "claim_next (\<lambda>now _. now @ ''9'') ''7'' ''me'' 30 lease_store
  = Inr (Some (lease_workflow ''7'' ''79'' ''me'' (wf_sample ''1'' VALIDATING)), leased_store)"
  unfolding leased_store_def claim_sample_def
  by (simp add: claim_next_def lease_store_def store_sample_def wf_sample_def claimable_def RECOVERABLE_WORKFLOW_STATES_def
      get_workflow_def fetch_one_def lease_workflow_def)

theorem lease_is_exclusive_witness:
  "(\<exists>w2. get_workflow ''1'' leased_store = Inr w2 \<and> wf_owner w2 = Some ''me'' \<and> wf_state w2 = VALIDATING)
    \<and> (\<nexists>c s3. claim_next (\<lambda>now _. now @ ''9'') ''78'' ''you'' 30 leased_store = Inr (Some c, s3) \<and> wf_id c = ''1'')"
proof -
  have "case claim_next (\<lambda>now _. now @ ''9'') ''78'' ''you'' 30 leased_store of Inr (None, _) \<Rightarrow> True | _ \<Rightarrow> False" by code_simp
  then have "claim_next (\<lambda>now _. now @ ''9'') ''78'' ''you'' 30 leased_store = Inr (None, leased_store)"
    by (auto dest: claim_next_result split: sum.splits prod.splits option.splits)
  then have "foreign_call True ''me'' ''79'' leased_store leased_store"
    by (intro foreign_call.claims) simp_all
  then have f: "(foreign_call True ''me'' ''79'')\<^sup>*\<^sup>* leased_store leased_store" by blast
  have ok: "workflows_ok (workflows lease_store)"
    by (simp add: workflows_ok_def lease_store_def store_sample_def active_wf_def)
  have "wf_until (lease_workflow ''7'' ''79'' ''me'' (wf_sample ''1'' VALIDATING)) = Some ''79''" by (simp add: lease_workflow_def)
  note lease = lease_is_exclusive [OF leased_store this ok f]
  have "''78'' < (''79'' :: string)" "''you'' \<noteq> ''me''" by simp_all
  then show ?thesis using conjunct1 [OF lease] conjunct2 [OF lease] by (fastforce simp: lease_workflow_def wf_sample_def)
qed

theorem recoverable_work_is_found_witness:
  "\<exists>w' s'. claim_next (\<lambda>now _. now @ ''9'') ''7'' ''you'' 30 unsure_store = Inr (Some w', s') \<and> wf_owner w' = Some ''you'' \<and> wf_until w' = Some ''79''"
  using recoverable_work_is_found [OF unsure_ok, of "wf_sample ''1'' VALIDATING" "''you''" "''7''" "\<lambda>now _. now @ ''9''" 30]
  by (auto simp: unsure_store_def store_sample_def wf_sample_def)

theorem recovery_never_resubmits_witness:
  "recover_one (env_unsure\<lparr>re_submitter := Some (\<lambda>_ _. araise AssertionError)\<rparr>) (wf_sample ''3'' UNKNOWN_WF)
     \<lparr>rc_store = unsure_store, rc_counts = no_counts, rc_tick = 0, rc_reason = None\<rparr>
   = recover_one (env_unsure\<lparr>re_submitter := Some (\<lambda>_ _. areturn ''submitted'')\<rparr>) (wf_sample ''3'' UNKNOWN_WF)
     \<lparr>rc_store = unsure_store, rc_counts = no_counts, rc_tick = 0, rc_reason = None\<rparr>"
  by (rule recovery_never_resubmits) (simp add: submittable_def wf_sample_def)

theorem recovery_is_bounded_witness: "rn_claimed unsure_counts \<le> 5 \<and> rn_failed unsure_counts \<le> rn_claimed unsure_counts"
  by (rule recovery_is_bounded [OF unsure_result])

theorem recovery_releases_its_claims_witness: "unclaimed (re_owner env_unsure) (snd (recover env_unsure 5 unsure_store))"
  by (rule recovery_releases_its_claims [OF unsure_result env_unsure_keeps])
    (simp_all add: same_claims_def unclaimed_def unsure_store_def store_sample_def wf_sample_def)

end
