(* ===== verification/Fill_Properties.thy ===== *)
theory Fill_Properties
  imports Fill_Recording
begin

text \<open>
  What the recording of broker fills guarantees together with the state transitions of orders: any
  sequence of the two, on any intents, is a run of \<open>fill_call\<close>. The lemmas follow one call through the intent
  rows, the log, the reservations, the evidence, the lots of the FIFO ledger and the sums of the reported
  quantities; each property is then an induction over the calls.
\<close>

section \<open>Calls on the store\<close>

text \<open>Fills and state transitions, in any order and on any intents; a call that raises is rolled back. The
  quantity a broker reports is a number that can occur.\<close>

inductive fill_call :: "fill_store \<Rightarrow> fill_store \<Rightarrow> bool" where
  recorded: "record_fill env a s = Inr (r, s') \<Longrightarrow> wf_pyval (rf_cumulative a) \<Longrightarrow> fill_call s s'"
| requested: "intent_transition env i target a s = Inr (r, s') \<Longrightarrow> ee_milestone_terminal env = apply_take_profit_terminal_state
    \<Longrightarrow> fill_call s s'"

lemma write_transition_fill_fields:
  assumes "write_transition env a r q t (s :: fill_store) = Inr s'"
  shows "broker_fills s' = broker_fills s \<and> broker_evidence s' = broker_evidence s \<and> fill_ledger s' = fill_ledger s"
  using assms by (auto simp: write_transition_def Let_def result_simps split: if_splits)

lemma intent_transition_fill_fields:
  assumes "intent_transition env i target a (s :: fill_store) = Inr (r, s')"
  shows "broker_fills s' = broker_fills s \<and> broker_evidence s' = broker_evidence s \<and> fill_ledger s' = fill_ledger s"
  using assms write_transition_fill_fields [of env a _ _ _ s] by (auto simp: intent_transition_def result_simps split: if_splits)

lemma exact_column_is_decimal: "exact_column c v = Inr x \<Longrightarrow> is_decimal x"
  by (auto simp: exact_column_def require_exact_decimal_def Let_def result_simps decimal_value_Some_iff
      split: if_splits pyval.splits option.splits intro: parse_decimal_is_decimal)

lemma exact_column_dec: "is_decimal x \<Longrightarrow> 0 \<le> x \<Longrightarrow> exact_column c (dec_column x) = Inr x"
  by (simp add: exact_column_def require_exact_decimal_def Let_def dec_column_def not_blank_text decimal_value_Some_iff
      strip_dec_text dec_text_nonempty parse_dec_text rbind_def decimal_value_def)

lemma moved_row:
  assumes "order_intents s' = update_where (\<lambda>x. oi_id x = j) f (order_intents s)" and "\<And>x. oi_id (f x) = oi_id x"
  shows "get_intent i s = Inr r \<Longrightarrow> get_intent i s' = Inr (if i = j then f r else r)"
proof -
  have k: "keyed_table oi_id (\<lambda>_. f)" by unfold_locales (rule assms(2))
  show "get_intent i s = Inr r \<Longrightarrow> get_intent i s' = Inr (if i = j then f r else r)"
    using keyed_table.fetch_same [OF k, of i] keyed_table.fetch_other [OF k, of i j] by (auto simp: get_intent_Inr assms(1))
qed


section \<open>Progress\<close>

definition fill_progress :: "order_intent \<Rightarrow> rat \<Rightarrow> rat \<Rightarrow> bool" where
  "fill_progress r q x \<longleftrightarrow> requested_authority r = Inr q \<and> exact_column ''filled_quantity_decimal'' (filled_column r) = Inr x"

lemma move_intent_data [simp]: "oi_data (move_intent now a d r) = oi_data r"
  by (simp add: move_intent_def)

lemma move_intent_progress [simp]: "fill_progress (move_intent now a d r) q x \<longleftrightarrow> fill_progress r q x"
  by (simp add: fill_progress_def requested_authority_def Let_def)

lemma intent_transition_rows:
  assumes "intent_transition env i target a s = Inr (r', s')"
  shows "s' = s \<or> order_intents s' = update_where (\<lambda>x. oi_id x = i) (move_intent (ee_now env) a target) (order_intents s)"
  using intent_transition_result [OF assms] by blast

lemma fill_call_progress:
  assumes "fill_call s s'" and r: "get_intent i s = Inr r" and p: "fill_progress r q x" and le: "x \<le> q"
  shows "\<exists>r' x'. get_intent i s' = Inr r' \<and> fill_progress r' q x' \<and> x \<le> x' \<and> x' \<le> q"
  using assms(1)
proof cases
  case (recorded env a r1)
  from recorded(1) show ?thesis
  proof (cases rule: record_fill_effect)
    case (same g r0 requested e)
    then show ?thesis using r p le by blast
  next
    case (moved g r0 requested e previous y f l ev)
    have row: "get_intent i s' = Inr (if i = rf_intent a then f r else r)"
      by (rule moved_row [OF moved(5,6) r])
    show ?thesis
    proof (cases "i = rf_intent a")
      case True
      then have eq: "r0 = r" "requested = q" "previous = x" using r p moved(2-4) by (auto simp: fill_progress_def)
      have "is_decimal y" using moved(14) read_figures_Inr [OF moved(1)] recorded(2) exact_column_is_decimal [OF moved(4)] by auto
      moreover have "0 \<le> y" using exact_column_Inr [OF moved(4)] moved(13) by simp
      ultimately have "fill_progress (f r) q y" using moved(11,12) eq by (simp add: fill_progress_def exact_column_dec)
      then show ?thesis using row True moved(13,14) eq le by auto
    qed (use row p le in auto)
  qed
next
  case (requested env j target a r1)
  show ?thesis using intent_transition_rows [OF requested(1)]
  proof
    assume "s' = s"
    then show ?thesis using r p le by blast
  next
    assume "order_intents s' = update_where (\<lambda>x. oi_id x = j) (move_intent (ee_now env) a target) (order_intents s)"
    from moved_row [OF this _ r] have "get_intent i s' = Inr (if i = j then move_intent (ee_now env) a target r else r)" by simp
    then show ?thesis using p le by auto
  qed
qed

text \<open>C14: Whatever fills and state changes are recorded, the filled quantity of an order never decreases and never exceeds the
  quantity it was authorised for, which stays as it was.\<close>

theorem fill_progress_bounded:
  assumes "fill_call\<^sup>*\<^sup>* s s'" and "get_intent i s = Inr r" and "fill_progress r q x" and "x \<le> q"
  shows "\<exists>r' x'. get_intent i s' = Inr r' \<and> fill_progress r' q x' \<and> x \<le> x' \<and> x' \<le> q"
  using assms
proof (induction rule: rtranclp_induct)
  case (step t u)
  then obtain r1 x1 where "get_intent i t = Inr r1" "fill_progress r1 q x1" "x \<le> x1" "x1 \<le> q" by blast
  then show ?case using fill_call_progress [OF step(2)] by (meson order_trans)
qed blast

section \<open>The log\<close>

lemma event_chain_one: "oe_from e = Some (state_value q) \<Longrightarrow> oe_to e = state_value t \<Longrightarrow> oe_counter e = n + 1 \<Longrightarrow> event_chain q n [t] [e]"
  by simp

definition log_run :: "order_intent \<Rightarrow> order_state \<Rightarrow> order_event list \<Rightarrow> order_intent \<Rightarrow> order_state list \<Rightarrow> order_event list \<Rightarrow> bool" where
  "log_run r q old r' ts es \<longleftrightarrow> guarded_run order_allowed q ts \<and> oi_state r' = state_value (last (q # ts))
    \<and> oi_counter r' = oi_counter r + int (length ts) \<and> (\<exists>new. es = old @ new \<and> event_chain q (oi_counter r) ts new)"

lemma log_run_refl: "oi_state r = state_value q \<Longrightarrow> log_run r q es r [] es"
  by (simp add: log_run_def)

lemma log_run_trans:
  assumes "log_run r q es r1 ts fs" and "log_run r1 (last (q # ts)) fs r2 us gs"
  shows "log_run r q es r2 (ts @ us) gs"
proof -
  have "last (q # ts @ us) = last (last (q # ts) # us)" by (cases us rule: rev_cases) auto
  moreover have "event_chain q (oi_counter r) (ts @ us) (new @ newa)"
    if "event_chain q (oi_counter r) ts new" "event_chain (last (q # ts)) (oi_counter r + int (length ts)) us newa" for new newa
    using event_chain_append [OF that] .
  ultimately show ?thesis using assms guarded_run_append [of order_allowed q ts us]
    unfolding log_run_def by (metis append.assoc length_append of_nat_add add.assoc)
qed

lemma fill_call_log:
  assumes "fill_call s s'" and r: "get_intent i s = Inr r" and q: "oi_state r = state_value q"
  shows "\<exists>r' ts. get_intent i s' = Inr r' \<and> log_run r q (intent_events i s) r' ts (intent_events i s')"
  using assms(1)
proof cases
  case (recorded env a r1)
  from recorded(1) show ?thesis
  proof (cases rule: record_fill_effect)
    case (same g r0 requested e)
    then show ?thesis using r q log_run_refl by blast
  next
    case (moved g r0 requested e previous y f l ev)
    have row: "get_intent i s' = Inr (if i = rf_intent a then f r else r)"
      by (rule moved_row [OF moved(5,6) r])
    have li: "oe_intent l = rf_intent a" using moved(10) by (simp add: logged_fill_def)
    show ?thesis
    proof (cases "i = rf_intent a")
      case True
      then have eq: "r0 = r" using r moved(2) by simp
      obtain t where t: "oi_state (f r) = state_value t" "guarded_step order_allowed q t"
        using moved(8) q eq unfolding state_step_def guarded_step_def by (metis state_value_inject)
      have "log_run r q (intent_events i s) (f r) [t] (intent_events i s')"
        using t moved(7,9,10) eq li True q by (auto simp: log_run_def intent_events_def logged_fill_def)
      then show ?thesis using row True by auto
    next
      case False
      then have "intent_events i s' = intent_events i s" using li moved(9) by (simp add: intent_events_def)
      then show ?thesis using row False log_run_refl [OF q] by auto
    qed
  qed
next
  case (requested env j target a r1)
  define rq where "rq = \<lparr>rq_env = env, rq_intent = j, rq_target = target, rq_args = a\<rparr>"
  have "request_step rq s = s'" using requested(1) by (simp add: rq_def request_step_def)
  then show ?thesis using request_simulates [OF r q, of rq] by (fastforce simp: log_run_def)
qed

text \<open>C15: Fills and state changes together refine the order state machine: the rows that any sequence of them adds to the log of
  an intent are a run of allowed transitions, numbered consecutively, that ends in the state and the counter of the row.\<close>

theorem order_log_with_fills_refines_machine:
  assumes "fill_call\<^sup>*\<^sup>* s s'" and "get_intent i s = Inr r" and "oi_state r = state_value q"
  shows "\<exists>r' ts new. get_intent i s' = Inr r' \<and> guarded_run order_allowed q ts
    \<and> oi_state r' = state_value (last (q # ts)) \<and> oi_counter r' = oi_counter r + int (length ts)
    \<and> intent_events i s' = intent_events i s @ new \<and> event_chain q (oi_counter r) ts new"
proof -
  have "\<exists>r' ts. get_intent i s' = Inr r' \<and> log_run r q (intent_events i s) r' ts (intent_events i s')"
    using assms(1)
  proof (induction rule: rtranclp_induct)
    case base
    then show ?case using assms log_run_refl by blast
  next
    case (step t u)
    then obtain r1 ts where 1: "get_intent i t = Inr r1" "log_run r q (intent_events i s) r1 ts (intent_events i t)" by blast
    then have "oi_state r1 = state_value (last (q # ts))" by (simp add: log_run_def)
    from fill_call_log [OF step(2) 1(1) this] show ?case using log_run_trans [OF 1(2)] by blast
  qed
  then show ?thesis by (auto simp: log_run_def)
qed

section \<open>Reservations\<close>

lemma adopt_get_intent:
  "get_intent i s = Inr r \<Longrightarrow> get_intent i (adopt_broker_order now d r0 s) = Inr (if i = oi_id r0 then adopted_row now d r0 r else r)"
  by (rule moved_row [OF adopt_intents]) simp_all

lemma get_intent_cong: "order_intents s' = order_intents s \<Longrightarrow> get_intent i s' = get_intent i s"
  by (simp add: get_intent_def)

lemma reservation_ok_same:
  assumes "reservation_ok s x" and "\<And>r. get_intent (rr_intent x) s = Inr r \<Longrightarrow> \<exists>r'. get_intent (rr_intent x) s' = Inr r' \<and> oi_state r' = oi_state r"
  shows "reservation_ok s' x"
proof (cases "get_intent (rr_intent x) s")
  case (Inl e)
  then show ?thesis using assms(1) by (auto simp: reservation_ok_def)
next
  case (Inr r)
  then show ?thesis using assms by (fastforce simp: reservation_ok_def)
qed

lemma remaining_ratio_0: "late \<or> cumulative = requested \<Longrightarrow> remaining_ratio late requested cumulative = 0"
  by (auto simp: remaining_ratio_def ddiv_def dctx.rd_zero)

lemma fill_target_cases:
  "fill_target q c p n = FILLED \<or> late_fill q c p \<Longrightarrow> c \<le> n \<Longrightarrow> late_fill q c p \<or> c = n"
  by (auto simp: fill_target_def late_fill_def split: if_splits)

lemma reserve_fill_ok:
  assumes "get_intent (rr_intent x) s' = Inr r'" and "oi_state r' = state_value (fill_target q c p n)" and "c \<le> n"
  shows "reservation_ok s' (fill_reserve env q c p n a b x)"
proof (cases "fill_target q c p n = FILLED \<or> late_fill q c p")
  case True
  then have z: "remaining_ratio (late_fill q c p) n c = 0" using fill_target_cases assms(3) remaining_ratio_0 by blast
  have "dmul a 0 = 0" "dmul b 0 = 0" by (simp_all add: dmul_def dctx.rd_zero)
  then show ?thesis using True by (simp add: reservation_ok_def fill_reserve_def reserve_fill_def z dec_text_0)
next
  case False
  then have "fill_target q c p n = PARTIALLY_FILLED" by (auto simp: fill_target_def)
  moreover have "state_value PARTIALLY_FILLED \<notin> set terminal_values" by (simp only: terminal_value) (simp add: TERMINAL_STATES_def)
  ultimately show ?thesis using False assms(1,2) by (simp add: reservation_ok_def fill_reserve_def reserve_fill_def Let_def del: state_value.simps)
qed

lemma record_fill_reservations:
  assumes rec: "record_fill env a s = Inr (r', s')" and ok: "\<forall>x\<in>set (risk_reservations s). reservation_ok s x"
    and x: "x \<in> set (risk_reservations s')"
  shows "reservation_ok s' x"
  using rec
proof (cases rule: record_fill_cases)
  case (retained g r requested e s1 previous)
  obtain l d where w: "risk_reservations s' = risk_reservations s"
      "order_intents s' = update_where (\<lambda>x. oi_id x = rf_intent a) (count_transition (rc_now env) (oi_counter r + 1))
        (order_intents (adopt_broker_order (rc_now env) (fe_order e) r s1))"
    using retain_quantity_result [OF retained(10)] bind_evidence_Some [OF retained(5), THEN conjunct1] by auto
  have same: "get_intent j s1 = get_intent j s" for j
    using bind_evidence_Some [OF retained(5), THEN conjunct1] by (intro get_intent_cong) simp
  have "\<exists>r'. get_intent j s' = Inr r' \<and> oi_state r' = oi_state r0" if "get_intent j s = Inr r0" for j r0
    using moved_row [OF w(2), of j] adopt_get_intent [of j s1 r0] that same by fastforce
  then show ?thesis using reservation_ok_same ok x w(1) by metis
next
  case (advanced g r requested e s1 previous)
  have s1: "risk_reservations s1 = risk_reservations s" and same: "get_intent j s1 = get_intent j s" for j
    using bind_evidence_Some [OF advanced(5), THEN conjunct1] by (auto intro: get_intent_cong)
  obtain q price average h l d n k where eff: "advance_effect env a r g requested previous
      (adopt_broker_order (rc_now env) (fe_order e) r s1) s' q price average h l d n k"
    using advance_order_result [OF advanced(10)] .
  let ?t = "fill_target q (fg_cumulative g) previous requested"
  have rows: "order_intents s' = update_where (\<lambda>x. oi_id x = rf_intent a)
        (fill_intent (rc_now env) (rf_order a) ?t (fg_cumulative g) average h (oi_counter r + 1))
        (order_intents (adopt_broker_order (rc_now env) (fe_order e) r s1))"
    and res: "risk_reservations s' = update_where (\<lambda>y. rr_intent y = rf_intent a)
        (fill_reserve env q (fg_cumulative g) previous requested n k) (risk_reservations s)"
    using eff unfolding advance_effect_def Let_def adopt_fields s1 by - (elim conjE, assumption)+
  have row: "get_intent j s' = Inr (if j = rf_intent a
      then fill_intent (rc_now env) (rf_order a) ?t (fg_cumulative g) average h (oi_counter r + 1)
         (if j = oi_id r then adopted_row (rc_now env) (fe_order e) r r0 else r0)
      else if j = oi_id r then adopted_row (rc_now env) (fe_order e) r r0 else r0)" if "get_intent j s = Inr r0" for j r0
    using moved_row [OF rows, of j] adopt_get_intent [of j s1 r0] that same by auto
  from x consider "x \<in> set (risk_reservations s)" "rr_intent x \<noteq> rf_intent a"
    | x0 where "rr_intent x0 = rf_intent a" "x = fill_reserve env q (fg_cumulative g) previous requested n k x0"
    using set_update_where [OF x [unfolded res]] by blast
  then show ?thesis
  proof cases
    case 1
    have "\<exists>r1. get_intent (rr_intent x) s' = Inr r1 \<and> oi_state r1 = oi_state r0" if "get_intent (rr_intent x) s = Inr r0" for r0
      using row [OF that] 1(2) get_intent_id [OF advanced(2)] by simp
    then show ?thesis using reservation_ok_same ok 1(1) by blast
  next
    case 2
    then have "get_intent (rr_intent x0) s' = Inr r'" using advanced(11) by simp
    moreover have "oi_state r' = state_value ?t"
      using row [OF advanced(2)] advanced(11) by simp
    ultimately show ?thesis unfolding 2(2) using advanced(9) by (rule reserve_fill_ok)
  qed
qed (use ok x in simp)

text \<open>C16: After any sequence of fills and state changes, an intent in a terminal state holds no risk: its reservation is released
  with no notional and no stop risk left.\<close>

theorem fills_release_terminal_risk:
  assumes "fill_call\<^sup>*\<^sup>* s s'" and "\<forall>x\<in>set (risk_reservations s). reservation_ok s x"
  shows "\<forall>x\<in>set (risk_reservations s'). reservation_ok s' x"
  using assms(1)
proof (induction rule: rtranclp_induct)
  case (step t u)
  from step(2) show ?case
  proof cases
    case (recorded env a r)
    then show ?thesis using record_fill_reservations [OF recorded(1)] step(3) by blast
  next
    case (requested env j target a r)
    then show ?thesis
      using reservation_ok_step [of t _ "\<lparr>rq_env = env, rq_intent = j, rq_target = target, rq_args = a\<rparr>"] step(3)
      by (simp add: request_step_def)
  qed
qed (rule assms(2))

section \<open>Evidence\<close>

text \<open>Keys and fingerprints are unique, and every fill has its evidence.\<close>

definition evidence_ok :: "fill_store \<Rightarrow> bool" where
  "evidence_ok s \<longleftrightarrow> distinct (map fe_key (broker_evidence s)) \<and> distinct (map fv_key (broker_fills s))
     \<and> (\<forall>f\<in>set (broker_fills s). \<exists>e\<in>set (broker_evidence s). fe_key e = fv_key f \<and> fe_intent e = fv_intent f)"

lemma evidence_after_prefix: "\<exists>new. evidence_after e es = es @ new"
  by (simp add: evidence_after_def)

lemma evidence_after_distinct: "distinct (map fe_key es) \<Longrightarrow> distinct (map fe_key (evidence_after e es))"
  by (auto simp: evidence_after_def list_ex_iff)

lemma evidence_after_has:
  assumes "bind_evidence e s = Inr (Some s1)"
  shows "\<exists>x\<in>set (evidence_after e (broker_evidence s)). fe_key x = fe_key e \<and> fe_intent x = fe_intent e"
proof (cases "fetch_one (\<lambda>x. fe_key x = fe_key e) (broker_evidence s)")
  case None
  then have "evidence_after e (broker_evidence s) = broker_evidence s @ [e]"
    by (auto simp: evidence_after_def fetch_one_None list_ex_iff)
  then show ?thesis by auto
next
  case (Some x)
  then have "same_evidence x e" "x \<in> set (broker_evidence s)"
    using bind_evidence_Some [OF assms] fetch_one_Some [OF Some] by auto
  then have "x \<in> set (evidence_after e (broker_evidence s))" by (simp add: evidence_after_def)
  then show ?thesis using \<open>same_evidence x e\<close> by (auto simp: same_evidence_def)
qed

lemma fill_call_evidence:
  assumes "fill_call s s'" and "evidence_ok s"
  shows "evidence_ok s' \<and> (\<exists>es fs. broker_evidence s' = broker_evidence s @ es \<and> broker_fills s' = broker_fills s @ fs)"
  using assms(1)
proof cases
  case (recorded env a r1)
  from recorded(1) show ?thesis
  proof (cases rule: record_fill_effect)
    case (same g r0 requested e)
    then show ?thesis using assms by auto
  next
    case (moved g r0 requested e previous y f l ev)
    obtain s1 where b: "bind_evidence e s = Inr (Some s1)" using moved(24) by blast
    obtain es where es: "broker_evidence s' = broker_evidence s @ es" using moved(21) evidence_after_prefix by metis
    have "\<exists>x\<in>set (broker_evidence s'). fe_key x = fv_key ev \<and> fe_intent x = fv_intent ev"
      using evidence_after_has [OF b] moved(16,17,21-23) by simp
    moreover have "distinct (map fe_key (broker_evidence s'))"
      using assms(2) evidence_after_distinct moved(21) by (simp add: evidence_ok_def)
    moreover have "distinct (map fv_key (broker_fills s'))"
      using assms(2) moved(15,16,20) by (auto simp: evidence_ok_def)
    ultimately have "evidence_ok s'"
      using assms(2) es moved(15) by (auto simp: evidence_ok_def)
    then show ?thesis using es moved(15) by blast
  qed
next
  case (requested env j target a r1)
  then show ?thesis using intent_transition_fill_fields [OF requested(1)] assms(2) by (auto simp: evidence_ok_def)
qed

text \<open>C19: The broker evidence and the fill events are append-only, their keys stay unique and every fill has evidence of its own
  intent.\<close>

theorem fill_evidence_is_append_only:
  assumes "fill_call\<^sup>*\<^sup>* s s'" and "evidence_ok s"
  shows "evidence_ok s' \<and> (\<exists>es fs. broker_evidence s' = broker_evidence s @ es \<and> broker_fills s' = broker_fills s @ fs)"
  using assms(1)
proof (induction rule: rtranclp_induct)
  case (step t u)
  then show ?case using fill_call_evidence [OF step(2)] by auto
qed (use assms(2) in simp)

section \<open>Recording a fill again\<close>

lemma check_identity_order:
  "check_identity r g p d = Inr () \<Longrightarrow> same_identity x r \<Longrightarrow> oi_broker_order x \<in> {oi_broker_order r, Some (id_order d)}
    \<Longrightarrow> check_identity x g p d = Inr ()"
  by (auto simp: check_identity_def same_identity_def split: if_splits)

lemma read_identity_again:
  assumes "id_order (read_identity a r g q p) \<noteq> []" and "same_identity x r"
    and "oi_broker_order r \<notin> {None, Some []} \<longrightarrow> oi_broker_order r = Some (id_order (read_identity a r g q p))"
    and "oi_broker_order x \<in> {oi_broker_order r, Some (id_order (read_identity a r g q p))}"
  shows "read_identity a x g q p = read_identity a r g q p"
proof -
  let ?b = "\<lambda>z. or_str [dget p ''broker_order_id'', text_val (rf_order a), text_val (oi_broker_order z)]"
  have "?b r = id_order (read_identity a r g q p)" by (simp add: read_identity_def)
  with assms have "?b x = ?b r"
    by (auto simp: or_str_def py_or_def text_val_def split: option.splits if_splits)
  then show ?thesis using assms(2) by (simp add: read_identity_def same_identity_def)
qed

definition same_printers :: "record_env \<Rightarrow> record_env \<Rightarrow> bool" where
  "same_printers env env' \<longleftrightarrow> rc_canonical_json env' = rc_canonical_json env \<and> rc_sha256 env' = rc_sha256 env
     \<and> rc_testing env' = rc_testing env"

lemma record_evidence_again:
  assumes e: "record_evidence env a r g q = Inr e" and p: "same_printers env env'" and x: "same_identity x r"
    and b: "oi_broker_order x \<in> {oi_broker_order r, Some (fe_order e)}"
  shows "\<exists>e'. record_evidence env' a x g q = Inr e' \<and> same_evidence e' e \<and> fe_id e' = fe_id e"
proof -
  from e obtain raw p where 1: "strip (rf_key a) \<noteq> []" "given_evidence env a r g q = Inr raw" "broker_evidence_payload raw = Inr p"
    "check_identity r g p (read_identity a r g q p) = Inr ()"
    "e = new_evidence env a r (read_identity a r g q p) (bound_payload a r g (read_identity a r g q p) p)"
    by (auto simp: record_evidence_def Let_def result_simps split: if_splits)
  let ?d = "read_identity a r g q p"
  have o: "fe_order e = id_order ?d" by (simp add: 1(5) new_evidence_def Let_def)
  have d: "read_identity a x g q p = ?d"
    by (rule read_identity_again [OF _ x])
      (use 1(4) b o in \<open>auto simp: check_identity_def split: if_splits\<close>)
  have "given_evidence env' a x g q = Inr raw"
    using 1(2) x assms(2) by (auto simp: given_evidence_def same_identity_def same_printers_def split: option.splits)
  moreover have "check_identity x g p ?d = Inr ()" using check_identity_order [OF 1(4) x] b o by simp
  moreover have "bound_payload a x g ?d p = bound_payload a r g ?d p" using x by (simp add: bound_payload_def same_identity_def)
  ultimately have "record_evidence env' a x g q = Inr (new_evidence env' a x ?d (bound_payload a r g ?d p))"
    using 1 d by (simp add: record_evidence_def Let_def)
  moreover have "same_evidence (new_evidence env' a x ?d (bound_payload a r g ?d p)) e"
    "fe_id (new_evidence env' a x ?d (bound_payload a r g ?d p)) = fe_id e"
    using assms(2) x by (simp_all add: 1(5) same_evidence_def new_evidence_def Let_def same_printers_def same_identity_def
        broker_evidence_fingerprint_def)
  ultimately show ?thesis by blast
qed

lemma bind_evidence_None:
  "bind_evidence e s = Inr None \<longleftrightarrow> (\<exists>x. fetch_one (\<lambda>x. fe_key x = fe_key e) (broker_evidence s) = Some x \<and> same_evidence x e)
     \<and> list_ex (\<lambda>f. fv_key f = fe_key e) (broker_fills s)"
  by (auto simp: bind_evidence_def same_evidence_def dest: fetch_one_Some split: option.splits if_splits)

lemma fetch_one_last: "\<forall>x\<in>set xs. key x \<noteq> key e \<Longrightarrow> fetch_one (\<lambda>x. key x = key e) (xs @ [e]) = Some e"
  by (induction xs) (auto simp: fetch_one_def)

lemma fetch_evidence_after:
  assumes "bind_evidence e s = Inr (Some s1)"
  shows "\<exists>x. fetch_one (\<lambda>x. fe_key x = fe_key e) (evidence_after e (broker_evidence s)) = Some x \<and> same_evidence x e"
proof (cases "fetch_one (\<lambda>x. fe_key x = fe_key e) (broker_evidence s)")
  case None
  then have n: "\<forall>x\<in>set (broker_evidence s). fe_key x \<noteq> fe_key e" by (simp add: fetch_one_None)
  then have "fetch_one (\<lambda>x. fe_key x = fe_key e) (broker_evidence s @ [e]) = Some e" by (rule fetch_one_last)
  then show ?thesis using n by (auto simp: evidence_after_def list_ex_iff same_evidence_def)
next
  case (Some x)
  then have "evidence_after e (broker_evidence s) = broker_evidence s"
    using fetch_one_Some [OF Some] by (auto simp: evidence_after_def list_ex_iff)
  then show ?thesis using Some bind_evidence_Some [OF assms] by auto
qed

lemma same_evidence_trans: "same_evidence x y \<Longrightarrow> same_evidence y z \<Longrightarrow> same_evidence x z"
  by (simp add: same_evidence_def)

lemma same_evidence_sym: "same_evidence x y \<Longrightarrow> same_evidence y x"
  by (simp add: same_evidence_def)

lemma record_again:
  assumes "read_figures a = Inr g" and "get_intent (rf_intent a) s = Inr x" and "requested_authority x = Inr q"
    and "record_evidence env' a x g q = Inr e'" and "same_evidence e' e"
    and "fetch_one (\<lambda>y. fe_key y = fe_key e) (broker_evidence s) = Some y" and "same_evidence y e"
    and "list_ex (\<lambda>f. fv_key f = fe_key e) (broker_fills s)"
  shows "record_fill env' a s = Inr (x, s)"
proof -
  have "bind_evidence e' s = Inr None"
    using assms(5-8) by (auto simp: bind_evidence_None same_evidence_def)
  then show ?thesis using assms(1-4) by (simp add: record_fill_def)
qed

text \<open>C18: Recording a fill again, at any later time and with other UUIDs, succeeds and changes nothing, when the call names no order
  of the broker or the one of its evidence.\<close>

theorem recorded_fill_is_idempotent:
  assumes rec: "record_fill env a s = Inr (r1, s1)" and p: "same_printers env env'"
    and o: "\<forall>e\<in>set (broker_evidence s1). fe_key e = rf_key a \<longrightarrow> rf_order a \<in> {None, Some (fe_order e)}"
  shows "\<exists>r2. record_fill env' a s1 = Inr (r2, s1)"
proof -
  show ?thesis using rec
  proof (cases rule: record_fill_effect)
    case (same g r requested e)
    obtain e' where e': "record_evidence env' a r g requested = Inr e'" "same_evidence e' e"
      using record_evidence_again [OF same(5) p, of r] by (auto simp: same_identity_def)
    then show ?thesis using same record_again [OF same(2-4) e'] by (auto simp: bind_evidence_None)
  next
    case (moved g r requested e previous y f l ev)
    obtain t where b: "bind_evidence e s = Inr (Some t)" using moved(24) by blast
    obtain x where x: "fetch_one (\<lambda>x. fe_key x = fe_key e) (broker_evidence s1) = Some x" "same_evidence x e"
      using fetch_evidence_after [OF b] moved(21) by auto
    then have "rf_order a \<in> {None, Some (fe_order e)}"
      using o fetch_one_Some [OF x(1)] moved(22) by (auto simp: same_evidence_def)
    then have "oi_broker_order (f r) = Some (fe_order e)" using moved(27) by (auto simp: coalesce_def)
    then obtain e' where e': "record_evidence env' a (f r) g requested = Inr e'" "same_evidence e' e"
      using record_evidence_again [OF moved(25) p moved(26)] by auto
    have row: "get_intent (rf_intent a) s1 = Inr (f r)" using moved_row [OF moved(5,6,2)] by simp
    have "list_ex (\<lambda>f. fv_key f = fe_key e) (broker_fills s1)" using moved(15,16,22) by simp
    then show ?thesis using record_again [OF moved(1) row moved(11) e' x] by blast
  qed
qed

section \<open>Lots of a fill\<close>

text \<open>What a sale never changes of a lot.\<close>

definition lot_origin :: "lot \<Rightarrow> pyval \<times> string \<times> string \<times> pyval" where
  "lot_origin l = (entry_intent_id l, lot_id l, source_fill_event_key l, original_qty l)"

lemma close_lot_origin [simp]: "lot_origin (close_lot env a x l) = lot_origin l"
  by (simp add: lot_origin_def close_lot_def)

lemma consume_lot_origin: "consume_lot c l acc = Inr acc' \<Longrightarrow> map lot_origin (acc_lots acc') = map lot_origin (acc_lots acc)"
  by (auto simp: consume_lot_def Let_def result_simps map_update_where split: if_splits)

lemma sell_loop_origin: "sell_loop c ls acc = Inr acc' \<Longrightarrow> map lot_origin (acc_lots acc') = map lot_origin (acc_lots acc)"
  by (induction c ls acc rule: sell_loop.induct) (auto simp: result_simps dest: consume_lot_origin split: if_splits)

lemma apply_sell_origin:
  "apply_sell env a symbol side q p f j s = Inr s' \<Longrightarrow> map lot_origin (position_lots s') = map lot_origin (position_lots s)"
  by (auto simp: apply_sell_def Let_def result_simps sell_start_def dest!: sell_loop_origin)


lemma decimal_required_dec0: "0 \<le> x \<Longrightarrow> decimal_required (PyDec (Fin x)) f (Some 0) = Inr x"
  by (simp add: result_simps decimal_value_Some_iff)

definition bought_lot :: "record_env \<Rightarrow> record_args \<Rightarrow> order_intent \<Rightarrow> rat \<Rightarrow> pyval \<times> string \<times> string \<times> pyval" where
  "bought_lot env a r delta = (PyStr (oi_id r), env_fresh (rc_ledger env) 0, rf_key a, PyStr (dec_text delta))"

lemma apply_buy_origin:
  assumes "apply_buy env a symbol q p f s = Inr s'" and "dget (fa_intent a) ''id'' = PyStr i"
    and "\<forall>l\<in>set (position_lots s). lot_id l \<noteq> env_fresh env 0 \<and> source_fill_event_key l \<noteq> fa_event_key a"
  shows "map lot_origin (position_lots s') = map lot_origin (position_lots s) @ [(PyStr i, env_fresh env 0, fa_event_key a, PyStr (dec_text q))]"
proof -
  from assms(1) obtain risk lifecycle where s': "s' = s\<lparr>position_lots := insert_lot (new_lot env a s symbol q p f risk lifecycle) (position_lots s)\<rparr>"
    by (auto simp: apply_buy_def Let_def result_simps split: if_splits)
  have "insert_lot (new_lot env a s symbol q p f risk lifecycle) (position_lots s)
      = position_lots s @ [new_lot env a s symbol q p f risk lifecycle]"
    using assms(3) by (auto simp: insert_lot_def new_lot_def Let_def)
  then show ?thesis using assms(2) by (simp add: s' lot_origin_def new_lot_def Let_def)
qed

definition buys :: "order_intent \<Rightarrow> bool" where
  "buys r \<longleftrightarrow> lower (py_str (dget (oi_data r) ''side'')) = ''buy''"

text \<open>The lots after a fill: a purchase with new units adds one, everything else keeps what they are.\<close>

lemma ledger_fill_origin:
  assumes "apply_fill_in_transaction (rc_ledger env) (ledger_fill env a r g delta price) s = Inr s'" and "0 \<le> delta"
    and fresh: "\<forall>l\<in>set (position_lots s). lot_id l \<noteq> env_fresh (rc_ledger env) 0 \<and> source_fill_event_key l \<noteq> rf_key a"
  shows "map lot_origin (position_lots s') = map lot_origin (position_lots s)
    @ (if buys r \<and> delta \<noteq> 0 then [bought_lot env a r delta] else [])"
proof (cases "delta = 0")
  case True
  then show ?thesis using assms(1)
    by (simp add: apply_fill_in_transaction_def ledger_fill_def decimal_required_dec0 rbind_def)
next
  case False
  let ?a = "ledger_fill env a r g delta price"
  have q: "decimal_required (fa_delta_quantity ?a) ''delta_quantity'' (Some 0) = Inr delta"
    using assms(2) by (simp add: ledger_fill_def decimal_required_dec0)
  have side: "dget_req (fa_intent ?a) ''side'' = Inr v \<Longrightarrow> dget (oi_data r) ''side'' = v" for v
    by (auto simp: ledger_fill_def intent_row_def dget_req_def dget_def split: option.splits)
  have id: "dget (fa_intent ?a) ''id'' = PyStr (oi_id r)" by (simp add: ledger_fill_def intent_row_def)
  from assms(1) False q obtain symbol p f j sd s1 where
    sd: "dget_req (fa_intent ?a) ''side'' = Inr sd" and
    step: "(if lower (py_str sd) = ''buy'' then apply_buy (rc_ledger env) ?a symbol delta p f s
       else if lower (py_str sd) = ''sell'' then apply_sell (rc_ledger env) ?a symbol (lower (py_str sd)) delta p f j s
       else Inl (ValueError (''unsupported fill side for FIFO ledger: '' @ lower (py_str sd)))) = Inr s1"
    and s': "s' = touch_status (rc_ledger env) ?a s1"
    by (auto simp: apply_fill_in_transaction_def Let_def result_simps split: if_splits)
  have t: "position_lots s' = position_lots s1" by (simp add: s' touch_status_def)
  show ?thesis
  proof (cases "lower (py_str sd) = ''buy''")
    case True
    then have "apply_buy (rc_ledger env) ?a symbol delta p f s = Inr s1" using step by simp
    from apply_buy_origin [OF this id] fresh show ?thesis using True side [OF sd] False
      by (simp add: t buys_def bought_lot_def ledger_fill_def)
  next
    case b: False
    then have "apply_sell (rc_ledger env) ?a symbol (lower (py_str sd)) delta p f j s = Inr s1"
      using step by (simp split: if_splits)
    from apply_sell_origin [OF this] show ?thesis using b side [OF sd] by (simp add: t buys_def)
  qed
qed

section \<open>Fills and lots\<close>

lemma record_fill_books:
  assumes rec: "record_fill env a s = Inr (r', s')"
    and fresh: "\<forall>l\<in>set (position_lots (fill_ledger s)). lot_id l \<noteq> env_fresh (rc_ledger env) 0 \<and> source_fill_event_key l \<noteq> rf_key a"
  obtains (same) "s' = s"
  | (booked) r ev d where "get_intent (rf_intent a) s = Inr r" "broker_fills s' = broker_fills s @ [ev]" "fv_key ev = rf_key a"
      "fv_intent ev = rf_intent a" "fv_delta ev = dec_text d" "dec28 d" "0 \<le> d"
      "map lot_origin (position_lots (fill_ledger s')) = map lot_origin (position_lots (fill_ledger s))
        @ (if buys r \<and> d \<noteq> 0 then [bought_lot env a r d] else [])"
  using rec
proof (cases rule: record_fill_cases)
  case (retained g r requested e s1 previous)
  note s1 = bind_evidence_Some [OF retained(5), THEN conjunct1]
  obtain d where fills: "broker_fills s' = broker_fills s @ [new_fill_event env a r g 0 (fg_price g) d]"
      and lots: "position_lots (fill_ledger s') = position_lots (fill_ledger s)"
    using retain_quantity_result [OF retained(10)] by (auto simp: s1 distrust_ledger_def)
  show ?thesis by (rule booked [OF retained(2) fills, of 0]) (simp_all add: new_fill_event_def lots)
next
  case (advanced g r requested e s1 previous)
  note s1 = bind_evidence_Some [OF advanced(5), THEN conjunct1]
  obtain q price average h l d n k where eff: "advance_effect env a r g requested previous
      (adopt_broker_order (rc_now env) (fe_order e) r s1) s' q price average h l d n k"
    using advance_order_result [OF advanced(10)] .
  let ?d = "max 0 (dsub (fg_cumulative g) previous)"
  have fills: "broker_fills s' = broker_fills s @ [new_fill_event env a r g ?d price d]"
    and led: "apply_fill_in_transaction (rc_ledger env) (ledger_fill env a r g ?d price) (fill_ledger s) = Inr (fill_ledger s')"
    using eff unfolding advance_effect_def Let_def adopt_fields adopt_more by (simp_all add: s1)
  have "dec28 ?d" by (simp add: max_def)
  then show ?thesis
    by (intro booked [OF advanced(2) fills, of ?d] ledger_fill_origin [OF led _ fresh]) (simp_all add: new_fill_event_def)
qed (rule same)

text \<open>Calls in which a new lot gets an id of its own, as the UUIDs of the code are.\<close>

inductive booked_call :: "fill_store \<Rightarrow> fill_store \<Rightarrow> bool" where
  recorded: "record_fill env a s = Inr (r, s') \<Longrightarrow> wf_pyval (rf_cumulative a)
    \<Longrightarrow> \<forall>l\<in>set (position_lots (fill_ledger s)). lot_id l \<noteq> env_fresh (rc_ledger env) 0 \<Longrightarrow> booked_call s s'"
| requested: "intent_transition env i target a s = Inr (r, s') \<Longrightarrow> ee_milestone_terminal env = apply_take_profit_terminal_state
    \<Longrightarrow> booked_call s s'"

lemma booked_fill_call: "booked_call s s' \<Longrightarrow> fill_call s s'"
  by (induction rule: booked_call.induct) (auto intro: fill_call.intros)

definition opened_lots :: "string \<Rightarrow> fill_store \<Rightarrow> (string \<times> pyval) list" where
  "opened_lots i s = map (\<lambda>l. (source_fill_event_key l, original_qty l))
     (filter (\<lambda>l. entry_intent_id l = PyStr i) (position_lots (fill_ledger s)))"

definition filled_units :: "string \<Rightarrow> fill_store \<Rightarrow> (string \<times> pyval) list" where
  "filled_units i s = map (\<lambda>f. (fv_key f, PyStr (fv_delta f)))
     (filter (\<lambda>f. fv_intent f = i \<and> fv_delta f \<noteq> ''0'') (broker_fills s))"

definition books_ok :: "string \<Rightarrow> fill_store \<Rightarrow> bool" where
  "books_ok i s \<longleftrightarrow> (\<exists>r. get_intent i s = Inr r \<and> buys r) \<and> opened_lots i s = filled_units i s
     \<and> source_fill_event_key ` set (position_lots (fill_ledger s)) \<subseteq> fv_key ` set (broker_fills s)"

lemma opened_lots_origin:
  "opened_lots i s = map (\<lambda>(e, j, k, q). (k, q)) (filter (\<lambda>(e, j, k, q). e = PyStr i) (map lot_origin (position_lots (fill_ledger s))))"
  by (simp add: opened_lots_def filter_map lot_origin_def comp_def)

lemma source_keys_origin:
  "source_fill_event_key ` set (position_lots l) = (\<lambda>x. fst (snd (snd x))) ` set (map lot_origin (position_lots l))"
  by (simp add: image_image lot_origin_def)

lemma dec_text_zero: "dec28 d \<Longrightarrow> dec_text d = ''0'' \<longleftrightarrow> d = 0"
  using dec_text_inject [of d 0] by (simp add: is_decimal_dec28 dec_text_0)

lemma fill_call_side:
  assumes "fill_call s s'" and "get_intent i s = Inr r" and "buys r"
  shows "\<exists>r'. get_intent i s' = Inr r' \<and> buys r'"
  using assms(1)
proof cases
  case (recorded env a r1)
  from recorded(1) show ?thesis
  proof (cases rule: record_fill_effect)
    case (moved g r0 requested e previous y f l ev)
    have "get_intent i s' = Inr (if i = rf_intent a then f r else r)" by (rule moved_row [OF moved(5,6) assms(2)])
    moreover have "r0 = r" if "i = rf_intent a" using that moved(2) assms(2) by simp
    ultimately show ?thesis using assms(3) moved(26) by (cases "i = rf_intent a") (auto simp: buys_def same_identity_def)
  qed (use assms in auto)
next
  case (requested env j target a r1)
  show ?thesis using intent_transition_rows [OF requested(1)]
  proof
    assume "order_intents s' = update_where (\<lambda>x. oi_id x = j) (move_intent (ee_now env) a target) (order_intents s)"
    from moved_row [OF this _ assms(2)] show ?thesis using assms(3) by (auto simp: buys_def)
  qed (use assms in auto)
qed

lemma booked_call_books:
  assumes c: "booked_call s s'" and ok: "books_ok i s"
  shows "books_ok i s'"
proof -
  obtain r where r: "get_intent i s = Inr r" "buys r" and eq: "opened_lots i s = filled_units i s"
    and keys: "source_fill_event_key ` set (position_lots (fill_ledger s)) \<subseteq> fv_key ` set (broker_fills s)"
    using ok by (auto simp: books_ok_def)
  have side: "\<exists>r'. get_intent i s' = Inr r' \<and> buys r'" by (rule fill_call_side [OF booked_fill_call [OF c] r])
  show ?thesis using c
  proof cases
    case (recorded env a r1)
    show ?thesis
    proof (cases "rf_key a \<in> fv_key ` set (broker_fills s)")
      case True
      have "s' = s" using recorded(1)
      proof (cases rule: record_fill_effect)
        case (moved g r0 requested e previous y f l ev)
        obtain x where "x \<in> set (broker_fills s)" "fv_key x = rf_key a" using True by auto
        then show ?thesis using moved(20) by simp
      qed
      then show ?thesis using ok by simp
    next
      case False
      then have "\<forall>l\<in>set (position_lots (fill_ledger s)). lot_id l \<noteq> env_fresh (rc_ledger env) 0 \<and> source_fill_event_key l \<noteq> rf_key a"
        using recorded(3) subsetD [OF keys, OF imageI] by (metis (no_types))
      from recorded(1) this show ?thesis
      proof (cases rule: record_fill_books)
        case (booked r0 ev d)
        have b: "r0 = r" if "i = rf_intent a" using that booked(1) r by simp
        have id: "oi_id r0 = rf_intent a" using get_intent_id [OF booked(1)] by simp
        have "opened_lots i s' = opened_lots i s @ (if i = rf_intent a \<and> d \<noteq> 0 then [(rf_key a, PyStr (dec_text d))] else [])"
          unfolding opened_lots_origin booked(8) using b r(2) id by (auto simp: bought_lot_def)
        moreover have "filled_units i s' = filled_units i s @ (if i = rf_intent a \<and> d \<noteq> 0 then [(rf_key a, PyStr (dec_text d))] else [])"
          using booked(2-6) by (auto simp: filled_units_def dec_text_zero)
        moreover have "source_fill_event_key ` set (position_lots (fill_ledger s')) \<subseteq> fv_key ` set (broker_fills s')"
          using order_trans [OF keys [unfolded source_keys_origin]] booked(2,3)
          unfolding source_keys_origin booked(8) set_append image_Un by (intro Un_least) (simp_all add: bought_lot_def subset_insertI, auto)
        ultimately show ?thesis using side eq by (simp add: books_ok_def)
      qed (use ok in simp)
    qed
  next
    case (requested env j target a r1)
    then show ?thesis using intent_transition_fill_fields [OF requested(1)] side eq keys
      by (simp add: books_ok_def opened_lots_def filled_units_def)
  qed
qed

text \<open>C13: The intent store and the FIFO ledger agree after any sequence of calls: the lots opened by a buy order are, in order and
  with their quantities, exactly its fills that report new units.\<close>

theorem every_bought_unit_has_a_lot:
  assumes "booked_call\<^sup>*\<^sup>* s s'" and "books_ok i s"
  shows "books_ok i s'"
  using assms by (induction rule: rtranclp_induct) (auto intro: booked_call_books)

section \<open>Sums\<close>

text \<open>A quantity with at most nine decimal places that has no more than 28 digits.\<close>

definition nine_places :: "rat \<Rightarrow> bool" where
  "nine_places x \<longleftrightarrow> (\<exists>c. x = of_int c * 10 powi (-9) \<and> \<bar>c\<bar> < 10 ^ 28 \<and> 0 \<le> c)"

lemma nine_places_is_decimal: "nine_places x \<Longrightarrow> is_decimal x"
  unfolding nine_places_def using is_decimalI by blast

lemma nine_places_dsub:
  assumes "nine_places x" and "nine_places y" and "x \<le> y"
  shows "max 0 (dsub y x) = y - x"
proof -
  obtain c d where c: "x = of_int c * 10 powi (-9)" "\<bar>c\<bar> < 10 ^ 28" "0 \<le> c"
    and d: "y = of_int d * 10 powi (-9)" "\<bar>d\<bar> < 10 ^ 28" "0 \<le> d"
    using assms by (auto simp: nine_places_def)
  have "y - x = of_int (d - c) * 10 powi (-9)" by (simp add: c d algebra_simps)
  moreover have "\<bar>d - c\<bar> < 10 ^ 28" using c d by auto
  ultimately have "dsub y x = y - x" by (intro dsub_exact dec28I)
  then show ?thesis using assms(3) by simp
qed

text \<open>The quantity that a text denotes, and the sum of what the fills of an order report as new.\<close>

definition text_amount :: "string \<Rightarrow> rat" where
  "text_amount t = (case parse_decimal t of Some (Fin x) \<Rightarrow> x | _ \<Rightarrow> 0)"

definition delta_sum :: "string \<Rightarrow> fill_store \<Rightarrow> rat" where
  "delta_sum i s = sum_list (map (\<lambda>f. text_amount (fv_delta f)) (filter (\<lambda>f. fv_intent f = i) (broker_fills s)))"

lemma text_amount [simp]: "is_decimal x \<Longrightarrow> text_amount (dec_text x) = x"
  by (simp add: text_amount_def parse_dec_text)

definition reported_places :: "fill_store \<Rightarrow> bool" where
  "reported_places s \<longleftrightarrow> (\<forall>f\<in>set (broker_fills s). \<exists>c. fv_cumulative f = dec_text c \<and> nine_places c)"

lemma fill_call_fills: "fill_call s s' \<Longrightarrow> \<exists>fs. broker_fills s' = broker_fills s @ fs"
proof (induction rule: fill_call.induct)
  case (recorded env a s r s')
  from recorded(1) show ?case by (cases rule: record_fill_effect) auto
next
  case (requested env i target a s r s')
  then show ?case using intent_transition_fill_fields [OF requested(1)] by simp
qed

lemma reported_places_prefix: "reported_places s' \<Longrightarrow> fill_call s s' \<Longrightarrow> reported_places s"
  using fill_call_fills by (fastforce simp: reported_places_def)

lemma fill_call_sums:
  assumes c: "fill_call s s'" and n: "reported_places s'" and r: "get_intent i s = Inr r" and p: "fill_progress r q x" and x: "nine_places x"
  shows "\<exists>r' x'. get_intent i s' = Inr r' \<and> fill_progress r' q x' \<and> nine_places x' \<and> delta_sum i s' - delta_sum i s = x' - x"
  using c
proof cases
  case (recorded env a r1)
  from recorded(1) show ?thesis
  proof (cases rule: record_fill_effect)
    case (same g r0 requested e)
    then show ?thesis using r p x by auto
  next
    case (moved g r0 requested e previous y f l ev)
    have row: "get_intent i s' = Inr (if i = rf_intent a then f r else r)"
      by (rule moved_row [OF moved(5,6) r])
    show ?thesis
    proof (cases "i = rf_intent a")
      case True
      then have eq: "r0 = r" "requested = q" "previous = x" using r p moved(2-4) by (auto simp: fill_progress_def)
      have cd: "is_decimal (fg_cumulative g)" using read_figures_Inr [OF moved(1)] recorded(2) by simp
      obtain d where d: "dec_text (fg_cumulative g) = dec_text d" "nine_places d"
        using n moved(15,18) by (auto simp: reported_places_def)
      then have "fg_cumulative g = d" using cd dec_text_inject nine_places_is_decimal by blast
      then have y: "nine_places y" using moved(14) d x eq by auto
      have "0 \<le> y" using exact_column_Inr [OF moved(4)] moved(13) by simp
      then have prog: "fill_progress (f r) q y" using moved(11,12) eq nine_places_is_decimal [OF y]
        by (simp add: fill_progress_def exact_column_dec)
      have "max 0 (dsub y x) = y - x" using nine_places_dsub [OF x y] moved(13) eq by simp
      moreover have "is_decimal (max 0 (dsub y x))" by (intro is_decimal_dec28) (simp add: max_def)
      ultimately have "text_amount (fv_delta ev) = y - x" using moved(19) eq by simp
      then have "delta_sum i s' - delta_sum i s = y - x" using moved(15,17) True by (simp add: delta_sum_def)
      then show ?thesis using row True prog y by auto
    next
      case False
      then have "delta_sum i s' = delta_sum i s" using moved(15,17) by (simp add: delta_sum_def)
      then show ?thesis using row False p x by auto
    qed
  qed
next
  case (requested env j target a r1)
  have "delta_sum i s' = delta_sum i s" using intent_transition_fill_fields [OF requested(1)] by (simp add: delta_sum_def)
  moreover have "\<exists>r'. get_intent i s' = Inr r' \<and> fill_progress r' q x" using intent_transition_rows [OF requested(1)]
  proof
    assume "order_intents s' = update_where (\<lambda>x. oi_id x = j) (move_intent (ee_now env) a target) (order_intents s)"
    from moved_row [OF this _ r] show ?thesis using p by auto
  qed (use r p in auto)
  ultimately show ?thesis using x by auto
qed

text \<open>C20: When the broker reports quantities of at most nine decimal places, the new units that the fill events of an order record add
  up exactly to the change of its filled quantity.\<close>

theorem fill_deltas_add_up:
  assumes "fill_call\<^sup>*\<^sup>* s s'" and "reported_places s'" and "get_intent i s = Inr r" and "fill_progress r q x" and "nine_places x"
  shows "\<exists>r' x'. get_intent i s' = Inr r' \<and> fill_progress r' q x' \<and> delta_sum i s' - delta_sum i s = x' - x"
proof -
  have "\<exists>r' x'. get_intent i s' = Inr r' \<and> fill_progress r' q x' \<and> nine_places x' \<and> delta_sum i s' - delta_sum i s = x' - x"
    using assms(1,2)
  proof (induction rule: rtranclp_induct)
    case base
    then show ?case using assms by auto
  next
    case (step t u)
    then obtain r1 x1 where 1: "get_intent i t = Inr r1" "fill_progress r1 q x1" "nine_places x1" "delta_sum i t - delta_sum i s = x1 - x"
      using reported_places_prefix by blast
    from fill_call_sums [OF step(2,4) 1(1-3)] obtain r2 x2 where
      "get_intent i u = Inr r2" "fill_progress r2 q x2" "nine_places x2" "delta_sum i u - delta_sum i t = x2 - x1" by blast
    then show ?case using 1(4) by (intro exI [of _ r2] exI [of _ x2]) simp
  qed
  then show ?thesis by blast
qed

section \<open>Late fills\<close>

text \<open>C39: A fill that raises the quantity of a cancelled order is recorded in full and leaves the order cancelled, without the time at
  which it became terminal.\<close>

theorem late_fill_stays_cancelled:
  assumes "record_fill env a s = Inr (r', s')" and "s' \<noteq> s" and "wf_pyval (rf_cumulative a)"
    and "get_intent (rf_intent a) s = Inr r" and "oi_state r = state_value CANCELLED"
    and "fill_progress r q x" and "read_figures a = Inr g" and "x < fg_cumulative g"
  shows "get_intent (rf_intent a) s' = Inr r' \<and> oi_state r' = state_value CANCELLED \<and> fill_progress r' q (fg_cumulative g) \<and> oi_terminal_at r' = None"
  using assms(1)
proof (cases rule: record_fill_cases)
  case (retained g' r0 requested e s1 previous)
  then show ?thesis using assms(4,6-8) by (auto simp: fill_progress_def)
next
  case (advanced g' r0 requested e s1 previous)
  have eq: "g' = g" "r0 = r" "requested = q" "previous = x" using advanced(1-3,6) assms(4,6,7) by (auto simp: fill_progress_def)
  note s1 = bind_evidence_Some [OF advanced(5), THEN conjunct1]
  obtain t price average h l d n k where eff: "advance_effect env a r g q x
      (adopt_broker_order (rc_now env) (fe_order e) r s1) s' t price average h l d n k"
    using advance_order_result [OF advanced(10) [unfolded eq]] .
  then have t: "t = CANCELLED" using assms(5) unfolding advance_effect_def Let_def by (metis state_value_inject)
  have rows: "order_intents s' = update_where (\<lambda>x. oi_id x = rf_intent a)
        (fill_intent (rc_now env) (rf_order a) CANCELLED (fg_cumulative g) average h (oi_counter r + 1))
        (order_intents (adopt_broker_order (rc_now env) (fe_order e) r s1))"
    using eff assms(8) t unfolding advance_effect_def Let_def by (simp add: fill_target_def late_fill_def)
  have "get_intent (rf_intent a) (adopt_broker_order (rc_now env) (fe_order e) r s1) = Inr (adopted_row (rc_now env) (fe_order e) r r)"
    using adopt_get_intent [of "rf_intent a" s1 r "rc_now env" "fe_order e" r] assms(4) get_intent_id [OF assms(4)] s1
    by (simp add: get_intent_def)
  from moved_row [OF rows _ this] advanced(11)
  have r': "r' = fill_intent (rc_now env) (rf_order a) CANCELLED (fg_cumulative g) average h (oi_counter r + 1)
      (adopted_row (rc_now env) (fe_order e) r r)" by simp
  have "requested_authority r' = requested_authority r"
    by (rule requested_authority_cong) (simp_all add: r' fill_intent_data)
  moreover have "is_decimal (fg_cumulative g)" "0 \<le> fg_cumulative g"
    using read_figures_Inr [OF assms(7)] assms(3) by auto
  then have "exact_column ''filled_quantity_decimal'' (filled_column r') = Inr (fg_cumulative g)"
    by (simp add: r' fill_intent_data exact_column_dec flip: dec_column_def)
  ultimately show ?thesis using assms(6) advanced(11) by (simp add: fill_progress_def) (simp add: r')
qed (use assms(2) in simp)

section \<open>Examples\<close>

text \<open>Only sells reach the milestones, so the float projections are not evaluated for a purchase.\<close>

lemma account_fill_code [code]:
  "account_fill env a r g delta price s =
     rbind (apply_fill_in_transaction (rc_ledger env) (ledger_fill env a r g delta price) (fill_ledger s)) (\<lambda>l.
     rbind (if lower (or_str [dget (oi_data r) ''side'']) \<noteq> ''sell'' then Inr (milestones s)
        else apply_take_profit_fill (milestone_fill env a r g delta price) (milestones s)) (\<lambda>m.
     Inr (s\<lparr>fill_ledger := l, milestones := m\<rparr>)))"
  by (auto simp: account_fill_def apply_take_profit_fill_def milestone_fill_def intent_row_def)

declare rbind_def [code_unfold]

definition sample_record_env :: "string \<Rightarrow> record_env" where
  "sample_record_env tag = \<lparr>rc_now = tag, rc_fresh = (\<lambda>n. tag @ digits_of (int n)), rc_testing = False,
     rc_canonical_json = (\<lambda>p. py_str (dget p ''broker_event_key'')), rc_dumps = (\<lambda>p. ''{}''), rc_sha256 = (\<lambda>t. ''h'' @ t),
     rc_shortfall = (\<lambda>_ _ _ _. PyNone),
     rc_ledger = \<lparr>env_now = tag, env_fresh = (\<lambda>n. tag @ ''l'' @ digits_of (int n)), env_proposal = (\<lambda>_. None),
       env_json = (\<lambda>_. None), env_period_keys = (\<lambda>_ _. (''d'', ''w''))\<rparr>\<rparr>"

definition sample_record :: "string \<Rightarrow> string \<Rightarrow> string \<Rightarrow> string option \<Rightarrow> record_args" where
  "sample_record key q p order = \<lparr>rf_intent = ''i1'', rf_cumulative = PyStr q, rf_price = PyStr p, rf_key = key, rf_order = order,
     rf_occurred = None, rf_fees = PyInt 0, rf_adjustments = PyInt 0, rf_source = ''broker_fill'', rf_average = True,
     rf_evidence = Some [(''broker_order_id'', PyStr ''b1''), (''client_order_id'', PyStr ''c1''), (''status'', PyStr ''filled''),
       (''filled_qty'', PyStr q)], rf_account = None\<rparr>"

definition sample_order :: "string \<Rightarrow> string \<Rightarrow> string \<Rightarrow> string option \<Rightarrow> order_intent" where
  "sample_order side requested state terminal = \<lparr>oi_id = ''i1'', oi_approval = Some ''a1'', oi_state = state, oi_broker_order = None,
       oi_first_submission = None, oi_terminal_at = terminal, oi_error = None, oi_summary = None, oi_attempts = 0,
       oi_counter = 1, oi_broker_invoked = 1, oi_updated = ''t0'', oi_data = [''client_order_id'' \<mapsto> PyStr ''c1'',
         ''symbol'' \<mapsto> PyStr ''ABC'', ''side'' \<mapsto> PyStr side, ''requested_quantity_decimal'' \<mapsto> PyStr requested,
         ''filled_quantity_decimal'' \<mapsto> PyStr ''0'', ''position_lifecycle_id'' \<mapsto> PyStr ''L1'']\<rparr>"

definition sample_fill_store :: "order_intent \<Rightarrow> milestone_tables \<Rightarrow> fill_store" where
  "sample_fill_store r m = \<lparr>order_intents = [r], order_events = [], orders = [],
     risk_reservations = [\<lparr>rr_intent = ''i1'', rr_active_notional = ''90'', rr_active_risk = ''4'', rr_state = ''active'',
       rr_released_at = None, rr_reason = None, rr_updated = ''t0'', rr_version = 0,
       rr_data = [''initial_notional_decimal'' \<mapsto> PyStr ''90'', ''initial_stop_risk_decimal'' \<mapsto> PyStr ''4'']\<rparr>],
     milestones = m,
     fill_ledger = \<lparr>position_lots = [], lot_consumptions = [], realized_pnl_events = [], pnl_ledger_status = None\<rparr>,
     broker_evidence = [], broker_fills = [], aggregate_fills = []\<rparr>"

definition no_milestones :: milestone_tables where
  "no_milestones = \<lparr>tp_milestones = [], tp_actions = [], tp_links = [], tp_lifecycles = [], tp_management = []\<rparr>"

definition fill_once :: "record_env \<Rightarrow> record_args \<Rightarrow> fill_store \<Rightarrow> fill_store" where
  "fill_once env a s = (case record_fill env a s of Inr (r, s') \<Rightarrow> s' | Inl _ \<Rightarrow> s)"

definition recorded_ok :: "record_env \<Rightarrow> record_args \<Rightarrow> fill_store \<Rightarrow> bool" where
  "recorded_ok env a s = (case record_fill env a s of Inr _ \<Rightarrow> True | Inl _ \<Rightarrow> False)"

definition bought_store :: fill_store where
  "bought_store = sample_fill_store (sample_order ''buy'' ''10'' ''submitted'' None) no_milestones"

definition first_fill :: fill_store where
  "first_fill = fill_once (sample_record_env ''t1'') (sample_record ''k1'' ''4'' ''9.5'' None) bought_store"

definition second_fill :: fill_store where
  "second_fill = fill_once (sample_record_env ''t2'') (sample_record ''k2'' ''10'' ''9'' None) first_fill"


lemma recorded_ok_once: "recorded_ok env a s \<Longrightarrow> \<exists>r. record_fill env a s = Inr (r, fill_once env a s)"
  by (auto simp: recorded_ok_def fill_once_def split: sum.splits)

lemma first_recorded: "recorded_ok (sample_record_env ''t1'') (sample_record ''k1'' ''4'' ''9.5'' None) bought_store"
  by code_simp

lemma second_recorded: "recorded_ok (sample_record_env ''t2'') (sample_record ''k2'' ''10'' ''9'' None) first_fill"
  by code_simp

lemma second_facts:
  "list_all (\<lambda>l. lot_id l \<noteq> ''t2l0'') (position_lots (fill_ledger first_fill)) \<and> map fv_cumulative (broker_fills second_fill) = [''4'', ''10'']"
  by code_simp

lemma sample_row: "get_intent ''i1'' bought_store = Inr (sample_order ''buy'' ''10'' ''submitted'' None)"
  by (simp add: bought_store_def sample_fill_store_def get_intent_def fetch_one_def sample_order_def)

lemma sample_ids: "oi_id (sample_order d q t u) = ''i1''" "oi_state (sample_order d q t u) = t"
  by (simp_all add: sample_order_def)

lemma sample_progress: "fill_progress (sample_order ''buy'' ''10'' ''submitted'' None) 10 0"
  unfolding fill_progress_def by code_simp

lemma sample_key: "wf_pyval (rf_cumulative (sample_record k q p b))" "rf_order (sample_record k q p b) = b"
  "rf_intent (sample_record k q p b) = ''i1''" "env_fresh (rc_ledger (sample_record_env t)) 0 = t @ ''l'' @ digits_of 0"
  by (simp_all add: sample_record_def sample_record_env_def)

lemma sample_booked: "booked_call\<^sup>*\<^sup>* bought_store second_fill"
proof -
  obtain r1 r2 where r: "record_fill (sample_record_env ''t1'') (sample_record ''k1'' ''4'' ''9.5'' None) bought_store = Inr (r1, first_fill)"
    "record_fill (sample_record_env ''t2'') (sample_record ''k2'' ''10'' ''9'' None) first_fill = Inr (r2, second_fill)"
    using recorded_ok_once [OF first_recorded] recorded_ok_once [OF second_recorded] by (auto simp: first_fill_def second_fill_def)
  have "\<forall>l\<in>set (position_lots (fill_ledger bought_store)). lot_id l \<noteq> env_fresh (rc_ledger (sample_record_env ''t1'')) 0"
    by (simp add: bought_store_def sample_fill_store_def)
  moreover have "digits_of 0 = ''0''" by code_simp
  then have "\<forall>l\<in>set (position_lots (fill_ledger first_fill)). lot_id l \<noteq> env_fresh (rc_ledger (sample_record_env ''t2'')) 0"
    using second_facts by (simp add: list_all_iff sample_key)
  ultimately have "booked_call bought_store first_fill" "booked_call first_fill second_fill"
    using booked_call.recorded [OF r(1) sample_key(1)] booked_call.recorded [OF r(2) sample_key(1)] by blast+
  then show ?thesis by (meson converse_rtranclp_into_rtranclp rtranclp.rtrancl_refl)
qed

lemma sample_calls: "fill_call\<^sup>*\<^sup>* bought_store second_fill"
  using sample_booked by (rule mono_rtranclp [rule_format, rotated]) (rule booked_fill_call)

theorem fill_progress_bounded_witness:
  "\<exists>r' x'. get_intent ''i1'' second_fill = Inr r' \<and> fill_progress r' 10 x' \<and> 0 \<le> x' \<and> x' \<le> 10"
  using fill_progress_bounded [OF sample_calls sample_row sample_progress] by simp

theorem order_log_with_fills_refines_machine_witness:
  "\<exists>r' ts new. get_intent ''i1'' second_fill = Inr r' \<and> guarded_run order_allowed SUBMITTED ts
    \<and> oi_state r' = state_value (last (SUBMITTED # ts)) \<and> oi_counter r' = 1 + int (length ts)
    \<and> intent_events ''i1'' second_fill = new \<and> event_chain SUBMITTED 1 ts new"
proof -
  have "oi_state (sample_order ''buy'' ''10'' ''submitted'' None) = state_value SUBMITTED" by (simp add: sample_ids)
  moreover have "intent_events ''i1'' bought_store = []" by (simp add: intent_events_def bought_store_def sample_fill_store_def)
  moreover have "oi_counter (sample_order ''buy'' ''10'' ''submitted'' None) = 1" by (simp add: sample_order_def)
  ultimately show ?thesis using order_log_with_fills_refines_machine [OF sample_calls sample_row, of SUBMITTED]
    by (simp only: append_Nil)
qed

theorem fills_release_terminal_risk_witness:
  "list_all (reservation_ok second_fill) (risk_reservations second_fill)"
proof -
  have "state_value SUBMITTED \<notin> set terminal_values" by (simp only: terminal_value) (simp add: TERMINAL_STATES_def)
  then have "\<forall>x\<in>set (risk_reservations bought_store). reservation_ok bought_store x"
    by (simp add: reservation_ok_def bought_store_def sample_fill_store_def get_intent_def fetch_one_def sample_order_def)
  from fills_release_terminal_risk [OF sample_calls this] show ?thesis by (simp add: list_all_iff)
qed

theorem fill_evidence_is_append_only_witness:
  "evidence_ok second_fill \<and> (\<exists>es. broker_evidence second_fill = es) \<and> map fv_cumulative (broker_fills second_fill) = [''4'', ''10'']"
  using fill_evidence_is_append_only [OF sample_calls] second_facts by (simp add: evidence_ok_def bought_store_def sample_fill_store_def)

theorem recorded_fill_is_idempotent_witness:
  "\<exists>r. record_fill ((sample_record_env ''t1'')\<lparr>rc_now := ''t9'', rc_fresh := (\<lambda>n. ''u'')\<rparr>) (sample_record ''k1'' ''4'' ''9.5'' None) first_fill
     = Inr (r, first_fill)"
proof -
  obtain r where "record_fill (sample_record_env ''t1'') (sample_record ''k1'' ''4'' ''9.5'' None) bought_store = Inr (r, first_fill)"
    using recorded_ok_once [OF first_recorded] by (auto simp: first_fill_def)
  from recorded_fill_is_idempotent [OF this] show ?thesis by (simp add: same_printers_def sample_key)
qed

theorem every_bought_unit_has_a_lot_witness:
  "books_ok ''i1'' second_fill \<and> map fv_cumulative (broker_fills second_fill) = [''4'', ''10'']"
proof -
  have "books_ok ''i1'' bought_store"
    using sample_row by (simp add: books_ok_def) (simp add: bought_store_def sample_fill_store_def opened_lots_def filled_units_def buys_def sample_order_def dget_def lower_def)
  from every_bought_unit_has_a_lot [OF sample_booked this] show ?thesis using second_facts by simp
qed

theorem fill_deltas_add_up_witness:
  "\<exists>r' x'. get_intent ''i1'' second_fill = Inr r' \<and> fill_progress r' 10 x' \<and> delta_sum ''i1'' second_fill = x'"
proof -
  have t: "dec_text 4 = ''4'' \<and> dec_text 10 = ''10''" by code_simp
  have n: "nine_places 4" "nine_places 10" "nine_places 0"
    unfolding nine_places_def by (rule exI [of _ 4000000000], simp, rule exI [of _ 10000000000], simp, rule exI [of _ 0], simp)
  have "reported_places second_fill" unfolding reported_places_def
  proof
    fix f assume "f \<in> set (broker_fills second_fill)"
    then have "fv_cumulative f \<in> set [''4'', ''10'']" using second_facts by (metis image_eqI list.set_map)
    then show "\<exists>c. fv_cumulative f = dec_text c \<and> nine_places c" using n(1,2) t by (metis empty_iff empty_set set_ConsD)
  qed
  from fill_deltas_add_up [OF sample_calls this sample_row sample_progress n(3)]
  show ?thesis by (simp add: delta_sum_def bought_store_def sample_fill_store_def)
qed

definition cancelled_store :: fill_store where
  "cancelled_store = sample_fill_store (sample_order ''buy'' ''10'' ''cancelled'' (Some ''t0'')) no_milestones"

definition late_filled :: fill_store where
  "late_filled = fill_once (sample_record_env ''t1'') (sample_record ''k1'' ''4'' ''9.5'' None) cancelled_store"

theorem late_fill_stays_cancelled_witness:
  "\<exists>r. get_intent ''i1'' late_filled = Inr r \<and> oi_state r = ''cancelled'' \<and> fill_progress r 10 4 \<and> oi_terminal_at r = None"
proof -
  let ?env = "sample_record_env ''t1''" and ?a = "sample_record ''k1'' ''4'' ''9.5'' None" and ?r = "sample_order ''buy'' ''10'' ''cancelled'' (Some ''t0'')"
  have "recorded_ok ?env ?a cancelled_store" by code_simp
  from recorded_ok_once [OF this] obtain r' where r': "record_fill ?env ?a cancelled_store = Inr (r', late_filled)"
    by (auto simp: late_filled_def)
  have "map fv_key (broker_fills late_filled) = [''k1'']" by code_simp
  moreover have "broker_fills cancelled_store = []" by (simp add: cancelled_store_def sample_fill_store_def)
  ultimately have "late_filled \<noteq> cancelled_store" by (metis list.map(1) list.distinct(1))
  moreover have "get_intent ''i1'' cancelled_store = Inr ?r"
    by (simp add: cancelled_store_def sample_fill_store_def get_intent_def fetch_one_def sample_order_def)
  moreover have "fill_progress ?r 10 0" unfolding fill_progress_def by code_simp
  moreover have "(case read_figures ?a of Inr g \<Rightarrow> fg_cumulative g = 4 | _ \<Rightarrow> False)" by code_simp
  then obtain g where "read_figures ?a = Inr g" "fg_cumulative g = 4" by (auto split: sum.splits)
  ultimately have "get_intent ''i1'' late_filled = Inr r' \<and> oi_state r' = state_value CANCELLED \<and> fill_progress r' 10 4 \<and> oi_terminal_at r' = None"
    using late_fill_stays_cancelled [OF r', of ?r 10 0 g] by (simp add: sample_key sample_ids)
  then show ?thesis by (intro exI [of _ r']) simp
qed

text \<open>The evidence names order b1 and the argument b2: the intent gets b2, and the same call fails when it is repeated.\<close>

lemma order_argument_overrides_evidence:
  "case record_fill (sample_record_env ''t1'') (sample_record ''k1'' ''4'' ''9.5'' (Some ''b2'')) bought_store of
     Inl _ \<Rightarrow> False
   | Inr (r, s) \<Rightarrow> oi_broker_order r = Some ''b2'' \<and> map fe_order (broker_evidence s) = [''b1'']
       \<and> \<not> recorded_ok (sample_record_env ''t1'') (sample_record ''k1'' ''4'' ''9.5'' (Some ''b2'')) s"
  by code_simp

text \<open>A take-profit sale of 1000000000.000000001 units is filled completely. The milestone gets the quantity as a
  binary float and stays partially filled.\<close>

definition long_quantity :: string where
  "long_quantity = ''1000000000.000000001''"

definition long_tables :: milestone_tables where
  "long_tables = (case bind_take_profit_intent (sample_bind\<lparr>ba_intent := (ba_intent sample_bind)(''requested_quantity_decimal'' \<mapsto> PyStr long_quantity)\<rparr>)
     sample_tables of Inl _ \<Rightarrow> sample_tables | Inr (_, s) \<Rightarrow> s)"

lemma full_sale_leaves_milestone_partial:
  "(case read_figures (sample_record ''k1'' long_quantity ''9.5'' None) of
     Inl _ \<Rightarrow> False
   | Inr g \<Rightarrow> (case apply_take_profit_fill (milestone_fill (sample_record_env ''t1'') (sample_record ''k1'' long_quantity ''9.5'' None)
         (sample_order ''sell'' long_quantity ''submitted'' None) g (fg_cumulative g) (fg_price g)) long_tables of
       Inl _ \<Rightarrow> False
     | Inr m \<Rightarrow> map tm_target (tp_milestones m) = [PyStr long_quantity] \<and> map tm_filled (tp_milestones m) = [PyStr ''1000000000'']
         \<and> map tm_status (tp_milestones m) = [''partially_filled'']))"
  by code_simp

end
