(* ===== verification/Creation_Properties.thy ===== *)
theory Creation_Properties
  imports Intent_Creation Fill_Properties Approval_Recovery "HOL-Library.Multiset"
begin

text \<open>
  What the creation of intents guarantees together with the recording of fills and the state changes of orders: the
  rows of the three tables stay in step, one active order exists per symbol and side, a retried creation returns the
  intent of the first, a new intent comes with its reservation and the link of its approval workflow, its figures are
  within the display its approver has seen, and the reservations stay within the ceilings of the portfolio.
\<close>

section \<open>What a successful call has done\<close>

lemma create_cases:
  assumes "create_or_get_intent env t a ws s = Inr (r, ws', s')"
  obtains (existing) approval b w p m aa r0 where "creation_plan env t a = Inr (approval, b, w, p, m, aa)"
      "fetch_one (\<lambda>r. dget (oi_data r) ''logical_action_key'' = PyStr (it_key w)) (order_intents s) = Some r0"
      "return_existing (ce_now env) (be_snapshot b) approval r0 s = Inr (r, s')" "ws' = ws"
  | (new) approval b w p p' m aa n where "creation_plan env t a = Inr (approval, b, w, p, m, aa)"
      "fetch_one (\<lambda>r. dget (oi_data r) ''logical_action_key'' = PyStr (it_key w)) (order_intents s) = None"
      "check_approval t approval p ws = Inr p'" "check_conflict w (order_intents s) = Inr ()"
      "check_winner t w p' (ra_incremental m) = Inr ()" "check_limits t w p' (be_limits b) m s = Inr ()"
      "check_sleeve env a (be_config b) w p' (limits_of b) m s = Inr n"
      "write_intent env a approval w p' (m\<lparr>ra_incremental := n\<rparr>) aa ws s = Inr (ws', s')" "get_intent (ce_intent env) s' = Inr r"
proof -
  obtain approval b w p m aa where plan: "creation_plan env t a = Inr (approval, b, w, p, m, aa)"
    using assms by (auto simp: create_or_get_intent_def result_simps)
  show thesis
  proof (cases "fetch_one (\<lambda>r. dget (oi_data r) ''logical_action_key'' = PyStr (it_key w)) (order_intents s)")
    case None
    then show thesis using assms plan
      by (auto simp: create_or_get_intent_def create_intent_def result_simps intro: new)
  next
    case (Some r0)
    then show thesis using assms plan by (auto simp: create_or_get_intent_def result_simps intro: existing)
  qed
qed

text \<open>The rows that a creation appends.\<close>

definition appends ::
  "order_intent \<Rightarrow> reservation \<Rightarrow> order_event \<Rightarrow> order_row \<Rightarrow> milestone_tables \<Rightarrow> (milestone_tables, 'z) durable_store_scheme
    \<Rightarrow> (milestone_tables, 'z) durable_store_scheme" where
  "appends r x e d ms s = s\<lparr>order_intents := order_intents s @ [r], risk_reservations := risk_reservations s @ [x],
     order_events := order_events s @ [e],
     orders := (if list_ex (\<lambda>y. or_client y = or_client d) (orders s) then orders s else orders s @ [d]), milestones := ms\<rparr>"

lemma write_intent_result:
  assumes "write_intent env a approval w p m aa ws s = Inr (ws', s')"
  shows "\<exists>cl equity notional ms.
    let r = new_intent env approval (intent_columns env a w p m aa cl); x = new_reservation env w p m cl equity;
        d = new_order env a w p notional
    in s' = appends r x (creation_event env (cr_source_type a)) d ms s \<and> insert_intent r s = Inr (s\<lparr>order_intents := order_intents s @ [r]\<rparr>)
      \<and> (list_ex (\<lambda>y. or_client y = or_client d) (orders s) \<or> (\<forall>y\<in>set (orders s). or_id y \<noteq> or_id d))
      \<and> link_approval env approval ws = Inr ws'"
proof -
  from assms obtain cl s1 equity s2 s3 notional s4 ms where
    1: "insert_intent (new_intent env approval (intent_columns env a w p m aa cl)) s = Inr s1" and
    2: "insert_reservation (new_reservation env w p m cl equity) s1 = Inr s2" and
    3: "insert_order_event (creation_event env (cr_source_type a)) s2 = Inr s3" and
    4: "insert_order (new_order env a w p notional) s3 = Inr s4" and
    5: "link_approval env approval ws = Inr ws'" "s' = s4\<lparr>milestones := ms\<rparr>"
    by (auto simp: write_intent_def Let_def result_simps)
  have s1: "s1 = s\<lparr>order_intents := order_intents s @ [new_intent env approval (intent_columns env a w p m aa cl)]\<rparr>"
    using 1 by (auto simp: insert_intent_def split: if_splits)
  have s2: "s2 = s1\<lparr>risk_reservations := risk_reservations s1 @ [new_reservation env w p m cl equity]\<rparr>"
    using 2 by (auto simp: insert_reservation_def split: if_splits)
  have s3: "s3 = s2\<lparr>order_events := order_events s2 @ [creation_event env (cr_source_type a)]\<rparr>"
    using 3 by (simp add: insert_order_event_Inr)
  have o3: "orders s3 = orders s" by (simp add: s1 s2 s3)
  have s4: "s4 = s3\<lparr>orders := (if list_ex (\<lambda>y. or_client y = or_client (new_order env a w p notional)) (orders s) then orders s
       else orders s @ [new_order env a w p notional])\<rparr>"
    "list_ex (\<lambda>y. or_client y = or_client (new_order env a w p notional)) (orders s)
     \<or> (\<forall>y\<in>set (orders s). or_id y \<noteq> or_id (new_order env a w p notional))"
  proof -
    show "s4 = s3\<lparr>orders := (if list_ex (\<lambda>y. or_client y = or_client (new_order env a w p notional)) (orders s) then orders s
       else orders s @ [new_order env a w p notional])\<rparr>"
      using 4 by (cases "list_ex (\<lambda>y. or_client y = or_client (new_order env a w p notional)) (orders s)")
        (auto simp: insert_order_def o3 split: if_splits simp flip: o3)
    show "list_ex (\<lambda>y. or_client y = or_client (new_order env a w p notional)) (orders s)
     \<or> (\<forall>y\<in>set (orders s). or_id y \<noteq> or_id (new_order env a w p notional))"
      using 4 by (auto simp: insert_order_def o3 list_ex_iff split: if_splits)
  qed
  show ?thesis unfolding Let_def
    by (rule exI [of _ cl], rule exI [of _ equity], rule exI [of _ notional], rule exI [of _ ms])
      (use 1 5 s4(2) in \<open>simp add: appends_def s1 s2 s3 s4(1)\<close>)
qed

section \<open>The keys of the rows\<close>

definition intent_key :: "order_intent \<Rightarrow> string \<times> pyval \<times> pyval \<times> pyval \<times> pyval \<times> int" where
  "intent_key r = (oi_id r, dget (oi_data r) ''logical_action_key'', dget (oi_data r) ''client_order_id'',
     dget (oi_data r) ''symbol'', dget (oi_data r) ''side'', oi_broker_invoked r)"

definition order_key :: "order_row \<Rightarrow> string \<times> string" where
  "order_key d = (or_id d, or_client d)"

lemma intent_key_move [simp]: "intent_key (move_intent now a q r) = intent_key r"
  by (simp add: intent_key_def move_intent_def)

lemma intent_key_fill [simp]: "intent_key (fill_intent now b q c v h n r) = intent_key r"
  by (simp add: intent_key_def fill_intent_data) (simp add: fill_intent_def)

lemma intent_key_count [simp]: "intent_key (count_transition now n r) = intent_key r"
  by (simp add: intent_key_def count_transition_def)

lemma intent_key_broker [simp]: "intent_key (r\<lparr>oi_broker_order := b, oi_updated := now\<rparr>) = intent_key r"
  by (simp add: intent_key_def)

lemma intent_key_adopted [simp]: "intent_key (adopted_row now d x r) = intent_key r"
  by (simp add: intent_key_def adopted_row_def)

lemma intent_key_rebind [simp]: "intent_key (rebind_snapshot now i r) = intent_key r"
  by (simp add: intent_key_def rebind_snapshot_def)

lemma reserve_fill_intent [simp]: "rr_intent (reserve_fill now c n k x) = rr_intent x"
  by (simp add: reserve_fill_def)

lemma release_reservation_intent [simp]: "rr_intent (release_reservation now why x) = rr_intent x"
  by (simp add: release_reservation_def)

definition row_keys where
  "row_keys s = (map intent_key (order_intents s), map rr_intent (risk_reservations s), map order_key (orders s))"

lemma map_update_keys:
  "(\<And>r. g (f r) = g r) \<Longrightarrow> map g (update_where p f rs) = map g rs"
  by (rule map_update_where)

lemma write_transition_keys: "write_transition env a r q t s = Inr s' \<Longrightarrow> row_keys s' = row_keys s"
  by (auto simp: write_transition_def Let_def result_simps row_keys_def order_key_def map_update_keys split: if_splits)

lemma intent_transition_keys: "intent_transition env i target a s = Inr (r, s') \<Longrightarrow> row_keys s' = row_keys s"
  by (auto simp: intent_transition_def result_simps write_transition_keys split: if_splits)

lemma fill_steps_keys:
  "insert_fill_event f s1 = Inr s2 \<Longrightarrow> row_keys s2 = row_keys s1"
  "account_fill env a r g d v s1 = Inr s2 \<Longrightarrow> row_keys s2 = row_keys s1"
  "update_reservation now i q l y c s1 = Inr s2 \<Longrightarrow> row_keys s2 = row_keys s1"
  "insert_order_event e s1 = Inr s2 \<Longrightarrow> row_keys s2 = row_keys s1"
  "row_keys (adopt_broker_order now b r s1) = row_keys s1"
  "row_keys (move_order now i o' q s1) = row_keys s1"
  "row_keys (write_aggregate env a r q c v h s1) = row_keys s1"
  using update_reservation_Inr [of now i q l y c s1 s2]
  by (auto simp: row_keys_def insert_fill_event_Inr account_fill_Inr insert_order_event_Inr adopt_intents adopt_broker_order_def
      order_key_def map_update_keys move_order_def write_aggregate_def Let_def)

lemma row_keys_update_intents:
  "(\<And>x. intent_key (f x) = intent_key x) \<Longrightarrow> row_keys (s\<lparr>order_intents := update_where p f (order_intents s)\<rparr>) = row_keys s"
  by (simp add: row_keys_def map_update_keys)

lemma rbindE: "rbind x f = Inr y \<Longrightarrow> (\<And>z. x = Inr z \<Longrightarrow> f z = Inr y \<Longrightarrow> P) \<Longrightarrow> P"
  by (auto simp: result_simps)

lemma advance_order_keys:
  assumes "advance_order env a r g e q v s = Inr s'"
  shows "row_keys s' = row_keys s"
proof -
  let ?delta = "max 0 (dsub (fg_cumulative g) v)"
  obtain prior_avg where avg: "prior_average r = Inr prior_avg"
    using assms by (auto simp: advance_order_def Let_def result_simps split: if_splits)
  obtain price average where pa: "fill_prices (rf_average a) (fg_cumulative g) (fg_price g) v prior_avg ?delta = (price, average)"
    by fastforce
  note body = assms [unfolded advance_order_def Let_def avg pa rbind_Inr prod.case]
  have nz: "\<not> (?delta = 0 \<and> (fg_fees g \<noteq> 0 \<or> fg_adjustments g \<noteq> 0))" using body by (auto split: if_splits)
  show ?thesis using body unfolding if_not_P [OF nz]
    by (elim rbindE) (drule fill_steps_keys(1), drule fill_steps_keys(2), drule fill_steps_keys(3), drule fill_steps_keys(4),
      auto simp: fill_steps_keys(6,7) row_keys_update_intents)
qed

lemma retain_quantity_keys: "retain_quantity env a r g e v s = Inr s' \<Longrightarrow> row_keys s' = row_keys s"
  using retain_quantity_result [of env a r g e v s s'] by (auto simp: row_keys_def map_update_keys)

lemma record_fill_keys:
  assumes "record_fill env a s = Inr (r, s')"
  shows "row_keys s' = row_keys s"
  using assms
proof (cases rule: record_fill_cases)
  case (retained g r requested e s1 previous)
  have "row_keys s1 = row_keys s" using bind_evidence_Some [OF retained(5), THEN conjunct1] by (simp add: row_keys_def)
  then show ?thesis using retain_quantity_keys [OF retained(10)] by (simp add: fill_steps_keys(5))
next
  case (advanced g r requested e s1 previous)
  have "row_keys s1 = row_keys s" using bind_evidence_Some [OF advanced(5), THEN conjunct1] by (simp add: row_keys_def)
  then show ?thesis using advance_order_keys [OF advanced(10)] by (simp add: fill_steps_keys(5))
qed simp

section \<open>Calls on the order book\<close>

text \<open>Creations, fills and state changes in any order; what becomes of the approval workflows between two calls is left open.\<close>

inductive system_call :: "fill_store \<times> workflow list \<Rightarrow> fill_store \<times> workflow list \<Rightarrow> bool" where
  created: "create_or_get_intent env t a ws s = Inr (r, ws', s') \<Longrightarrow> system_call (s, ws) (s', ws')"
| executed: "fill_call s s' \<Longrightarrow> system_call (s, ws) (s', ws)"
| approved: "system_call (s, ws) (s, ws')"

text \<open>Each intent has its own id, action key and client order id, one reservation and one order row.\<close>

definition keys_ok :: "(string \<times> pyval \<times> pyval \<times> pyval \<times> pyval \<times> int) list \<times> string list \<times> (string \<times> string) list \<Rightarrow> bool" where
  "keys_ok k = (case k of (is, rs, os) \<Rightarrow> distinct (map fst is) \<and> distinct (map (fst \<circ> snd) is) \<and> distinct (map (fst \<circ> snd \<circ> snd) is)
     \<and> rs = map fst is \<and> map (\<lambda>(i, c). (i, PyStr c)) os = map (\<lambda>(i, a, c, q). (i, c)) is)"

definition active_order :: "order_intent \<Rightarrow> bool" where
  "active_order r \<longleftrightarrow> oi_state r \<notin> set terminal_values"

definition order_side :: "order_intent \<Rightarrow> pyval \<times> pyval" where
  "order_side r = (dget (oi_data r) ''symbol'', dget (oi_data r) ''side'')"

definition states_ok :: "order_intent list \<Rightarrow> bool" where
  "states_ok rs \<longleftrightarrow> (\<forall>r\<in>set rs. \<exists>q. oi_state r = state_value q) \<and> distinct (map order_side (filter active_order rs))"

definition order_book_ok :: "('m, 'z) durable_store_scheme \<Rightarrow> bool" where
  "order_book_ok s \<longleftrightarrow> keys_ok (row_keys s) \<and> states_ok (order_intents s)"

lemma keys_ids: "keys_ok (row_keys s) \<Longrightarrow> distinct (map oi_id (order_intents s))"
  by (simp add: keys_ok_def row_keys_def intent_key_def comp_def)

lemma fill_call_keys: "fill_call s s' \<Longrightarrow> row_keys s' = row_keys s"
  by (induction rule: fill_call.induct) (auto intro: record_fill_keys intent_transition_keys)

text \<open>A row that keeps its side and cannot become active again keeps the sides of the active rows distinct.\<close>

definition settles :: "order_intent \<Rightarrow> order_intent \<Rightarrow> bool" where
  "settles r r' \<longleftrightarrow> order_side r' = order_side r \<and> (active_order r' \<longrightarrow> active_order r) \<and> (\<exists>q. oi_state r' = state_value q)"

lemma settles_sides:
  assumes "list_all2 settles rs rs'"
  shows "set (map order_side (filter active_order rs')) \<subseteq> set (map order_side (filter active_order rs))"
  using assms by (induction rule: list_all2_induct) (auto simp: settles_def)

lemma settles_ok:
  assumes "list_all2 settles rs rs'" and "states_ok rs"
  shows "states_ok rs'"
proof -
  have "distinct (map order_side (filter active_order rs'))"
    using assms(1) conjunct2 [OF assms(2) [unfolded states_ok_def]]
  proof (induction rule: list_all2_induct)
    case (Cons r rs r' rs')
    have "distinct (map order_side (filter active_order rs))" using Cons(4) by (cases "active_order r") simp_all
    then have d: "distinct (map order_side (filter active_order rs'))" by (rule Cons(3))
    show ?case
    proof (cases "active_order r'")
      case True
      then have "active_order r" "order_side r' = order_side r" using Cons(1) by (simp_all add: settles_def)
      then have "order_side r' \<notin> set (map order_side (filter active_order rs'))" using settles_sides [OF Cons(2)] Cons(4) by auto
      then show ?thesis using True d by simp
    qed (use d in simp)
  qed simp
  moreover have "\<forall>r\<in>set rs'. \<exists>q. oi_state r = state_value q"
    using assms(1) by (induction rule: list_all2_induct) (auto simp: settles_def)
  ultimately show ?thesis by (simp add: states_ok_def)
qed

lemma fetch_distinct:
  "distinct (map oi_id rs) \<Longrightarrow> r \<in> set rs \<Longrightarrow> fetch_one (\<lambda>x. oi_id x = oi_id r) rs = Some r"
  by (induction rs) (auto simp: fetch_one_def)

lemma get_row: "distinct (map oi_id (order_intents s)) \<Longrightarrow> r \<in> set (order_intents s) \<Longrightarrow> get_intent (oi_id r) s = Inr r"
  by (simp add: get_intent_def fetch_distinct)

lemma fill_call_settles:
  assumes c: "fill_call s s'" and ok: "order_book_ok s"
  shows "list_all2 settles (order_intents s) (order_intents s')"
proof -
  have keys: "map intent_key (order_intents s') = map intent_key (order_intents s)"
    using fill_call_keys [OF c] by (simp add: row_keys_def)
  have ids: "distinct (map oi_id (order_intents s))" "distinct (map oi_id (order_intents s'))"
    using keys_ids ok fill_call_keys [OF c] by (auto simp: order_book_ok_def intro: keys_ids)
  show ?thesis unfolding list_all2_conv_all_nth
  proof (intro conjI allI impI)
    show len: "length (order_intents s) = length (order_intents s')" using map_eq_imp_length_eq [OF keys] by simp
    fix n assume n: "n < length (order_intents s)"
    define r r' where "r = order_intents s ! n" and "r' = order_intents s' ! n"
    have k: "intent_key r' = intent_key r" using keys n len by (metis nth_map r_def r'_def)
    have "get_intent (oi_id r) s = Inr r" "get_intent (oi_id r) s' = Inr r'"
      using get_row [OF ids(1), of r] get_row [OF ids(2), of r'] k n len by (simp_all add: r_def r'_def intent_key_def)
    moreover obtain q where q: "oi_state r = state_value q"
      using ok nth_mem [OF n] by (auto simp: order_book_ok_def states_ok_def r_def simp del: nth_mem)
    ultimately obtain ts where run: "guarded_run order_allowed q ts" "oi_state r' = state_value (last (q # ts))"
      using fill_call_log [OF c] unfolding log_run_def by fastforce
    have "q \<in> set TERMINAL_STATES \<Longrightarrow> last (q # ts) = q"
      using om.final_last [OF _ run(1)] by (simp add: order_final_def)
    then show "settles (order_intents s ! n) (order_intents s' ! n)"
      using k q run(2) unfolding settles_def r_def [symmetric] r'_def [symmetric]
      by (auto simp: intent_key_def order_side_def active_order_def simp del: state_value.simps)
  qed
qed

lemma check_conflict_sides:
  assumes "check_conflict w rs = Inr ()" and "\<forall>r\<in>set rs. \<exists>q. oi_state r = state_value q"
  shows "(PyStr (it_symbol w), PyStr (it_side w)) \<notin> set (map order_side (filter active_order rs))"
proof
  assume "(PyStr (it_symbol w), PyStr (it_side w)) \<in> set (map order_side (filter active_order rs))"
  then obtain r where r: "r \<in> set rs" "active_order r" "order_side r = (PyStr (it_symbol w), PyStr (it_side w))" by auto
  obtain q where q: "oi_state r = state_value q" using assms(2) r(1) by blast
  have "q \<in> set CONFLICT_STATES" using r(2) q by (cases q) (simp_all only: active_order_def terminal_value TERMINAL_STATES_def CONFLICT_STATES_def, simp_all)
  then have "oi_state r \<in> set (map state_value CONFLICT_STATES)" using q by simp
  then show False using assms(1) r(1,3)
    by (auto simp: check_conflict_def order_side_def fetch_one_None split: option.splits)
qed

lemma new_intent_key [simp]:
  "intent_key (new_intent env approval (intent_columns env a w p m aa cl))
     = (ce_intent env, PyStr (it_key w), PyStr (it_client w), PyStr (it_symbol w), PyStr (it_side w), 0)"
  by (simp add: intent_key_def new_intent_def intent_columns_def Let_def)

lemma rebind_fields [simp]:
  "oi_id (rebind_snapshot n i r) = oi_id r" "oi_approval (rebind_snapshot n i r) = oi_approval r"
  "oi_state (rebind_snapshot n i r) = oi_state r"
  "k \<noteq> ''risk_snapshot_id'' \<Longrightarrow> dget (oi_data (rebind_snapshot n i r)) k = dget (oi_data r) k"
  by (simp_all add: rebind_snapshot_def)

lemma new_row_fields [simp]:
  "oi_id (new_intent env approval d) = ce_intent env" "oi_state (new_intent env approval d) = state_value RESERVED"
  "oi_approval (new_intent env approval d) = Some approval"
  "rr_intent (new_reservation env w p m cl equity) = ce_intent env" "rr_state (new_reservation env w p m cl equity) = ''active''"
  "rr_active_notional (new_reservation env w p m cl equity) = dec_text (ra_notional m)"
  "rr_active_risk (new_reservation env w p m cl equity) = dec_text (ra_stop_risk m)"
  "or_id (new_order env a w p n) = ce_intent env" "or_client (new_order env a w p n) = it_client w"
  by (simp_all add: new_intent_def new_reservation_def new_order_def Let_def)

text \<open>What a creation has written.\<close>

definition written ::
  "creation_env \<Rightarrow> creation_args \<Rightarrow> string \<Rightarrow> intent_terms \<Rightarrow> pydict \<Rightarrow> reserved_amounts \<Rightarrow> order_intent \<Rightarrow> reservation
    \<Rightarrow> (milestone_tables, 'z) durable_store_scheme \<Rightarrow> (milestone_tables, 'z) durable_store_scheme \<Rightarrow> bool" where
  "written env a approval w p m r x s s' \<longleftrightarrow>
     (\<exists>aa cl equity notional. r = new_intent env approval (intent_columns env a w p m aa cl)
      \<and> x = new_reservation env w p m cl equity
      \<and> order_intents s' = order_intents s @ [r] \<and> risk_reservations s' = risk_reservations s @ [x]
      \<and> order_events s' = order_events s @ [creation_event env (cr_source_type a)]
      \<and> orders s' = orders s @ [new_order env a w p notional])
      \<and> (\<forall>y\<in>set (order_intents s). oi_id y \<noteq> oi_id r \<and> dget (oi_data y) ''logical_action_key'' \<noteq> PyStr (it_key w)
         \<and> dget (oi_data y) ''client_order_id'' \<noteq> PyStr (it_client w))"

lemma write_intent_written:
  assumes wr: "write_intent env a approval w p m aa ws s = Inr (ws', s')" and ok: "keys_ok (row_keys s)"
  shows "\<exists>r x. written env a approval w p m r x s s' \<and> link_approval env approval ws = Inr ws'"
proof -
  obtain cl equity notional ms where
    s': "s' = appends (new_intent env approval (intent_columns env a w p m aa cl)) (new_reservation env w p m cl equity)
        (creation_event env (cr_source_type a)) (new_order env a w p notional) ms s" and
    ins: "insert_intent (new_intent env approval (intent_columns env a w p m aa cl)) s
      = Inr (s\<lparr>order_intents := order_intents s @ [new_intent env approval (intent_columns env a w p m aa cl)]\<rparr>)" and
    link: "link_approval env approval ws = Inr ws'"
    using write_intent_result [OF wr] unfolding Let_def by blast
  define r where "r = new_intent env approval (intent_columns env a w p m aa cl)"
  have k: "intent_key r = (ce_intent env, PyStr (it_key w), PyStr (it_client w), PyStr (it_symbol w), PyStr (it_side w), 0)"
    by (simp add: r_def)
  have fresh: "\<forall>y\<in>set (order_intents s). oi_id y \<noteq> oi_id r \<and> dget (oi_data y) ''logical_action_key'' \<noteq> PyStr (it_key w)
         \<and> dget (oi_data y) ''client_order_id'' \<noteq> PyStr (it_client w)"
    using ins k unfolding r_def [symmetric] by (auto simp: insert_intent_def list_ex_iff intent_key_def split: if_splits)
  have "\<not> list_ex (\<lambda>y. or_client y = it_client w) (orders s)"
  proof
    assume "list_ex (\<lambda>y. or_client y = it_client w) (orders s)"
    then obtain y where "y \<in> set (orders s)" "or_client y = it_client w" by (auto simp: list_ex_iff)
    then have "(or_id y, PyStr (it_client w)) \<in> set (map (\<lambda>(i, c). (i, PyStr c)) (map order_key (orders s)))"
      by (force simp: order_key_def)
    also have "map (\<lambda>(i, c). (i, PyStr c)) (map order_key (orders s)) = map (\<lambda>(i, a, c, q). (i, c)) (map intent_key (order_intents s))"
      using ok by (simp add: keys_ok_def row_keys_def)
    finally show False using fresh by (auto simp: intent_key_def)
  qed
  then have "written env a approval w p m r (new_reservation env w p m cl equity) s s'"
    unfolding written_def using fresh by (auto simp: s' appends_def r_def)
  then show ?thesis using link by blast
qed

lemma written_keys:
  "written env a approval w p m r x s s' \<Longrightarrow> row_keys s' = (map intent_key (order_intents s) @ [(ce_intent env, PyStr (it_key w),
     PyStr (it_client w), PyStr (it_symbol w), PyStr (it_side w), 0)], map rr_intent (risk_reservations s) @ [ce_intent env],
     map order_key (orders s) @ [(ce_intent env, it_client w)])"
  by (auto simp: written_def row_keys_def order_key_def)

lemma written_keys_ok:
  assumes "written env a approval w p m r x s s'" and "keys_ok (row_keys s)"
  shows "keys_ok (row_keys s')"
proof -
  have "oi_id r = ce_intent env" using assms(1) by (auto simp: written_def)
  then show ?thesis using assms
    unfolding written_keys [OF assms(1)] by (auto simp: keys_ok_def row_keys_def written_def intent_key_def)
qed

text \<open>A call returns the intent of its action, or creates it.\<close>

lemma create_effect:
  assumes "create_or_get_intent env t a ws s = Inr (r, ws', s')" and ok: "order_book_ok s"
  obtains (existing) approval b w p m aa where "creation_plan env t a = Inr (approval, b, w, p, m, aa)"
      "ws' = ws" "row_keys s' = row_keys s" "list_all2 settles (order_intents s) (order_intents s')"
      "dget (oi_data r) ''logical_action_key'' = PyStr (it_key w)" "\<exists>r0\<in>set (order_intents s). oi_id r0 = oi_id r
         \<and> dget (oi_data r0) ''logical_action_key'' = PyStr (it_key w)" "oi_approval r = Some approval \<or> oi_approval r = None \<and> approval = []"
      "risk_reservations s' = risk_reservations s"
  | (new) approval b w p p' m aa x n where "creation_plan env t a = Inr (approval, b, w, p, m, aa)"
      "check_approval t approval p ws = Inr p'" "check_conflict w (order_intents s) = Inr ()"
      "check_limits t w p' (be_limits b) m s = Inr ()" "written env a approval w p' (m\<lparr>ra_incremental := n\<rparr>) r x s s'"
      "link_approval env approval ws = Inr ws'" "states_ok (order_intents s')" "keys_ok (row_keys s')"
      "check_sleeve env a (be_config b) w p' (limits_of b) m s = Inr n"
  using assms(1)
proof (cases rule: create_cases)
  case (existing approval b w p m aa r0)
  note r0 = fetch_one_Some [OF existing(2)]
  have valid: "\<exists>q. oi_state x = state_value q" if "x \<in> set (order_intents s)" for x
    using ok that by (simp add: order_book_ok_def states_ok_def)
  have same: "settles x (if P then rebind_snapshot n i x else x)" if "x \<in> set (order_intents s)" for x P n i
    using valid [OF that] by (simp add: settles_def order_side_def active_order_def)
  have "list_all2 settles xs (update_where P (rebind_snapshot n i) xs)" if "set xs \<subseteq> set (order_intents s)" for P n i xs
    using that by (induction xs) (use same [where n = n and i = i] in \<open>force+\<close>)
  moreover have "list_all2 settles (order_intents s) (order_intents s)"
    using valid by (intro list_all2_same [THEN iffD2]) (simp add: settles_def)
  ultimately show thesis
    using existing r0 by (intro that(1) [OF existing(1)])
      (auto simp: return_existing_def row_keys_update_intents split: if_splits option.splits)
next
  case (new approval b w p p' m aa n)
  have kok: "keys_ok (row_keys s)" and sok: "states_ok (order_intents s)" using ok by (simp_all add: order_book_ok_def)
  obtain r' x where wr: "written env a approval w p' (m\<lparr>ra_incremental := n\<rparr>) r' x s s'" and link: "link_approval env approval ws = Inr ws'"
    using write_intent_written [OF new(8) kok] by blast
  have rows: "order_intents s' = order_intents s @ [r']" "oi_id r' = ce_intent env" "oi_state r' = state_value RESERVED"
    "intent_key r' = (ce_intent env, PyStr (it_key w), PyStr (it_client w), PyStr (it_symbol w), PyStr (it_side w), 0)"
    using wr by (auto simp: written_def)
  have kok': "keys_ok (row_keys s')" by (rule written_keys_ok [OF wr kok])
  have "get_intent (ce_intent env) s' = Inr r'"
    using get_row [OF keys_ids [OF kok'], of r'] rows by simp
  then have r': "r' = r" using new(9) by simp
  have side: "order_side r = (PyStr (it_symbol w), PyStr (it_side w))" using rows(4) r' by (simp add: intent_key_def order_side_def)
  have "states_ok (order_intents s')"
    using check_conflict_sides [OF new(4)] sok side rows(1,3) r' unfolding states_ok_def
    by (auto simp del: state_value.simps)
  then show thesis using that(2) [OF new(1,3,4,6) wr [unfolded r'] link] kok' new(7) by blast
qed

lemma system_call_ok: "system_call c c' \<Longrightarrow> order_book_ok (fst c) \<Longrightarrow> order_book_ok (fst c')"
proof (induction rule: system_call.induct)
  case (created env t a ws s r ws' s')
  have ok: "order_book_ok s" using created(2) by simp
  from created(1) ok show ?case
    by (cases rule: create_effect) (use ok in \<open>auto simp: order_book_ok_def intro: settles_ok\<close>)
next
  case (executed s s' ws)
  then show ?case using fill_call_keys settles_ok [OF fill_call_settles] by (simp add: order_book_ok_def)
qed simp

lemma system_calls_ok: "system_call\<^sup>*\<^sup>* c c' \<Longrightarrow> order_book_ok (fst c) \<Longrightarrow> order_book_ok (fst c')"
  by (induction rule: rtranclp_induct) (auto intro: system_call_ok)

section \<open>One active order\<close>

text \<open>C6: Under any sequence of creations, fills and state changes, at most one order that is not terminal exists for a symbol
  and a side: two active rows with the same symbol and side are the same intent.\<close>

theorem one_active_order_per_side:
  assumes "system_call\<^sup>*\<^sup>* (s, ws) (s', ws')" and "order_book_ok s"
    and "r \<in> set (order_intents s')" and "r' \<in> set (order_intents s')" and "active_order r" and "active_order r'"
    and "order_side r = order_side r'"
  shows "r = r'"
proof -
  have "distinct (map order_side (filter active_order (order_intents s')))"
    using system_calls_ok [OF assms(1)] assms(2) by (simp add: order_book_ok_def states_ok_def)
  then show ?thesis using assms(3-) by (auto simp: distinct_map inj_on_def)
qed

text \<open>C11: The tables stay well-formed under any sequence of creations, fills and state changes: the reservations and the order
  rows list the ids of the intents, in the same order, and no id, action key or client order id occurs twice.\<close>

theorem every_intent_is_reserved:
  assumes "system_call\<^sup>*\<^sup>* (s, ws) (s', ws')" and "order_book_ok s"
  shows "map rr_intent (risk_reservations s') = map oi_id (order_intents s') \<and> map or_id (orders s') = map oi_id (order_intents s')
    \<and> distinct (map oi_id (order_intents s')) \<and> distinct (map (\<lambda>r. dget (oi_data r) ''logical_action_key'') (order_intents s'))
    \<and> distinct (map or_client (orders s'))"
proof -
  have ok: "keys_ok (row_keys s')" using system_calls_ok [OF assms(1)] assms(2) by (simp add: order_book_ok_def)
  have eq: "map (\<lambda>d. (or_id d, PyStr (or_client d))) (orders s')
      = map (\<lambda>r. (oi_id r, dget (oi_data r) ''client_order_id'')) (order_intents s')"
    using ok by (simp add: keys_ok_def row_keys_def order_key_def intent_key_def comp_def)
  have "map or_id (orders s') = map oi_id (order_intents s')"
    using arg_cong [OF eq, of "map fst"] by (simp add: comp_def)
  moreover have "map (PyStr \<circ> or_client) (orders s') = map (\<lambda>r. dget (oi_data r) ''client_order_id'') (order_intents s')"
    using arg_cong [OF eq, of "map snd"] by (simp add: comp_def)
  then have "distinct (map PyStr (map or_client (orders s')))"
    using ok by (simp add: keys_ok_def row_keys_def intent_key_def comp_def)
  then have "distinct (map or_client (orders s'))" by (rule distinct_map [THEN iffD1, THEN conjunct1])
  ultimately show ?thesis using ok by (simp add: keys_ok_def row_keys_def intent_key_def comp_def)
qed

section \<open>Retries\<close>

definition requested_action :: "creation_env \<Rightarrow> creation_tables \<Rightarrow> creation_args \<Rightarrow> string res" where
  "requested_action env t a = rbind (creation_plan env t a) (\<lambda>(approval, b, w, p, m, aa). Inr (it_key w))"

lemma system_call_keeps:
  "system_call c c' \<Longrightarrow> order_book_ok (fst c) \<Longrightarrow> intent_key ` set (order_intents (fst c)) \<subseteq> intent_key ` set (order_intents (fst c'))"
proof (induction rule: system_call.induct)
  case (created env t a ws s r ws' s')
  have ok: "order_book_ok s" using created(2) by simp
  from created(1) ok show ?case
  proof (cases rule: create_effect)
    case existing
    then have "map intent_key (order_intents s') = map intent_key (order_intents s)" by (simp add: row_keys_def)
    then show ?thesis by (metis fst_conv image_set order_refl)
  next
    case new
    then show ?thesis by (auto simp: written_def)
  qed
next
  case (executed s s' ws)
  then have "map intent_key (order_intents s') = map intent_key (order_intents s)"
    using fill_call_keys [OF executed(1)] by (simp add: row_keys_def)
  then show ?case by (metis fst_conv image_set order_refl)
qed simp

lemma system_calls_keep:
  "system_call\<^sup>*\<^sup>* c c' \<Longrightarrow> order_book_ok (fst c) \<Longrightarrow> intent_key ` set (order_intents (fst c)) \<subseteq> intent_key ` set (order_intents (fst c'))"
  by (induction rule: rtranclp_induct) (use system_call_keeps system_calls_ok in \<open>blast+\<close>)

definition has_action :: "string \<Rightarrow> string \<Rightarrow> ('m, 'z) durable_store_scheme \<Rightarrow> bool" where
  "has_action i k s \<longleftrightarrow> (\<exists>x\<in>set (order_intents s). oi_id x = i \<and> dget (oi_data x) ''logical_action_key'' = PyStr k)"

lemma has_action_key:
  "has_action i k s \<longleftrightarrow> (\<exists>q\<in>intent_key ` set (order_intents s). fst q = i \<and> fst (snd q) = PyStr k)"
  by (simp add: has_action_def intent_key_def)

lemma has_action_unique:
  assumes "keys_ok (row_keys s)" and "has_action i k s" and "has_action j k s"
  shows "i = j"
proof -
  have "distinct (map (\<lambda>r. dget (oi_data r) ''logical_action_key'') (order_intents s))"
    using assms(1) by (simp add: keys_ok_def row_keys_def intent_key_def comp_def)
  then have inj: "inj_on (\<lambda>r. dget (oi_data r) ''logical_action_key'') (set (order_intents s))" by (simp only: distinct_map)
  obtain x y where x: "x \<in> set (order_intents s)" "oi_id x = i" "dget (oi_data x) ''logical_action_key'' = PyStr k"
    and y: "y \<in> set (order_intents s)" "oi_id y = j" "dget (oi_data y) ''logical_action_key'' = PyStr k"
    using assms(2,3) unfolding has_action_def by blast
  have "x = y" by (rule inj_onD [OF inj _ x(1) y(1)]) (simp only: x(3) y(3))
  then show ?thesis using x(2) y(2) by simp
qed

lemma has_action_mono:
  "intent_key ` set (order_intents s) \<subseteq> intent_key ` set (order_intents s') \<Longrightarrow> has_action i k s \<Longrightarrow> has_action i k s'"
  unfolding has_action_key by blast

lemma created_action:
  assumes "create_or_get_intent env t a ws s = Inr (r, ws', s')" and "order_book_ok s"
  obtains k where "requested_action env t a = Inr k" "has_action (oi_id r) k s'"
  using assms
proof (cases rule: create_effect)
  case (existing approval b w p m aa)
  have "has_action (oi_id r) (it_key w) s" using existing(6) by (auto simp: has_action_def)
  moreover have "map intent_key (order_intents s') = map intent_key (order_intents s)" using existing(3) by (simp add: row_keys_def)
  then have "intent_key ` set (order_intents s) = intent_key ` set (order_intents s')" by (metis image_set)
  ultimately show ?thesis using that [of "it_key w"] existing(1) has_action_mono [of s s'] by (auto simp: requested_action_def)
next
  case (new approval b w p p' m aa x n)
  then show ?thesis using that [of "it_key w"]
    by (auto simp: requested_action_def has_action_def written_def new_intent_def intent_columns_def Let_def)
qed

text \<open>C9: A retried creation is idempotent: whatever creations, fills and state changes come between, a second call for the same
  logical action returns the intent of the first, with no new intent, no change of a reservation and no workflow consumed.\<close>

theorem retried_creation_returns_the_intent:
  assumes first: "create_or_get_intent env t a ws s = Inr (r, ws1, s1)" and ok: "order_book_ok s"
    and between: "system_call\<^sup>*\<^sup>* (s1, ws1) (s2, ws2)"
    and second: "create_or_get_intent env' t' a' ws2 s2 = Inr (r', ws3, s3)"
    and same: "requested_action env' t' a' = requested_action env t a"
  shows "oi_id r' = oi_id r \<and> map oi_id (order_intents s3) = map oi_id (order_intents s2)
    \<and> risk_reservations s3 = risk_reservations s2 \<and> ws3 = ws2"
proof -
  have ok1: "order_book_ok s1" using system_call_ok [OF system_call.created [OF first]] ok by simp
  have ok2: "order_book_ok s2" using system_calls_ok [OF between] ok1 by simp
  obtain k where k: "requested_action env t a = Inr k" "has_action (oi_id r) k s1" using created_action [OF first ok] .
  have have2: "has_action (oi_id r) k s2" using has_action_mono system_calls_keep [OF between] ok1 k(2) by fastforce
  from second ok2 show ?thesis
  proof (cases rule: create_effect)
    case (existing approval b w p m aa)
    have "has_action (oi_id r') k s2" using existing(1,6) same k(1) by (auto simp: requested_action_def has_action_def)
    then have "oi_id r' = oi_id r" using has_action_unique have2 ok2 by (auto simp: order_book_ok_def)
    moreover have "map oi_id (order_intents s3) = map oi_id (order_intents s2)"
      using arg_cong [OF existing(3), of "map fst \<circ> fst"] by (simp add: row_keys_def intent_key_def comp_def)
    ultimately show ?thesis using existing by simp
  next
    case (new approval b w p p' m aa x n)
    have "it_key w = k" using new(1) same k(1) by (simp add: requested_action_def)
    then show ?thesis using have2 new(5) by (auto simp: has_action_def written_def)
  qed
qed

section \<open>What a creation links\<close>

lemma one_where:
  "count_where q rs = 1 \<Longrightarrow> \<exists>pre r post. rs = pre @ r # post \<and> q r \<and> update_where q f rs = pre @ f r # post"
proof (induction rs)
  case (Cons r rs)
  show ?case
  proof (cases "q r")
    case True
    then have "\<forall>x\<in>set rs. \<not> q x" using Cons.prems by (simp add: count_where_0_iff)
    then have "update_where q f rs = rs" by (induction rs) auto
    then show ?thesis using True by (intro exI [of _ "[]"] exI [of _ r] exI [of _ rs]) simp
  next
    case False
    then obtain pre x post where "rs = pre @ x # post" "q x" "update_where q f rs = pre @ f x # post" using Cons by auto
    then show ?thesis using False by (intro exI [of _ "r # pre"] exI [of _ x] exI [of _ post]) simp
  qed
qed simp

text \<open>C10: A new intent comes into being reserved and linked: its row is appended in the reserved state under its approval, with an
  active reservation of exactly the planned notional and stop risk and the first entry of its log; exactly the workflow of
  its approval moves, from waiting for an intent to an intent created, and the other rows of the three tables stay.\<close>

theorem created_intent_is_reserved_and_linked:
  assumes "create_or_get_intent env t a ws s = Inr (r, ws', s')" and "order_book_ok s"
    and "\<not> (\<exists>x\<in>set (order_intents s). oi_id x = oi_id r)"
  shows "\<exists>approval b w p m aa x e pre v post. creation_plan env t a = Inr (approval, b, w, p, m, aa)
    \<and> order_intents s' = order_intents s @ [r] \<and> oi_state r = state_value RESERVED \<and> oi_approval r = Some approval
    \<and> risk_reservations s' = risk_reservations s @ [x] \<and> rr_intent x = oi_id r \<and> rr_state x = ''active''
    \<and> rr_active_notional x = dec_text (ra_notional m) \<and> rr_active_risk x = dec_text (ra_stop_risk m)
    \<and> order_events s' = order_events s @ [e] \<and> oe_intent e = oi_id r \<and> oe_from e = None \<and> oe_to e = state_value RESERVED
    \<and> ws = pre @ v # post \<and> wf_approval v = approval \<and> wf_state v = APPROVED_PENDING_INTENT \<and> wf_intent v = None
    \<and> ws' = pre @ v\<lparr>wf_intent := Some (oi_id r), wf_state := INTENT_CREATED, wf_updated := ce_now env, wf_version := wf_version v + 1\<rparr> # post"
  using assms(1,2)
proof (cases rule: create_effect)
  case (existing approval b w p m aa)
  then show ?thesis using assms(3) by blast
next
  case (new approval b w p p' m aa x n)
  have one: "count_where (awaits_intent approval) ws = 1" and ws': "ws' = update_where (awaits_intent approval) (link_workflow (ce_intent env) (ce_now env)) ws"
    using new(6) by (auto simp: link_approval_def split: if_splits)
  obtain pre v post where v: "ws = pre @ v # post" "awaits_intent approval v" "ws' = pre @ link_workflow (ce_intent env) (ce_now env) v # post"
    using one_where [OF one] ws' by metis
  have x: "rr_intent x = oi_id r" "rr_state x = ''active''" "rr_active_notional x = dec_text (ra_notional m)"
    "rr_active_risk x = dec_text (ra_stop_risk m)" "order_intents s' = order_intents s @ [r]" "oi_state r = state_value RESERVED"
    "oi_approval r = Some approval" "risk_reservations s' = risk_reservations s @ [x]" "oi_id r = ce_intent env"
    "order_events s' = order_events s @ [creation_event env (cr_source_type a)]"
    using new(5) by (auto simp: written_def)
  show ?thesis
    by (rule exI [of _ approval], rule exI [of _ b], rule exI [of _ w], rule exI [of _ p], rule exI [of _ m], rule exI [of _ aa],
        rule exI [of _ x], rule exI [of _ "creation_event env (cr_source_type a)"], rule exI [of _ pre], rule exI [of _ v], rule exI [of _ post])
      (use new(1) x v in \<open>simp add: creation_event_def awaits_intent_def link_workflow_def del: state_value.simps\<close>)
qed

section \<open>Exact sums of the active reservations\<close>

definition held :: "(reservation \<Rightarrow> bool) \<Rightarrow> (reservation \<Rightarrow> string) \<Rightarrow> reservation list \<Rightarrow> rat" where
  "held P f rs = sum_list (map (\<lambda>x. text_amount (f x)) (filter (\<lambda>x. rr_state x = ''active'' \<and> P x) rs))"

definition exact_amounts :: "reservation \<Rightarrow> bool" where
  "exact_amounts x \<longleftrightarrow> (\<exists>n k. rr_active_notional x = dec_text n \<and> rr_active_risk x = dec_text k \<and> nine_places n \<and> nine_places k)"

lemma nine_places_nonneg: "nine_places x \<Longrightarrow> 0 \<le> x"
  by (auto simp: nine_places_def)

lemma nine_places_dec28: "nine_places x \<Longrightarrow> dec28 x"
  unfolding nine_places_def using dec28I by blast

lemma nine_places_add:
  assumes "nine_places x" and "nine_places y" and "x + y \<le> t" and "nine_places t"
  shows "nine_places (x + y)"
proof -
  obtain c d e where c: "x = of_int c * 10 powi (-9)" "0 \<le> c" and d: "y = of_int d * 10 powi (-9)" "0 \<le> d"
    and e: "t = of_int e * 10 powi (-9)" "\<bar>e\<bar> < 10 ^ 28"
    using assms by (auto simp: nine_places_def)
  have eq: "x + y = of_int (c + d) * 10 powi (-9)" by (simp add: c d algebra_simps)
  have "of_int (c + d) * (10 powi (-9) :: rat) \<le> of_int e * 10 powi (-9)" using assms(3) unfolding eq e(1) .
  then have "(of_int (c + d) :: rat) \<le> of_int e" by (rule mult_right_le_imp_le) simp
  then have "c + d \<le> e" by (simp only: of_int_le_iff)
  then have "\<bar>c + d\<bar> < 10 ^ 28" "0 \<le> c + d" using c d e(2) by auto
  then show ?thesis unfolding nine_places_def using eq by blast
qed

lemma nine_places_dadd: "nine_places x \<Longrightarrow> nine_places y \<Longrightarrow> x + y \<le> t \<Longrightarrow> nine_places t \<Longrightarrow> dadd x y = x + y"
  using nine_places_add nine_places_dec28 dadd_exact by blast

lemma nine_places_fold:
  assumes "\<forall>x\<in>set xs. nine_places x" and "nine_places a" and "a + sum_list xs \<le> t" and "nine_places t"
  shows "foldl dadd a xs = a + sum_list xs"
  using assms
proof (induction xs arbitrary: a)
  case (Cons x xs)
  have "0 \<le> sum_list xs" using Cons.prems(1) nine_places_nonneg by (intro sum_list_nonneg) auto
  then have le: "a + x \<le> t" using Cons.prems(3) by simp
  have "nine_places (a + x)" using nine_places_add Cons.prems le by auto
  moreover have "dadd a x = a + x" using nine_places_dadd Cons.prems le by auto
  ultimately show ?case using Cons.IH [of "a + x"] Cons.prems by (simp add: algebra_simps)
qed simp

definition column_sum :: "(reservation \<Rightarrow> bool) \<Rightarrow> (reservation \<Rightarrow> string) \<Rightarrow> reservation list \<Rightarrow> rat \<Rightarrow> rat" where
  "column_sum P f rs a = foldl dadd a (map (\<lambda>x. text_amount (f x)) (filter P rs))"

lemma exact_reservation_dec:
  "is_decimal x \<Longrightarrow> 0 \<le> x \<Longrightarrow> exact_reservation c (dec_text x) v = Inr x"
  using exact_column_dec [of x "[]"] dec_text_nonempty [of x]
  by (simp add: exact_reservation_def decimal_or_def decimal_value_def dec_column_def strip_dec_text parse_dec_text rbind_def)

definition on_symbol :: "string \<Rightarrow> reservation \<Rightarrow> bool" where
  "on_symbol symbol x \<longleftrightarrow> upper (or_str [dget (rr_data x) ''symbol'']) = symbol"

definition in_cluster :: "pyval \<Rightarrow> reservation \<Rightarrow> bool" where
  "in_cluster cluster x \<longleftrightarrow> truthy cluster \<and> or_str [dget (rr_data x) ''cluster_name''] = py_str cluster"

definition written_amounts :: "reservation \<Rightarrow> bool" where
  "written_amounts x \<longleftrightarrow> (\<exists>n k. rr_active_notional x = dec_text n \<and> rr_active_risk x = dec_text k \<and> is_decimal n \<and> is_decimal k \<and> 0 \<le> n \<and> 0 \<le> k)"

lemma exact_written: "exact_amounts x \<Longrightarrow> written_amounts x"
  unfolding exact_amounts_def written_amounts_def using nine_places_is_decimal nine_places_nonneg by blast

lemma text_amount_dec: "is_decimal x \<Longrightarrow> text_amount (dec_text x) = x"
  by (simp add: text_amount_def parse_dec_text)

lemma written_reservation_amounts:
  "written_amounts x \<Longrightarrow> reservation_amounts x = Inr (text_amount (rr_active_notional x), text_amount (rr_active_risk x))"
  by (auto simp: written_amounts_def reservation_amounts_def exact_reservation_dec text_amount_dec)

lemma written_nonneg: "written_amounts x \<Longrightarrow> f = rr_active_notional \<or> f = rr_active_risk \<Longrightarrow> 0 \<le> text_amount (f x)"
  by (auto simp: written_amounts_def text_amount_dec)

lemma total_exposure_sums:
  "total_exposure symbol cluster rs e = Inr e' \<Longrightarrow> \<forall>x\<in>set rs. written_amounts x \<Longrightarrow>
    ex_notional e' = column_sum (\<lambda>x. True) rr_active_notional rs (ex_notional e)
    \<and> ex_risk e' = column_sum (\<lambda>x. True) rr_active_risk rs (ex_risk e)
    \<and> ex_symbol e' = column_sum (on_symbol symbol) rr_active_notional rs (ex_symbol e)
    \<and> ex_cluster e' = column_sum (in_cluster cluster) rr_active_notional rs (ex_cluster e)"
proof (induction rs arbitrary: e)
  case (Cons x rs)
  have "total_exposure symbol cluster rs (add_exposure symbol cluster x (text_amount (rr_active_notional x)) (text_amount (rr_active_risk x)) e) = Inr e'"
    using Cons.prems by (simp add: written_reservation_amounts)
  from Cons.IH [OF this] Cons.prems(2) show ?case
    by (simp add: column_sum_def add_exposure_def on_symbol_def in_cluster_def)
qed (simp add: column_sum_def)

text \<open>The exact sum, whatever the order of the rows.\<close>

lemma active_amounts:
  "mset (map (\<lambda>x. text_amount (f x)) (filter P (active_reservations rs)))
    = mset (map (\<lambda>x. text_amount (f x)) (filter (\<lambda>x. rr_state x = ''active'' \<and> P x) rs))"
  by (simp add: active_reservations_def filter_filter_mset conj_commute)

lemma active_sum: "sum_list (map (\<lambda>x. text_amount (f x)) (filter P (active_reservations rs))) = held P f rs"
  using arg_cong [OF active_amounts [of f P rs], of sum_mset] by (simp only: sum_mset_sum_list held_def)

lemma active_length: "length (filter P (active_reservations rs)) \<le> length rs"
proof -
  have "length (filter P (active_reservations rs)) = length (filter (\<lambda>x. rr_state x = ''active'' \<and> P x) rs)"
    using mset_eq_length [OF active_amounts [of rr_active_risk P rs]] by simp
  then show ?thesis by simp
qed

lemma column_sum_lower:
  assumes "\<forall>x\<in>set rs. rr_state x = ''active'' \<longrightarrow> written_amounts x" and "f = rr_active_notional \<or> f = rr_active_risk"
  shows "held P f rs * kept ^ length rs \<le> column_sum P f (active_reservations rs) 0 \<and> 0 \<le> held P f rs"
proof -
  let ?xs = "map (\<lambda>x. text_amount (f x)) (filter P (active_reservations rs))"
  have nn: "\<forall>x\<in>set ?xs. 0 \<le> x" using assms written_nonneg by (auto simp: active_reservations_def)
  have h: "0 \<le> held P f rs" using nn sum_list_nonneg [of ?xs] unfolding active_sum [symmetric] by blast
  have "held P f rs * kept ^ length rs \<le> held P f rs * kept ^ length ?xs"
    using kept_power_mono [OF _ h] active_length [of P rs] by simp
  also have "\<dots> \<le> column_sum P f (active_reservations rs) 0"
    using foldl_dadd_lower [of 0 ?xs] nn unfolding column_sum_def active_sum by simp
  finally show ?thesis using h by blast
qed

lemma column_sum_held:
  assumes "\<forall>x\<in>set rs. rr_state x = ''active'' \<longrightarrow> exact_amounts x" and "f = rr_active_notional \<or> f = rr_active_risk"
    and "held P f rs \<le> t" and "nine_places t"
  shows "column_sum P f (active_reservations rs) 0 = held P f rs"
proof -
  let ?g = "\<lambda>x. text_amount (f x)"
  have "nine_places (text_amount (f x))" if "x \<in> set (active_reservations rs)" for x
    using that assms(1,2) nine_places_is_decimal by (auto simp: active_reservations_def exact_amounts_def)
  moreover have "nine_places 0" unfolding nine_places_def by (rule exI [of _ 0]) simp
  ultimately show ?thesis unfolding column_sum_def
    using nine_places_fold [of "map ?g (filter P (active_reservations rs))" 0 t] assms(3,4) active_sum [of f P rs] by auto
qed

section \<open>The ceilings of the portfolio\<close>

text \<open>What the snapshot has measured, its ceiling, and the reservations and the amount that count against it.\<close>

definition EXPOSURE_CEILINGS :: "string \<Rightarrow> pyval \<Rightarrow> (string \<times> string \<times> (reservation \<Rightarrow> bool) \<times> (reservation \<Rightarrow> string) \<times> (reserved_amounts \<Rightarrow> rat)) set" where
  "EXPOSURE_CEILINGS symbol cluster = {
     (''base_total_notional'', ''total_notional_ceiling'', \<lambda>x. True, rr_active_notional, ra_notional),
     (''base_symbol_notional'', ''symbol_notional_ceiling'', on_symbol symbol, rr_active_notional, ra_notional),
     (''base_cluster_notional'', ''cluster_notional_ceiling'', in_cluster cluster, rr_active_notional, ra_notional),
     (''base_open_risk'', ''open_risk_ceiling'', \<lambda>x. True, rr_active_risk, ra_stop_risk)}"

definition limit_is :: "pydict \<Rightarrow> string \<Rightarrow> rat \<Rightarrow> bool" where
  "limit_is limits key c \<longleftrightarrow> exact_limit (dget limits key) key = Inr c"

lemma exact_limit_label: "exact_limit v l = Inr c \<Longrightarrow> exact_limit v l' = Inr c"
  by (auto simp: exact_limit_def decimal_or_def result_simps decimal_value_Some_iff split: option.splits)

lemma enforce_limit_Inr:
  "enforce_limit limits name x key = Inr u \<Longrightarrow> limit_is limits key c \<Longrightarrow> \<not> blank (dget limits key) \<Longrightarrow> x \<le> c"
  unfolding limit_is_def enforce_limit_def
  by (auto simp: result_simps not_less dest: exact_limit_label [of _ _ _ "''atomic reservation '' @ key"] split: if_splits)

lemma enforce_projected_Inr:
  assumes "enforce_projected limits name base label h x key = Inr u" and "limit_is limits base b" and "limit_is limits key c"
    and "\<not> blank (dget limits key)"
  shows "dadd (dadd b h) x \<le> c"
  using assms(1) exact_limit_label [OF assms(2) [unfolded limit_is_def], of label] enforce_limit_Inr [OF _ assms(3,4)]
  by (auto simp: enforce_projected_def)

lemma check_exposure_Inr:
  assumes "check_exposure limits e m = Inr u" and "(base, cap, P, f, g) \<in> EXPOSURE_CEILINGS symbol cluster"
    and "limit_is limits base b" and "limit_is limits cap c" and "\<not> blank (dget limits cap)"
    and "total_exposure symbol cluster rs no_exposure = Inr e" and "\<forall>x\<in>set rs. written_amounts x"
  shows "dadd (dadd b (column_sum P f rs 0)) (g m) \<le> c"
proof -
  note sums = total_exposure_sums [OF assms(6,7)]
  show ?thesis using assms(1-5) sums enforce_projected_Inr [OF _ assms(3-5)]
    unfolding EXPOSURE_CEILINGS_def check_exposure_def by (auto simp: result_simps no_exposure_def)
qed

text \<open>A new intent, with the plan and the checks it comes from.\<close>

lemma new_creation:
  assumes "create_or_get_intent env t a ws s = Inr (r, ws', s')" and "order_book_ok s"
    and "\<not> (\<exists>x\<in>set (order_intents s). oi_id x = oi_id r)" and "creation_plan env t a = Inr (approval, b, w, p, m, aa)"
  obtains p' x n where "check_approval t approval p ws = Inr p'" "check_limits t w p' (be_limits b) m s = Inr ()"
    "written env a approval w p' (m\<lparr>ra_incremental := n\<rparr>) r x s s'" "check_sleeve env a (be_config b) w p' (limits_of b) m s = Inr n"
  using assms(1,2)
proof (cases rule: create_effect)
  case existing
  then show thesis using assms(3) by blast
next
  case (new approval' b' w' p1 p' m' aa' x n)
  then show thesis using that [of p' n x] assms(4) by simp
qed

lemma check_approval_keeps:
  "check_approval t approval p ws = Inr p' \<Longrightarrow> k \<noteq> ''approval_authority_fingerprint'' \<Longrightarrow> dget p' k = dget p k"
  by (auto simp: check_approval_def Let_def split: option.splits if_splits)

lemma plan_terms:
  assumes "creation_plan env t a = Inr (approval, b, w, p, m, aa)"
  shows "p = execution_terms env b \<and> intent_terms_of env a (be_candidate b) p = Inr w \<and> reserved_amounts_of w p = Inr m
    \<and> bound_evidence_of env t a approval = Inr b"
  using assms by (auto simp: creation_plan_def Let_def result_simps)

lemma held_append: "held P f (rs @ ss) = held P f rs + held P f ss"
  by (simp add: held_def)

lemma held_nonneg:
  "\<forall>x\<in>set rs. rr_state x = ''active'' \<longrightarrow> exact_amounts x \<Longrightarrow> f = rr_active_notional \<or> f = rr_active_risk \<Longrightarrow> 0 \<le> held P f rs"
  unfolding held_def by (rule sum_list_nonneg) (auto simp: exact_amounts_def nine_places_is_decimal nine_places_nonneg)

lemma held_nine_places:
  assumes "\<forall>x\<in>set rs. rr_state x = ''active'' \<longrightarrow> exact_amounts x" and "f = rr_active_notional \<or> f = rr_active_risk"
    and "held P f rs \<le> t" and "nine_places t"
  shows "nine_places (held P f rs)"
  using assms
proof (induction rs)
  case Nil
  then show ?case unfolding nine_places_def held_def by (intro exI [of _ 0]) simp
next
  case (Cons x rs)
  have eq: "held P f (x # rs) = held P f [x] + held P f rs" using held_append [of P f "[x]" rs] by simp
  have pos: "0 \<le> held P f [x]" using held_nonneg [of "[x]"] Cons.prems by simp
  have "nine_places (held P f rs)" using Cons eq pos by auto
  moreover have "nine_places (held P f [x])"
    using Cons.prems(1,2) nine_places_is_decimal unfolding held_def
    by (auto simp: exact_amounts_def nine_places_def [of 0] intro: exI [of _ 0])
  ultimately show ?case using nine_places_add [of "held P f [x]" "held P f rs" t] Cons.prems(3,4) eq by simp
qed

lemma decimal_or_nonneg: "decimal_or v l (Some 0) e = Inr x \<Longrightarrow> 0 \<le> x"
  by (auto simp: decimal_or_def result_simps decimal_value_Some_iff split: option.splits)

lemma reserved_amounts_nonneg:
  assumes "creation_plan env t a = Inr (approval, b, w, p, m, aa)"
  shows "0 \<le> ra_notional m \<and> 0 \<le> ra_stop_risk m"
proof -
  have m: "reserved_amounts_of w p = Inr m" and w: "intent_terms_of env a (be_candidate b) p = Inr w" using plan_terms [OF assms] by auto
  obtain z where "canonical_sizing z = Inr (it_sizing w)"
    using w by (auto simp: intent_terms_of_def Let_def result_simps split: if_splits)
  from canonical_sizing_sound [OF this] have "0 < cs_notional (it_sizing w)" "0 \<le> cs_stop_risk (it_sizing w)" by auto
  then show ?thesis using m decimal_or_nonneg
    by (cases "winner_add w p") (auto simp: reserved_amounts_of_def Let_def result_simps split: if_splits)
qed

lemma limit_nonneg: "limit_is limits k c \<Longrightarrow> 0 \<le> c"
  by (auto simp: limit_is_def exact_limit_def decimal_or_def result_simps decimal_value_Some_iff split: option.splits)

lemma exposure_lower:
  assumes "0 \<le> b" and "0 \<le> h" and "0 \<le> g" and "h * kept ^ n \<le> s" and "0 \<le> s" and "dadd (dadd b s) g \<le> c"
  shows "(b + h + g) * kept ^ Suc (Suc n) \<le> c"
proof -
  have kn: "kept ^ n \<le> 1" "0 \<le> kept ^ n" using kept_bounds by (simp_all add: power_le_one)
  have "(b + h + g) * kept ^ Suc (Suc n) = ((b * kept ^ n + h * kept ^ n) * kept + g * kept ^ n * kept) * kept" by (simp add: algebra_simps)
  also have "\<dots> \<le> ((b + s) * kept + g) * kept"
  proof (intro mult_right_mono add_mono)
    show "b * kept ^ n \<le> b" using mult_left_le [OF kn(1) assms(1)] .
    have "kept ^ n * kept \<le> 1" using kn kept_bounds by (simp add: mult_le_one)
    then show "g * kept ^ n * kept \<le> g" using mult_left_le [OF _ assms(3), of "kept ^ n * kept"] by (simp add: mult.assoc)
  qed (use assms(4) kept_bounds in simp_all)
  also have "\<dots> \<le> (dadd b s + g) * kept"
    using dadd_lower [OF assms(1,5)] kept_bounds(3) by (intro mult_right_mono add_right_mono)
  also have "\<dots> \<le> dadd (dadd b s) g" by (rule dadd_lower [OF dadd_nonneg [OF assms(1,5)] assms(3)])
  finally show ?thesis using assms(6) by linarith
qed

lemma held_new:
  assumes "(base, cap, P, f, g) \<in> EXPOSURE_CEILINGS symbol cluster" and "is_decimal (ra_notional m)" and "is_decimal (ra_stop_risk m)"
  shows "held P f [new_reservation env w p (m\<lparr>ra_incremental := n\<rparr>) cl equity]
      = (if P (new_reservation env w p (m\<lparr>ra_incremental := n\<rparr>) cl equity) then g m else 0)"
  using assms by (auto simp: EXPOSURE_CEILINGS_def held_def text_amount_dec)

lemma exact_new:
  assumes "exact_amounts (new_reservation env w p (m\<lparr>ra_incremental := n\<rparr>) cl equity)" and "is_decimal (ra_notional m)" and "is_decimal (ra_stop_risk m)"
  shows "nine_places (ra_notional m) \<and> nine_places (ra_stop_risk m)"
  using assms dec_text_inject nine_places_is_decimal by (auto simp: exact_amounts_def new_reservation_def Let_def)

lemma exact_bound:
  assumes "\<forall>x\<in>set rs. rr_state x = ''active'' \<longrightarrow> exact_amounts x" and "f = rr_active_notional \<or> f = rr_active_risk"
    and "nine_places b" and "nine_places g" and "n = g \<or> n = 0" and "nine_places (b + (held P f rs + n))"
    and "dadd (dadd b (column_sum P f (active_reservations rs) 0)) g \<le> c"
  shows "b + (held P f rs + n) \<le> c"
proof -
  let ?h = "held P f rs"
  have pos: "0 \<le> ?h" "0 \<le> g" "0 \<le> b" using held_nonneg [OF assms(1,2)] assms(3,4) nine_places_nonneg by auto
  have le: "b + ?h \<le> b + (?h + n)" "?h \<le> b + (?h + n)" using pos assms(5) by auto
  have hn: "nine_places ?h" by (rule held_nine_places [OF assms(1,2) le(2) assms(6)])
  have "column_sum P f (active_reservations rs) 0 = ?h" by (rule column_sum_held [OF assms(1,2) le(2) assms(6)])
  moreover have "dadd b ?h = b + ?h" by (rule nine_places_dadd [OF assms(3) hn le(1) assms(6)])
  ultimately have bound: "dadd (b + ?h) g \<le> c" using assms(7) by simp
  have bh: "nine_places (b + ?h)" by (rule nine_places_add [OF assms(3) hn le(1) assms(6)])
  show ?thesis using assms(5)
  proof
    assume "n = g"
    then show ?thesis using nine_places_dadd [OF bh assms(4) _ assms(6)] bound by (simp add: algebra_simps)
  next
    assume "n = 0"
    moreover have "b + ?h \<le> dadd (b + ?h) g" by (rule dadd_ge [OF nine_places_dec28 [OF bh] pos(2)])
    ultimately show ?thesis using bound by simp
  qed
qed

text \<open>C8: Reservations cannot oversubscribe the portfolio. When a purchase is created over reservations whose columns hold
  non-negative decimals, as the code writes them, what the risk snapshot had measured plus the exact sum of every active
  reservation, the new one included, is within the ceiling of the total exposure, of the exposure of the symbol, of the exposure
  of the cluster and of the open risk, up to what the rounding to 28 digits can hide: a factor of 1 - 5 / 10^28 for each
  reservation and one more. When all these amounts have at most nine places and their sum at most 28 digits, it is within the
  ceiling exactly.\<close>

theorem creation_keeps_exposure_ceilings:
  assumes "create_or_get_intent env t a ws s = Inr (r, ws', s')" and "order_book_ok s"
    and "\<not> (\<exists>x\<in>set (order_intents s). oi_id x = oi_id r)" and "creation_plan env t a = Inr (approval, b, w, p, m, aa)"
    and "it_side w = ''buy''" and "(base, cap, P, f, g) \<in> EXPOSURE_CEILINGS (it_symbol w) (dget p ''cluster_name'')"
    and "limit_is (limits_of b) base measured" and "limit_is (limits_of b) cap c" and "\<not> blank (dget (limits_of b) cap)"
    and "\<forall>x\<in>set (risk_reservations s). rr_state x = ''active'' \<longrightarrow> written_amounts x"
    and "is_decimal (ra_notional m)" and "is_decimal (ra_stop_risk m)"
  shows "(measured + held P f (risk_reservations s')) * (1 - 5 / 10 ^ 28) ^ Suc (length (risk_reservations s')) \<le> c
    \<and> ((\<forall>x\<in>set (risk_reservations s'). rr_state x = ''active'' \<longrightarrow> exact_amounts x) \<and> nine_places measured
        \<and> nine_places (measured + held P f (risk_reservations s')) \<longrightarrow> measured + held P f (risk_reservations s') \<le> c)"
  using assms(1-4)
proof (rule new_creation)
  fix p' x n
  assume app: "check_approval t approval p ws = Inr p'" and lim: "check_limits t w p' (be_limits b) m s = Inr ()"
    and wr: "written env a approval w p' (m\<lparr>ra_incremental := n\<rparr>) r x s s'"
  let ?rs = "risk_reservations s"
  have f: "f = rr_active_notional \<or> f = rr_active_risk" using assms(6) by (auto simp: EXPOSURE_CEILINGS_def)
  obtain cl equity where x: "x = new_reservation env w p' (m\<lparr>ra_incremental := n\<rparr>) cl equity" and rs: "risk_reservations s' = ?rs @ [x]"
    using wr by (auto simp: written_def)
  have new: "held P f [x] = (if P x then g m else 0)" using held_new [OF assms(6,11,12)] x by simp
  have total: "held P f (risk_reservations s') = held P f ?rs + held P f [x]" by (simp add: rs held_append)
  have g: "0 \<le> g m" using reserved_amounts_nonneg [OF assms(4)] assms(6) by (auto simp: EXPOSURE_CEILINGS_def)
  have m0: "0 \<le> measured" by (rule limit_nonneg [OF assms(7)])
  have cluster: "dget p' ''cluster_name'' = dget p ''cluster_name''" by (rule check_approval_keeps [OF app]) simp
  have given: "be_limits b = Some (limits_of b)" using assms(9) by (auto simp: limits_of_def blank_def dget_def split: option.splits)
  then obtain e u where e: "total_exposure (it_symbol w) (dget p ''cluster_name'') (active_reservations ?rs) no_exposure = Inr e"
      "check_exposure (limits_of b) e m = Inr u"
    using lim assms(5) unfolding check_limits_def cluster given by (auto simp: result_simps)
  have "\<forall>x\<in>set (active_reservations ?rs). written_amounts x" using assms(10) by (auto simp: active_reservations_def)
  from check_exposure_Inr [OF e(2) assms(6-9) e(1) this]
  have bound: "dadd (dadd measured (column_sum P f (active_reservations ?rs) 0)) (g m) \<le> c" .
  note low = column_sum_lower [OF assms(10) f, of P]
  have s0: "0 \<le> column_sum P f (active_reservations ?rs) 0"
    using low kept_bounds(3) by (meson mult_nonneg_nonneg order_trans zero_le_power)
  have 1: "(measured + held P f ?rs + g m) * kept ^ Suc (Suc (length ?rs)) \<le> c"
    by (rule exposure_lower [OF m0 _ g _ s0 bound]) (use low in auto)
  have len: "length (risk_reservations s') = Suc (length ?rs)" by (simp add: rs)
  have "(measured + held P f (risk_reservations s')) * kept ^ Suc (length (risk_reservations s'))
      \<le> (measured + held P f ?rs + g m) * kept ^ Suc (Suc (length ?rs))"
    unfolding len by (intro mult_right_mono) (use total new g kept_bounds(3) in auto)
  moreover have "measured + held P f (risk_reservations s') \<le> c"
    if n: "\<forall>x\<in>set (risk_reservations s'). rr_state x = ''active'' \<longrightarrow> exact_amounts x" "nine_places measured"
      "nine_places (measured + held P f (risk_reservations s'))"
  proof -
    have "rr_state x = ''active''" by (simp add: x new_reservation_def Let_def)
    then have "nine_places (ra_notional m) \<and> nine_places (ra_stop_risk m)"
      using exact_new [OF _ assms(11,12)] n(1) rs x by auto
    then have gm: "nine_places (g m)" using assms(6) by (auto simp: EXPOSURE_CEILINGS_def)
    show ?thesis unfolding total
      by (rule exact_bound [OF _ f n(2) gm _ _ bound]) (use n(1,3) new rs total in auto)
  qed
  ultimately show ?thesis using 1 unfolding kept_def by auto
qed

section \<open>What was displayed and approved\<close>

lemma sizing_decimal_blank: "sizing_decimal v l b = Inr c \<Longrightarrow> \<not> blank v"
proof -
  have "parse_decimal [] = None" by code_simp
  then show "sizing_decimal v l b = Inr c \<Longrightarrow> \<not> blank v" by (auto simp: blank_def sizing_decimal_def Let_def)
qed

lemma check_ceiling_le:
  "check_ceiling req label actual v = Inr u \<Longrightarrow> sizing_decimal v (''approved '' @ label @ '' ceiling'') False = Inr c \<Longrightarrow>
    \<forall>d. v \<noteq> PyFloat d \<Longrightarrow> actual \<le> c"
  using sizing_decimal_blank [of v "''approved '' @ label @ '' ceiling''" False c]
  by (auto simp: check_ceiling_def result_simps matches_non_float not_less split: if_splits)

text \<open>The figures of a row, and the ceilings of the displayed envelope they stay under.\<close>

definition DISPLAYED_CEILINGS :: "(string \<times> string \<times> string) set" where
  "DISPLAYED_CEILINGS = {(''canonical_quantity_decimal'', ''max_quantity'', ''quantity''),
     (''canonical_notional_decimal'', ''max_notional'', ''notional''),
     (''canonical_stop_risk_decimal'', ''max_stop_risk'', ''stop risk'')}"

lemma check_ceiling_legacy:
  "check_ceiling req label actual v = Inr u \<Longrightarrow> sizing_decimal v (''approved '' @ label @ '' ceiling'') False = Inr c \<Longrightarrow>
    actual \<le> c \<or> matches_legacy_float actual c v"
  using sizing_decimal_blank [of v "''approved '' @ label @ '' ceiling''" False c]
  by (auto simp: check_ceiling_def result_simps not_less split: if_splits)

text \<open>C7: An order never exceeds what a person was shown and approved: the quantity, the notional and the stop risk of a new intent
  are at most the ceiling of the verified display envelope of its approval, for each ceiling the envelope gives, whatever the
  caller's proposal says. A ceiling that is a binary float, as the stop risk of an exit may be, is met up to the tolerance of
  \<open>matches_legacy_float\<close>; any other ceiling is met exactly.\<close>

theorem created_intent_within_display:
  assumes "create_or_get_intent env t a ws s = Inr (r, ws', s')" and "order_book_ok s"
    and "\<not> (\<exists>x\<in>set (order_intents s). oi_id x = oi_id r)" and "(column, key, label) \<in> DISPLAYED_CEILINGS"
    and "cr_approval a = Some approval"
    and "ce_display env approval (proposal_identity (cr_proposal a)) (cr_source_type a) = Inr (display, envelope)"
    and "\<not> blank (dget envelope key)"
  shows "\<exists>q c. dget (oi_data r) column = dec_column q \<and> sizing_decimal (dget envelope key) (''approved '' @ label @ '' ceiling'') False = Inr c
    \<and> (q \<le> c \<or> matches_legacy_float q c (dget envelope key)) \<and> ((\<forall>d. dget envelope key \<noteq> PyFloat d) \<longrightarrow> q \<le> c)"
proof -
  obtain approval' b w p m aa where plan: "creation_plan env t a = Inr (approval', b, w, p, m, aa)"
    using assms(1) by (auto simp: create_or_get_intent_def result_simps)
  have ap: "approval' = approval" using plan assms(5)
    by (auto simp: creation_plan_def check_caller_def Let_def result_simps split: if_splits option.splits)
  note terms = plan_terms [OF plan]
  have env: "be_envelope b = envelope" using terms assms(6) unfolding ap
    by (auto simp: bound_evidence_of_def Let_def result_simps split: option.splits if_splits)
  have "enforce_ceilings (it_sizing w) p False = Inr ()" using terms
    by (auto simp: intent_terms_of_def Let_def result_simps split: if_splits)
  moreover have "dget p ''approved_quantity_ceiling'' = dget envelope ''max_quantity''"
    "dget p ''approved_notional_ceiling'' = dget envelope ''max_notional''"
    "dget p ''approved_stop_risk_ceiling'' = dget envelope ''max_stop_risk''"
    using terms env by (simp_all add: execution_terms_def Let_def)
  ultimately have checks: "check_ceiling False ''quantity'' (cs_quantity (it_sizing w)) (dget envelope ''max_quantity'') = Inr ()"
    "check_ceiling False ''notional'' (cs_notional (it_sizing w)) (dget envelope ''max_notional'') = Inr ()"
    "check_ceiling False ''stop risk'' (cs_stop_risk (it_sizing w)) (dget envelope ''max_stop_risk'') = Inr ()"
    by (auto simp: enforce_ceilings_def result_simps)
  from assms(1-3) plan show ?thesis
  proof (rule new_creation)
    fix p' x n
    assume "written env a approval' w p' (m\<lparr>ra_incremental := n\<rparr>) r x s s'"
    then obtain aa' cl where r: "r = new_intent env approval' (intent_columns env a w p' (m\<lparr>ra_incremental := n\<rparr>) aa' cl)" by (auto simp: written_def)
    have "dget (oi_data r) ''canonical_quantity_decimal'' = dec_column (cs_quantity (it_sizing w))"
      "dget (oi_data r) ''canonical_notional_decimal'' = dec_column (cs_notional (it_sizing w))"
      "dget (oi_data r) ''canonical_stop_risk_decimal'' = dec_column (cs_stop_risk (it_sizing w))"
      by (simp_all add: r new_intent_def intent_columns_def Let_def)
    then obtain q where q: "dget (oi_data r) column = dec_column q" "check_ceiling False label q (dget envelope key) = Inr ()"
      using assms(4) checks unfolding DISPLAYED_CEILINGS_def by blast
    obtain c where c: "sizing_decimal (dget envelope key) (''approved '' @ label @ '' ceiling'') False = Inr c"
      using q(2) assms(7) by (auto simp: check_ceiling_def result_simps)
    show ?thesis using q c check_ceiling_legacy [OF q(2) c] check_ceiling_le [OF q(2) c] by blast
  qed
qed

section \<open>The creation that the recovery calls\<close>

text \<open>The callback \<open>create_or_get_intent\<close> of the recovery, on the store with the workflows.\<close>

definition creation_callback ::
  "creation_env \<Rightarrow> creation_tables \<Rightarrow> pydict \<Rightarrow> string option \<Rightarrow> string \<Rightarrow> string \<Rightarrow> (order_intent, milestone_tables) store_act" where
  "creation_callback env t p run source_type approval d =
     (case create_or_get_intent env t \<lparr>cr_proposal = p, cr_run = run, cr_source_type = source_type, cr_approval = Some approval,
         cr_sequence = 0\<rparr> (workflows d) d of
        Inl e \<Rightarrow> (Inl e, d)
      | Inr (r, ws, d') \<Rightarrow> (Inr r, d'\<lparr>workflows := ws\<rparr>))"

lemma link_evolves: "awaits_intent approval w \<Longrightarrow> wf_evolves w (link_workflow i now w)"
  by (auto simp: awaits_intent_def link_workflow_def wf_evolves_def wf_identity_def workflow_allowed_def intro!: r_into_rtranclp)

lemma creation_meets_contract: "sound_step d (snd (creation_callback env t p run source_type approval d))"
proof -
  let ?a = "\<lparr>cr_proposal = p, cr_run = run, cr_source_type = source_type, cr_approval = Some approval, cr_sequence = 0\<rparr>"
  show ?thesis
  proof (cases "create_or_get_intent env t ?a (workflows d) d")
    case (Inl e)
    then show ?thesis by (simp add: creation_callback_def sound_refl)
  next
    case (Inr out)
    obtain r ws d' where out: "out = (r, ws, d')" by (cases out) auto
    have c: "create_or_get_intent env t ?a (workflows d) d = Inr (r, ws, d')" using Inr out by simp
    then have s: "snd (creation_callback env t p run source_type approval d) = d'\<lparr>workflows := ws\<rparr>"
      by (simp add: creation_callback_def)
    from c show ?thesis
    proof (cases rule: create_cases)
      case existing
      then show ?thesis unfolding s by (intro sound_same) simp
    next
      case (new approval' b w p' p2 m aa n)
      then obtain i now where "ws = update_where (awaits_intent approval') (link_workflow i now) (workflows d)"
        using write_intent_result [OF new(8)] by (auto simp: Let_def link_approval_def split: if_splits)
      then show ?thesis unfolding s by (intro sound_update [where p = "awaits_intent approval'" and f = "link_workflow i now"]) (auto intro: link_evolves)
    qed
  qed
qed

lemma recovery_with_creation:
  "callbacks_keep sound_step renv \<Longrightarrow> sound_step d (snd (recover (renv\<lparr>re_create_intent := creation_callback env t\<rparr>) n d))"
  by (rule recover_sound) (simp add: callbacks_keep_def creation_meets_contract)

text \<open>C12: The creation keeps the contract that the recovery relies on: whatever it is called with, the workflows of the store move only
  along allowed transitions with rising versions, and the table of workflows stays well-formed.\<close>

theorem creation_meets_recovery_contract: "sound_step d (snd (creation_callback env t p run source_type approval d))"
  by (rule creation_meets_contract)

section \<open>The risk of a strategy sleeve\<close>

lemma check_sleeve_idle:
  assumes "check_sleeve env a config w p limits m s = Inr n" and "needs_sleeve w p limits"
    and "\<forall>x\<in>set (risk_reservations s). rr_state x = ''active'' \<longrightarrow> dget (rr_data x) ''strategy_version'' \<noteq> dget p ''strategy_version''"
  shows "n = 0"
proof -
  have "strategy_reservations (dget p ''strategy_version'') (risk_reservations s) = []"
    using assms(3) by (auto simp: strategy_reservations_def filter_empty_conv)
  then show ?thesis using assms(1,2) by (auto simp: check_sleeve_def Let_def result_simps sleeve_error_def split: if_splits prod.splits)
qed

lemma needs_sleeve_kept:
  assumes "check_approval t approval p ws = Inr p'"
  shows "needs_sleeve w p' limits = needs_sleeve w p limits"
  using check_approval_keeps [OF assms] by (simp add: needs_sleeve_def SLEEVE_FIELDS_def)

text \<open>C40: The sleeve check reuses the variable of the order's incremental risk, so a purchase under a strategy sleeve is recorded with
  an incremental risk of zero, whatever stop risk it reserves, when no active reservation is of its strategy version.\<close>

theorem sleeve_order_records_no_incremental_risk:
  assumes "create_or_get_intent env t a ws s = Inr (r, ws', s')" and "order_book_ok s"
    and "\<not> (\<exists>x\<in>set (order_intents s). oi_id x = oi_id r)" and "creation_plan env t a = Inr (approval, b, w, p, m, aa)"
    and "needs_sleeve w p (limits_of b)"
    and "\<forall>x\<in>set (risk_reservations s). rr_state x = ''active'' \<longrightarrow> dget (rr_data x) ''strategy_version'' \<noteq> dget p ''strategy_version''"
  shows "dget (oi_data r) ''incremental_risk_decimal'' = PyStr ''0''
    \<and> dget (oi_data r) ''reserved_stop_risk_decimal'' = dec_column (ra_stop_risk m)"
  using assms(1-4)
proof (rule new_creation)
  fix p' x n
  assume app: "check_approval t approval p ws = Inr p'" and wr: "written env a approval w p' (m\<lparr>ra_incremental := n\<rparr>) r x s s'"
    and sl: "check_sleeve env a (be_config b) w p' (limits_of b) m s = Inr n"
  have "dget p' ''strategy_version'' = dget p ''strategy_version''" by (rule check_approval_keeps [OF app]) simp
  then have n: "n = 0" using check_sleeve_idle [OF sl] needs_sleeve_kept [OF app] assms(5,6) by simp
  obtain aa' cl where r: "r = new_intent env approval (intent_columns env a w p' (m\<lparr>ra_incremental := n\<rparr>) aa' cl)"
    using wr by (auto simp: written_def)
  show ?thesis by (simp add: r n new_intent_def intent_columns_def Let_def dec_column_def dec_text_0)
qed

section \<open>Examples\<close>

definition sample_candidate :: pydict where
  "sample_candidate = map_of [(''proposal_id'', PyStr ''p1''), (''symbol'', PyStr ''ABC''), (''side'', PyStr ''buy''),
     (''action'', PyStr ''entry''), (''request_basis'', PyStr ''quantity''), (''qty'', PyStr ''2''), (''latest_price'', PyStr ''100''),
     (''stop_price'', PyStr ''95''), (''approval_source_type'', PyStr ''proposal''), (''config_hash'', PyStr ''c1''),
     (''formula_versions'', PyStr ''{}'')]"

definition sample_envelope :: pydict where
  "sample_envelope = map_of [(''proposal_id'', PyStr ''p1''), (''symbol'', PyStr ''ABC''), (''side'', PyStr ''buy''),
     (''action'', PyStr ''entry''), (''request_basis'', PyStr ''quantity''), (''approval_source_type'', PyStr ''proposal''),
     (''config_hash'', PyStr ''c1''), (''formula_versions'', PyStr ''{}''), (''max_quantity'', PyStr ''3''),
     (''max_notional'', PyStr ''300''), (''max_stop_risk'', PyStr ''15''), (''expires_at'', PyStr ''t9'')]"

definition sample_limits :: pydict where
  "sample_limits = map_of [(''base_total_notional'', PyStr ''700''), (''total_notional_ceiling'', PyStr ''1000''),
     (''base_open_risk'', PyStr ''20''), (''open_risk_ceiling'', PyStr ''30'')]"

definition sample_creation_env :: "string \<Rightarrow> creation_env" where
  "sample_creation_env tag = \<lparr>ce_now = ''t1'', ce_time = 1, ce_intent = ''i'' @ tag, ce_event = ''e'' @ tag, ce_reservation = ''r'' @ tag,
     ce_milestone = ''m'' @ tag, ce_action = ''a'' @ tag, ce_sha256 = (\<lambda>x. x), ce_dumps = (\<lambda>_. ''{}''), ce_json = (\<lambda>_. None),
     ce_decision = NoDecision, ce_parse_time = (\<lambda>_. Inr 9), ce_display = (\<lambda>_ _ _. Inr (PyStr ''d1'', sample_envelope)),
     ce_verify = (\<lambda>_ _ _ _ _ _. Inr (sample_candidate, Some sample_limits)), ce_fingerprint = (\<lambda>_. ''f1''),
     ce_registry = (\<lambda>_ _. None), ce_allocation = (\<lambda>_ _ _ _ _. None)\<rparr>"

definition sample_tables :: creation_tables where
  "sample_tables = \<lparr>ct_snapshots = [\<lparr>sn_id = ''s1'', sn_proposal = ''p1'', sn_approval = ''a1'', sn_run = Some ''run1'',
       sn_config = PyStr ''c1'', sn_captured = ''t0''\<rparr>],
     ct_approvals = [\<lparr>aw_id = ''a1'', aw_proposal = ''p1'', aw_authorized = 1, aw_status = ''consumed'', aw_consumed_at = Some ''t0'',
       aw_authority = PyStr ''f1'', aw_displayed = PyStr ''f1''\<rparr>],
     ct_lots = [], ct_strategy_state = (\<lambda>_. None), ct_add_risk = [], ct_pyramiding = []\<rparr>"

definition sample_creation :: creation_args where
  "sample_creation = \<lparr>cr_proposal = map_of [(''proposal_id'', PyStr ''p1''), (''risk_snapshot_id'', PyStr ''s1''), (''symbol'', PyStr ''abc'')],
     cr_run = Some ''run1'', cr_source_type = ''proposal'', cr_approval = Some ''a1'', cr_sequence = 0\<rparr>"

definition sample_workflow :: workflow where
  "sample_workflow = \<lparr>wf_id = ''w1'', wf_approval = ''a1'', wf_proposal = ''p1'', wf_telegram_update = None, wf_key = None,
     wf_state = APPROVED_PENDING_INTENT, wf_intent = None, wf_validation = None, wf_detail = None, wf_owner = None, wf_until = None,
     wf_attempts = 0, wf_error = None, wf_update_processed = None, wf_created = ''t0'', wf_updated = ''t0'', wf_terminal_at = None, wf_version = 1\<rparr>"

definition empty_book :: fill_store where
  "empty_book = \<lparr>order_intents = [], order_events = [], orders = [], risk_reservations = [], milestones = no_milestones,
     fill_ledger = \<lparr>position_lots = [], lot_consumptions = [], realized_pnl_events = [], pnl_ledger_status = None\<rparr>,
     broker_evidence = [], broker_fills = [], aggregate_fills = []\<rparr>"

definition sample_create :: "string \<Rightarrow> workflow list \<Rightarrow> fill_store \<Rightarrow> (order_intent \<times> workflow list \<times> fill_store) res" where
  "sample_create tag ws s = create_or_get_intent (sample_creation_env tag) sample_tables sample_creation ws s"

text \<open>The first call creates an intent, the second one is a retry by another process.\<close>

definition first_call :: "order_intent \<times> workflow list \<times> fill_store" where
  "first_call = (case sample_create ''1'' [sample_workflow] empty_book of Inr x \<Rightarrow> x
     | Inl e \<Rightarrow> (new_intent (sample_creation_env []) [] Map.empty, [], empty_book))"

definition first_book :: fill_store where
  "first_book = snd (snd first_call)"

definition second_call :: "order_intent \<times> workflow list \<times> fill_store" where
  "second_call = (case sample_create ''2'' (fst (snd first_call)) first_book of Inr x \<Rightarrow> x | Inl e \<Rightarrow> first_call)"

definition is_ok :: "'a res \<Rightarrow> bool" where
  "is_ok x = (case x of Inl _ \<Rightarrow> False | Inr _ \<Rightarrow> True)"

lemma first_created: "create_or_get_intent (sample_creation_env ''1'') sample_tables sample_creation [sample_workflow] empty_book
    = Inr (fst first_call, fst (snd first_call), first_book)"
proof -
  have "is_ok (sample_create ''1'' [sample_workflow] empty_book)" by code_simp
  then show ?thesis by (auto simp: is_ok_def first_call_def first_book_def sample_create_def split: sum.splits)
qed

lemma second_created: "create_or_get_intent (sample_creation_env ''2'') sample_tables sample_creation (fst (snd first_call)) first_book
    = Inr (fst second_call, fst (snd second_call), snd (snd second_call))"
proof -
  have "is_ok (sample_create ''2'' (fst (snd first_call)) first_book)" by code_simp
  then show ?thesis by (auto simp: is_ok_def second_call_def sample_create_def split: sum.splits)
qed

lemma empty_book_ok: "order_book_ok empty_book"
  by (simp add: order_book_ok_def keys_ok_def row_keys_def states_ok_def empty_book_def)

lemma sample_system_calls:
  "system_call\<^sup>*\<^sup>* (empty_book, [sample_workflow]) (first_book, fst (snd first_call))"
  using system_call.created [OF first_created] by (rule r_into_rtranclp)

lemma first_book_facts:
  "let rs = order_intents first_book in length rs = 1 \<and> active_order (hd rs) \<and> oi_id (hd rs) = ''i1''
    \<and> held (\<lambda>x. True) rr_active_notional (risk_reservations first_book) = 200"
  by code_simp

theorem one_active_order_per_side_witness: "hd (order_intents first_book) = last (order_intents first_book)"
proof -
  obtain r where r: "order_intents first_book = [r]" "active_order r"
    using first_book_facts by (auto simp: Let_def length_Suc_conv)
  then show ?thesis using one_active_order_per_side [OF sample_system_calls empty_book_ok, of r r] by simp
qed

theorem every_intent_is_reserved_witness:
  "map rr_intent (risk_reservations first_book) = map oi_id (order_intents first_book)
    \<and> map or_id (orders first_book) = map oi_id (order_intents first_book)"
  using every_intent_is_reserved [OF sample_system_calls empty_book_ok] by simp

theorem retried_creation_returns_the_intent_witness:
  "oi_id (fst second_call) = oi_id (fst first_call) \<and> map oi_id (order_intents (snd (snd second_call))) = map oi_id (order_intents first_book)"
proof -
  have "requested_action (sample_creation_env ''2'') sample_tables sample_creation
      = requested_action (sample_creation_env ''1'') sample_tables sample_creation" by code_simp
  from retried_creation_returns_the_intent [OF first_created empty_book_ok rtranclp.rtrancl_refl second_created this] show ?thesis by simp
qed

lemma no_rows: "\<not> (\<exists>x\<in>set (order_intents empty_book). oi_id x = i)"
  by (simp add: empty_book_def)

theorem created_intent_is_reserved_and_linked_witness:
  "\<exists>x v. order_intents first_book = [fst first_call] \<and> risk_reservations first_book = [x] \<and> rr_state x = ''active''
    \<and> fst (snd first_call) = [v] \<and> wf_intent v = Some (oi_id (fst first_call)) \<and> wf_state v = INTENT_CREATED"
proof -
  obtain approval b w p m aa x e pre v post where
    "order_intents first_book = order_intents empty_book @ [fst first_call]" "risk_reservations first_book = risk_reservations empty_book @ [x]"
    "rr_state x = ''active''" "[sample_workflow] = pre @ v # post"
    "fst (snd first_call) = pre @ v\<lparr>wf_intent := Some (oi_id (fst first_call)), wf_state := INTENT_CREATED,
       wf_updated := ce_now (sample_creation_env ''1''), wf_version := wf_version v + 1\<rparr> # post"
    using created_intent_is_reserved_and_linked [OF first_created empty_book_ok no_rows] by blast
  then show ?thesis by (auto simp: empty_book_def Cons_eq_append_conv)
qed

lemma sample_plan:
  obtains approval b w p m aa where "creation_plan (sample_creation_env ''1'') sample_tables sample_creation = Inr (approval, b, w, p, m, aa)"
    "it_side w = ''buy''" "ra_notional m = 200" "ra_stop_risk m = 10" "limit_is (limits_of b) ''base_total_notional'' 700"
    "limit_is (limits_of b) ''total_notional_ceiling'' 1000" "\<not> blank (dget (limits_of b) ''total_notional_ceiling'')"
proof -
  have "case creation_plan (sample_creation_env ''1'') sample_tables sample_creation of Inl e \<Rightarrow> False
    | Inr (approval, b, w, p, m, aa) \<Rightarrow> it_side w = ''buy'' \<and> ra_notional m = 200 \<and> ra_stop_risk m = 10
      \<and> limit_is (limits_of b) ''base_total_notional'' 700 \<and> limit_is (limits_of b) ''total_notional_ceiling'' 1000
      \<and> \<not> blank (dget (limits_of b) ''total_notional_ceiling'')" by code_simp
  then show thesis by (auto split: sum.splits intro: that)
qed

lemma nine_places_nat: "nine_places (of_nat n)" if "n < 10 ^ 19"
proof -
  have "int n * 10 ^ 9 < 10 ^ 28" using that by simp
  then show ?thesis unfolding nine_places_def
    by (intro exI [of _ "int n * 10 ^ 9"]) (simp add: power_int_minus field_simps)
qed

theorem creation_keeps_exposure_ceilings_witness:
  "(700 + held (\<lambda>x. True) rr_active_notional (risk_reservations first_book)) * (1 - 5 / 10 ^ 28) ^ Suc (length (risk_reservations first_book)) \<le> 1000
    \<and> 700 + held (\<lambda>x. True) rr_active_notional (risk_reservations first_book) \<le> 1000"
proof -
  obtain approval b w p m aa where p: "creation_plan (sample_creation_env ''1'') sample_tables sample_creation = Inr (approval, b, w, p, m, aa)"
    "it_side w = ''buy''" "ra_notional m = 200" "ra_stop_risk m = 10" "limit_is (limits_of b) ''base_total_notional'' 700"
    "limit_is (limits_of b) ''total_notional_ceiling'' 1000" "\<not> blank (dget (limits_of b) ''total_notional_ceiling'')"
    by (rule sample_plan)
  have row: "(''base_total_notional'', ''total_notional_ceiling'', \<lambda>x. True, rr_active_notional, ra_notional)
      \<in> EXPOSURE_CEILINGS (it_symbol w) (dget p ''cluster_name'')" by (simp add: EXPOSURE_CEILINGS_def)
  have none: "\<forall>x\<in>set (risk_reservations empty_book). rr_state x = ''active'' \<longrightarrow> written_amounts x" by (simp add: empty_book_def)
  have n: "nine_places 200" "nine_places 10" "nine_places 700" "nine_places 900"
    using nine_places_nat [of 200] nine_places_nat [of 10] nine_places_nat [of 700] nine_places_nat [of 900] by simp_all
  have h: "held (\<lambda>x. True) rr_active_notional (risk_reservations first_book) = 200" using first_book_facts by (simp add: Let_def)
  have d: "is_decimal (ra_notional m)" "is_decimal (ra_stop_risk m)" using n(1,2) nine_places_is_decimal by (simp_all add: p(3,4))
  have "\<forall>x\<in>set (risk_reservations first_book). rr_active_notional x = ''200'' \<and> rr_active_risk x = ''10''" by code_simp
  moreover have "dec_text 200 = ''200''" "dec_text 10 = ''10''" by code_simp+
  ultimately have e: "\<forall>x\<in>set (risk_reservations first_book). rr_state x = ''active'' \<longrightarrow> exact_amounts x"
    unfolding exact_amounts_def using n(1,2) by metis
  have t: "nine_places (700 + held (\<lambda>x. True) rr_active_notional (risk_reservations first_book))" using n(4) by (simp add: h)
  show ?thesis using creation_keeps_exposure_ceilings [OF first_created empty_book_ok no_rows p(1,2) row p(5-7) none d] e n(3) t by blast
qed

theorem created_intent_within_display_witness:
  "\<exists>q\<le>3. dget (oi_data (fst first_call)) ''canonical_quantity_decimal'' = dec_column q"
proof -
  have row: "(''canonical_quantity_decimal'', ''max_quantity'', ''quantity'') \<in> DISPLAYED_CEILINGS" by (simp add: DISPLAYED_CEILINGS_def)
  have app: "cr_approval sample_creation = Some ''a1''" by (simp add: sample_creation_def)
  have shown: "ce_display (sample_creation_env ''1'') ''a1'' (proposal_identity (cr_proposal sample_creation)) (cr_source_type sample_creation)
      = Inr (PyStr ''d1'', sample_envelope)" by (simp add: sample_creation_env_def)
  have v: "dget sample_envelope ''max_quantity'' = PyStr ''3''" by (simp add: sample_envelope_def)
  have c: "sizing_decimal (PyStr ''3'') (''approved '' @ ''quantity'' @ '' ceiling'') False = Inr 3" by code_simp
  have "\<not> blank (dget sample_envelope ''max_quantity'')" by (simp add: v blank_def)
  from created_intent_within_display [OF first_created empty_book_ok no_rows row app shown this]
  obtain q where "dget (oi_data (fst first_call)) ''canonical_quantity_decimal'' = dec_column q" "q \<le> 3"
    unfolding v c by auto
  then show ?thesis by blast
qed

text \<open>The same purchase under a strategy sleeve.\<close>

definition sleeve_terms :: pydict where
  "sleeve_terms = map_of [(''strategy_registry_snapshot_id'', PyStr ''g1''), (''strategy_sleeve'', PyStr ''v1''),
     (''sleeve_allocation_id'', PyStr ''l1''), (''sleeve_notional_ceiling'', PyStr ''500''), (''sleeve_stop_risk_ceiling'', PyStr ''20''),
     (''strategy_version'', PyStr ''v1'')]"

definition sample_allocation :: sleeve_allocation where
  "sample_allocation = \<lparr>sl_sleeves = (\<lambda>v. if v = ''v1'' then Some (map_of [(''strategy_version'', PyStr ''v1''),
       (''risk_unit'', PyStr ''stop_risk_dollars''), (''remaining_risk_decimal'', PyStr ''50''), (''remaining_notional_decimal'', PyStr ''1000'')])
       else None),
     sl_authorized = [''v1''], sl_registry = PyStr ''g1'', sl_equity = PyNone, sl_included = (\<lambda>_. Some []), sl_claims = (\<lambda>_. Some [])\<rparr>"

definition sleeve_env :: creation_env where
  "sleeve_env = (sample_creation_env ''1'')\<lparr>ce_verify := (\<lambda>_ _ _ _ _ _. Inr (sample_candidate ++ sleeve_terms, None)),
     ce_display := (\<lambda>_ _ _. Inr (PyStr ''d1'', sample_envelope(''strategy_version'' \<mapsto> PyStr ''v1''))),
     ce_registry := (\<lambda>_ _. Some (\<lambda>v. Some (v = ''v1''))), ce_allocation := (\<lambda>_ _ _ _ _. Some sample_allocation)\<rparr>"

theorem sleeve_order_records_no_incremental_risk_witness:
  "\<exists>r ws s. create_or_get_intent sleeve_env sample_tables sample_creation [sample_workflow] empty_book = Inr (r, ws, s)
    \<and> dget (oi_data r) ''incremental_risk_decimal'' = PyStr ''0'' \<and> dget (oi_data r) ''reserved_stop_risk_decimal'' = dec_column 10"
proof -
  have "is_ok (create_or_get_intent sleeve_env sample_tables sample_creation [sample_workflow] empty_book)" by code_simp
  then obtain r ws s where c: "create_or_get_intent sleeve_env sample_tables sample_creation [sample_workflow] empty_book = Inr (r, ws, s)"
    by (auto simp: is_ok_def split: sum.splits)
  have "case creation_plan sleeve_env sample_tables sample_creation of Inl e \<Rightarrow> False
    | Inr (approval, b, w, p, m, aa) \<Rightarrow> needs_sleeve w p (limits_of b) \<and> ra_stop_risk m = 10" by code_simp
  then obtain approval b w p m aa where p: "creation_plan sleeve_env sample_tables sample_creation = Inr (approval, b, w, p, m, aa)"
    "needs_sleeve w p (limits_of b)" "ra_stop_risk m = 10" by (auto split: sum.splits)
  have "\<forall>x\<in>set (risk_reservations empty_book). rr_state x = ''active''
      \<longrightarrow> dget (rr_data x) ''strategy_version'' \<noteq> dget p ''strategy_version''" by (simp add: empty_book_def)
  from sleeve_order_records_no_incremental_risk [OF c empty_book_ok no_rows p(1,2) this] show ?thesis using c p(3) by auto
qed

section \<open>The risk of an ADD\<close>

text \<open>
  The stop risk that an ADD to a winning position reserves has gone through a binary float, although the comment in
  \<open>create_or_get_intent\<close> calls all risk arithmetic exact: a leg of 0.15241577515622631 reserves 0.1524157751562263.
\<close>

lemma winner_add_reserves_rounded_risk:
  "winner_add_reservation_risk [''incremental_risk'' \<mapsto> PyInt 1] (123456789 / 10 ^ 9) (12345678901 / 10 ^ 9) (Some (11111111111 / 10 ^ 9))
     = Inr (1, 1524157751562263 / 10 ^ 16) \<and> (1524157751562263 / 10 ^ 16 :: rat) < 123456789 / 10 ^ 9 * (1234567790 / 10 ^ 9)"
  by code_simp

end
