(* ===== verification/Executor.thy ===== *)
theory Executor
  imports Intent_Creation Approval_Recovery
begin

text \<open>
  \<open>Executor\<close> of \<open>app/execution.py\<close>: the path of an approved proposal to the broker. Between its transactions other workers
  may run, so an execution is a program over the store: each \<open>Step\<close> is one transaction or one read, \<open>Submit\<close> is the call
  of the broker, and what follows depends on its reply. The checks of the quote, the display authority, the risk snapshot,
  the risk engine and the adapter are arguments, as are the clock and the UUIDs of each call; the fault hook of the tests is
  absent, the process is not a test run, and a response of the broker is a dictionary of scalars.
\<close>

section \<open>The store\<close>

text \<open>The tables of the orders and of the approvals in one database.\<close>

record exec_store =
  xs_books :: fill_store
  xs_workflows :: "workflow list"
  xs_approvals :: "approval list"
  xs_telegram :: "telegram_update list"
  xs_audit :: "audit_event list"

definition approval_view :: "exec_store \<Rightarrow> milestone_tables approval_store" where
  "approval_view s = \<lparr>order_intents = order_intents (xs_books s), order_events = order_events (xs_books s), orders = orders (xs_books s),
     risk_reservations = risk_reservations (xs_books s), milestones = milestones (xs_books s), workflows = xs_workflows s,
     approvals = xs_approvals s, telegram_updates = xs_telegram s, audit_events = xs_audit s\<rparr>"

definition on_approvals ::
  "(milestone_tables approval_store \<Rightarrow> ('a \<times> milestone_tables approval_store) res) \<Rightarrow> exec_store \<Rightarrow> ('a \<times> exec_store) res" where
  "on_approvals f s = rbind (f (approval_view s)) (\<lambda>(x, v). Inr (x, s\<lparr>xs_workflows := workflows v, xs_approvals := approvals v,
     xs_telegram := telegram_updates v, xs_audit := audit_events v\<rparr>))"

definition on_books :: "(fill_store \<Rightarrow> ('a \<times> fill_store) res) \<Rightarrow> exec_store \<Rightarrow> ('a \<times> exec_store) res" where
  "on_books f s = rbind (f (xs_books s)) (\<lambda>(x, b). Inr (x, s\<lparr>xs_books := b\<rparr>))"

section \<open>Programs\<close>

record broker_request =
  rq_symbol :: string
  rq_side :: string
  rq_basis :: string
  rq_amount :: pyval
  rq_order_type :: pyval
  rq_limit :: pyval
  rq_client :: string

text \<open>A response, or an exception with its \<open>request_may_have_reached_broker\<close>.\<close>

datatype broker_reply = Response pydict | Raised string "bool option"

text \<open>A request carries the id of its intent.\<close>

datatype 'a program =
    Done 'a
  | Step "exec_store \<Rightarrow> 'a program \<times> exec_store"
  | Submit string broker_request "broker_reply \<Rightarrow> 'a program"

primrec then_do :: "'a program \<Rightarrow> ('a \<Rightarrow> 'b program) \<Rightarrow> 'b program" where
  "then_do (Done x) k = k x"
| "then_do (Step f) k = Step (map_prod (\<lambda>p. then_do p k) id \<circ> f)"
| "then_do (Submit i r c) k = Submit i r (\<lambda>y. then_do (c y) k)"

definition xbind :: "'a res program \<Rightarrow> ('a \<Rightarrow> 'b res program) \<Rightarrow> 'b res program" where
  "xbind p k = then_do p (\<lambda>r. case r of Inl e \<Rightarrow> Done (Inl e) | Inr x \<Rightarrow> k x)"

definition catch :: "'a res program \<Rightarrow> (py_error \<Rightarrow> 'b res program) \<Rightarrow> ('a \<Rightarrow> 'b res program) \<Rightarrow> 'b res program" where
  "catch p h k = then_do p (\<lambda>r. case r of Inl e \<Rightarrow> h e | Inr x \<Rightarrow> k x)"

definition give :: "'a \<Rightarrow> 'a res program" where
  "give x = Done (Inr x)"

definition lift_res :: "'a res \<Rightarrow> 'a res program" where
  "lift_res r = Done r"

definition atomic :: "(exec_store \<Rightarrow> ('a \<times> exec_store) res) \<Rightarrow> 'a res program" where
  "atomic f = Step (\<lambda>s. case f s of Inl e \<Rightarrow> (Done (Inl e), s) | Inr (x, s') \<Rightarrow> (Done (Inr x), s'))"

definition ask :: "(exec_store \<Rightarrow> 'a res) \<Rightarrow> 'a res program" where
  "ask f = Step (\<lambda>s. (Done (f s), s))"

section \<open>What an execution is given\<close>

text \<open>The verified display: the fingerprints and the envelope id of its approval, and the envelope.\<close>

record shown_authority =
  sa_fingerprint :: pyval
  sa_displayed :: pyval
  sa_display :: pyval
  sa_envelope :: pydict

record executor_env =
  xe_broker :: bool
  xe_proven :: bool
  xe_run :: "string option"
  xe_protective :: "unit res"
  xe_autonomous_entry :: "unit res"
  xe_autonomous_exit :: "unit res"
  xe_quote :: "pydict \<Rightarrow> unit res"
  xe_sha256 :: "string \<Rightarrow> string"
  xe_envelope :: "pydict \<Rightarrow> string \<Rightarrow> pydict"
  xe_display :: "string \<Rightarrow> string \<Rightarrow> string \<Rightarrow> exec_store \<Rightarrow> shown_authority res"
  xe_expiry :: "pyval \<Rightarrow> rat option"
  xe_time :: rat
  xe_capture :: "pydict \<Rightarrow> string \<Rightarrow> string option \<Rightarrow> string option \<Rightarrow> exec_store \<Rightarrow> (string \<times> pydict) res"
  xe_risk :: "pydict \<Rightarrow> pydict \<Rightarrow> bool \<times> string list"
  xe_create :: "exec_store \<Rightarrow> creation_env \<times> creation_tables"
  xe_prior :: "order_intent \<Rightarrow> string option \<Rightarrow> exec_store \<Rightarrow> unit res"
  xe_refresh :: "order_intent \<Rightarrow> pydict \<Rightarrow> string option \<Rightarrow> exec_store \<Rightarrow> (string \<times> pydict) res"
  xe_config_hash :: string
  xe_formulas :: "pyval \<Rightarrow> bool"
  xe_adapter :: "unit res"
  xe_clock :: "nat \<Rightarrow> string"
  xe_fresh :: "nat \<Rightarrow> string"
  xe_workflow :: "nat \<Rightarrow> string"
  xe_record :: record_env
  xe_now :: string
  xe_payload :: "pydict \<Rightarrow> pyval"

record exec_result =
  er_submitted :: bool
  er_status :: string
  er_client :: "string option"
  er_reason :: string
  er_intent :: "string option"

definition blocked :: "string option \<Rightarrow> string \<Rightarrow> exec_result" where
  "blocked client reason = \<lparr>er_submitted = False, er_status = ''blocked'', er_client = client, er_reason = reason, er_intent = None\<rparr>"

text \<open>\<open>str(exc)\<close> and the classes of an exception.\<close>

fun error_text :: "py_error \<Rightarrow> string" where
  "error_text (ValueError m) = m"
| "error_text (TypeError m) = m"
| "error_text (RuntimeError m) = m"
| "error_text (PermissionError m) = m"
| "error_text (LookupError m) = m"
| "error_text (KeyError m) = CHR 0x27 # m @ [CHR 0x27]"
| "error_text (InvalidOrderTransition m) = m"
| "error_text (ApprovalWorkflowConflict m) = m"
| "error_text (CryptoSizingError m) = m"
| "error_text (IntegrityError m) = m"
| "error_text (OperationalError m) = m"
| "error_text _ = []"

fun runtime_error :: "py_error \<Rightarrow> bool" where
  "runtime_error (RuntimeError m) = True"
| "runtime_error (InvalidOrderTransition m) = True"
| "runtime_error (ApprovalWorkflowConflict m) = True"
| "runtime_error _ = False"

fun value_error :: "py_error \<Rightarrow> bool" where
  "value_error (ValueError m) = True"
| "value_error (CryptoSizingError m) = True"
| "value_error _ = False"

fun type_error :: "py_error \<Rightarrow> bool" where
  "type_error (TypeError m) = True"
| "type_error _ = False"

fun permission_error :: "py_error \<Rightarrow> bool" where
  "permission_error (PermissionError m) = True"
| "permission_error _ = False"

fun database_error :: "py_error \<Rightarrow> bool" where
  "database_error (IntegrityError m) = True"
| "database_error (OperationalError m) = True"
| "database_error _ = False"

section \<open>Before the authority is loaded\<close>

definition as_flag :: "pyval \<Rightarrow> int res" where
  "as_flag v = rbind (py_int (py_or v (PyInt 0))) (\<lambda>n. case n of
     Some k \<Rightarrow> Inr k
   | None \<Rightarrow> Inl (ValueError ''invalid literal for int() with base 10''))"

definition support :: "unit res \<Rightarrow> exec_result option res" where
  "support r = (case r of
     Inr u \<Rightarrow> Inr None
   | Inl e \<Rightarrow> if permission_error e then Inr (Some (blocked None (error_text e))) else Inl e)"

definition emergency_gate :: "executor_env \<Rightarrow> pydict \<Rightarrow> string option \<Rightarrow> exec_result option res" where
  "emergency_gate env p approval =
     rbind (support (xe_protective env)) (\<lambda>refused. case refused of
       Some r \<Rightarrow> Inr (Some r)
     | None \<Rightarrow>
         if \<not> given_text approval then Inr (Some (blocked None ''manual approval is required for protective paper exits''))
         else if lower (py_str (dget_or p ''side'' (PyStr []))) \<noteq> ''sell''
         then Inr (Some (blocked None ''ordinary workflows cannot use the protective paper-exit path''))
         else rbind (as_flag (dget p ''emergency_exit_triggered'')) (\<lambda>n. Inr (
           if n \<noteq> 1 \<or> \<not> truthy (dget p ''emergency_exit_trigger_reason'')
           then Some (blocked None ''ordinary workflows cannot use the protective paper-exit path'') else None)))"

definition QUOTE_FIELDS :: "string list" where
  "QUOTE_FIELDS = [''quote_bid'', ''quote_ask'', ''quote_timestamp'', ''quote_spread_bps'', ''limit_price'']"

definition quote_gate :: "executor_env \<Rightarrow> pydict \<Rightarrow> exec_result option res" where
  "quote_gate env p =
     (if list_ex (\<lambda>k. dget p k = PyNone) QUOTE_FIELDS \<or> dget p ''order_type'' \<noteq> PyStr ''limit''
      then Inr (Some (blocked None ''fresh validated quote and bounded limit price are required for normal orders''))
      else case xe_quote env p of
        Inr u \<Rightarrow> Inr None
      | Inl e \<Rightarrow> if type_error e \<or> value_error e then Inr (Some (blocked None (''quote validation blocked: '' @ error_text e))) else Inl e)"

definition execution_gate :: "executor_env \<Rightarrow> pydict \<Rightarrow> string \<Rightarrow> string option \<Rightarrow> exec_result option res" where
  "execution_gate env p source_type approval =
     (if or_str [dget p ''trading_mode'', dget p ''mode'', PyStr ''paper''] \<noteq> ''paper''
      then Inr (Some (blocked None ''paper execution is the only supported execution mode''))
      else rbind (if source_type = ''emergency'' then emergency_gate env p approval
                  else if dget p ''autonomous_entry_requested'' = PyBool True then support (xe_autonomous_entry env)
                  else if dget p ''autonomous_exit_requested'' = PyBool True then support (xe_autonomous_exit env)
                  else quote_gate env p) (\<lambda>refused. case refused of
        Some r \<Rightarrow> Inr (Some r)
      | None \<Rightarrow> Inr (if dget p ''status'' \<noteq> PyStr ''approved'' then Some (blocked None ''validated durable approval required'') else None)))"

section \<open>Moves\<close>

definition find_action :: "string \<Rightarrow> exec_store \<Rightarrow> order_intent option" where
  "find_action key s = fetch_one (\<lambda>r. dget (oi_data r) ''logical_action_key'' = PyStr key) (order_intents (xs_books s))"

definition intent_client :: "order_intent \<Rightarrow> string" where
  "intent_client r = py_str (dget (oi_data r) ''client_order_id'')"

definition move_order_intent ::
  "executor_env \<Rightarrow> nat \<Rightarrow> string \<Rightarrow> order_state \<Rightarrow> transition_args \<Rightarrow> order_intent res program" where
  "move_order_intent env k i target a = atomic (on_books (intent_transition
     \<lparr>ee_now = xe_clock env k, ee_fresh = xe_fresh env k, ee_milestone_terminal = apply_take_profit_terminal_state\<rparr> i target a))"

definition transition_of :: "string \<Rightarrow> order_state option \<Rightarrow> string option \<Rightarrow> string option \<Rightarrow> string option \<Rightarrow> transition_args" where
  "transition_of event expected broker err summary = \<lparr>ta_event_type = event, ta_broker_order = broker, ta_error = err,
     ta_summary = summary, ta_expected = expected\<rparr>"

definition no_workflow_args :: workflow_args where
  "no_workflow_args = \<lparr>wa_expected_state = None, wa_expected_version = None, wa_owner = None, wa_intent = None, wa_validation = None,
     wa_detail = None\<rparr>"

definition move_workflow_of ::
  "executor_env \<Rightarrow> nat \<Rightarrow> string \<Rightarrow> workflow_state \<Rightarrow> workflow_args \<Rightarrow> workflow res program" where
  "move_workflow_of env k i target a = atomic (on_approvals (workflow_transition (xe_workflow env k) i target a))"

definition current_workflow :: "string \<Rightarrow> workflow res program" where
  "current_workflow i = ask (\<lambda>s. get_workflow i (approval_view s))"

text \<open>\<open>if current["state"] == source: transition(...)\<close>\<close>

definition advance_workflow ::
  "executor_env \<Rightarrow> nat \<Rightarrow> string \<Rightarrow> workflow_state \<Rightarrow> workflow_state \<Rightarrow> workflow_args \<Rightarrow> unit res program" where
  "advance_workflow env k i source target a =
     xbind (current_workflow i) (\<lambda>w.
     if wf_state w = source then xbind (move_workflow_of env k i target a) (\<lambda>_. give ()) else give ())"

section \<open>Without a broker\<close>

definition deferred :: "order_intent \<Rightarrow> string \<Rightarrow> string \<Rightarrow> exec_result" where
  "deferred r status reason = \<lparr>er_submitted = False, er_status = status, er_client = Some (intent_client r), er_reason = reason,
     er_intent = (if oi_id r = [] then None else Some (oi_id r))\<rparr>"

definition retry_later :: "order_intent \<Rightarrow> exec_result" where
  "retry_later r = deferred r (state_value RETRYABLE_PRE_SUBMISSION)
     ''broker unavailable before submission; retry is permitted only while approval remains current''"

definition without_broker :: "executor_env \<Rightarrow> string \<Rightarrow> string \<Rightarrow> exec_result res program" where
  "without_broker env key client =
     xbind (ask (\<lambda>s. Inr (find_action key s))) (\<lambda>found. case found of
       None \<Rightarrow> give \<lparr>er_submitted = False, er_status = state_value RETRYABLE_PRE_SUBMISSION, er_client = Some client,
          er_reason = ''broker unavailable before intent creation; no broker invocation occurred'', er_intent = None\<rparr>
     | Some r \<Rightarrow>
         if oi_broker_invoked r \<noteq> 0 \<or> oi_state r \<in> {state_value UNKNOWN, state_value RECONCILIATION_REQUIRED}
         then give (deferred r (if oi_state r = [] then state_value UNKNOWN else oi_state r)
           (if oi_state r \<in> {state_value UNKNOWN, state_value RECONCILIATION_REQUIRED}
            then ''existing durable intent requires reconciliation; broker was unavailable before this call''
            else ''existing intent records a prior broker invocation; automatic resubmission is disabled''))
         else if oi_state r \<in> {state_value CREATED, state_value RESERVED}
         then xbind (lift_res (order_state_of (oi_state r))) (\<lambda>q.
              xbind (move_order_intent env 0 (oi_id r) RETRYABLE_PRE_SUBMISSION (transition_of ''broker_unavailable_before_submission''
                (Some q) None None (Some ''broker unavailable before any invocation; reservation preserved''))) (\<lambda>r'. give (retry_later r')))
         else if oi_state r = state_value SUBMITTING
         then (if \<not> xe_proven env
           then give (deferred r (oi_state r) ''submission state requires explicit proof of no prior broker invocation before retry'')
           else xbind (move_order_intent env 0 (oi_id r) RETRYABLE_PRE_SUBMISSION
                  (transition_of ''broker_unavailable_recovery_deferred_before_submission'' (Some SUBMITTING) None None
                    (Some ''broker unavailable; explicit no-invocation proof preserved retryable recovery''))) (\<lambda>r'. give (retry_later r')))
         else if oi_state r \<notin> {state_value CREATED, state_value RETRYABLE_PRE_SUBMISSION}
         then give (deferred r (if oi_state r = [] then state_value RETRYABLE_PRE_SUBMISSION else oi_state r)
           ''existing durable intent is not eligible for pre-submission recovery'')
         else give (retry_later r))"

section \<open>The authority of the approval\<close>

definition EXTENDED_FIELDS :: "(string \<times> string) list" where
  "EXTENDED_FIELDS = [(''approval_source_type'', ''approval_source_type''), (''execution_path'', ''execution_path''),
     (''request_basis'', ''request_basis''), (''rotation_group_id'', ''rotation_group_id''), (''rotation_step_id'', ''rotation_step_id''),
     (''emergency_exit_triggered'', ''emergency_triggered''), (''emergency_exit_hard_trigger'', ''emergency_trigger_identity''),
     (''emergency_exit_trigger_reason'', ''emergency_trigger_reason''), (''emergency_exit_mode'', ''emergency_trigger_mode''),
     (''proposal_version'', ''proposal_version''), (''display_context_type'', ''display_context_type''),
     (''display_context_id'', ''display_context_id'')]"

definition HYDRATED_FIELDS :: "string list" where
  "HYDRATED_FIELDS = [''strategy_version'', ''position_lifecycle_id'', ''relationship_type'', ''relationship_group_id'', ''config_hash'']"

definition hydrate :: "pydict \<Rightarrow> pydict \<Rightarrow> pydict" where
  "hydrate p e = (let p1 = fold (\<lambda>k q. if blank (dget q k) \<and> dget e k \<noteq> PyNone then q(k \<mapsto> dget e k) else q) HYDRATED_FIELDS p in
     if blank (dget p1 ''formula_versions'') \<and> truthy (dget e ''formula_versions'')
     then p1(''formula_versions'' \<mapsto> dget e ''formula_versions'') else p1)"

definition AUTHORITY_FIELDS :: "string list" where
  "AUTHORITY_FIELDS = [''proposal_id'', ''symbol'', ''side'', ''action'', ''position_lifecycle_id'', ''strategy_version'',
     ''relationship_type'', ''relationship_group_id'', ''expires_at'', ''config_hash'', ''formula_versions'']"

text \<open>A reason to refuse, or \<open>None\<close>.\<close>

type_synonym refusal = "string option res"

definition first_refusal :: "('a \<Rightarrow> refusal) \<Rightarrow> 'a list \<Rightarrow> refusal" where
  "first_refusal f xs = foldr (\<lambda>x rest. rbind (f x) (\<lambda>r. case r of Some m \<Rightarrow> Inr (Some m) | None \<Rightarrow> rest)) xs (Inr None)"

definition also_refuse :: "refusal \<Rightarrow> refusal \<Rightarrow> refusal" where
  "also_refuse a b = rbind a (\<lambda>r. case r of Some m \<Rightarrow> Inr (Some m) | None \<Rightarrow> b)"

definition displayed_maximum :: "pyval \<Rightarrow> string \<Rightarrow> (rat option \<Rightarrow> refusal) \<Rightarrow> refusal" where
  "displayed_maximum v label k = (case decimal_value v (''displayed maximum '' @ label) None False of
     Inr x \<Rightarrow> k x
   | Inl e \<Rightarrow> if value_error e then Inr (Some (''displayed maximum '' @ label @ '' is invalid'')) else Inl e)"

definition refuse_limit :: "pydict \<Rightarrow> string \<times> rat \<times> string \<Rightarrow> refusal" where
  "refuse_limit e x = (case x of (label, actual, key) \<Rightarrow>
     if dget e key = PyNone then Inr None
     else displayed_maximum (dget e key) label (\<lambda>m. Inr (case m of
       None \<Rightarrow> Some (''approved '' @ label @ '' may only stay equal or decrease'')
     | Some c \<Rightarrow> if actual > c then Some (''approved '' @ label @ '' may only stay equal or decrease'') else None)))"

definition refuse_ceiling :: "pydict \<Rightarrow> pydict \<Rightarrow> string \<times> string \<times> string \<Rightarrow> refusal" where
  "refuse_ceiling p e x = (case x of (label, mine, key) \<Rightarrow>
     rbind (case decimal_value (dget p mine) ''approved ceiling'' None False of
         Inr c \<Rightarrow> Inr c | Inl err \<Rightarrow> if value_error err then Inr None else Inl err) (\<lambda>candidate.
     if dget e key = PyNone then Inr None
     else case candidate of
       None \<Rightarrow> Inr (Some (label @ '' ceiling is required''))
     | Some c \<Rightarrow> displayed_maximum (dget e key) label (\<lambda>m. Inr (case m of
         None \<Rightarrow> Some (''approved '' @ label @ '' may not increase'')
       | Some limit \<Rightarrow> if c > limit then Some (''approved '' @ label @ '' may not increase'') else None))))"

definition refuse_sizing :: "pydict \<Rightarrow> pydict \<Rightarrow> refusal" where
  "refuse_sizing p e = (case rbind (canonical_sizing p) (\<lambda>z. rbind (enforce_ceilings z p False) (\<lambda>_. Inr z)) of
     Inl err \<Rightarrow> if type_error err \<or> value_error err \<or> runtime_error err then Inr (Some ''approved quantity is invalid'') else Inl err
   | Inr z \<Rightarrow> first_refusal (refuse_limit e) [(''quantity'', cs_quantity z, ''max_quantity''),
       (''notional'', cs_notional z, ''max_notional''), (''stop risk'', cs_stop_risk z, ''max_stop_risk'')])"

definition CEILING_FIELDS :: "(string \<times> string \<times> string) list" where
  "CEILING_FIELDS = [(''approved quantity'', ''approved_quantity_ceiling'', ''max_quantity''),
     (''approved notional'', ''approved_notional_ceiling'', ''max_notional''),
     (''approved stop risk'', ''approved_stop_risk_ceiling'', ''max_stop_risk'')]"

definition refuse_expiry :: "executor_env \<Rightarrow> pydict \<Rightarrow> refusal" where
  "refuse_expiry env e = Inr (case xe_expiry env (dget e ''expires_at'') of
     None \<Rightarrow> Some ''authoritative approval expiry is invalid''
   | Some t \<Rightarrow> if t \<le> xe_time env then Some ''approval or proposal has expired'' else None)"

definition refuse_extended :: "pydict \<Rightarrow> pydict \<Rightarrow> string \<times> string \<Rightarrow> refusal" where
  "refuse_extended p e x = (case x of (c, f) \<Rightarrow> Inr (
     if \<not> blank (dget p c) \<and> \<not> py_eq (dget p c) (dget e f)
     then Some (''approved '' @ c @ '' does not match the displayed proposal'') else None))"

definition refuse_field :: "pydict \<Rightarrow> pydict \<Rightarrow> string \<Rightarrow> refusal" where
  "refuse_field mine e k = Inr (if \<not> py_eq (dget mine k) (dget e k) then Some (''approved '' @ k @ '' does not match the stored proposal'') else None)"

definition authorized_terms :: "shown_authority \<Rightarrow> pydict \<Rightarrow> pydict" where
  "authorized_terms a p = (let e = sa_envelope a; f = PyStr (or_str [sa_fingerprint a]) in
     p(''approval_authority_fingerprint'' \<mapsto> f, ''displayed_fingerprint'' \<mapsto> f, ''execution_path'' \<mapsto> dget e ''execution_path'',
       ''approval_source_type'' \<mapsto> dget e ''approval_source_type'', ''request_basis'' \<mapsto> dget e ''request_basis'',
       ''proposal_version'' \<mapsto> dget e ''proposal_version'', ''display_envelope_id'' \<mapsto> sa_display a,
       ''display_context_type'' \<mapsto> dget e ''display_context_type'', ''display_context_id'' \<mapsto> dget e ''display_context_id'',
       ''config_hash'' \<mapsto> dget e ''config_hash'', ''formula_versions'' \<mapsto> dget e ''formula_versions''))"

definition refuse_terms :: "executor_env \<Rightarrow> shown_authority \<Rightarrow> pydict \<Rightarrow> string \<Rightarrow> refusal" where
  "refuse_terms env a p proposal = (let e = sa_envelope a; q = hydrate p e in
     also_refuse (refuse_expiry env e) (
     also_refuse (first_refusal (refuse_extended p e) EXTENDED_FIELDS) (
     also_refuse (first_refusal (refuse_field (xe_envelope env q proposal) e) AUTHORITY_FIELDS) (
     also_refuse (refuse_sizing q e) (
     first_refusal (refuse_ceiling q e) CEILING_FIELDS)))))"

definition NOT_EXECUTABLE :: "workflow_state list" where
  "NOT_EXECUTABLE = [RECEIVED, AUTHORIZED, TARGET_RESOLVED, VALIDATING, APPROVED_PENDING_INTENT, BLOCKED, MANUAL_REVIEW]"

definition refuse_workflow :: "order_intent option \<Rightarrow> string option \<Rightarrow> string \<Rightarrow> workflow \<Rightarrow> refusal" where
  "refuse_workflow existing given approval w = Inr (case existing of
     Some r \<Rightarrow>
       if (case oi_approval r of None \<Rightarrow> [] | Some i \<Rightarrow> i) \<noteq> approval then Some ''existing intent is linked to a different approval''
       else if (case wf_intent w of None \<Rightarrow> [] | Some i \<Rightarrow> i) \<noteq> oi_id r then Some ''approval workflow is not linked to the existing intent''
       else if wf_state w \<in> set NOT_EXECUTABLE then Some ''approval workflow is not executable for the existing intent''
       else None
   | None \<Rightarrow>
       if \<not> given_text given then Some ''approval_id is required for every new execution intent''
       else if wf_state w \<notin> {VALIDATING, APPROVED_PENDING_INTENT} then Some ''approval workflow is not executable'' else None)"

text \<open>The intent of the action, and either the reason of a refusal or the candidate with its authority.\<close>

definition effective_approval :: "string option \<Rightarrow> order_intent option \<Rightarrow> string" where
  "effective_approval given existing = (case given of
     Some a \<Rightarrow> if a \<noteq> [] then a else (case existing of None \<Rightarrow> [] | Some r \<Rightarrow> (case oi_approval r of None \<Rightarrow> [] | Some i \<Rightarrow> i))
   | None \<Rightarrow> (case existing of None \<Rightarrow> [] | Some r \<Rightarrow> (case oi_approval r of None \<Rightarrow> [] | Some i \<Rightarrow> i)))"

definition load_authority ::
  "executor_env \<Rightarrow> pydict \<Rightarrow> string option \<Rightarrow> string \<Rightarrow> (order_intent option \<times> (string + pydict)) res program" where
  "load_authority env p given source_type = (let proposal = or_str [dget p ''proposal_id'', dget p ''id''] in
     if proposal = [] then give (None, Inl ''proposal identity is required for manual approval'')
     else xbind (ask (\<lambda>s. Inr (find_action (logical_action_key p source_type 0) s))) (\<lambda>existing.
       let approval = effective_approval given existing in
       if approval = [] then give (existing, Inl ''approval_id is required for every new execution intent'')
       else xbind (ask (\<lambda>s. Inr (get_by_approval approval (approval_view s)))) (\<lambda>workflow. case workflow of
         None \<Rightarrow> give (existing, Inl ''durable approval workflow is required'')
       | Some w \<Rightarrow>
           if wf_proposal w \<noteq> proposal then give (existing, Inl ''approval workflow is not linked to this proposal'')
           else catch (ask (xe_display env approval proposal source_type))
             (\<lambda>e. if runtime_error e then give (existing, Inl (error_text e)) else lift_res (Inl e))
             (\<lambda>a. xbind (lift_res (also_refuse (refuse_terms env a p proposal) (refuse_workflow existing given approval w))) (\<lambda>refused.
                give (existing, case refused of Some m \<Rightarrow> Inl m | None \<Rightarrow> Inr (authorized_terms a (hydrate p (sa_envelope a)))))))))"

section \<open>To the intent\<close>

text \<open>An intent that no call can have taken to the broker: the retry of such an intent is allowed.\<close>

definition never_invoked :: "executor_env \<Rightarrow> order_state \<Rightarrow> order_intent \<Rightarrow> bool" where
  "never_invoked env q r \<longleftrightarrow> oi_broker_invoked r = 0 \<and> (q = RETRYABLE_PRE_SUBMISSION \<or> (q = SUBMITTING \<and> xe_proven env))"

definition recovered_intent :: "executor_env \<Rightarrow> order_intent option \<Rightarrow> string option" where
  "recovered_intent env existing = (case existing of
     None \<Rightarrow> None
   | Some r \<Rightarrow> if oi_broker_invoked r = 0 \<and> (oi_state r = state_value RETRYABLE_PRE_SUBMISSION
         \<or> (oi_state r = state_value SUBMITTING \<and> xe_proven env)) then Some (oi_id r) else None)"

definition execution_run :: "executor_env \<Rightarrow> pydict \<Rightarrow> order_intent option \<Rightarrow> string option" where
  "execution_run env p existing = (let run = or_str [case existing of None \<Rightarrow> PyNone | Some r \<Rightarrow> dget (oi_data r) ''run_id'',
       text_val (xe_run env), dget p ''run_id''] in if run = [] then None else Some run)"

definition final_context :: "pydict \<Rightarrow> pydict \<Rightarrow> pyval \<Rightarrow> pydict" where
  "final_context context p snapshot = context(''approval_valid'' \<mapsto> PyBool True, ''final_revalidation'' \<mapsto> PyBool True,
     ''authoritative_risk_snapshot_id'' \<mapsto> snapshot,
     ''autonomous_entry_requested'' \<mapsto> PyBool (dget p ''autonomous_entry_requested'' = PyBool True),
     ''autonomous_exit_requested'' \<mapsto> PyBool (dget p ''autonomous_exit_requested'' = PyBool True))"

definition join_reasons :: "string list \<Rightarrow> string" where
  "join_reasons ws = (case ws of [] \<Rightarrow> [] | w # vs \<Rightarrow> w @ concat (map (\<lambda>v. ''; '' @ v) vs))"

definition CONTINUED_STATES :: "workflow_state list" where
  "CONTINUED_STATES = [APPROVED_PENDING_INTENT, INTENT_CREATED, SUBMISSION_PENDING, SUBMISSION_STARTED, SUBMITTED_WF, UNKNOWN_WF, TERMINAL]"

text \<open>The workflow passes its final validation; a lost compare-and-swap is read again.\<close>

definition approve_workflow :: "executor_env \<Rightarrow> string \<Rightarrow> order_intent option \<Rightarrow> workflow \<Rightarrow> string option res program" where
  "approve_workflow env client existing w =
     (if wf_state w = VALIDATING \<and> existing = None then
        catch (move_workflow_of env 0 (wf_id w) APPROVED_PENDING_INTENT (no_workflow_args\<lparr>wa_expected_state := Some VALIDATING,
            wa_validation := Some ''passed'', wa_detail := Some ''final local validation passed''\<rparr>))
          (\<lambda>e. case e of
             ApprovalWorkflowConflict m \<Rightarrow> xbind (current_workflow (wf_id w)) (\<lambda>v.
               give (if wf_state v \<notin> set CONTINUED_STATES then Some ''approval workflow changed before execution'' else None))
           | _ \<Rightarrow> lift_res (Inl e))
          (\<lambda>_. give None)
      else if (wf_intent w = None \<or> wf_intent w = Some []) \<and> wf_state w \<noteq> APPROVED_PENDING_INTENT
      then give (Some ''approval workflow is not executable'')
      else give None)"

definition create_on ::
  "executor_env \<Rightarrow> creation_args \<Rightarrow> exec_store \<Rightarrow> (order_intent \<times> exec_store) res" where
  "create_on env a s = (case xe_create env s of (cenv, t) \<Rightarrow>
     rbind (create_or_get_intent cenv t a (xs_workflows s) (xs_books s)) (\<lambda>(r, ws, b). Inr (r, s\<lparr>xs_books := b, xs_workflows := ws\<rparr>)))"

definition reused :: "order_intent \<Rightarrow> order_state \<Rightarrow> exec_result" where
  "reused r q = \<lparr>er_submitted = q \<in> {SUBMITTED, PARTIALLY_FILLED, FILLED}, er_status = state_value q, er_client = Some (intent_client r),
     er_reason = ''existing durable intent reused; no duplicate broker call'', er_intent = Some (oi_id r)\<rparr>"

section \<open>The boundary of the broker\<close>

text \<open>The intent starts its submission, once.\<close>

definition start_submission ::
  "executor_env \<Rightarrow> order_state \<Rightarrow> order_intent \<Rightarrow> string \<Rightarrow> order_intent res program" where
  "start_submission env q r w =
     xbind (if \<not> never_invoked env q r
            then move_order_intent env 1 (oi_id r) SUBMITTING (transition_of ''broker_submission_started'' (Some RESERVED) None None None)
            else if q = RETRYABLE_PRE_SUBMISSION
            then move_order_intent env 2 (oi_id r) SUBMITTING
              (transition_of ''broker_submission_retried_before_any_prior_invocation'' (Some RETRYABLE_PRE_SUBMISSION) None None None)
            else give r) (\<lambda>r'.
     xbind (advance_workflow env 2 w SUBMISSION_PENDING SUBMISSION_STARTED no_workflow_args) (\<lambda>_. give r'))"

definition invoke_row :: "string \<Rightarrow> order_intent \<Rightarrow> order_intent" where
  "invoke_row now r = r\<lparr>oi_broker_invoked := 1, oi_updated := now,
     oi_data := (oi_data r)(''broker_invocation_started_at'' \<mapsto> PyStr now)\<rparr>"

definition may_invoke :: "order_intent \<Rightarrow> bool" where
  "may_invoke r \<longleftrightarrow> oi_state r = state_value SUBMITTING \<and> oi_broker_invoked r = 0"

definition reserved_once :: "string \<Rightarrow> fill_store \<Rightarrow> bool" where
  "reserved_once i b \<longleftrightarrow> count_where (\<lambda>x. rr_intent x = i \<and> rr_state x = ''active'') (risk_reservations b) = 1"

definition workflow_started :: "string \<Rightarrow> workflow \<Rightarrow> bool" where
  "workflow_started i w \<longleftrightarrow> wf_state w = SUBMISSION_STARTED \<and> (case wf_intent w of None \<Rightarrow> [] | Some j \<Rightarrow> j) = i"

definition approval_of :: "order_intent \<Rightarrow> string" where
  "approval_of r = (case oi_approval r of None \<Rightarrow> [] | Some a \<Rightarrow> a)"

definition row_text :: "order_intent \<Rightarrow> string \<Rightarrow> string" where
  "row_text r k = or_str [dget (oi_data r) k]"

text \<open>The transaction of \<open>verify_snapshot_immediately_before_broker\<close>: the rows still carry the authority, and the intent takes
  the refreshed snapshot.\<close>

definition same_authority :: "order_intent \<Rightarrow> string option \<Rightarrow> order_intent \<Rightarrow> bool" where
  "same_authority r run x \<longleftrightarrow> row_text x ''proposal_id'' = row_text r ''proposal_id'' \<and> approval_of x = approval_of r
     \<and> row_text x ''run_id'' = (case run of None \<Rightarrow> [] | Some i \<Rightarrow> i)
     \<and> row_text x ''logical_action_key'' = row_text r ''logical_action_key'' \<and> may_invoke x"

definition confirm_authority ::
  "executor_env \<Rightarrow> string \<Rightarrow> string option \<Rightarrow> order_intent \<Rightarrow> string \<Rightarrow> exec_store \<Rightarrow> (unit \<times> exec_store) res" where
  "confirm_authority env source_type run r snapshot s = (let i = oi_id r; b = xs_books s in
     case fetch_one (\<lambda>x. oi_id x = i) (order_intents b) of
       None \<Rightarrow> Inl (RuntimeError ''current execution intent disappeared before broker invocation'')
     | Some x \<Rightarrow>
         if \<not> same_authority r run x then Inl (RuntimeError ''current execution intent is no longer valid for pre-invocation submission'')
         else if \<not> reserved_once i b then Inl (RuntimeError ''current execution reservation was revoked or duplicated'')
         else rbind (xe_display env (approval_of r) (row_text r ''proposal_id'') source_type s) (\<lambda>a.
           case fetch_one (\<lambda>w. wf_approval w = approval_of r) (xs_workflows s) of
             None \<Rightarrow> Inl (RuntimeError ''approval workflow is no longer executable before broker invocation'')
           | Some w \<Rightarrow>
               if \<not> workflow_started i w \<or> wf_proposal w \<noteq> row_text r ''proposal_id''
               then Inl (RuntimeError ''approval workflow is no longer executable before broker invocation'')
               else if or_str [sa_displayed a] \<noteq> row_text x ''displayed_fingerprint''
               then Inl (RuntimeError ''display authority changed before broker invocation'')
               else if or_str [dget (sa_envelope a) ''config_hash''] \<noteq> xe_config_hash env
               then Inl (RuntimeError ''configuration identity changed after approval'')
               else if \<not> xe_formulas env (dget (sa_envelope a) ''formula_versions'')
               then Inl (RuntimeError ''formula identity changed after approval'')
               else Inr ((), s\<lparr>xs_books := b\<lparr>order_intents := update_where (\<lambda>x. oi_id x = i)
                      (rebind_snapshot (xe_now env) snapshot) (order_intents b)\<rparr>\<rparr>)))"

definition verify_before_broker ::
  "executor_env \<Rightarrow> pydict \<Rightarrow> string \<Rightarrow> string option \<Rightarrow> order_intent \<Rightarrow> pydict res program" where
  "verify_before_broker env p source_type run r =
     xbind (ask (xe_prior env r run)) (\<lambda>_.
     xbind (ask (xe_refresh env r p run)) (\<lambda>(snapshot, context).
     xbind (atomic (confirm_authority env source_type run r snapshot)) (\<lambda>_. give context)))"

text \<open>The marker: the last transaction before the call of the broker.\<close>

definition mark_invocation :: "executor_env \<Rightarrow> string \<Rightarrow> string \<Rightarrow> order_intent \<Rightarrow> exec_store \<Rightarrow> (unit \<times> exec_store) res" where
  "mark_invocation env source_type i refreshed s =
     (let b = xs_books s; changed = Inl (RuntimeError ''intent or reservation changed at the final adapter boundary'') in
      case fetch_one (\<lambda>r. oi_id r = i) (order_intents b) of
        None \<Rightarrow> changed
      | Some r \<Rightarrow>
          if \<not> may_invoke r \<or> row_text r ''risk_snapshot_id'' \<noteq> row_text refreshed ''risk_snapshot_id'' \<or> \<not> reserved_once i b
          then changed
          else rbind (xe_display env (approval_of r) (row_text r ''proposal_id'') source_type s) (\<lambda>_.
            case fetch_one (\<lambda>w. wf_approval w = approval_of r) (xs_workflows s) of
              None \<Rightarrow> Inl (RuntimeError ''approval workflow changed at the final adapter boundary'')
            | Some w \<Rightarrow>
                if \<not> workflow_started i w
                then Inl (RuntimeError ''approval workflow changed at the final adapter boundary'')
                else if count_where (\<lambda>x. oi_id x = i \<and> may_invoke x) (order_intents b) \<noteq> 1
                then Inl (RuntimeError ''broker invocation authority was concurrently consumed'')
                else Inr ((), s\<lparr>xs_books := b\<lparr>order_intents := update_where (\<lambda>x. oi_id x = i \<and> may_invoke x)
                       (invoke_row (xe_now env)) (order_intents b)\<rparr>\<rparr>)))"

text \<open>Everything is checked again, and the marker is set.\<close>

definition final_authority ::
  "executor_env \<Rightarrow> pydict \<Rightarrow> string \<Rightarrow> string option \<Rightarrow> order_intent \<Rightarrow> unit res program" where
  "final_authority env p source_type run r =
     xbind (verify_before_broker env p source_type run r) (\<lambda>context.
     xbind (ask (\<lambda>s. get_intent (oi_id r) (xs_books s))) (\<lambda>refreshed.
     case xe_risk env p (final_context context p (dget (oi_data refreshed) ''risk_snapshot_id'')) of
       (passed, reasons) \<Rightarrow>
         if \<not> passed then lift_res (Inl (RuntimeError (''final pre-broker risk controls failed: '' @ join_reasons reasons)))
         else xbind (lift_res (xe_adapter env)) (\<lambda>_. atomic (mark_invocation env source_type (oi_id r) refreshed))))"

text \<open>A failure before the marker rejects the intent.\<close>

definition reject_before_broker :: "executor_env \<Rightarrow> string \<Rightarrow> order_intent \<Rightarrow> py_error \<Rightarrow> exec_result res program" where
  "reject_before_broker env w r e =
     xbind (move_order_intent env 3 (oi_id r) REJECTED (transition_of ''authoritative_snapshot_changed_before_broker'' (Some SUBMITTING) None
       (Some (error_class e)) (Some (''pre-broker control failure: '' @ error_class e @ '': '' @ take 300 (error_text e))))) (\<lambda>_.
     xbind (advance_workflow env 3 w SUBMISSION_STARTED TERMINAL no_workflow_args) (\<lambda>_.
     give \<lparr>er_submitted = False, er_status = state_value REJECTED, er_client = Some (intent_client r),
       er_reason = ''authoritative execution evidence changed or expired before broker invocation: '' @ error_text e,
       er_intent = Some (oi_id r)\<rparr>))"

section \<open>The reply of the broker\<close>

text \<open>The REAL column of a decimal column.\<close>

definition real_column :: "pyval \<Rightarrow> pyval" where
  "real_column v = (case v of PyStr t \<Rightarrow> (case parse_decimal t of Some (Fin x) \<Rightarrow> legacy_val x | _ \<Rightarrow> PyNone) | _ \<Rightarrow> PyNone)"

text \<open>No order when the column of its size is empty: \<open>float(None)\<close> raises before the call.\<close>

definition broker_order :: "pydict \<Rightarrow> order_intent \<Rightarrow> broker_request option" where
  "broker_order p r = (let d = oi_data r;
       by_notional = dget d ''request_basis'' = PyStr ''notional'' \<and> real_column (dget d ''requested_notional_decimal'') \<noteq> PyNone;
       amount = real_column (dget d (if by_notional then ''requested_notional_decimal'' else ''requested_quantity_decimal'')) in
     if amount = PyNone then None
     else Some \<lparr>rq_symbol = py_str (dget d ''symbol''), rq_side = py_str (dget d ''side''),
       rq_basis = (if by_notional then ''notional'' else ''qty''), rq_amount = amount,
       rq_order_type = dget_or p ''order_type'' (PyStr ''market''), rq_limit = dget p ''limit_price'', rq_client = intent_client r\<rparr>)"

definition positive_decimal :: "pyval \<Rightarrow> string \<Rightarrow> rat option" where
  "positive_decimal v label = (case decimal_value v label (Some 0) False of Inr (Some x) \<Rightarrow> if x = 0 then None else Some x | _ \<Rightarrow> None)"

definition response_order :: "pydict \<Rightarrow> string option" where
  "response_order resp = (let i = or_str [dget resp ''id''] in if i = [] then None else Some i)"

definition response_status :: "pydict \<Rightarrow> string" where
  "response_status resp = lower (or_str [dget_or resp ''status'' (PyStr ''submitted''), PyStr ''submitted''])"

definition response_fill :: "executor_env \<Rightarrow> order_intent \<Rightarrow> pydict \<Rightarrow> rat \<Rightarrow> rat \<Rightarrow> record_args" where
  "response_fill env r resp q price = (let order = response_order resp in
     \<lparr>rf_intent = oi_id r, rf_cumulative = PyDec (Fin q), rf_price = PyDec (Fin price),
      rf_key = or_str [dget_or resp ''execution_id'' (PyStr []),
        PyStr ((case order of None \<Rightarrow> intent_client r | Some b \<Rightarrow> b) @ '':'' @ dec_text q @ '':'' @ dec_text price)],
      rf_order = order, rf_occurred = Some (py_str (dget_or resp ''filled_at'' (PyStr (xe_now env)))),
      rf_fees = PyInt 0, rf_adjustments = PyInt 0, rf_source = ''broker_fill'', rf_average = True,
      rf_evidence = Some [(''source'', PyStr ''broker_submission_response''), (''broker_order_id'', text_val order),
        (''client_order_id'', dget (oi_data r) ''client_order_id''), (''symbol'', dget (oi_data r) ''symbol''),
        (''side'', dget (oi_data r) ''side''), (''status'', PyStr (response_status resp)),
        (''execution_id'', dget resp ''execution_id''), (''filled_qty'', PyDec (Fin q)), (''filled_avg_price'', PyDec (Fin price)),
        (''filled_at'', dget resp ''filled_at''), (''payload'', xe_payload env resp)],
      rf_account = None\<rparr>)"

definition response_target :: "pydict \<Rightarrow> order_state" where
  "response_target resp = (if response_status resp = ''filled'' then FILLED
     else if response_status resp = ''partially_filled'' then PARTIALLY_FILLED else SUBMITTED)"

text \<open>The state the intent is said to have after a response.\<close>

definition record_response :: "executor_env \<Rightarrow> order_intent \<Rightarrow> pydict \<Rightarrow> order_state res program" where
  "record_response env r resp =
     (if response_target resp = SUBMITTED then
        xbind (move_order_intent env 5 (oi_id r) SUBMITTED (transition_of ''broker_submission_acknowledged'' None (response_order resp) None None))
          (\<lambda>_. give SUBMITTED)
      else case (positive_decimal (dget resp ''filled_qty'') ''broker filled quantity'',
          positive_decimal (dget resp ''filled_avg_price'') ''broker average fill price'') of
        (Some q, Some price) \<Rightarrow>
          xbind (atomic (on_books (record_fill (xe_record env) (response_fill env r resp q price)))) (\<lambda>_. give (response_target resp))
      | _ \<Rightarrow>
          xbind (move_order_intent env 4 (oi_id r) UNKNOWN (transition_of ''broker_fill_response_incomplete'' None (response_order resp) None
            (Some ''filled response omitted reliable quantity or price; reconciliation required''))) (\<lambda>_. give UNKNOWN))"

definition accept_response :: "executor_env \<Rightarrow> string \<Rightarrow> order_intent \<Rightarrow> pydict \<Rightarrow> exec_result res program" where
  "accept_response env w r resp =
     xbind (record_response env r resp) (\<lambda>target.
     xbind (advance_workflow env 4 w SUBMISSION_STARTED (if target = UNKNOWN then UNKNOWN_WF else SUBMITTED_WF) no_workflow_args) (\<lambda>_.
     give \<lparr>er_submitted = target \<noteq> UNKNOWN, er_status = state_value target, er_client = Some (intent_client r), er_reason = [],
       er_intent = Some (oi_id r)\<rparr>))"

text \<open>The adapter has proved that no request began.\<close>

definition clear_row :: "string \<Rightarrow> order_intent \<Rightarrow> order_intent" where
  "clear_row now r = r\<lparr>oi_broker_invoked := 0, oi_updated := now\<rparr>"

definition clear_invocation :: "executor_env \<Rightarrow> string \<Rightarrow> exec_store \<Rightarrow> (unit \<times> exec_store) res" where
  "clear_invocation env i s = Inr ((), s\<lparr>xs_books := (xs_books s)\<lparr>order_intents :=
     update_where (\<lambda>x. oi_id x = i) (clear_row (xe_now env)) (order_intents (xs_books s))\<rparr>\<rparr>)"

definition not_attempted :: "executor_env \<Rightarrow> string \<Rightarrow> order_intent \<Rightarrow> string \<Rightarrow> exec_result res program" where
  "not_attempted env w r cls =
     xbind (atomic (clear_invocation env (oi_id r))) (\<lambda>_.
     xbind (move_order_intent env 6 (oi_id r) REJECTED (transition_of ''broker_submission_not_attempted'' None None (Some cls)
       (Some ''adapter proved no broker request began; fresh approval required''))) (\<lambda>_.
     xbind (advance_workflow env 5 w SUBMISSION_STARTED TERMINAL no_workflow_args) (\<lambda>_.
     give \<lparr>er_submitted = False, er_status = ''rejected'', er_client = Some (intent_client r), er_reason = ''broker request was not attempted'',
       er_intent = Some (oi_id r)\<rparr>)))"

text \<open>The request may have reached the broker.\<close>

definition ambiguous :: "executor_env \<Rightarrow> string \<Rightarrow> order_intent \<Rightarrow> string \<Rightarrow> exec_result res program" where
  "ambiguous env w r cls =
     xbind (move_order_intent env 7 (oi_id r) UNKNOWN (transition_of ''broker_submission_ambiguous'' None None (Some cls)
       (Some ''broker submission outcome is unknown; reconciliation required''))) (\<lambda>_.
     xbind (advance_workflow env 6 w SUBMISSION_STARTED UNKNOWN_WF (no_workflow_args\<lparr>wa_detail :=
       Some ''broker submission outcome is unknown; reconciliation required''\<rparr>)) (\<lambda>_.
     give \<lparr>er_submitted = False, er_status = state_value UNKNOWN, er_client = Some (intent_client r),
       er_reason = ''manual review required: '' @ cls, er_intent = Some (oi_id r)\<rparr>))"

definition handle_reply :: "executor_env \<Rightarrow> string \<Rightarrow> order_intent \<Rightarrow> broker_reply \<Rightarrow> exec_result res program" where
  "handle_reply env w r y = (case y of
     Response resp \<Rightarrow> catch (accept_response env w r resp) (\<lambda>e. ambiguous env w r (error_class e)) give
   | Raised cls reached \<Rightarrow> if reached = Some False then not_attempted env w r cls else ambiguous env w r cls)"

section \<open>An execution\<close>

text \<open>The intent is submitted, when it is this execution's to submit.\<close>

definition submit_intent ::
  "executor_env \<Rightarrow> pydict \<Rightarrow> string \<Rightarrow> string option \<Rightarrow> string \<Rightarrow> order_state \<Rightarrow> order_intent \<Rightarrow> exec_result res program" where
  "submit_intent env p source_type run w q r =
     xbind (advance_workflow env 1 w INTENT_CREATED SUBMISSION_PENDING no_workflow_args) (\<lambda>_.
     catch (start_submission env q r w)
       (\<lambda>e. case e of
          InvalidOrderTransition m \<Rightarrow> xbind (ask (\<lambda>s. get_intent (oi_id r) (xs_books s))) (\<lambda>current.
            give \<lparr>er_submitted = False, er_status = oi_state current, er_client = Some (intent_client current),
              er_reason = ''another worker owns submission'', er_intent = Some (oi_id r)\<rparr>)
        | _ \<Rightarrow> lift_res (Inl e))
       (\<lambda>r'. catch (final_authority env p source_type run r')
          (reject_before_broker env w r')
          (\<lambda>_. case broker_order p r' of
             None \<Rightarrow> ambiguous env w r' ''TypeError''
           | Some b \<Rightarrow> Submit (oi_id r') b (handle_reply env w r'))))"

definition persistence_error :: "py_error \<Rightarrow> bool" where
  "persistence_error e \<longleftrightarrow> value_error e \<or> permission_error e \<or> runtime_error e \<or> database_error e"

definition create_and_submit ::
  "executor_env \<Rightarrow> pydict \<Rightarrow> string \<Rightarrow> string option \<Rightarrow> string \<Rightarrow> string \<Rightarrow> string \<Rightarrow> exec_result res program" where
  "create_and_submit env p source_type run approval client w =
     catch (atomic (create_on env \<lparr>cr_proposal = p, cr_run = run, cr_source_type = source_type, cr_approval = Some approval, cr_sequence = 0\<rparr>))
       (\<lambda>e. if persistence_error e then give (blocked (Some client) (''intent persistence blocked: '' @ error_text e)) else lift_res (Inl e))
       (\<lambda>r. xbind (lift_res (order_state_of (oi_state r))) (\<lambda>q.
          if q \<in> set BROKER_RELEVANT_STATES \<union> set TERMINAL_STATES \<and> \<not> never_invoked env q r then give (reused r q)
          else submit_intent env p source_type run w q r))"

definition validated_execution ::
  "executor_env \<Rightarrow> pydict \<Rightarrow> string \<Rightarrow> string \<Rightarrow> string \<Rightarrow> order_intent option \<Rightarrow> exec_result res program" where
  "validated_execution env p source_type client approval existing =
     (let run = execution_run env p existing in
      catch (ask (xe_capture env p approval run (recovered_intent env existing)))
        (\<lambda>e. give (blocked (Some client) (''authoritative execution risk snapshot unavailable: '' @ error_class e)))
        (\<lambda>(snapshot, context). let q = p(''risk_snapshot_id'' \<mapsto> PyStr snapshot) in
           case xe_risk env q (final_context context q (PyStr snapshot)) of (passed, reasons) \<Rightarrow>
             if \<not> passed then give (blocked (Some client) (join_reasons reasons))
             else xbind (ask (\<lambda>s. Inr (get_by_approval approval (approval_view s)))) (\<lambda>workflow. case workflow of
               None \<Rightarrow> give (blocked (Some client) ''durable approval workflow is required'')
             | Some w \<Rightarrow> xbind (approve_workflow env client existing w) (\<lambda>refused. case refused of
                 Some m \<Rightarrow> give (blocked (Some client) m)
               | None \<Rightarrow> create_and_submit env q source_type run approval client (wf_id w)))))"

definition execute_approved :: "executor_env \<Rightarrow> pydict \<Rightarrow> string \<Rightarrow> string option \<Rightarrow> exec_result res program" where
  "execute_approved env p source_type given =
     (let key = logical_action_key p source_type 0; client = stable_client_order_id (xe_sha256 env) key;
          candidate = p(''client_order_id'' \<mapsto> PyStr client, ''trading_mode'' \<mapsto> PyStr ''paper'') in
      if \<not> xe_broker env then without_broker env key client
      else xbind (load_authority env candidate given source_type) (\<lambda>(existing, loaded). case loaded of
        Inl m \<Rightarrow> give (blocked (Some client) m)
      | Inr q \<Rightarrow> validated_execution env q source_type client (effective_approval given existing) existing))"

definition execute :: "executor_env \<Rightarrow> pydict \<Rightarrow> string \<Rightarrow> string option \<Rightarrow> exec_result res program" where
  "execute env p source_type given =
     xbind (lift_res (execution_gate env p source_type given)) (\<lambda>refused. case refused of
       Some r \<Rightarrow> give r
     | None \<Rightarrow> execute_approved env p source_type given)"

end
