(* ===== verification/Executor_Properties.thy ===== *)
theory Executor_Properties
  imports Executor Creation_Properties
begin

text \<open>
  Properties of the executor under every interleaving of executions, replies of the broker, crashes, lost replies and other calls of
  the stores (\<open>system_step\<close>). A program holds the right to one request of an intent from the transaction that sets the marker to
  the request itself (\<open>safe\<close>, by rule induction over programs); the rights and the requests of an intent are covered by its marker.
\<close>

section \<open>The marker of an intent\<close>

definition marked :: "string \<Rightarrow> exec_store \<Rightarrow> bool" where
  "marked i s \<longleftrightarrow> (\<exists>r\<in>set (order_intents (xs_books s)). oi_id r = i \<and> oi_broker_invoked r \<noteq> 0)"

definition same_marks :: "exec_store \<Rightarrow> exec_store \<Rightarrow> bool" where
  "same_marks s s' \<longleftrightarrow> (\<forall>i. marked i s' = marked i s) \<and> order_book_ok (xs_books s')"

lemma marked_key: "marked i s \<longleftrightarrow> (\<exists>q\<in>set (map intent_key (order_intents (xs_books s))). fst q = i \<and> snd (snd (snd (snd (snd q)))) \<noteq> 0)"
  by (auto simp: marked_def intent_key_def)

lemma marked_cong: "map intent_key (order_intents (xs_books s')) = map intent_key (order_intents (xs_books s)) \<Longrightarrow> marked i s' = marked i s"
  by (simp only: marked_key)

lemma rows_keys: "row_keys b' = row_keys b \<Longrightarrow> map intent_key (order_intents b') = map intent_key (order_intents b)"
  by (simp add: row_keys_def)

lemma same_marks_refl: "order_book_ok (xs_books s) \<Longrightarrow> same_marks s s"
  by (simp add: same_marks_def)

lemma on_approvals_books: "on_approvals f s = Inr (x, s') \<Longrightarrow> xs_books s' = xs_books s"
  by (auto simp: on_approvals_def result_simps split: prod.splits)

lemma call_keeps_marks:
  assumes "system_call (xs_books s, ws) (xs_books s', ws')" and ok: "order_book_ok (xs_books s)"
  shows "same_marks s s'"
proof -
  have "order_book_ok (xs_books s')" using system_call_ok [OF assms(1)] ok by simp
  moreover have "marked i s' = marked i s" for i using assms(1)
  proof cases
    case (created env t a r)
    from created ok show ?thesis
    proof (cases rule: create_effect)
      case existing
      then show ?thesis by (intro marked_cong rows_keys)
    next
      case (new approval b w p p' m aa x n)
      then have "map intent_key (order_intents (xs_books s')) = map intent_key (order_intents (xs_books s))
          @ [(ce_intent env, PyStr (it_key w), PyStr (it_client w), PyStr (it_symbol w), PyStr (it_side w), 0)]"
        using written_keys [OF new(5)] by (simp add: row_keys_def)
      then show ?thesis by (simp add: marked_key)
    qed
  next
    case executed
    then show ?thesis by (intro marked_cong rows_keys fill_call_keys)
  next
    case approved
    then show ?thesis by (simp add: marked_def)
  qed
  ultimately show ?thesis by (simp add: same_marks_def)
qed

section \<open>Programs and the right to call the broker\<close>

datatype right = Idle | May_submit string | May_clear string

definition marks :: "string \<Rightarrow> exec_store \<Rightarrow> exec_store \<Rightarrow> bool" where
  "marks i s s' \<longleftrightarrow> \<not> marked i s \<and> (\<forall>j. marked j s' = (j = i \<or> marked j s)) \<and> order_book_ok (xs_books s')"

definition clears :: "string \<Rightarrow> exec_store \<Rightarrow> exec_store \<Rightarrow> bool" where
  "clears i s s' \<longleftrightarrow> (\<forall>j. marked j s' = (j \<noteq> i \<and> marked j s)) \<and> order_book_ok (xs_books s')"

text \<open>The right after a reply: only a proof that no request began lets the marker be cleared.\<close>

definition right_after :: "string \<Rightarrow> broker_reply \<Rightarrow> right" where
  "right_after i y = (case y of Raised cls reached \<Rightarrow> if reached = Some False then May_clear i else Idle | Response d \<Rightarrow> Idle)"

definition wf_reply :: "broker_reply \<Rightarrow> bool" where
  "wf_reply y \<longleftrightarrow> (case y of Response d \<Rightarrow> \<forall>k. wf_pyval (dget d k) | Raised cls reached \<Rightarrow> True)"

inductive move :: "right \<Rightarrow> exec_store \<Rightarrow> exec_store \<Rightarrow> right \<Rightarrow> bool" where
  keep: "same_marks s s' \<Longrightarrow> move h s s' h"
| take: "marks i s s' \<Longrightarrow> move Idle s s' (May_submit i)"
| clear: "clears i s s' \<Longrightarrow> move (May_clear i) s s' Idle"

text \<open>A program with the right \<open>h\<close> that ends with a result and a right related by \<open>Q\<close>.\<close>

inductive safe :: "('a \<Rightarrow> right \<Rightarrow> bool) \<Rightarrow> right \<Rightarrow> 'a program \<Rightarrow> bool" for Q where
  ended: "Q x h \<Longrightarrow> safe Q h (Done x)"
| step: "(\<And>s. order_book_ok (xs_books s) \<Longrightarrow> \<exists>h'. move h s (snd (f s)) h' \<and> safe Q h' (fst (f s))) \<Longrightarrow> safe Q h (Step f)"
| submit: "(\<And>y. wf_reply y \<Longrightarrow> safe Q (right_after i y) (c y)) \<Longrightarrow> safe Q (May_submit i) (Submit i r c)"

lemma safe_then: "safe Q h p \<Longrightarrow> (\<And>x h'. Q x h' \<Longrightarrow> safe R h' (k x)) \<Longrightarrow> safe R h (then_do p k)"
proof (induction rule: safe.induct)
  case (step h f)
  show ?case unfolding then_do.simps
  proof (rule safe.step)
    fix s :: exec_store assume "order_book_ok (xs_books s)"
    from step(1) [OF this] step(2)
    show "\<exists>h'. move h s (snd ((map_prod (\<lambda>p. then_do p k) id \<circ> f) s)) h' \<and> safe R h' (fst ((map_prod (\<lambda>p. then_do p k) id \<circ> f) s))"
      by auto
  qed
qed (auto intro: safe.intros)


lemma safe_mono: "safe Q h p \<Longrightarrow> (\<And>x h'. Q x h' \<Longrightarrow> R x h') \<Longrightarrow> safe R h p"
proof (induction rule: safe.induct)
  case (step h f)
  show ?case
  proof (rule safe.step)
    fix s :: exec_store assume "order_book_ok (xs_books s)"
    from step(1) [OF this] step(2) show "\<exists>h'. move h s (snd (f s)) h' \<and> safe R h' (fst (f s))" by auto
  qed
qed (auto intro: safe.intros)

text \<open>A program that leaves the markers and the right as they are.\<close>

definition quiet :: "right \<Rightarrow> 'a program \<Rightarrow> bool" where
  "quiet h p \<longleftrightarrow> safe (\<lambda>_ h'. h' = h) h p"

lemma quiet_Done [simp]: "quiet h (Done x)"
  by (simp add: quiet_def safe.ended)

lemma quiet_give [simp]: "quiet h (give x)" "quiet h (lift_res r)"
  by (simp_all add: give_def lift_res_def)

lemma quiet_ask [simp]: "quiet h (ask f)"
  unfolding quiet_def ask_def by (rule safe.step) (auto intro!: move.keep same_marks_refl safe.ended)

lemma quiet_atomic:
  assumes "\<And>s x s'. order_book_ok (xs_books s) \<Longrightarrow> f s = Inr (x, s') \<Longrightarrow> same_marks s s'"
  shows "quiet h (atomic f)"
  unfolding quiet_def atomic_def
  by (rule safe.step) (auto intro!: move.keep same_marks_refl safe.ended intro: assms split: sum.splits)

lemma safe_xbind: "quiet h p \<Longrightarrow> (\<And>x. safe R h (k x)) \<Longrightarrow> (\<And>e. R (Inl e) h) \<Longrightarrow> safe R h (xbind p k)"
  unfolding quiet_def xbind_def by (erule safe_then) (auto intro: safe.ended split: sum.splits)

lemma safe_catch: "quiet h p \<Longrightarrow> (\<And>e. safe R h (g e)) \<Longrightarrow> (\<And>x. safe R h (k x)) \<Longrightarrow> safe R h (catch p g k)"
  unfolding quiet_def catch_def by (erule safe_then) (auto split: sum.splits)

lemma quiet_xbind: "quiet h p \<Longrightarrow> (\<And>x. quiet h (k x)) \<Longrightarrow> quiet h (xbind p k)"
  unfolding quiet_def [of h "xbind p k"] by (rule safe_xbind) (auto simp: quiet_def)

lemma quiet_catch: "quiet h p \<Longrightarrow> (\<And>e. quiet h (g e)) \<Longrightarrow> (\<And>x. quiet h (k x)) \<Longrightarrow> quiet h (catch p g k)"
  unfolding quiet_def [of h "catch p g k"] by (rule safe_catch) (auto simp: quiet_def)

section \<open>The transactions of an execution\<close>

lemma on_books_Inr: "on_books f s = Inr (x, s') \<Longrightarrow> f (xs_books s) = Inr (x, xs_books s') \<and> xs_workflows s' = xs_workflows s"
  by (auto simp: on_books_def result_simps split: prod.splits)

lemma quiet_move_order: "quiet h (move_order_intent env k i target a)"
  unfolding move_order_intent_def
proof (rule quiet_atomic)
  fix s x s'
  assume ok: "order_book_ok (xs_books s)" and m: "on_books (intent_transition
     \<lparr>ee_now = xe_clock env k, ee_fresh = xe_fresh env k, ee_milestone_terminal = apply_take_profit_terminal_state\<rparr> i target a) s = Inr (x, s')"
  have "fill_call (xs_books s) (xs_books s')" using on_books_Inr [OF m] by (auto intro: fill_call.requested)
  then show "same_marks s s'" by (rule call_keeps_marks [OF system_call.executed ok])
qed

lemma quiet_approvals: "quiet h (atomic (on_approvals f))"
  by (rule quiet_atomic) (simp add: same_marks_def marked_def on_approvals_books)

lemma quiet_move_workflow: "quiet h (move_workflow_of env k i target a)"
  by (simp add: move_workflow_of_def quiet_approvals)

lemma quiet_advance: "quiet h (advance_workflow env k i source target a)"
  unfolding advance_workflow_def current_workflow_def by (auto intro!: quiet_xbind quiet_move_workflow)

lemma quiet_create: "quiet h (atomic (create_on env a))"
proof (rule quiet_atomic)
  fix s x s' assume ok: "order_book_ok (xs_books s)" and c: "create_on env a s = Inr (x, s')"
  have "system_call (xs_books s, xs_workflows s) (xs_books s', xs_workflows s')"
    using c by (auto simp: create_on_def result_simps split: prod.splits intro: system_call.created)
  then show "same_marks s s'" by (rule call_keeps_marks [OF _ ok])
qed

lemma positive_decimal_wf: "positive_decimal v l = Some x \<Longrightarrow> wf_pyval v \<Longrightarrow> is_decimal x"
  by (auto simp: positive_decimal_def decimal_value_Some_iff split: sum.splits option.splits if_splits
      dest: to_pydec_is_decimal)

lemma quiet_record:
  assumes "is_decimal q"
  shows "quiet h (atomic (on_books (record_fill (xe_record env) (response_fill env r resp q price))))"
proof (rule quiet_atomic)
  fix s x s'
  assume ok: "order_book_ok (xs_books s)" and m: "on_books (record_fill (xe_record env) (response_fill env r resp q price)) s = Inr (x, s')"
  have "fill_call (xs_books s) (xs_books s')"
    using on_books_Inr [OF m] assms by (auto intro!: fill_call.recorded simp: response_fill_def Let_def)
  then show "same_marks s s'" by (rule call_keeps_marks [OF system_call.executed ok])
qed

lemma update_where_keys:
  assumes "\<And>x. P x \<Longrightarrow> fst (intent_key (f x)) = fst (intent_key x) \<and> fst (snd (intent_key (f x))) = fst (snd (intent_key x))
    \<and> fst (snd (snd (intent_key (f x)))) = fst (snd (snd (intent_key x)))"
    and "\<And>x. order_side (f x) = order_side x \<and> oi_state (f x) = oi_state x" and ok: "order_book_ok b"
  shows "order_book_ok (b\<lparr>order_intents := update_where P f (order_intents b)\<rparr>)"
proof -
  let ?us = "update_where P f (order_intents b)"
  have k: "map fst (map intent_key ?us) = map fst (map intent_key (order_intents b))"
    "map (fst \<circ> snd) (map intent_key ?us) = map (fst \<circ> snd) (map intent_key (order_intents b))"
    "map (fst \<circ> snd \<circ> snd) (map intent_key ?us) = map (fst \<circ> snd \<circ> snd) (map intent_key (order_intents b))"
    using assms(1) by (induction "order_intents b") (simp_all add: update_where_def)
  have "settles x (if P x then f x else x)" if "x \<in> set (order_intents b)" for x
    using assms(2) ok that by (auto simp: order_book_ok_def states_ok_def settles_def active_order_def)
  then have "list_all2 settles (order_intents b) ?us"
    by (simp add: update_where_def list_all2_map2 list_all2_same)
  then have "states_ok ?us" using settles_ok ok by (auto simp: order_book_ok_def)
  moreover have "map (\<lambda>(i, a, c, q). (i, c)) (map intent_key ?us)
      = zip (map fst (map intent_key ?us)) (map (fst \<circ> snd \<circ> snd) (map intent_key ?us))" for us
    by (simp add: zip_map_map) (simp add: zip_same_conv_map split_def)
  moreover have "map (\<lambda>(i, a, c, q). (i, c)) (map intent_key (order_intents b))
      = zip (map fst (map intent_key (order_intents b))) (map (fst \<circ> snd \<circ> snd) (map intent_key (order_intents b)))"
    by (simp add: zip_map_map) (simp add: zip_same_conv_map split_def)
  ultimately show ?thesis using ok k unfolding order_book_ok_def keys_ok_def row_keys_def by simp
qed

lemma marked_update: "marked j (s\<lparr>xs_books := (xs_books s)\<lparr>order_intents := update_where P f (order_intents (xs_books s))\<rparr>\<rparr>)
    \<longleftrightarrow> (\<exists>x\<in>set (order_intents (xs_books s)). oi_id (if P x then f x else x) = j \<and> oi_broker_invoked (if P x then f x else x) \<noteq> 0)"
  by (auto simp: marked_def update_where_def)

lemma mark_marks:
  assumes m: "mark_invocation env st i x s = Inr (u, s')" and ok: "order_book_ok (xs_books s)"
  shows "marks i s s'"
proof -
  obtain r where r: "fetch_one (\<lambda>r. oi_id r = i) (order_intents (xs_books s)) = Some r" "may_invoke r"
    and s': "s' = s\<lparr>xs_books := (xs_books s)\<lparr>order_intents := update_where (\<lambda>x. oi_id x = i \<and> may_invoke x)
      (invoke_row (xe_now env)) (order_intents (xs_books s))\<rparr>\<rparr>"
    using m by (auto simp: mark_invocation_def Let_def result_simps split: option.splits if_splits)
  have mem: "r \<in> set (order_intents (xs_books s))" "oi_id r = i" using fetch_one_Some [OF r(1)] by auto
  have ids: "distinct (map oi_id (order_intents (xs_books s)))" using ok keys_ids by (auto simp: order_book_ok_def)
  have only: "y = r" if "y \<in> set (order_intents (xs_books s))" "oi_id y = i" for y
    using ids that mem by (auto simp: distinct_map dest: inj_onD)
  have "order_book_ok (xs_books s')" unfolding s'
    by (simp, rule update_where_keys [OF _ _ ok]) (simp_all add: invoke_row_def intent_key_def order_side_def)
  moreover have "\<not> marked i s" using only r(2) by (auto simp: marked_def may_invoke_def)
  moreover have "marked j s' = (j = i \<or> marked j s)" for j
  proof -
    have "marked j s' \<longleftrightarrow> (\<exists>x\<in>set (order_intents (xs_books s)). oi_id x = j \<and> (x = r \<or> oi_broker_invoked x \<noteq> 0))"
      unfolding s' marked_update
    proof (rule bex_cong [OF refl])
      fix x assume x: "x \<in> set (order_intents (xs_books s))"
      show "(oi_id (if oi_id x = i \<and> may_invoke x then invoke_row (xe_now env) x else x) = j
          \<and> oi_broker_invoked (if oi_id x = i \<and> may_invoke x then invoke_row (xe_now env) x else x) \<noteq> 0)
        = (oi_id x = j \<and> (x = r \<or> oi_broker_invoked x \<noteq> 0))"
      proof (cases "x = r")
        case True
        then show ?thesis using mem(2) r(2) by (simp add: invoke_row_def)
      next
        case False
        then have "oi_id x \<noteq> i" using only [OF x] by blast
        then show ?thesis using False by simp
      qed
    qed
    also have "\<dots> \<longleftrightarrow> j = i \<or> marked j s" unfolding marked_def using mem by auto
    finally show ?thesis .
  qed
  ultimately show ?thesis by (simp add: marks_def)
qed

lemma clear_clears:
  assumes c: "clear_invocation env i s = Inr (u, s')" and ok: "order_book_ok (xs_books s)"
  shows "clears i s s'"
proof -
  have s': "s' = s\<lparr>xs_books := (xs_books s)\<lparr>order_intents := update_where (\<lambda>x. oi_id x = i) (clear_row (xe_now env))
      (order_intents (xs_books s))\<rparr>\<rparr>" using c by (simp add: clear_invocation_def)
  have "order_book_ok (xs_books s')" unfolding s'
    by (simp, rule update_where_keys [OF _ _ ok]) (simp_all add: clear_row_def intent_key_def order_side_def)
  moreover have "marked j s' = (j \<noteq> i \<and> marked j s)" for j
    unfolding s' marked_update by (simp add: marked_def) (auto simp: clear_row_def split: if_splits)
  ultimately show ?thesis by (simp add: clears_def)
qed

lemma quiet_confirm: "quiet h (atomic (confirm_authority env st run r snapshot))"
proof (rule quiet_atomic)
  fix s x s' assume ok: "order_book_ok (xs_books s)" and c: "confirm_authority env st run r snapshot s = Inr (x, s')"
  have s': "s' = s\<lparr>xs_books := (xs_books s)\<lparr>order_intents := update_where (\<lambda>x. oi_id x = oi_id r)
      (rebind_snapshot (xe_now env) snapshot) (order_intents (xs_books s))\<rparr>\<rparr>"
    using c by (auto simp: confirm_authority_def Let_def result_simps split: option.splits if_splits)
  have "order_book_ok (xs_books s')" unfolding s'
    by (simp, rule update_where_keys [OF _ _ ok]) (simp_all add: rebind_snapshot_def order_side_def intent_key_def)
  moreover have "marked j s' = marked j s" for j
    unfolding s' by (rule marked_cong) (simp add: update_where_def)
  ultimately show "same_marks s s'" by (simp add: same_marks_def)
qed

section \<open>An execution\<close>

lemma quiet_verify: "quiet h (verify_before_broker env p st run r)"
  unfolding verify_before_broker_def by (auto intro!: quiet_xbind quiet_confirm)

definition authority_post :: "string \<Rightarrow> unit res \<Rightarrow> right \<Rightarrow> bool" where
  "authority_post i x h \<longleftrightarrow> h = (case x of Inl e \<Rightarrow> Idle | Inr u \<Rightarrow> May_submit i)"

lemma safe_mark: "safe (authority_post i) Idle (atomic (mark_invocation env st i x))"
  unfolding atomic_def
proof (rule safe.step)
  fix s :: exec_store assume ok: "order_book_ok (xs_books s)"
  show "\<exists>h'. move Idle s (snd (case mark_invocation env st i x s of Inl e \<Rightarrow> (Done (Inl e), s) | Inr (x, s') \<Rightarrow> (Done (Inr x), s'))) h'
    \<and> safe (authority_post i) h' (fst (case mark_invocation env st i x s of Inl e \<Rightarrow> (Done (Inl e), s) | Inr (x, s') \<Rightarrow> (Done (Inr x), s')))"
  proof (cases "mark_invocation env st i x s")
    case (Inl e)
    then show ?thesis using ok by (auto simp: authority_post_def intro!: safe.ended move.keep same_marks_refl)
  next
    case (Inr q)
    then have "marks i s (snd q)" using mark_marks [OF _ ok] by (cases q) auto
    then show ?thesis using Inr
      by (intro exI [of _ "May_submit i"]) (auto simp: authority_post_def split: prod.splits intro!: safe.ended move.take)
  qed
qed

lemma safe_final_authority: "safe (authority_post (oi_id r)) Idle (final_authority env p st run r)"
  unfolding final_authority_def
  by (intro safe_xbind quiet_verify quiet_ask)
    (auto simp: authority_post_def lift_res_def split: prod.splits intro!: safe.ended safe_xbind quiet_ask quiet_give safe_mark)

definition any_end :: "'a \<Rightarrow> right \<Rightarrow> bool" where
  "any_end x h \<longleftrightarrow> True"

lemma safe_quiet: "quiet h p \<Longrightarrow> safe any_end h p"
  unfolding quiet_def by (erule safe_mono) (simp add: any_end_def)

lemma quiet_ambiguous: "quiet h (ambiguous env w r cls)"
  unfolding ambiguous_def by (auto intro!: quiet_xbind quiet_move_order quiet_advance)

lemma quiet_accept: "wf_reply (Response resp) \<Longrightarrow> quiet h (accept_response env w r resp)"
  unfolding accept_response_def record_response_def
  by (auto intro!: quiet_xbind quiet_move_order quiet_advance quiet_record split: option.splits
    simp: wf_reply_def dest: positive_decimal_wf)

lemma safe_not_attempted: "safe any_end (May_clear (oi_id r)) (not_attempted env w r cls)"
  unfolding not_attempted_def xbind_def [of "atomic (clear_invocation env (oi_id r))"]
proof (rule safe_then)
  show "safe (\<lambda>x h. h = Idle) (May_clear (oi_id r)) (atomic (clear_invocation env (oi_id r)))"
    unfolding atomic_def
  proof (rule safe.step)
    fix s :: exec_store assume ok: "order_book_ok (xs_books s)"
    obtain s' where c: "clear_invocation env (oi_id r) s = Inr ((), s')" by (simp add: clear_invocation_def)
    show "\<exists>h'. move (May_clear (oi_id r)) s (snd (case clear_invocation env (oi_id r) s of Inl e \<Rightarrow> (Done (Inl e), s)
        | Inr (x, s') \<Rightarrow> (Done (Inr x), s'))) h'
      \<and> safe (\<lambda>x h. h = Idle) h' (fst (case clear_invocation env (oi_id r) s of Inl e \<Rightarrow> (Done (Inl e), s) | Inr (x, s') \<Rightarrow> (Done (Inr x), s')))"
      by (intro exI [of _ Idle]) (auto simp: c intro!: safe.ended move.clear clear_clears [OF c ok])
  qed
qed (auto split: sum.splits intro!: safe_quiet quiet_xbind quiet_move_order quiet_advance)

lemma safe_reply: "wf_reply y \<Longrightarrow> safe any_end (right_after (oi_id r) y) (handle_reply env w r y)"
  by (cases y) (auto simp: handle_reply_def right_after_def intro!: safe_not_attempted safe_quiet quiet_ambiguous quiet_catch quiet_accept)

lemma quiet_start: "quiet h (start_submission env q r w)"
  unfolding start_submission_def by (auto intro!: quiet_xbind quiet_move_order quiet_advance)

lemma quiet_reject: "quiet h (reject_before_broker env w r e)"
  unfolding reject_before_broker_def by (auto intro!: quiet_xbind quiet_move_order quiet_advance)

lemma safe_submit: "safe any_end Idle (submit_intent env p st run w q r)"
proof -
  have last: "safe any_end Idle (catch (final_authority env p st run r') (reject_before_broker env w r')
      (\<lambda>_. case broker_order p r' of None \<Rightarrow> ambiguous env w r' ''TypeError'' | Some b \<Rightarrow> Submit (oi_id r') b (handle_reply env w r')))" for r'
    unfolding catch_def
    by (rule safe_then [OF safe_final_authority])
      (auto simp: authority_post_def split: sum.splits option.splits intro!: safe_quiet quiet_reject quiet_ambiguous safe.submit safe_reply)
  show ?thesis unfolding submit_intent_def
    by (intro safe_xbind safe_catch quiet_advance quiet_start last)
      (auto simp: any_end_def split: py_error.splits intro!: safe_quiet quiet_xbind)
qed

lemma quiet_workflow: "quiet h (approve_workflow env client existing w)"
  unfolding approve_workflow_def current_workflow_def
  by (auto intro!: quiet_catch quiet_xbind quiet_move_workflow split: py_error.splits)

lemma quiet_load: "quiet h (load_authority env p given st)"
  unfolding load_authority_def Let_def
  by (auto intro!: quiet_catch quiet_xbind split: option.splits)

lemma quiet_without: "quiet h (without_broker env key client)"
  unfolding without_broker_def by (auto intro!: quiet_xbind quiet_move_order split: option.splits)

lemma safe_give: "safe any_end h (give x)" "safe any_end h (lift_res y)"
  by (simp_all add: safe_quiet)

lemma safe_create: "safe any_end Idle (create_and_submit env p st run approval client w)"
  unfolding create_and_submit_def
  by (intro safe_catch quiet_create safe_xbind) (auto simp: any_end_def intro!: safe_give safe_xbind safe_submit)

lemma safe_validated: "safe any_end Idle (validated_execution env p st client approval existing)"
  unfolding validated_execution_def Let_def
  by (intro safe_catch quiet_ask) (auto simp: any_end_def split: option.splits prod.splits
    intro!: safe_give safe_xbind quiet_ask quiet_workflow safe_create)

lemma safe_execute: "safe any_end Idle (execute env p st given)"
  unfolding execute_def execute_approved_def Let_def
  by (auto simp: any_end_def split: option.splits sum.splits
    intro!: safe_give safe_xbind quiet_load safe_validated safe_quiet [OF quiet_without])

section \<open>Workers on one store\<close>

text \<open>The store, the programs of the workers, and the requests made, newest first, with the reply each one brought; \<open>None\<close> when the
  worker died before it read one.\<close>

type_synonym exec_system = "exec_store \<times> exec_result res program list \<times> (string \<times> broker_request \<times> broker_reply option) list"

text \<open>One event: a worker starts, does one step, gets its reply, dies, dies with its request sent, or another call of the stores runs.\<close>

inductive system_step :: "exec_system \<Rightarrow> exec_system \<Rightarrow> bool" where
  started: "system_step (s, ps, sent) (s, ps @ [execute env p source_type given], sent)"
| stepped: "k < length ps \<Longrightarrow> ps ! k = Step f \<Longrightarrow> system_step (s, ps, sent) (snd (f s), ps[k := fst (f s)], sent)"
| replied: "k < length ps \<Longrightarrow> ps ! k = Submit i r c \<Longrightarrow> wf_reply y \<Longrightarrow> system_step (s, ps, sent) (s, ps[k := c y], (i, r, Some y) # sent)"
| crashed: "system_step (s, ps, sent) (s, take k ps @ drop (Suc k) ps, sent)"
| lost: "k < length ps \<Longrightarrow> ps ! k = Submit i r c \<Longrightarrow> system_step (s, ps, sent) (s, take k ps @ drop (Suc k) ps, (i, r, None) # sent)"
| other: "system_call (xs_books s, xs_workflows s) (xs_books s', xs_workflows s') \<Longrightarrow> system_step (s, ps, sent) (s', ps, sent)"

text \<open>A request has not reached the broker only when the adapter proves that it never began.\<close>

definition waiting :: "string \<Rightarrow> 'a program \<Rightarrow> bool" where
  "waiting i p \<longleftrightarrow> (case p of Submit j r c \<Rightarrow> j = i | _ \<Rightarrow> False)"

definition may_have_reached :: "string \<Rightarrow> string \<times> broker_request \<times> broker_reply option \<Rightarrow> bool" where
  "may_have_reached i e \<longleftrightarrow> fst e = i \<and> (case snd (snd e) of Some y \<Rightarrow> right_after i y = Idle | None \<Rightarrow> True)"

definition holds :: "string \<Rightarrow> right \<Rightarrow> bool" where
  "holds i h \<longleftrightarrow> h = May_submit i \<or> h = May_clear i"

definition number :: "('a \<Rightarrow> bool) \<Rightarrow> 'a list \<Rightarrow> nat" where
  "number P xs = length (filter P xs)"

lemma number_simps [simp]: "number P [] = 0" "number P (x # xs) = of_bool (P x) + number P xs" "number P (xs @ ys) = number P xs + number P ys"
  by (simp_all add: number_def)

lemma number_split: "k < length xs \<Longrightarrow> number P xs = number P (take k xs) + of_bool (P (xs ! k)) + number P (drop (Suc k) xs)"
  by (metis (no_types) id_take_nth_drop number_simps(2,3) add.assoc)

lemma number_update: "k < length xs \<Longrightarrow> number P (xs[k := x]) = number P (take k xs) + of_bool (P x) + number P (drop (Suc k) xs)"
  by (simp add: upd_conv_take_nth_drop)

text \<open>Each worker has a right; the rights to an intent and its requests that may have reached the broker are covered by its marker.\<close>

definition within_marks :: "exec_store \<Rightarrow> exec_store \<Rightarrow> right list \<Rightarrow> (string \<times> broker_request \<times> broker_reply option) list \<Rightarrow> bool" where
  "within_marks s0 s hs sent \<longleftrightarrow>
     (\<forall>i. of_bool (marked i s0) + number (holds i) hs + number (may_have_reached i) sent \<le> (of_bool (marked i s) :: nat))"

lemma within_marksI: "(\<And>i. of_bool (marked i s0) + number (holds i) hs + number (may_have_reached i) sent \<le> (of_bool (marked i s) :: nat))
    \<Longrightarrow> within_marks s0 s hs sent"
  by (simp add: within_marks_def)

lemma within_marksD: "within_marks s0 s hs sent
    \<Longrightarrow> of_bool (marked i s0) + number (holds i) hs + number (may_have_reached i) sent \<le> (of_bool (marked i s) :: nat)"
  unfolding within_marks_def by blast

definition covered :: "exec_store \<Rightarrow> exec_system \<Rightarrow> bool" where
  "covered s0 c \<longleftrightarrow> (case c of (s, ps, sent) \<Rightarrow> order_book_ok (xs_books s) \<and> (\<exists>hs. list_all2 (safe any_end) hs ps
     \<and> within_marks s0 s hs sent))"

lemma covered_drop:
  assumes hs: "list_all2 (safe any_end) hs ps"
  shows "list_all2 (safe any_end) (take k hs @ drop (Suc k) hs) (take k ps @ drop (Suc k) ps)"
  by (intro list_all2_appendI list_all2_takeI list_all2_dropI hs)

lemma number_drop: "number P (take k xs @ drop (Suc k) xs) \<le> number P xs"
  by (cases "k < length xs") (simp_all add: number_split)

inductive_cases safe_SubmitE: "safe Q h (Submit i r c)"
inductive_cases safe_StepE: "safe Q h (Step f)"

lemma safe_Submit: "safe Q h (Submit i r c) \<Longrightarrow> h = May_submit i"
  by (erule safe_SubmitE)

lemma safe_answer: "safe Q h (Submit i r c) \<Longrightarrow> wf_reply y \<Longrightarrow> safe Q (right_after i y) (c y)"
  by (erule safe_SubmitE) simp

lemma reply_rights: "of_bool (holds j (right_after i y)) + of_bool (may_have_reached j (i, r, Some y)) \<le> (of_bool (holds j (May_submit i)) :: nat)"
  by (auto simp: holds_def right_after_def may_have_reached_def split: broker_reply.splits)

lemma lost_rights: "of_bool (may_have_reached j (i, r, None)) \<le> (of_bool (holds j (May_submit i)) :: nat)"
  by (simp add: holds_def may_have_reached_def)

lemma move_rights: "move h s s' h' \<Longrightarrow> of_bool (marked i s) + of_bool (holds i h') \<le> (of_bool (marked i s') + of_bool (holds i h) :: nat)"
  by (induction rule: move.induct) (auto simp: same_marks_def marks_def clears_def holds_def)

lemma step_covered: "system_step c c' \<Longrightarrow> covered s0 c \<Longrightarrow> covered s0 c'"
proof (induction rule: system_step.induct)
  case (started s ps sent env p st given)
  then obtain hs where hs: "list_all2 (safe any_end) hs ps" and ok: "order_book_ok (xs_books s)" and c: "within_marks s0 s hs sent"
    unfolding covered_def by blast
  have "within_marks s0 s (hs @ [Idle]) sent" using within_marksD [OF c] by (auto simp: holds_def intro!: within_marksI)
  moreover have "list_all2 (safe any_end) (hs @ [Idle]) (ps @ [execute env p st given])"
    by (intro list_all2_appendI hs) (simp add: safe_execute)
  ultimately show ?case unfolding covered_def using ok by blast
next
  case (stepped k ps f s sent)
  from stepped(3) obtain hs where hs: "list_all2 (safe any_end) hs ps" and ok: "order_book_ok (xs_books s)" and c: "within_marks s0 s hs sent"
    unfolding covered_def by blast
  have k: "k < length hs" "safe any_end (hs ! k) (Step f)"
    using stepped(1,2) hs by (auto simp: list_all2_lengthD dest: list_all2_nthD2)
  obtain h' where m: "move (hs ! k) s (snd (f s)) h'" and sf: "safe any_end h' (fst (f s))"
    using k(2) ok by (elim safe_StepE) blast
  have "of_bool (marked i s0) + number (holds i) (hs[k := h']) + number (may_have_reached i) sent \<le> (of_bool (marked i (snd (f s))) :: nat)" for i
    using move_rights [OF m, of i] within_marksD [OF c, of i] unfolding number_update [OF k(1)] number_split [OF k(1)] by linarith
  moreover have "order_book_ok (xs_books (snd (f s)))"
    using m by (cases rule: move.cases) (auto simp: same_marks_def marks_def clears_def)
  ultimately show ?case unfolding covered_def
    using list_all2_update_cong [OF hs sf, of k] within_marksI by blast
next
  case (replied k ps i r c y s sent)
  from replied(4) obtain hs where hs: "list_all2 (safe any_end) hs ps" and ok: "order_book_ok (xs_books s)" and b: "within_marks s0 s hs sent"
    unfolding covered_def by blast
  have k: "k < length hs" "safe any_end (hs ! k) (Submit i r c)"
    using replied(1,2) hs by (auto simp: list_all2_lengthD dest: list_all2_nthD2)
  have "of_bool (marked j s0) + number (holds j) (hs[k := right_after i y]) + number (may_have_reached j) ((i, r, Some y) # sent)
      \<le> (of_bool (marked j s) :: nat)" for j
    using within_marksD [OF b, of j] reply_rights [of j i y r]
    unfolding number_update [OF k(1)] number_split [OF k(1)] number_simps safe_Submit [OF k(2)] by linarith
  then show ?case unfolding covered_def
    using list_all2_update_cong [OF hs safe_answer [OF k(2) replied(3)], of k] ok within_marksI by blast
next
  case (crashed s ps sent k)
  then obtain hs where hs: "list_all2 (safe any_end) hs ps" and ok: "order_book_ok (xs_books s)" and c: "within_marks s0 s hs sent"
    unfolding covered_def by blast
  have "of_bool (marked j s0) + number (holds j) (take k hs @ drop (Suc k) hs) + number (may_have_reached j) sent \<le> (of_bool (marked j s) :: nat)" for j
    using number_drop [of "holds j" k hs] within_marksD [OF c, of j] by simp
  then show ?case unfolding covered_def using covered_drop [OF hs, of k] ok within_marksI by blast
next
  case (lost k ps i r c s sent)
  from lost(3) obtain hs where hs: "list_all2 (safe any_end) hs ps" and ok: "order_book_ok (xs_books s)" and b: "within_marks s0 s hs sent"
    unfolding covered_def by blast
  have k: "k < length hs" "safe any_end (hs ! k) (Submit i r c)"
    using lost(1,2) hs by (auto simp: list_all2_lengthD dest: list_all2_nthD2)
  have "of_bool (marked j s0) + number (holds j) (take k hs @ drop (Suc k) hs) + number (may_have_reached j) ((i, r, None) # sent)
      \<le> (of_bool (marked j s) :: nat)" for j
    using within_marksD [OF b, of j] lost_rights [of j i r]
    unfolding number_split [OF k(1)] number_simps safe_Submit [OF k(2)] by linarith
  then show ?case unfolding covered_def using covered_drop [OF hs, of k] ok within_marksI by blast
next
  case (other s s' ps sent)
  then obtain hs where hs: "list_all2 (safe any_end) hs ps" and ok: "order_book_ok (xs_books s)" and c: "within_marks s0 s hs sent"
    unfolding covered_def by blast
  have same: "same_marks s s'" by (rule call_keeps_marks [OF other(1) ok])
  then have "within_marks s0 s' hs sent" using c by (simp add: within_marks_def same_marks_def)
  then show ?case unfolding covered_def using hs same by (auto simp: same_marks_def)
qed

lemma waiting_holds: "list_all2 (safe any_end) hs ps \<Longrightarrow> number (waiting i) ps \<le> number (holds i) hs"
proof (induction rule: list_all2_induct)
  case (Cons h hs p ps)
  have "waiting i p \<Longrightarrow> holds i h" using Cons(1) by (auto simp: waiting_def holds_def dest: safe_Submit split: program.splits)
  then show ?case using Cons(3) by auto
qed simp

text \<open>C37: An intent reaches the broker at most once. From well-formed tables, take any interleaving of executions, transaction by transaction, of replies of the
  broker, of workers that die before, between or after them, and of other calls of the stores. The requests for an intent that may have
  reached the broker and the workers that are about to send one are together at most one. There is none for an intent that was marked
  before, and while there is one the intent carries the marker that refuses a second one.\<close>

theorem at_most_one_submission:
  assumes "system_step\<^sup>*\<^sup>* (s, [], []) (s', ps, sent)" and "order_book_ok (xs_books s)"
  shows "of_bool (marked i s) + number (waiting i) ps + number (may_have_reached i) sent \<le> (of_bool (marked i s') :: nat)"
proof -
  have "covered s (s, [], [])" by (simp add: covered_def within_marks_def assms(2))
  with assms(1) have "covered s (s', ps, sent)" by (induction rule: rtranclp_induct) (auto intro: step_covered)
  then obtain hs where hs: "list_all2 (safe any_end) hs ps" and c: "within_marks s s' hs sent"
    unfolding covered_def by blast
  show ?thesis using within_marksD [OF c, of i] waiting_holds [OF hs, of i] by linarith
qed

section \<open>An execution ends\<close>

inductive ends_within :: "nat \<Rightarrow> nat \<Rightarrow> 'a program \<Rightarrow> bool" where
  ended: "ends_within n m (Done x)"
| step: "(\<And>s. ends_within n m (fst (f s))) \<Longrightarrow> ends_within (Suc n) m (Step f)"
| submit: "(\<And>y. ends_within n m (c y)) \<Longrightarrow> ends_within (Suc n) (Suc m) (Submit i r c)"

inductive_cases ends_StepE: "ends_within n m (Step f)"
inductive_cases ends_SubmitE: "ends_within n m (Submit i r c)"

lemma ends_then:
  "ends_within a b p \<Longrightarrow> (\<And>x. ends_within n m (k x)) \<Longrightarrow> ends_within (a + n) (b + m) (then_do p k)"
proof (induction rule: ends_within.induct)
  case (ended a b x)
  have "ends_within n m p \<Longrightarrow> ends_within (a + n) (b + m) p" for p :: "'b program"
    by (induction rule: ends_within.induct) (auto intro: ends_within.intros)
  then show ?case using ended by simp
next
  case (step a b f)
  show ?case by (simp, rule ends_within.step) (use step in simp)
next
  case (submit a b c i r)
  show ?case by (simp, rule ends_within.submit) (use submit in simp)
qed

lemma then_Done: "then_do p Done = p"
proof (induction p)
  case (Step f)
  have "map_prod (\<lambda>p. then_do p Done) id (f s) = f s" for s using Step [of "f s" "fst (f s)"] rangeI [of f s] by (cases "f s") simp
  then show ?case by (simp add: comp_def)
qed simp_all

lemma ends_Done [simp]: "ends_within n m (Done x)" "ends_within n m (give y)" "ends_within n m (lift_res z)"
  by (simp_all add: give_def lift_res_def ends_within.ended)

lemma ends_bind:
  assumes "ends_within a b p" and "a \<le> n" and "b \<le> m" and "\<And>x. ends_within (n - a) (m - b) (k x)"
  shows "ends_within n m (then_do p k)"
  using ends_then [OF assms(1,4)] assms(2,3) by simp

lemma ends_xbind:
  assumes "ends_within a b p" and "a \<le> n" and "b \<le> m" and "\<And>x. ends_within (n - a) (m - b) (k x)"
  shows "ends_within n m (xbind p k)"
  unfolding xbind_def by (rule ends_bind [OF assms(1-3)]) (simp add: assms(4) split: sum.split)

lemma ends_catch:
  assumes "ends_within a b p" and "a \<le> n" and "b \<le> m" and "\<And>e. ends_within (n - a) (m - b) (g e)" and "\<And>x. ends_within (n - a) (m - b) (k x)"
  shows "ends_within n m (catch p g k)"
  unfolding catch_def by (rule ends_bind [OF assms(1-3)]) (simp add: assms(4,5) split: sum.split)

lemma ends_atom: "ends_within 1 0 (ask f)" "ends_within 1 0 (atomic g)"
proof -
  show "ends_within 1 0 (ask f)" unfolding ask_def One_nat_def by (rule ends_within.step) simp
  show "ends_within 1 0 (atomic g)" unfolding atomic_def One_nat_def by (rule ends_within.step) (simp split: sum.split prod.split)
qed

lemma ends_moves: "ends_within 1 0 (move_order_intent env k i q a)" "ends_within 1 0 (move_workflow_of env k i w wa)"
    "ends_within 1 0 (current_workflow i)"
  by (simp_all only: move_order_intent_def move_workflow_of_def current_workflow_def ends_atom)

lemma ends_advance: "ends_within 2 0 (advance_workflow env k i source target a)"
  unfolding advance_workflow_def by (rule ends_xbind [OF ends_moves(3)]) (auto intro!: ends_xbind [OF ends_moves(2)])

lemmas ends_rules = ends_xbind [OF ends_atom(1)] ends_xbind [OF ends_atom(2)] ends_xbind [OF ends_moves(1)] ends_xbind [OF ends_moves(3)]
  ends_xbind [OF ends_advance] ends_xbind [OF ends_Done(3) [of 0 0]]
  ends_catch [OF ends_atom(1)] ends_catch [OF ends_atom(2)] ends_catch [OF ends_moves(2)]

lemma ends_ambiguous: "ends_within 3 0 (ambiguous env w r cls)"
  unfolding ambiguous_def by (auto intro!: ends_rules)

lemma ends_reject: "ends_within 3 0 (reject_before_broker env w r e)"
  unfolding reject_before_broker_def by (auto intro!: ends_rules)

lemma ends_record: "ends_within 1 0 (record_response env r resp)"
  unfolding record_response_def by (auto intro!: ends_rules split: option.splits)

lemma ends_accept: "ends_within 3 0 (accept_response env w r resp)"
  unfolding accept_response_def by (auto intro!: ends_xbind [OF ends_record] ends_rules)

lemma ends_clear: "ends_within 4 0 (not_attempted env w r cls)"
  unfolding not_attempted_def by (auto intro!: ends_rules)

lemma ends_more: "ends_within n m p \<Longrightarrow> n \<le> n' \<Longrightarrow> m \<le> m' \<Longrightarrow> ends_within n' m' p"
  by (drule ends_bind [where k = Done]) (simp_all add: then_Done)

lemma ends_reply: "ends_within 6 0 (handle_reply env w r y)"
  unfolding handle_reply_def
  by (auto intro!: ends_catch [OF ends_accept] ends_more [OF ends_ambiguous] ends_more [OF ends_clear] split: broker_reply.splits)

lemma ends_start: "ends_within 3 0 (start_submission env q r w)"
  unfolding start_submission_def
  by (auto intro!: ends_xbind [OF ends_moves(1)] ends_xbind [OF ends_Done(2) [of 0 0]] ends_rules)

lemma ends_verify: "ends_within 3 0 (verify_before_broker env p st run r)"
  unfolding verify_before_broker_def by (auto intro!: ends_rules split: prod.splits)

lemma ends_final: "ends_within 5 0 (final_authority env p st run r)"
  unfolding final_authority_def
  by (auto intro!: ends_xbind [OF ends_verify] ends_rules ends_more [OF ends_atom(2)] split: prod.splits)

lemma ends_submit: "ends_within 17 1 (submit_intent env p st run w q r)"
proof -
  have last: "ends_within 12 1 (catch (final_authority env p st run r') (reject_before_broker env w r')
      (\<lambda>_. case broker_order p r' of None \<Rightarrow> ambiguous env w r' ''TypeError'' | Some b \<Rightarrow> Submit (oi_id r') b (handle_reply env w r')))" for r'
  proof (rule ends_catch [OF ends_final])
    show "ends_within (12 - 5) (1 - 0) (case broker_order p r' of None \<Rightarrow> ambiguous env w r' ''TypeError''
        | Some b \<Rightarrow> Submit (oi_id r') b (handle_reply env w r'))"
      using ends_within.submit [of 6 0 "handle_reply env w r'" "oi_id r'"] ends_reply
      by (auto split: option.splits intro: ends_more [OF ends_ambiguous])
  qed (auto intro: ends_more [OF ends_reject])
  have worker: "ends_within 12 1 (case e of InvalidOrderTransition m \<Rightarrow> xbind (ask (\<lambda>s. get_intent (oi_id r) (xs_books s))) (\<lambda>current. give (f current))
      | _ \<Rightarrow> lift_res (Inl e))" for e f
    by (auto split: py_error.splits intro!: ends_rules)
  show ?thesis unfolding submit_intent_def
    by (rule ends_xbind [OF ends_advance]) (auto intro!: ends_catch [OF ends_start] last [unfolded One_nat_def] worker [unfolded One_nat_def])
qed

lemma ends_create: "ends_within 18 1 (create_and_submit env p st run approval client w)"
  unfolding create_and_submit_def
  by (rule ends_catch [OF ends_atom(2)]) (auto intro!: ends_rules ends_more [OF ends_submit])

lemma ends_approve: "ends_within 2 0 (approve_workflow env client existing w)"
  unfolding approve_workflow_def by (auto intro!: ends_rules split: py_error.splits)

lemma ends_validated: "ends_within 22 1 (validated_execution env p st client approval existing)"
  unfolding validated_execution_def Let_def
  by (rule ends_catch [OF ends_atom(1)])
    (auto intro!: ends_rules ends_xbind [OF ends_approve] ends_more [OF ends_create] split: prod.splits option.splits)

lemma ends_load: "ends_within 3 0 (load_authority env p given st)"
  unfolding load_authority_def Let_def by (auto intro!: ends_rules split: option.splits)

lemma ends_without: "ends_within 2 0 (without_broker env key client)"
  unfolding without_broker_def by (auto intro!: ends_rules split: option.splits)

lemma ends_execute: "ends_within 25 1 (execute env p st given)"
  unfolding execute_def execute_approved_def Let_def
  by (rule ends_xbind [OF ends_Done(3) [of 0 0]])
    (auto intro!: ends_xbind [OF ends_load] ends_more [OF ends_without] ends_more [OF ends_validated] split: option.splits sum.splits)

inductive worker_step :: "'a program \<Rightarrow> 'a program \<Rightarrow> bool" where
  "worker_step (Step f) (fst (f s))"
| "worker_step (Submit i r c) (c y)"

lemma worker_steps_bounded: "(worker_step ^^ k) p q \<Longrightarrow> ends_within n m p \<Longrightarrow> k \<le> n"
proof (induction k arbitrary: p n m)
  case (Suc k)
  obtain p' where p': "worker_step p p'" "(worker_step ^^ k) p' q" using Suc.prems(1) by (rule relpowp_Suc_E2)
  have "\<exists>n' m'. n = Suc n' \<and> ends_within n' m' p'" using Suc.prems(2) p'(1)
    by (auto elim!: worker_step.cases ends_within.cases)
  then show ?case using Suc.IH [OF p'(2)] by auto
qed simp

text \<open>An execution ends after at most 25 transactions, reads and requests, whatever the store, the other workers and the broker do.\<close>

theorem execution_ends: "\<not> (worker_step ^^ 26) (execute env p source_type given) q"
  using worker_steps_bounded [OF _ ends_execute] by fastforce

section \<open>A worker alone\<close>

primrec run_alone :: "(broker_request \<Rightarrow> broker_reply) \<Rightarrow> 'a program \<Rightarrow> exec_store \<Rightarrow> 'a \<times> exec_store" where
  "run_alone b (Done x) = (\<lambda>s. (x, s))"
| "run_alone b (Step f) = (\<lambda>s. case map_prod (run_alone b) id (f s) of (g, s') \<Rightarrow> g s')"
| "run_alone b (Submit i r c) = run_alone b (c (b r))"

lemma run_then: "run_alone b (then_do p k) s = (case run_alone b p s of (x, s') \<Rightarrow> run_alone b (k x) s')"
proof (induction p arbitrary: s)
  case (Step f)
  show ?case using Step [of "f s" "fst (f s)"] rangeI [of f s] by (cases "f s") simp
qed simp_all

lemma run_xbind: "run_alone b (xbind p k) s = (case run_alone b p s of (Inl e, s') \<Rightarrow> (Inl e, s') | (Inr x, s') \<Rightarrow> run_alone b (k x) s')"
  by (simp add: xbind_def run_then split: prod.splits sum.splits)

lemma run_catch: "run_alone b (catch p h k) s = (case run_alone b p s of (Inl e, s') \<Rightarrow> run_alone b (h e) s' | (Inr x, s') \<Rightarrow> run_alone b (k x) s')"
  by (simp add: catch_def run_then split: prod.splits sum.splits)

lemma run_atoms:
  "run_alone b (give x) s = (Inr x, s)" "run_alone b (lift_res r) s = (r, s)" "run_alone b (ask f) s = (f s, s)"
  "run_alone b (atomic g) s = (case g s of Inl e \<Rightarrow> (Inl e, s) | Inr (x, s') \<Rightarrow> (Inr x, s'))"
  by (simp_all add: give_def lift_res_def ask_def atomic_def split: sum.splits prod.splits)

lemmas run_rules = run_xbind run_catch run_atoms

lemma run_move_workflow: "run_alone b (move_workflow_of env k i q a) s = (x, s') \<Longrightarrow> xs_books s' = xs_books s"
  by (auto simp: move_workflow_of_def run_atoms on_approvals_books split: sum.splits prod.splits)

lemma run_advance_books: "run_alone b (advance_workflow env k i source target a) s = (x, s') \<Longrightarrow> xs_books s' = xs_books s"
  by (auto simp: advance_workflow_def current_workflow_def run_rules dest: run_move_workflow split: sum.splits prod.splits if_splits)

text \<open>A transition that the machine allows and whose event is new succeeds.\<close>

definition new_event :: "executor_env \<Rightarrow> nat \<Rightarrow> order_intent \<Rightarrow> order_state \<Rightarrow> fill_store \<Rightarrow> bool" where
  "new_event env k x target b \<longleftrightarrow> (\<forall>e\<in>set (order_events b). oe_id e \<noteq> xe_fresh env k
     \<and> oe_key e \<noteq> oi_id x @ '':'' @ state_value target @ '':'' @ int_text (oi_counter x + 1))"

definition order_tables_env :: "executor_env \<Rightarrow> nat \<Rightarrow> milestone_tables exec_env" where
  "order_tables_env env k = \<lparr>ee_now = xe_clock env k, ee_fresh = xe_fresh env k, ee_milestone_terminal = apply_take_profit_terminal_state\<rparr>"

lemma move_order_succeeds:
  assumes "get_intent i (xs_books s) = Inr x" and "oi_state x = state_value q" and "order_allowed q target" and "q \<noteq> target"
    and "ta_expected a = None \<or> ta_expected a = Some q" and "new_event env k x target (xs_books s)"
    and "target \<in> set TERMINAL_STATES \<longrightarrow> (\<exists>m. apply_take_profit_terminal_state i (state_value target) (xe_clock env k) (milestones (xs_books s)) = Inr m)"
  obtains x' s' where "run_alone b (move_order_intent env k i target a) s = (Inr x', s')" "xs_workflows s' = xs_workflows s"
    "intent_transition (order_tables_env env k) i target a (xs_books s) = Inr (x', xs_books s')"
proof -
  let ?e = "order_tables_env env k"
  have id: "oi_id x = i" using get_intent_id [OF assms(1)] by simp
  have ex: "check_expected a q = Inr ()" using assms(5) by (auto simp: check_expected_def)
  have "\<exists>b'. write_transition ?e a x q target (xs_books s) = Inr b'
      \<and> order_intents b' = update_where (\<lambda>x. oi_id x = i) (move_intent (ee_now ?e) a target) (order_intents (xs_books s))"
    using assms(6,7) id unfolding write_transition_def new_event_def order_tables_env_def transition_event_def
    by (auto simp: Let_def result_simps)
  then obtain b' where w: "write_transition ?e a x q target (xs_books s) = Inr b'"
    "order_intents b' = update_where (\<lambda>x. oi_id x = i) (move_intent (ee_now ?e) a target) (order_intents (xs_books s))" by blast
  have val: "validate_transition (state_value q) (state_value target) = Inr (q, target)"
    using assms(3) by (simp add: validate_transition_iff guarded_step_def)
  have "get_intent i b' = Inr (move_intent (ee_now ?e) a target x)"
    using assms(1) intents.fetch_same [of i "(ee_now ?e, a, target)" "order_intents (xs_books s)"] by (simp add: get_intent_Inr w(2))
  then have t: "intent_transition ?e i target a (xs_books s) = Inr (move_intent (ee_now ?e) a target x, b')"
    using assms(1,4) ex val w(1) by (simp add: intent_transition_def rbind_def assms(2))
  show thesis
    by (rule that [of "move_intent (ee_now ?e) a target x" "s\<lparr>xs_books := b'\<rparr>"])
      (simp_all add: t [unfolded order_tables_env_def] move_order_intent_def run_atoms on_books_def rbind_def order_tables_env_def)
qed

text \<open>A request that may have reached the broker leaves the intent unknown: after an exception that does not prove the contrary, the
  intent of a submission under way is in the state unknown with its marker and its reservations as they were, and the result says so.\<close>

theorem ambiguous_submission_stays_unknown:
  assumes "reached \<noteq> Some False" and "get_intent (oi_id r) (xs_books s) = Inr x" and "oi_state x = state_value SUBMITTING"
    and "new_event env 7 x UNKNOWN (xs_books s)"
  shows "\<exists>res s' x'. run_alone b (handle_reply env w r (Raised cls reached)) s = (res, s')
    \<and> get_intent (oi_id r) (xs_books s') = Inr x' \<and> oi_state x' = state_value UNKNOWN \<and> oi_broker_invoked x' = oi_broker_invoked x
    \<and> risk_reservations (xs_books s') = risk_reservations (xs_books s)
    \<and> (\<forall>y. res = Inr y \<longrightarrow> \<not> er_submitted y \<and> er_status y = state_value UNKNOWN)"
proof -
  let ?a = "transition_of ''broker_submission_ambiguous'' None None (Some cls) (Some ''broker submission outcome is unknown; reconciliation required'')"
  obtain x' s1 where m: "run_alone b (move_order_intent env 7 (oi_id r) UNKNOWN ?a) s = (Inr x', s1)"
    "intent_transition (order_tables_env env 7) (oi_id r) UNKNOWN ?a (xs_books s) = Inr (x', xs_books s1)"
    by (rule move_order_succeeds [OF assms(2,3) _ _ _ assms(4)])
      (auto simp: order_allowed_def transition_of_def TERMINAL_STATES_def)
  have row: "get_intent (oi_id r) (xs_books s1) = Inr x'"
    using m(2) by (auto simp: intent_transition_def result_simps split: if_splits)
  from intent_transition_result [OF m(2)] assms(2,3) have x': "oi_state x' = state_value UNKNOWN" "oi_broker_invoked x' = oi_broker_invoked x"
    "risk_reservations (xs_books s1) = risk_reservations (xs_books s)"
    by (auto simp: move_intent_def TERMINAL_STATES_def)
  obtain u s2 where adv: "run_alone b (advance_workflow env 6 w SUBMISSION_STARTED UNKNOWN_WF (no_workflow_args\<lparr>wa_detail :=
       Some ''broker submission outcome is unknown; reconciliation required''\<rparr>)) s1 = (u, s2)" by fastforce
  have same: "xs_books s2 = xs_books s1" by (rule run_advance_books [OF adv])
  have h: "handle_reply env w r (Raised cls reached) = ambiguous env w r cls" using assms(1) by (simp add: handle_reply_def)
  show ?thesis unfolding h ambiguous_def using row x' same
    by (simp add: run_rules m(1) adv split: sum.splits)
qed

lemma advance_elsewhere:
  "get_workflow w (approval_view s) = Inr v \<Longrightarrow> wf_state v \<noteq> source \<Longrightarrow> run_alone b (advance_workflow env k w source target a) s = (Inr (), s)"
  by (simp add: advance_workflow_def current_workflow_def run_rules)

lemma marked_intent_fails:
  assumes "get_intent (oi_id r) (xs_books s) = Inr x" and "oi_broker_invoked x \<noteq> 0"
  obtains e where "run_alone b (final_authority env p st run r) s = (Inl e, s)"
proof -
  have "confirm_authority env st run r snapshot s
      = Inl (RuntimeError ''current execution intent is no longer valid for pre-invocation submission'')" for snapshot
    using assms by (simp add: confirm_authority_def Let_def get_intent_Inr same_authority_def may_invoke_def)
  then show thesis using that
    by (cases "xe_prior env r run s"; cases "xe_refresh env r p run s")
      (auto simp: final_authority_def verify_before_broker_def run_rules split: prod.splits)
qed

text \<open>C38: A late check rejects an order that was sent. A recovery worker that has the proof that nothing was submitted read the
  intent before its marker was set; when it comes to its last check after another worker has set the marker, and the request is on its
  way, the check fails and the worker rejects the intent and releases its reservation, with the marker still set. The transition asks only for the state submitting.\<close>

theorem late_check_rejects_submitted_order:
  assumes "xe_proven env" and "oi_broker_invoked r = 0"
    and "get_workflow w (approval_view s) = Inr v" and "wf_state v = SUBMISSION_STARTED"
    and "get_intent (oi_id r) (xs_books s) = Inr x" and "oi_state x = state_value SUBMITTING" and "oi_broker_invoked x \<noteq> 0"
    and "new_event env 3 x REJECTED (xs_books s)"
    and "apply_take_profit_terminal_state (oi_id r) (state_value REJECTED) (xe_clock env 3) (milestones (xs_books s)) = Inr m"
  shows "\<exists>res s' x'. run_alone b (submit_intent env p source_type run w SUBMITTING r) s = (res, s')
    \<and> get_intent (oi_id r) (xs_books s') = Inr x' \<and> oi_state x' = state_value REJECTED \<and> oi_broker_invoked x' \<noteq> 0
    \<and> (\<forall>y\<in>set (risk_reservations (xs_books s')). rr_intent y = oi_id r \<longrightarrow> rr_state y \<noteq> ''active'')"
proof -
  obtain e where fail: "run_alone b (final_authority env p source_type run r) s = (Inl e, s)"
    by (rule marked_intent_fails [OF assms(5,7)])
  let ?a = "transition_of ''authoritative_snapshot_changed_before_broker'' (Some SUBMITTING) None
       (Some (error_class e)) (Some (''pre-broker control failure: '' @ error_class e @ '': '' @ take 300 (error_text e)))"
  obtain x' s1 where m: "run_alone b (move_order_intent env 3 (oi_id r) REJECTED ?a) s = (Inr x', s1)"
    "intent_transition (order_tables_env env 3) (oi_id r) REJECTED ?a (xs_books s) = Inr (x', xs_books s1)"
    by (rule move_order_succeeds [OF assms(5,6) _ _ _ assms(8)])
      (use assms(9) in \<open>auto simp: order_allowed_def transition_of_def\<close>)
  have row: "get_intent (oi_id r) (xs_books s1) = Inr x'"
    using m(2) by (auto simp: intent_transition_def result_simps split: if_splits)
  from intent_transition_result [OF m(2)] assms(5,6,7) have x': "oi_state x' = state_value REJECTED" "oi_broker_invoked x' \<noteq> 0"
    "risk_reservations (xs_books s1) = update_where (\<lambda>y. rr_intent y = oi_id r \<and> rr_state y = ''active'')
       (release_reservation (xe_clock env 3) (state_value REJECTED)) (risk_reservations (xs_books s))"
    by (auto simp: move_intent_def TERMINAL_STATES_def order_tables_env_def simp del: state_value.simps)
  have free: "\<forall>y\<in>set (risk_reservations (xs_books s1)). rr_intent y = oi_id r \<longrightarrow> rr_state y \<noteq> ''active''"
    by (auto simp: x'(3) update_where_def release_reservation_def)
  obtain u s2 where adv: "run_alone b (advance_workflow env 3 w SUBMISSION_STARTED TERMINAL no_workflow_args) s1 = (u, s2)" by fastforce
  have same: "xs_books s2 = xs_books s1" by (rule run_advance_books [OF adv])
  have stale: "never_invoked env SUBMITTING r" using assms(1,2) by (simp add: never_invoked_def)
  have idle: "run_alone b (advance_workflow env k w q t no_workflow_args) s = (Inr (), s)" if "q \<noteq> SUBMISSION_STARTED" for k q t
    by (rule advance_elsewhere [OF assms(3)]) (use assms(4) that in simp)
  have "run_alone b (start_submission env SUBMITTING r w) s = (Inr r, s)"
    by (simp add: start_submission_def run_rules stale idle)
  then have "run_alone b (submit_intent env p source_type run w SUBMITTING r) s = run_alone b (reject_before_broker env w r e) s"
    by (simp add: submit_intent_def run_rules idle fail)
  moreover have "\<exists>y. run_alone b (reject_before_broker env w r e) s = (y, s2)"
    unfolding reject_before_broker_def run_xbind m(1) prod.case sum.case adv by (cases u) (simp_all add: run_atoms)
  ultimately show ?thesis using row x'(1,2) free same by (metis)
qed

section \<open>Examples\<close>

definition sample_executor :: "string \<Rightarrow> bool \<Rightarrow> executor_env" where
  "sample_executor tag proven = \<lparr>xe_broker = True, xe_proven = proven, xe_run = Some ''run1'', xe_protective = Inr (), xe_autonomous_entry = Inr (),
     xe_autonomous_exit = Inr (), xe_quote = (\<lambda>_. Inr ()), xe_sha256 = (\<lambda>x. x), xe_envelope = (\<lambda>_ _. sample_envelope),
     xe_display = (\<lambda>_ _ _ _. Inr \<lparr>sa_fingerprint = PyStr ''f1'', sa_displayed = PyStr ''f1'', sa_display = PyStr ''d1'', sa_envelope = sample_envelope\<rparr>),
     xe_expiry = (\<lambda>_. Some 9), xe_time = 1, xe_capture = (\<lambda>_ _ _ _ _. Inr (''s1'', Map.empty)), xe_risk = (\<lambda>_ _. (True, [])),
     xe_create = (\<lambda>_. (sample_creation_env tag, sample_tables)), xe_prior = (\<lambda>_ _ _. Inr ()),
     xe_refresh = (\<lambda>_ _ _ _. Inr (''s1'', Map.empty)), xe_config_hash = ''c1'', xe_formulas = (\<lambda>_. True), xe_adapter = Inr (),
     xe_clock = (\<lambda>k. ''t2''), xe_fresh = (\<lambda>k. tag @ int_text (int k)), xe_workflow = (\<lambda>k. ''t2''), xe_record = sample_record_env tag,
     xe_now = ''t2'', xe_payload = (\<lambda>_. PyNone)\<rparr>"

text \<open>An order whose request is on its way to the broker.\<close>

definition sent_intent :: order_intent where
  "sent_intent = \<lparr>oi_id = ''i1'', oi_approval = Some ''a1'', oi_state = state_value SUBMITTING, oi_broker_order = None, oi_first_submission = None,
     oi_terminal_at = None, oi_error = None, oi_summary = None, oi_attempts = 1, oi_counter = 3, oi_broker_invoked = 1, oi_updated = ''t1'',
     oi_data = map_of [(''logical_action_key'', PyStr ''k1''), (''client_order_id'', PyStr ''c1''), (''symbol'', PyStr ''ABC''), (''side'', PyStr ''buy'')]\<rparr>"

definition sent_store :: exec_store where
  "sent_store = \<lparr>xs_books = empty_book\<lparr>order_intents := [sent_intent],
       orders := [\<lparr>or_id = ''i1'', or_client = ''c1'', or_proposal = PyNone, or_data = Map.empty, or_broker_order = None, or_status = state_value SUBMITTING, or_updated = ''t1''\<rparr>],
       risk_reservations := [\<lparr>rr_intent = ''i1'', rr_active_notional = ''200'', rr_active_risk = ''10'', rr_state = ''active'', rr_released_at = None,
         rr_reason = None, rr_updated = ''t1'', rr_version = 0, rr_data = Map.empty\<rparr>]\<rparr>,
     xs_workflows = [sample_workflow\<lparr>wf_state := SUBMISSION_STARTED, wf_intent := Some ''i1''\<rparr>], xs_approvals = [], xs_telegram = [], xs_audit = []\<rparr>"

lemma sent_store_facts:
  "order_book_ok (xs_books sent_store)" "marked ''i1'' sent_store" "get_intent ''i1'' (xs_books sent_store) = Inr sent_intent"
  "get_workflow ''w1'' (approval_view sent_store) = Inr (sample_workflow\<lparr>wf_state := SUBMISSION_STARTED, wf_intent := Some ''i1''\<rparr>)"
  "order_events (xs_books sent_store) = []" "milestones (xs_books sent_store) = no_milestones"
  by (auto simp: sent_store_def order_book_ok_def keys_ok_def row_keys_def intent_key_def order_key_def states_ok_def sent_intent_def
      empty_book_def marked_def get_intent_Inr fetch_one_def get_workflow_def approval_view_def sample_workflow_def simp del: state_value.simps)

theorem ambiguous_submission_stays_unknown_witness:
  "\<exists>res s' x'. run_alone (\<lambda>r. Response Map.empty) (handle_reply (sample_executor ''2'' False) ''w1'' sent_intent (Raised ''TimeoutError'' None)) sent_store = (res, s')
    \<and> get_intent ''i1'' (xs_books s') = Inr x' \<and> oi_state x' = state_value UNKNOWN \<and> oi_broker_invoked x' = 1"
proof -
  have i: "oi_id sent_intent = ''i1''" "oi_state sent_intent = state_value SUBMITTING" "oi_broker_invoked sent_intent = 1"
    by (simp_all add: sent_intent_def)
  show ?thesis
    using ambiguous_submission_stays_unknown [of None sent_intent sent_store sent_intent "sample_executor ''2'' False" "\<lambda>r. Response Map.empty" "''w1''" "''TimeoutError''"]
      sent_store_facts(3,5) i by (fastforce simp: new_event_def)
qed

theorem late_check_rejects_submitted_order_witness:
  "\<exists>res s' x'. run_alone (\<lambda>r. Response Map.empty) (submit_intent (sample_executor ''2'' True) sample_candidate ''proposal'' (Some ''run1'') ''w1'' SUBMITTING
      (sent_intent\<lparr>oi_broker_invoked := 0\<rparr>)) sent_store = (res, s')
    \<and> get_intent ''i1'' (xs_books s') = Inr x' \<and> oi_state x' = state_value REJECTED \<and> oi_broker_invoked x' \<noteq> 0"
proof -
  let ?r = "sent_intent\<lparr>oi_broker_invoked := 0\<rparr>"
  have i: "oi_id ?r = ''i1''" "oi_broker_invoked ?r = 0" "oi_state sent_intent = state_value SUBMITTING" "oi_broker_invoked sent_intent \<noteq> 0"
    by (simp_all add: sent_intent_def)
  have p: "xe_proven (sample_executor ''2'' True)" by (simp add: sample_executor_def)
  have n: "new_event (sample_executor ''2'' True) 3 sent_intent REJECTED (xs_books sent_store)" by (simp add: new_event_def sent_store_facts(5))
  have m: "apply_take_profit_terminal_state (oi_id ?r) (state_value REJECTED) (xe_clock (sample_executor ''2'' True) 3)
      (milestones (xs_books sent_store)) = Inr no_milestones"
    by (simp add: sent_store_facts(6) apply_take_profit_terminal_state_def no_milestones_def fetch_one_def)
  show ?thesis
    using late_check_rejects_submitted_order [OF p i(2) sent_store_facts(4) _ _ i(3,4) n m] sent_store_facts(3) unfolding i(1)
    by simp blast
qed

section \<open>An execution that reaches the broker\<close>

text \<open>A worker alone, up to its request.\<close>

primrec to_broker :: "'a program \<Rightarrow> exec_store \<Rightarrow> 'a program \<times> exec_store" where
  "to_broker (Done x) = (\<lambda>s. (Done x, s))"
| "to_broker (Step f) = (\<lambda>s. case map_prod to_broker id (f s) of (g, s') \<Rightarrow> g s')"
| "to_broker (Submit i r c) = (\<lambda>s. (Submit i r c, s))"

lemma to_broker_steps: "to_broker p s = (p', s') \<Longrightarrow> system_step\<^sup>*\<^sup>* (s, [p], sent) (s', [p'], sent)"
proof (induction p arbitrary: s)
  case (Step f)
  have "to_broker (fst (f s)) (snd (f s)) = (p', s')" using Step.prems by (cases "f s") simp
  then have "system_step\<^sup>*\<^sup>* (snd (f s), [fst (f s)], sent) (s', [p'], sent)"
    using Step.IH [of "f s" "fst (f s)"] rangeI [of f s] by (cases "f s") auto
  moreover have "system_step (s, [Step f], sent) (snd (f s), [fst (f s)], sent)" using system_step.stepped [of 0 "[Step f]" f s sent] by simp
  ultimately show ?case by (meson converse_rtranclp_into_rtranclp)
qed auto

lemma to_broker_then: "to_broker p s = (Done x, s') \<Longrightarrow> to_broker (then_do p k) s = to_broker (k x) s'"
proof (induction p arbitrary: s)
  case (Step f)
  have "to_broker (fst (f s)) (snd (f s)) = (Done x, s')" using Step.prems by (cases "f s") simp
  then show ?case using Step.IH [of "f s" "fst (f s)"] rangeI [of f s] by (cases "f s") auto
qed auto

lemma to_broker_xbind: "to_broker p s = (Done (Inr x), s') \<Longrightarrow> to_broker (xbind p k) s = to_broker (k x) s'"
  by (simp add: xbind_def to_broker_then)

lemma to_broker_catch: "to_broker p s = (Done (Inr x), s') \<Longrightarrow> to_broker (catch p h k) s = to_broker (k x) s'"
  by (simp add: catch_def to_broker_then)

lemma to_broker_atoms:
  "to_broker (give x) s = (Done (Inr x), s)" "to_broker (lift_res r) s = (Done r, s)" "to_broker (ask f) s = (Done (f s), s)"
  "to_broker (atomic g) s = (case g s of Inl e \<Rightarrow> (Done (Inl e), s) | Inr (x, s') \<Rightarrow> (Done (Inr x), s'))"
  by (simp_all add: give_def lift_res_def ask_def atomic_def split: sum.splits prod.splits)

lemmas to_broker_rules = to_broker_xbind to_broker_catch to_broker_atoms

text \<open>The recovery of a submission that another worker began and never sent.\<close>

definition ready_terms :: pydict where
  "ready_terms = sample_candidate(''approved_quantity_ceiling'' \<mapsto> PyStr ''3'', ''approved_notional_ceiling'' \<mapsto> PyStr ''300'',
     ''approved_stop_risk_ceiling'' \<mapsto> PyStr ''15'')"

definition ready_proposal :: pydict where
  "ready_proposal = ready_terms(''status'' \<mapsto> PyStr ''approved'', ''order_type'' \<mapsto> PyStr ''limit'', ''limit_price'' \<mapsto> PyStr ''100'',
     ''quote_bid'' \<mapsto> PyStr ''99'', ''quote_ask'' \<mapsto> PyStr ''100'', ''quote_timestamp'' \<mapsto> PyStr ''t0'', ''quote_spread_bps'' \<mapsto> PyInt 9)"

definition ready_env :: executor_env where
  "ready_env = (sample_executor ''2'' True)\<lparr>xe_create := \<lambda>_. ((sample_creation_env ''2'')\<lparr>ce_verify := \<lambda>_ _ _ _ _ _. Inr (ready_terms(''display_envelope_id'' \<mapsto> PyStr ''d1''), None)\<rparr>,
     sample_tables)\<rparr>"

definition ready_key :: string where
  "ready_key = logical_action_key ready_proposal ''proposal'' 0"

definition ready_candidate :: pydict where
  "ready_candidate = ready_proposal(''client_order_id'' \<mapsto> PyStr (stable_client_order_id (xe_sha256 ready_env) ready_key), ''trading_mode'' \<mapsto> PyStr ''paper'')"

definition ready_authority :: shown_authority where
  "ready_authority = \<lparr>sa_fingerprint = PyStr ''f1'', sa_displayed = PyStr ''f1'', sa_display = PyStr ''d1'', sa_envelope = sample_envelope\<rparr>"

definition ready_terms_shown :: pydict where
  "ready_terms_shown = (authorized_terms ready_authority (hydrate ready_candidate sample_envelope))(''risk_snapshot_id'' \<mapsto> PyStr ''s1'')"

definition ready_creation :: creation_args where
  "ready_creation = \<lparr>cr_proposal = ready_terms_shown, cr_run = Some ''run1'', cr_source_type = ''proposal'', cr_approval = Some ''a1'', cr_sequence = 0\<rparr>"

lemma ready_gate: "execution_gate ready_env ready_proposal ''proposal'' (Some ''a1'') = Inr None"
  by code_simp

lemma ready_authority_ok: "refuse_terms ready_env ready_authority ready_candidate ''p1'' = Inr None"
  by code_simp

lemma ready_key_text: "ready_key = ''proposal|p1|no-lifecycle|ABC|buy|entry|0'' \<and> logical_action_key ready_candidate ''proposal'' 0 = ready_key"
  by code_simp

lemma ready_plan: "case creation_plan (fst (xe_create ready_env s)) (snd (xe_create ready_env s)) ready_creation of Inl e \<Rightarrow> False
    | Inr (approval, b, w, p, m, aa) \<Rightarrow> it_key w = ready_key \<and> approval = ''a1''"
  unfolding ready_env_def by code_simp

definition ready_intent :: order_intent where
  "ready_intent = sent_intent\<lparr>oi_broker_invoked := 0, oi_data := map_of [(''logical_action_key'', PyStr ready_key), (''client_order_id'', PyStr ''c1''),
     (''proposal_id'', PyStr ''p1''), (''run_id'', PyStr ''run1''), (''symbol'', PyStr ''ABC''), (''side'', PyStr ''buy''),
     (''request_basis'', PyStr ''quantity''), (''requested_quantity_decimal'', PyStr ''2''), (''risk_snapshot_id'', PyStr ''s1''),
     (''displayed_fingerprint'', PyStr ''f1'')]\<rparr>"

definition ready_workflow :: workflow where
  "ready_workflow = sample_workflow\<lparr>wf_state := SUBMISSION_STARTED, wf_intent := Some ''i1''\<rparr>"

definition ready_store :: exec_store where
  "ready_store = sent_store\<lparr>xs_books := (xs_books sent_store)\<lparr>order_intents := [ready_intent]\<rparr>, xs_workflows := [ready_workflow]\<rparr>"

lemma ready_rows:
  "order_intents (xs_books ready_store) = [ready_intent]" "xs_workflows ready_store = [ready_workflow]"
  "risk_reservations (xs_books ready_store) = risk_reservations (xs_books sent_store)"
  "oi_id ready_intent = ''i1''" "oi_approval ready_intent = Some ''a1''" "oi_state ready_intent = state_value SUBMITTING"
  "oi_broker_invoked ready_intent = 0" "wf_id ready_workflow = ''w1''" "wf_approval ready_workflow = ''a1''"
  "wf_proposal ready_workflow = ''p1''" "wf_intent ready_workflow = Some ''i1''" "wf_state ready_workflow = SUBMISSION_STARTED"
  by (simp_all add: ready_store_def ready_intent_def ready_workflow_def sent_intent_def sample_workflow_def)

lemma or_str_head: "t \<noteq> [] \<Longrightarrow> or_str (PyStr t # vs) = t"
  by (simp add: or_str_def py_or_def)

lemma ready_columns:
  "dget (oi_data ready_intent) ''logical_action_key'' = PyStr ready_key" "row_text ready_intent ''proposal_id'' = ''p1''"
  "row_text ready_intent ''run_id'' = ''run1''" "row_text ready_intent ''displayed_fingerprint'' = ''f1''"
  "row_text ready_intent ''risk_snapshot_id'' = ''s1''" "dget (oi_data ready_intent) ''run_id'' = PyStr ''run1''"
  by (simp_all add: ready_intent_def row_text_def or_str_head)

lemma ready_fields:
  "xe_broker ready_env" "xe_proven ready_env" "xe_display ready_env a q st s = Inr ready_authority"
  "xe_capture ready_env p a run x s = Inr (''s1'', Map.empty)" "xe_risk ready_env p c = (True, [])" "xe_prior ready_env r run s = Inr ()"
  "xe_refresh ready_env r p run s = Inr (''s1'', Map.empty)" "xe_config_hash ready_env = ''c1''" "xe_formulas ready_env f" "xe_adapter ready_env = Inr ()"
  by (simp_all add: ready_env_def sample_executor_def ready_authority_def)

lemma ready_load:
  "to_broker (load_authority ready_env ready_candidate (Some ''a1'') ''proposal'') ready_store
    = (Done (Inr (Some ready_intent, Inr (authorized_terms ready_authority (hydrate ready_candidate sample_envelope)))), ready_store)"
proof -
  have p: "or_str [dget ready_candidate ''proposal_id'', dget ready_candidate ''id''] = ''p1''" by code_simp
  have f: "find_action (logical_action_key ready_candidate ''proposal'' 0) ready_store = Some ready_intent"
    using ready_key_text by (simp add: find_action_def fetch_one_def ready_rows ready_columns)
  have w: "get_by_approval ''a1'' (approval_view ready_store) = Some ready_workflow"
    by (simp add: get_by_approval_def approval_view_def fetch_one_def ready_rows)
  have ok: "also_refuse (refuse_terms ready_env ready_authority ready_candidate ''p1'') (refuse_workflow (Some ready_intent) (Some ''a1'') ''a1'' ready_workflow) = Inr None"
    by (simp add: ready_authority_ok also_refuse_def refuse_workflow_def ready_rows NOT_EXECUTABLE_def result_simps)
  have e: "sa_envelope ready_authority = sample_envelope" by (simp add: ready_authority_def)
  show ?thesis
    by (simp add: load_authority_def Let_def p f w ok e to_broker_rules ready_fields ready_rows effective_approval_def)
qed

lemma ready_create: "create_on ready_env ready_creation ready_store = Inr (ready_intent, ready_store)"
proof -
  obtain b w p m aa where "creation_plan (fst (xe_create ready_env ready_store)) (snd (xe_create ready_env ready_store)) ready_creation
      = Inr (''a1'', b, w, p, m, aa)" "it_key w = ready_key"
    using ready_plan [of ready_store] by (auto split: sum.splits)
  moreover have "ready_store\<lparr>xs_workflows := [ready_workflow]\<rparr> = ready_store" by (simp add: ready_store_def)
  ultimately show ?thesis
    by (simp add: create_on_def split_beta create_or_get_intent_def rbind_def ready_rows ready_columns fetch_one_def return_existing_def)
qed

lemma ready_workflow_row: "xs_workflows s = [ready_workflow] \<Longrightarrow> get_workflow ''w1'' (approval_view s) = Inr ready_workflow"
  by (simp add: get_workflow_def approval_view_def fetch_one_def ready_rows)

lemma ready_idle: "xs_workflows s = [ready_workflow] \<Longrightarrow> q \<noteq> SUBMISSION_STARTED \<Longrightarrow>
    to_broker (advance_workflow env k ''w1'' q t a) s = (Done (Inr ()), s)"
  by (simp add: advance_workflow_def current_workflow_def to_broker_rules ready_workflow_row ready_rows)

definition ready_confirmed :: exec_store where
  "ready_confirmed = ready_store\<lparr>xs_books := (xs_books ready_store)\<lparr>order_intents := [rebind_snapshot (xe_now ready_env) ''s1'' ready_intent]\<rparr>\<rparr>"

lemma ready_confirm: "confirm_authority ready_env ''proposal'' (Some ''run1'') ready_intent ''s1'' ready_store = Inr ((), ready_confirmed)"
proof -
  have "reserved_once ''i1'' (xs_books ready_store)" by (simp add: reserved_once_def ready_rows sent_store_def count_where_def)
  moreover have "same_authority ready_intent (Some ''run1'') ready_intent"
    by (simp add: same_authority_def may_invoke_def ready_columns ready_rows)
  moreover have "or_str [sa_displayed ready_authority] = ''f1''" "or_str [dget (sa_envelope ready_authority) ''config_hash''] = ''c1''"
    by (simp_all add: ready_authority_def sample_envelope_def or_str_head)
  ultimately show ?thesis
    by (simp add: confirm_authority_def Let_def fetch_one_def ready_rows ready_columns ready_fields approval_of_def rbind_def workflow_started_def
        update_where_def ready_confirmed_def)
qed

lemma ready_mark: "\<exists>s. mark_invocation ready_env ''proposal'' ''i1'' (rebind_snapshot (xe_now ready_env) ''s1'' ready_intent) ready_confirmed = Inr ((), s)"
proof -
  let ?r = "rebind_snapshot (xe_now ready_env) ''s1'' ready_intent"
  have r: "oi_id ?r = ''i1''" "may_invoke ?r" "approval_of ?r = ''a1''"
    by (simp_all add: rebind_snapshot_def ready_rows may_invoke_def approval_of_def)
  have c: "order_intents (xs_books ready_confirmed) = [?r]" "xs_workflows ready_confirmed = [ready_workflow]"
    "reserved_once ''i1'' (xs_books ready_confirmed)"
    by (simp_all add: ready_confirmed_def ready_rows reserved_once_def sent_store_def count_where_def)
  show ?thesis
    by (simp add: mark_invocation_def Let_def c r fetch_one_def ready_fields rbind_def ready_rows workflow_started_def count_where_def)
qed

lemma ready_submits:
  "\<exists>b c s. to_broker (submit_intent ready_env ready_terms_shown ''proposal'' (Some ''run1'') ''w1'' SUBMITTING ready_intent) ready_store
    = (Submit ''i1'' b c, s)"
proof -
  obtain s where m: "mark_invocation ready_env ''proposal'' ''i1'' (rebind_snapshot (xe_now ready_env) ''s1'' ready_intent) ready_confirmed = Inr ((), s)"
    using ready_mark by blast
  have g: "get_intent ''i1'' (xs_books ready_confirmed) = Inr (rebind_snapshot (xe_now ready_env) ''s1'' ready_intent)"
    by (simp add: get_intent_Inr ready_confirmed_def fetch_one_def rebind_snapshot_def ready_rows)
  have v: "to_broker (verify_before_broker ready_env ready_terms_shown ''proposal'' (Some ''run1'') ready_intent) ready_store
      = (Done (Inr Map.empty), ready_confirmed)"
    by (simp add: verify_before_broker_def to_broker_rules ready_fields ready_confirm)
  have f: "to_broker (final_authority ready_env ready_terms_shown ''proposal'' (Some ''run1'') ready_intent) ready_store = (Done (Inr ()), s)"
    by (simp add: final_authority_def to_broker_rules v g ready_fields ready_rows m)
  have n: "never_invoked ready_env SUBMITTING ready_intent" by (simp add: never_invoked_def ready_rows ready_fields)
  have st: "to_broker (start_submission ready_env SUBMITTING ready_intent ''w1'') ready_store = (Done (Inr ready_intent), ready_store)"
    by (simp add: start_submission_def n to_broker_rules ready_idle ready_rows)
  have "broker_order ready_terms_shown ready_intent \<noteq> None" by code_simp
  then show ?thesis by (auto simp: submit_intent_def to_broker_rules st f ready_idle ready_rows)
qed

lemma ready_execution: "\<exists>b c s. to_broker (execute ready_env ready_proposal ''proposal'' (Some ''a1'')) ready_store = (Submit ''i1'' b c, s)"
proof -
  have run: "execution_run ready_env q (Some ready_intent) = Some ''run1''" for q
    by (simp add: execution_run_def ready_columns or_str_head)
  have w: "get_by_approval ''a1'' (approval_view ready_store) = Some ready_workflow"
    by (simp add: get_by_approval_def approval_view_def fetch_one_def ready_rows)
  have a: "approve_workflow ready_env client (Some ready_intent) ready_workflow = give None" for client
    by (simp add: approve_workflow_def ready_rows)
  have n: "never_invoked ready_env SUBMITTING ready_intent" by (simp add: never_invoked_def ready_rows ready_fields)
  have q: "order_state_of (oi_state ready_intent) = Inr SUBMITTING" unfolding ready_rows by code_simp
  have c: "ready_candidate = ready_proposal(''client_order_id'' \<mapsto> PyStr (stable_client_order_id (xe_sha256 ready_env) (logical_action_key ready_proposal ''proposal'' 0)),
      ''trading_mode'' \<mapsto> PyStr ''paper'')" by (simp add: ready_candidate_def ready_key_def)
  show ?thesis using ready_submits
    unfolding execute_def execute_approved_def Let_def c [symmetric] validated_execution_def create_and_submit_def
    by (simp add: to_broker_rules ready_gate ready_load ready_fields effective_approval_def run w a q n
        ready_create [unfolded ready_creation_def] ready_terms_shown_def [symmetric] ready_rows
        del: state_value.simps)
qed

lemma ready_store_ok: "order_book_ok (xs_books ready_store)" "\<not> marked ''i1'' ready_store"
  by (auto simp: ready_store_def sent_store_def order_book_ok_def keys_ok_def row_keys_def intent_key_def order_key_def states_ok_def ready_intent_def
      sent_intent_def empty_book_def marked_def dget_def simp del: state_value.simps)

theorem at_most_one_submission_witness:
  "\<exists>request s' ps. system_step\<^sup>*\<^sup>* (ready_store, [], []) (s', ps, [(''i1'', request, Some (Raised ''TimeoutError'' None))])
    \<and> \<not> marked ''i1'' ready_store \<and> marked ''i1'' s' \<and> number (waiting ''i1'') ps = 0"
proof -
  let ?p = "execute ready_env ready_proposal ''proposal'' (Some ''a1'')" and ?y = "Raised ''TimeoutError'' None"
  obtain b c s where "to_broker ?p ready_store = (Submit ''i1'' b c, s)" using ready_execution by blast
  then have "system_step\<^sup>*\<^sup>* (ready_store, [?p], []) (s, [Submit ''i1'' b c], [])" by (rule to_broker_steps)
  moreover have "system_step (ready_store, [], []) (ready_store, [?p], [])" using system_step.started [of ready_store "[]" "[]"] by simp
  moreover have "system_step (s, [Submit ''i1'' b c], []) (s, [c ?y], [(''i1'', b, Some ?y)])"
    using system_step.replied [of 0 "[Submit ''i1'' b c]" "''i1''" b c ?y s "[]"] by (simp add: wf_reply_def)
  ultimately have r: "system_step\<^sup>*\<^sup>* (ready_store, [], []) (s, [c ?y], [(''i1'', b, Some ?y)])"
    by (meson converse_rtranclp_into_rtranclp rtranclp.rtrancl_into_rtrancl)
  have "may_have_reached ''i1'' (''i1'', b, Some ?y)" by (simp add: may_have_reached_def right_after_def)
  then have "marked ''i1'' s \<and> number (waiting ''i1'') [c ?y] = 0"
    using at_most_one_submission [OF r ready_store_ok(1), of "''i1''"] by (auto simp: of_bool_def split: if_splits)
  then show ?thesis using r ready_store_ok(2) by blast
qed

end
