(* ===== verification/Exit_Blocker.thy ===== *)
theory Exit_Blocker
  imports Approval_Workflow
begin

text \<open>
  \<open>app/exit_blocker.py\<close>: the durable exit priority of each symbol. \<open>observe\<close> refreshes the active blocker of the
  symbol or supersedes it by a new generation, \<open>clear_absent\<close> clears the active ones. The blocker table
  extends the approval store, which \<open>observe\<close> reads to link the blocker to its proposal, approval, workflow
  and intent. The column of the blocker's own JSON text is kept as the dictionary.
\<close>

section \<open>State\<close>

record exit_blocker =
  eb_id :: string
  eb_symbol :: string
  eb_lifecycle :: pyval
  eb_generation :: int
  eb_state :: string
  eb_source_type :: string
  eb_source_id :: string
  eb_run :: "string option"
  eb_proposal :: pyval
  eb_approval :: pyval
  eb_workflow :: pyval
  eb_intent :: pyval
  eb_broker_order :: pyval
  eb_reason :: string
  eb_active :: bool
  eb_user_action :: string
  eb_automatic :: string
  eb_classification :: string
  eb_created :: string
  eb_updated :: string
  eb_cleared :: "string option"
  eb_terminal :: "string option"
  eb_detail :: pydict

record 'm blocker_store = "'m approval_store" +
  exit_blockers :: "exit_blocker list"

section \<open>Classification\<close>

text \<open>The state, the action asked of the user, and the automatic recovery.\<close>

definition exit_classification :: "string \<Rightarrow> string \<Rightarrow> string \<times> string \<times> string" where
  "exit_classification source_type status =
     (if source_type = ''broker_open_order''
      then (''broker_order_open'', ''wait for broker reconciliation'', ''reconcile only; never resubmit'')
      else if source_type \<in> set [''sell_order_intent'', ''active_sell_reservation''] then
        (if status \<in> set [''unknown'', ''reconciliation_required'', ''submitting'']
         then (''reconciliation_required'', ''manual broker lookup may be required'', ''lookup by stable client order ID; never retry'')
         else (''exit_intent_in_progress'', ''no new approval is needed'', ''reconcile the existing intent''))
      else if source_type \<in> set [''active_sell_proposal'', ''active_sell_batch_candidate'']
      then (''awaiting_manual_approval'', ''approve or reject the displayed exit'', ''expire safely if no response'')
      else if source_type \<in> set [''current_position_management_decision'', ''current_cycle_exit_signal'']
      then (''fresh_decision_awaiting_proposal'', ''wait for a fresh displayed proposal'', ''generate a new proposal only from fresh valid data'')
      else (''active_exit_priority'', ''review current exit evidence'', ''revalidate from current state''))"

section \<open>Links of a blocker\<close>

text \<open>
  The latest approval of a proposal, with the id and the intent of its workflow. The rows are sorted by
  creation time; of equal ones the first row is taken.
\<close>

definition latest_approval :: "string \<Rightarrow> ('m, 'z) approval_store_scheme \<Rightarrow> (pyval \<times> pyval \<times> pyval) option" where
  "latest_approval proposal s =
     (case filter (\<lambda>a. ap_proposal a = proposal) (approvals s) of
        [] \<Rightarrow> None
      | a # as \<Rightarrow>
          let b = foldl (\<lambda>x y. if ap_created x < ap_created y then y else x) a as in
          Some (case get_by_approval (ap_id b) s of
              None \<Rightarrow> (PyStr (ap_id b), PyNone, PyNone)
            | Some w \<Rightarrow> (PyStr (ap_id b), PyStr (wf_id w), opt_str (wf_intent w))))"

record blocker_links =
  bl_proposal :: pyval
  bl_approval :: pyval
  bl_workflow :: pyval
  bl_intent :: pyval
  bl_broker_order :: pyval

definition proposal_links :: "pyval \<Rightarrow> ('m, 'z) approval_store_scheme \<Rightarrow> blocker_links" where
  "proposal_links proposal s = (case (if truthy proposal then latest_approval (py_str proposal) s else None) of
     None \<Rightarrow> \<lparr>bl_proposal = proposal, bl_approval = PyNone, bl_workflow = PyNone, bl_intent = PyNone, bl_broker_order = PyNone\<rparr>
   | Some (a, w, i) \<Rightarrow> \<lparr>bl_proposal = proposal, bl_approval = a, bl_workflow = w, bl_intent = i, bl_broker_order = PyNone\<rparr>)"

definition intent_links :: "pyval \<Rightarrow> ('m, 'z) approval_store_scheme \<Rightarrow> blocker_links \<Rightarrow> blocker_links" where
  "intent_links given s l =
     (let intent = py_or given (bl_intent l); l = l\<lparr>bl_intent := intent\<rparr> in
      case (if truthy intent then fetch_one (\<lambda>r. oi_id r = py_str intent) (order_intents s) else None) of
        None \<Rightarrow> l
      | Some r \<Rightarrow> l\<lparr>bl_broker_order := opt_str (oi_broker_order r),
           bl_proposal := py_or (bl_proposal l) (dget (oi_data r) ''proposal_id''),
           bl_approval := py_or (bl_approval l) (opt_str (oi_approval r))\<rparr>)"

definition blocker_links_of :: "pydict \<Rightarrow> string \<Rightarrow> string \<Rightarrow> ('m, 'z) approval_store_scheme \<Rightarrow> blocker_links" where
  "blocker_links_of blocker source_type source_id s =
     (let given = (if truthy (dget blocker ''proposal_id'') then dget blocker ''proposal_id''
            else if is_substring ''proposal'' source_type then PyStr source_id else PyNone);
          l = intent_links (dget blocker ''order_intent_id'') s (proposal_links given s)
      in if source_type = ''broker_open_order'' then l\<lparr>bl_broker_order := PyStr source_id\<rparr> else l)"

section \<open>Observation\<close>

record blocker_env =
  be_now :: string
  be_fresh :: string
  be_run :: "string option"

text \<open>\<open>COALESCE(new, old)\<close> of columns\<close>

definition coalesce_val :: "pyval \<Rightarrow> pyval \<Rightarrow> pyval" where
  "coalesce_val a b = (if a = PyNone then b else a)"

definition blocker_reason :: "pydict \<Rightarrow> string" where
  "blocker_reason blocker = py_str (py_or (dget blocker ''reason'') (PyStr ''active exit priority''))"

definition refresh_blocker :: "blocker_env \<Rightarrow> pydict \<Rightarrow> string \<times> string \<times> string \<Rightarrow> blocker_links \<Rightarrow> exit_blocker \<Rightarrow> exit_blocker" where
  "refresh_blocker env blocker c l b = (case c of (state, user_action, automatic) \<Rightarrow> b\<lparr>eb_state := state, eb_updated := be_now env,
     eb_reason := blocker_reason blocker, eb_user_action := user_action, eb_automatic := automatic, eb_detail := blocker,
     eb_proposal := coalesce_val (bl_proposal l) (eb_proposal b), eb_approval := coalesce_val (bl_approval l) (eb_approval b),
     eb_workflow := coalesce_val (bl_workflow l) (eb_workflow b), eb_intent := coalesce_val (bl_intent l) (eb_intent b),
     eb_broker_order := coalesce_val (bl_broker_order l) (eb_broker_order b)\<rparr>)"

definition supersede_blocker :: "string \<Rightarrow> exit_blocker \<Rightarrow> exit_blocker" where
  "supersede_blocker now b = b\<lparr>eb_active := False, eb_state := ''superseded'', eb_cleared := Some now, eb_terminal := Some now,
     eb_updated := now\<rparr>"

definition new_blocker ::
  "blocker_env \<Rightarrow> pydict \<Rightarrow> string \<Rightarrow> string \<Rightarrow> string \<Rightarrow> int \<Rightarrow> string \<times> string \<times> string \<Rightarrow> blocker_links \<Rightarrow> exit_blocker" where
  "new_blocker env blocker symbol source_type source_id generation c l = (case c of (state, user_action, automatic) \<Rightarrow>
     \<lparr>eb_id = be_fresh env, eb_symbol = symbol, eb_lifecycle = dget blocker ''position_lifecycle_id'', eb_generation = generation,
      eb_state = state, eb_source_type = source_type, eb_source_id = source_id, eb_run = be_run env,
      eb_proposal = bl_proposal l, eb_approval = bl_approval l, eb_workflow = bl_workflow l, eb_intent = bl_intent l,
      eb_broker_order = bl_broker_order l, eb_reason = blocker_reason blocker, eb_active = True, eb_user_action = user_action,
      eb_automatic = automatic,
      eb_classification = (if state = ''fresh_decision_awaiting_proposal'' then ''safe_automatic'' else ''state_dependent''),
      eb_created = be_now env, eb_updated = be_now env, eb_cleared = None, eb_terminal = None, eb_detail = blocker\<rparr>)"

text \<open>
  The unique columns: the id; symbol, lifecycle and generation together, where a missing lifecycle is
  distinct from every other; and the symbol among the active rows.
\<close>

definition blocker_clash :: "exit_blocker \<Rightarrow> exit_blocker \<Rightarrow> bool" where
  "blocker_clash a b \<longleftrightarrow> eb_id a = eb_id b
     \<or> (eb_symbol a = eb_symbol b \<and> eb_lifecycle a \<noteq> PyNone \<and> eb_lifecycle a = eb_lifecycle b \<and> eb_generation a = eb_generation b)
     \<or> (eb_symbol a = eb_symbol b \<and> eb_active a \<and> eb_active b)"

definition insert_blocker :: "exit_blocker \<Rightarrow> exit_blocker list \<Rightarrow> exit_blocker list res" where
  "insert_blocker b bs = (if list_ex (\<lambda>a. blocker_clash a b) bs
     then Inl (IntegrityError ''UNIQUE constraint failed: exit_blocker_states'') else Inr (bs @ [b]))"

text \<open>\<open>COALESCE(MAX(generation), 0)\<close> over the rows of a symbol\<close>

definition max_generation :: "string \<Rightarrow> exit_blocker list \<Rightarrow> int" where
  "max_generation symbol bs = (case map eb_generation (filter (\<lambda>b. eb_symbol b = symbol) bs) of
     [] \<Rightarrow> 0 | g # gs \<Rightarrow> foldl max g gs)"

definition active_blocker :: "string \<Rightarrow> exit_blocker list \<Rightarrow> exit_blocker option" where
  "active_blocker symbol bs = fetch_one (\<lambda>b. eb_symbol b = symbol \<and> eb_active b) bs"

text \<open>The transaction of \<open>observe\<close>, from the classified blocker.\<close>

definition store_blocker ::
  "blocker_env \<Rightarrow> pydict \<Rightarrow> string \<Rightarrow> string \<Rightarrow> string \<Rightarrow> string \<times> string \<times> string \<Rightarrow> blocker_links
    \<Rightarrow> exit_blocker list \<Rightarrow> (string \<times> exit_blocker list) res" where
  "store_blocker env blocker symbol source_type source_id c l bs =
     (case active_blocker symbol bs of
        Some b \<Rightarrow>
          if eb_source_type b = source_type \<and> eb_source_id b = source_id
          then Inr (eb_id b, update_where (\<lambda>a. eb_id a = eb_id b) (refresh_blocker env blocker c l) bs)
          else rbind (insert_blocker (new_blocker env blocker symbol source_type source_id (eb_generation b + 1) c l)
                 (update_where (\<lambda>a. eb_id a = eb_id b) (supersede_blocker (be_now env)) bs)) (\<lambda>bs'. Inr (be_fresh env, bs'))
      | None \<Rightarrow> rbind (insert_blocker (new_blocker env blocker symbol source_type source_id (max_generation symbol bs + 1) c l) bs)
            (\<lambda>bs'. Inr (be_fresh env, bs')))"

text \<open>The row that \<open>observe\<close> merges into its result.\<close>

definition observe :: "blocker_env \<Rightarrow> pydict \<Rightarrow> ('m, 'z) blocker_store_scheme \<Rightarrow> (exit_blocker \<times> ('m, 'z) blocker_store_scheme) res" where
  "observe env blocker s =
     (let symbol = upper (py_str (py_or (dget blocker ''symbol'') (PyStr [])));
          source_type = py_str (py_or (py_or (dget blocker ''source_type'') (dget blocker ''source'')) (PyStr []));
          source_id = py_str (py_or (dget blocker ''source_id'') (PyStr []))
      in if symbol = [] \<or> source_type = [] \<or> source_id = []
         then Inl (ValueError ''active exit blocker requires symbol and stable provenance'')
         else let status = lower (py_str (py_or (dget blocker ''status'') (PyStr ''active'')));
                  c = exit_classification source_type status;
                  l = blocker_links_of blocker source_type source_id s
           in rbind (store_blocker env blocker symbol source_type source_id c l (exit_blockers s)) (\<lambda>(i, bs).
                case fetch_one (\<lambda>b. eb_id b = i) bs of
                  None \<Rightarrow> Inl (LookupError ''exit blocker'')
                | Some b \<Rightarrow> Inr (b, s\<lparr>exit_blockers := bs\<rparr>)))"

definition clear_blocker :: "string \<Rightarrow> string \<Rightarrow> exit_blocker \<Rightarrow> exit_blocker" where
  "clear_blocker now reason b = b\<lparr>eb_active := False, eb_state := ''cleared'', eb_cleared := Some now, eb_terminal := Some now,
     eb_updated := now, eb_reason := reason\<rparr>"

text \<open>One statement per active row, for the observed symbols; the result is their number.\<close>

definition clear_absent :: "string \<Rightarrow> string list option \<Rightarrow> string \<Rightarrow> ('m, 'z) blocker_store_scheme \<Rightarrow> nat \<times> ('m, 'z) blocker_store_scheme" where
  "clear_absent now observed reason s =
     (let rows = filter (\<lambda>b. eb_active b \<and> (case observed of None \<Rightarrow> True | Some syms \<Rightarrow> upper (eb_symbol b) \<in> set syms)) (exit_blockers s)
      in (length rows, s\<lparr>exit_blockers := foldl (\<lambda>bs r. update_where (\<lambda>b. eb_id b = eb_id r \<and> eb_active b) (clear_blocker now reason) bs)
            (exit_blockers s) rows\<rparr>))"

section \<open>One active blocker per symbol\<close>

definition blockers_ok :: "exit_blocker list \<Rightarrow> bool" where
  "blockers_ok bs \<longleftrightarrow> distinct (map eb_id bs) \<and> distinct (map (\<lambda>b. (eb_symbol b, eb_generation b)) bs)
     \<and> (\<forall>b\<in>set bs. eb_active b \<longrightarrow> (\<forall>a\<in>set bs. eb_symbol a = eb_symbol b \<longrightarrow> eb_generation a \<le> eb_generation b))
     \<and> (\<forall>p. count_where (\<lambda>b. eb_symbol b = p \<and> eb_active b) bs \<le> 1)"

lemma refresh_keeps [simp]:
  "eb_id (refresh_blocker env bl c l b) = eb_id b" "eb_symbol (refresh_blocker env bl c l b) = eb_symbol b"
  "eb_generation (refresh_blocker env bl c l b) = eb_generation b" "eb_active (refresh_blocker env bl c l b) = eb_active b"
  "eb_source_type (refresh_blocker env bl c l b) = eb_source_type b" "eb_source_id (refresh_blocker env bl c l b) = eb_source_id b"
  by (simp_all add: refresh_blocker_def split: prod.split)

lemma supersede_keeps [simp]:
  "eb_id (supersede_blocker now b) = eb_id b" "eb_symbol (supersede_blocker now b) = eb_symbol b"
  "eb_generation (supersede_blocker now b) = eb_generation b" "\<not> eb_active (supersede_blocker now b)"
  by (simp_all add: supersede_blocker_def)

lemma clear_keeps [simp]:
  "eb_id (clear_blocker now r b) = eb_id b" "eb_symbol (clear_blocker now r b) = eb_symbol b"
  "eb_generation (clear_blocker now r b) = eb_generation b" "\<not> eb_active (clear_blocker now r b)"
  by (simp_all add: clear_blocker_def)

lemma new_blocker_fields [simp]:
  "eb_id (new_blocker env bl sy st si g c l) = be_fresh env" "eb_symbol (new_blocker env bl sy st si g c l) = sy"
  "eb_generation (new_blocker env bl sy st si g c l) = g" "eb_active (new_blocker env bl sy st si g c l)"
  "eb_source_type (new_blocker env bl sy st si g c l) = st" "eb_source_id (new_blocker env bl sy st si g c l) = si"
  by (simp_all add: new_blocker_def split: prod.split)

text \<open>An update that keeps identity and never activates a row keeps the table in order.\<close>

lemma update_ok:
  assumes ok: "blockers_ok bs"
    and f: "\<And>b. eb_id (f b) = eb_id b \<and> eb_symbol (f b) = eb_symbol b \<and> eb_generation (f b) = eb_generation b \<and> (eb_active (f b) \<longrightarrow> eb_active b)"
  shows "blockers_ok (update_where p f bs)"
proof -
  have ids: "map eb_id (update_where p f bs) = map eb_id bs"
    "map (\<lambda>b. (eb_symbol b, eb_generation b)) (update_where p f bs) = map (\<lambda>b. (eb_symbol b, eb_generation b)) bs"
    by (simp_all add: map_update_where f)
  have old: "\<exists>a\<in>set bs. eb_symbol a = eb_symbol b \<and> eb_generation a = eb_generation b \<and> (eb_active b \<longrightarrow> eb_active a)"
    if "b \<in> set (update_where p f bs)" for b
    using that f by (auto dest!: set_update_where)
  have "eb_generation a \<le> eb_generation b"
    if "b \<in> set (update_where p f bs)" "eb_active b" "a \<in> set (update_where p f bs)" "eb_symbol a = eb_symbol b" for a b
    using old [OF that(1)] old [OF that(3)] that(2,4) ok unfolding blockers_ok_def by metis
  moreover have "count_where (\<lambda>b. eb_symbol b = q \<and> eb_active b) (update_where p f bs) \<le> 1" for q
  proof -
    have "count_where (\<lambda>b. eb_symbol b = q \<and> eb_active b) (update_where p f bs) \<le> count_where (\<lambda>b. eb_symbol b = q \<and> eb_active b) bs"
      by (rule count_where_update_le) (use f in auto)
    also have "\<dots> \<le> 1" using ok by (simp add: blockers_ok_def)
    finally show ?thesis .
  qed
  ultimately show ?thesis using ok unfolding blockers_ok_def ids by blast
qed

lemma max_generation_ge: "b \<in> set bs \<Longrightarrow> eb_symbol b = s \<Longrightarrow> eb_generation b \<le> max_generation s bs"
proof -
  have m: "g \<le> foldl max g gs \<and> (\<forall>x\<in>set gs. x \<le> foldl max g gs)" for g :: int and gs
  proof (induction gs arbitrary: g)
    case (Cons h hs)
    have "max g h \<le> foldl max (max g h) hs" "\<forall>x\<in>set hs. x \<le> foldl max (max g h) hs" using Cons by blast+
    then show ?case by simp
  qed simp
  assume "b \<in> set bs" "eb_symbol b = s"
  then have in_gens: "eb_generation b \<in> set (map eb_generation (filter (\<lambda>b. eb_symbol b = s) bs))" by auto
  obtain g gs where g: "map eb_generation (filter (\<lambda>b. eb_symbol b = s) bs) = g # gs"
    using in_gens by (cases "map eb_generation (filter (\<lambda>b. eb_symbol b = s) bs)") auto
  show ?thesis using in_gens m [of g gs] unfolding max_generation_def g by auto
qed

lemma insert_ok:
  assumes ok: "blockers_ok bs" and fresh: "\<forall>a\<in>set bs. eb_id a \<noteq> eb_id b"
    and none: "\<forall>a\<in>set bs. eb_symbol a = eb_symbol b \<longrightarrow> \<not> eb_active a \<and> eb_generation a < eb_generation b"
  shows "insert_blocker b bs = Inr (bs @ [b]) \<and> blockers_ok (bs @ [b])"
proof
  show "insert_blocker b bs = Inr (bs @ [b])"
    using fresh none by (auto simp: insert_blocker_def list_ex_iff blocker_clash_def)
  have "count_where (\<lambda>a. eb_symbol a = q \<and> eb_active a) (bs @ [b]) \<le> 1" for q
  proof (cases "q = eb_symbol b")
    case True
    then have "count_where (\<lambda>a. eb_symbol a = q \<and> eb_active a) bs = 0" using none by (auto simp: count_where_0_iff)
    then show ?thesis by simp
  next
    case False
    then show ?thesis using ok by (simp add: blockers_ok_def)
  qed
  moreover have "(eb_symbol b, eb_generation b) \<notin> (\<lambda>b. (eb_symbol b, eb_generation b)) ` set bs" using none by force
  ultimately show "blockers_ok (bs @ [b])" using ok fresh none
    unfolding blockers_ok_def by (auto simp: less_imp_le)
qed

lemma active_blocker_Some: "active_blocker p bs = Some b \<Longrightarrow> b \<in> set bs \<and> eb_symbol b = p \<and> eb_active b"
  by (auto simp: active_blocker_def dest: fetch_one_Some)

lemma active_blocker_unique: "blockers_ok bs \<Longrightarrow> b \<in> set bs \<Longrightarrow> eb_active b \<Longrightarrow> active_blocker (eb_symbol b) bs = Some b"
proof -
  assume ok: "blockers_ok bs" and b: "b \<in> set bs" "eb_active b"
  let ?q = "\<lambda>a. eb_symbol a = eb_symbol b \<and> eb_active a"
  have "count_where ?q bs \<noteq> 0" using b by (auto simp: count_where_0_iff)
  moreover have "count_where ?q bs \<le> 1" using ok by (simp add: blockers_ok_def)
  ultimately have one: "count_where ?q bs = 1" by simp
  obtain a where a: "active_blocker (eb_symbol b) bs = Some a"
    using b by (cases "active_blocker (eb_symbol b) bs") (auto simp: active_blocker_def fetch_one_None)
  have "a = b" using count_one_unique [OF one, of a b] active_blocker_Some [OF a] b by simp
  then show ?thesis using a by simp
qed

text \<open>The transaction of an observation succeeds with a fresh id.\<close>

lemma store_blocker_ok:
  assumes ok: "blockers_ok bs" and fresh: "\<forall>a\<in>set bs. eb_id a \<noteq> be_fresh env"
  shows "\<exists>i bs' b. store_blocker env bl sy st si c l bs = Inr (i, bs') \<and> blockers_ok bs' \<and> b \<in> set bs' \<and> eb_id b = i
    \<and> eb_active b \<and> eb_symbol b = sy \<and> eb_source_type b = st \<and> eb_source_id b = si"
proof (cases "active_blocker sy bs")
  case None
  then have none: "\<forall>a\<in>set bs. eb_symbol a = sy \<longrightarrow> \<not> eb_active a" by (auto simp: active_blocker_def fetch_one_None)
  let ?b = "new_blocker env bl sy st si (max_generation sy bs + 1) c l"
  have "insert_blocker ?b bs = Inr (bs @ [?b]) \<and> blockers_ok (bs @ [?b])"
    by (rule insert_ok [OF ok]) (use fresh none max_generation_ge [of _ bs sy] in \<open>fastforce\<close>)+
  then show ?thesis using None by (intro exI [of _ "be_fresh env"] exI [of _ "bs @ [?b]"] exI [of _ ?b]) (simp add: store_blocker_def)
next
  case (Some b)
  note b = active_blocker_Some [OF Some]
  show ?thesis
  proof (cases "eb_source_type b = st \<and> eb_source_id b = si")
    case True
    let ?bs = "update_where (\<lambda>a. eb_id a = eb_id b) (refresh_blocker env bl c l) bs"
    have "blockers_ok ?bs" by (rule update_ok [OF ok]) simp
    moreover have "refresh_blocker env bl c l b \<in> set ?bs" using b by (auto simp: update_where_def)
    ultimately show ?thesis using Some True b
      by (intro exI [of _ "eb_id b"] exI [of _ ?bs] exI [of _ "refresh_blocker env bl c l b"]) (simp add: store_blocker_def)
  next
    case False
    let ?bs = "update_where (\<lambda>a. eb_id a = eb_id b) (supersede_blocker (be_now env)) bs"
    let ?b = "new_blocker env bl sy st si (eb_generation b + 1) c l"
    have ok1: "blockers_ok ?bs" by (rule update_ok [OF ok]) simp
    have only: "a = b" if "a \<in> set bs" "eb_symbol a = sy" "eb_active a" for a
      using active_blocker_unique [OF ok that(1,3)] Some that(2) by simp
    have "\<not> eb_active a \<and> eb_generation a < eb_generation ?b" if "a \<in> set ?bs" "eb_symbol a = sy" for a
    proof -
      have "a \<in> (\<lambda>a. if eb_id a = eb_id b then supersede_blocker (be_now env) a else a) ` set bs"
        using that(1) by (simp add: update_where_def)
      then obtain a0 where a0: "a0 \<in> set bs" "a = (if eb_id a0 = eb_id b then supersede_blocker (be_now env) a0 else a0)"
        by blast
      then have "eb_symbol a0 = sy" "eb_generation a = eb_generation a0" using that(2) by (auto split: if_splits)
      then have "eb_generation a \<le> eb_generation b" using a0(1) b ok unfolding blockers_ok_def by metis
      moreover have "\<not> eb_active a" using only [OF a0(1) \<open>eb_symbol a0 = sy\<close>] a0(2) by auto
      ultimately show ?thesis by simp
    qed
    moreover have "\<forall>a\<in>set ?bs. eb_id a \<noteq> eb_id ?b" using fresh by (auto dest!: set_update_where)
    ultimately have "insert_blocker ?b ?bs = Inr (?bs @ [?b]) \<and> blockers_ok (?bs @ [?b])"
      by (intro insert_ok [OF ok1]) auto
    then show ?thesis using Some False
      by (intro exI [of _ "be_fresh env"] exI [of _ "?bs @ [?b]"] exI [of _ ?b]) (auto simp: store_blocker_def)
  qed
qed


lemma observe_ok:
  assumes ok: "blockers_ok (exit_blockers s)" and fresh: "\<forall>a\<in>set (exit_blockers s). eb_id a \<noteq> be_fresh env"
  shows "(\<exists>e. observe env blocker s = Inl (ValueError e)) \<or> (\<exists>b s'. observe env blocker s = Inr (b, s') \<and> blockers_ok (exit_blockers s')
    \<and> active_blocker (upper (py_str (py_or (dget blocker ''symbol'') (PyStr [])))) (exit_blockers s') = Some b
    \<and> eb_source_id b = py_str (py_or (dget blocker ''source_id'') (PyStr [])))"
proof -
  let ?sy = "upper (py_str (py_or (dget blocker ''symbol'') (PyStr [])))"
  let ?st = "py_str (py_or (py_or (dget blocker ''source_type'') (dget blocker ''source'')) (PyStr []))"
  let ?si = "py_str (py_or (dget blocker ''source_id'') (PyStr []))"
  show ?thesis
  proof (cases "?sy = [] \<or> ?st = [] \<or> ?si = []")
    case True
    then show ?thesis by (simp add: observe_def Let_def)
  next
    case False
    let ?c = "exit_classification ?st (lower (py_str (py_or (dget blocker ''status'') (PyStr ''active''))))"
    let ?l = "blocker_links_of blocker ?st ?si s"
    obtain i bs b where st: "store_blocker env blocker ?sy ?st ?si ?c ?l (exit_blockers s) = Inr (i, bs)" and
      b: "blockers_ok bs" "b \<in> set bs" "eb_id b = i" "eb_active b" "eb_symbol b = ?sy" "eb_source_id b = ?si"
      using store_blocker_ok [OF ok fresh] by metis
    have d: "distinct (map eb_id bs)" using b(1) by (simp add: blockers_ok_def)
    have "fetch_one (\<lambda>x. eb_id x = i) bs = Some b"
    proof (cases "fetch_one (\<lambda>x. eb_id x = i) bs")
      case None
      then show ?thesis using b(2,3) by (simp add: fetch_one_None)
    next
      case (Some a)
      then have "a \<in> set bs" "eb_id a = eb_id b" using fetch_one_Some [OF Some] b(3) by auto
      then show ?thesis using Some d b(2) by (auto simp: distinct_map inj_on_def)
    qed
    then have "observe env blocker s = Inr (b, s\<lparr>exit_blockers := bs\<rparr>)"
      using False st by (simp add: observe_def Let_def)
    then show ?thesis using b active_blocker_unique [OF b(1,2,4)] by auto
  qed
qed

lemma clear_ok: "blockers_ok (exit_blockers s) \<Longrightarrow> blockers_ok (exit_blockers (snd (clear_absent now observed reason s)))"
proof -
  have "blockers_ok (foldl (\<lambda>bs r. update_where (\<lambda>b. eb_id b = eb_id r \<and> eb_active b) (clear_blocker now reason) bs) bs rows)"
    if "blockers_ok bs" for bs rows
    using that by (induction rows arbitrary: bs) (simp_all add: update_ok)
  then show "blockers_ok (exit_blockers s) \<Longrightarrow> ?thesis" by (simp add: clear_absent_def Let_def)
qed

section \<open>Properties\<close>

text \<open>The calls of the store; every observation brings a fresh id.\<close>

inductive blocker_call :: "'m blocker_store \<Rightarrow> 'm blocker_store \<Rightarrow> bool" where
  observed: "observe env blocker s = Inr (b, s') \<Longrightarrow> \<forall>a\<in>set (exit_blockers s). eb_id a \<noteq> be_fresh env \<Longrightarrow> blocker_call s s'"
| cleared: "clear_absent now syms reason s = (n, s') \<Longrightarrow> blocker_call s s'"

lemma blocker_call_ok: "blocker_call s s' \<Longrightarrow> blockers_ok (exit_blockers s) \<Longrightarrow> blockers_ok (exit_blockers s')"
proof (induction rule: blocker_call.induct)
  case (observed env blocker s b s')
  then show ?case using observe_ok [of s env blocker] by auto
next
  case (cleared now syms reason s n s')
  then show ?case using clear_ok [of s now syms reason] by simp
qed

text \<open>C30: a symbol has one active exit blocker at most, and it is the newest. Every sequence of observations and clearings
  keeps the ids and the generations of a symbol distinct, at most one active blocker per symbol, and no row
  of the symbol with a higher generation than the active one.\<close>

theorem one_active_exit_blocker:
  assumes "blocker_call\<^sup>*\<^sup>* s s'" and "blockers_ok (exit_blockers s)"
  shows "blockers_ok (exit_blockers s')"
  using assms by (induction rule: rtranclp_induct) (auto intro: blocker_call_ok)

text \<open>an observation takes the exit priority of its symbol. In a table in order, and with a fresh id, an observation
  with a symbol and a source either succeeds, and then its blocker is the active one of the symbol, or is
  refused with a \<open>ValueError\<close>; the unique columns of the table never refuse it.\<close>

theorem observation_takes_priority:
  assumes "blockers_ok (exit_blockers s)" and "\<forall>a\<in>set (exit_blockers s). eb_id a \<noteq> be_fresh env"
  shows "(\<exists>e. observe env blocker s = Inl (ValueError e)) \<or> (\<exists>b s'. observe env blocker s = Inr (b, s')
    \<and> active_blocker (upper (py_str (py_or (dget blocker ''symbol'') (PyStr [])))) (exit_blockers s') = Some b
    \<and> eb_source_id b = py_str (py_or (dget blocker ''source_id'') (PyStr [])))"
  using observe_ok [OF assms] by blast

text \<open>Two observations of a symbol from different sources, then a clearing.\<close>

definition blocker_sample :: "string \<Rightarrow> string \<Rightarrow> pydict" where
  "blocker_sample st si = [''symbol'' \<mapsto> PyStr ''abc'', ''source_type'' \<mapsto> PyStr st, ''source_id'' \<mapsto> PyStr si]"

definition blocker_env_sample :: "string \<Rightarrow> blocker_env" where
  "blocker_env_sample i = \<lparr>be_now = i, be_fresh = i, be_run = None\<rparr>"

definition empty_blockers :: "unit blocker_store" where
  "empty_blockers = \<lparr>order_intents = [], order_events = [], orders = [], risk_reservations = [], milestones = (),
     workflows = [], approvals = [], telegram_updates = [], audit_events = [], exit_blockers = []\<rparr>"

definition after_observe :: "string \<Rightarrow> string \<Rightarrow> string \<Rightarrow> unit blocker_store \<Rightarrow> unit blocker_store" where
  "after_observe i st si s = (case observe (blocker_env_sample i) (blocker_sample st si) s of Inl _ \<Rightarrow> s | Inr (_, s') \<Rightarrow> s')"

definition observed_twice :: "unit blocker_store" where
  "observed_twice = after_observe ''2'' ''sell_order_intent'' ''i1'' (after_observe ''1'' ''active_sell_proposal'' ''p1'' empty_blockers)"

lemma after_observe_call:
  assumes "\<forall>a\<in>set (exit_blockers s). eb_id a \<noteq> i"
  shows "blocker_call\<^sup>*\<^sup>* s (after_observe i st si s)"
proof (cases "observe (blocker_env_sample i) (blocker_sample st si) s")
  case (Inr p)
  obtain b s' where p: "p = (b, s')" by fastforce
  have "blocker_call s s'"
    by (rule blocker_call.observed [OF Inr [unfolded p]]) (use assms in \<open>simp add: blocker_env_sample_def\<close>)
  then show ?thesis by (simp add: after_observe_def Inr p)
qed (simp add: after_observe_def)

theorem one_active_exit_blocker_witness:
  "blockers_ok (exit_blockers observed_twice)
   \<and> map (\<lambda>b. (eb_generation b, eb_active b)) (exit_blockers observed_twice) = [(1, False), (2, True)]"
proof
  have "map eb_id (exit_blockers (after_observe ''1'' ''active_sell_proposal'' ''p1'' empty_blockers)) = [''1'']" by code_simp
  then have "\<forall>a\<in>set (exit_blockers (after_observe ''1'' ''active_sell_proposal'' ''p1'' empty_blockers)). eb_id a \<noteq> ''2''" by auto
  note second = after_observe_call [OF this, of "''sell_order_intent''" "''i1''"]
  have "\<forall>a\<in>set (exit_blockers empty_blockers). eb_id a \<noteq> ''1''" by (simp add: empty_blockers_def)
  note first = after_observe_call [OF this, of "''active_sell_proposal''" "''p1''"]
  have "blocker_call\<^sup>*\<^sup>* empty_blockers observed_twice"
    unfolding observed_twice_def by (rule rtranclp_trans [OF first second])
  then show "blockers_ok (exit_blockers observed_twice)"
    by (rule one_active_exit_blocker) (simp add: blockers_ok_def empty_blockers_def)
qed code_simp

theorem observation_takes_priority_witness:
  "\<exists>b s'. observe (blocker_env_sample ''1'') (blocker_sample ''broker_open_order'' ''o1'') empty_blockers = Inr (b, s')
    \<and> active_blocker ''ABC'' (exit_blockers s') = Some b"
proof -
  have ok: "blockers_ok (exit_blockers empty_blockers)"
    "\<forall>a\<in>set (exit_blockers empty_blockers). eb_id a \<noteq> be_fresh (blocker_env_sample ''1'')"
    by (simp_all add: blockers_ok_def empty_blockers_def)
  have "case observe (blocker_env_sample ''1'') (blocker_sample ''broker_open_order'' ''o1'') empty_blockers of Inl _ \<Rightarrow> False | Inr _ \<Rightarrow> True"
    by code_simp
  moreover have "upper (py_str (py_or (dget (blocker_sample ''broker_open_order'' ''o1'') ''symbol'') (PyStr []))) = ''ABC''" by code_simp
  ultimately show ?thesis
    using observation_takes_priority [OF ok, of "blocker_sample ''broker_open_order'' ''o1''"] by auto
qed


end
