(* ===== verification/Approval_Parser.thy ===== *)
theory Approval_Parser
  imports Py_Value
begin

text \<open>
  \<open>app/approval_parser.py\<close>: reading an operator's message as the approval or the rejection of one pending
  proposal. The two regular expressions of the code are matched against a text whose words are separated
  by single spaces, and are written here as matchers of word lists. Moments are integers; reading the
  expiry text of a proposal is an argument that may raise. Characters are bytes.
\<close>

section \<open>Words\<close>

text \<open>\<open>text.lower().strip().split()\<close>\<close>

fun split_words :: "string \<Rightarrow> string \<Rightarrow> string list" where
  "split_words w [] = (if w = [] then [] else [rev w])"
| "split_words w (c # s) = (if is_space c then (if w = [] then split_words [] s else rev w # split_words [] s)
     else split_words (c # w) s)"

definition normalized_words :: "string \<Rightarrow> string list" where
  "normalized_words t = split_words [] (strip (lower t))"

section \<open>Commands\<close>

definition REJECT_WORDS :: "string list" where
  "REJECT_WORDS = [''no'', ''reject'', ''rejected'']"

definition APPROVE_WORDS :: "string list" where
  "APPROVE_WORDS = [''yes'', ''approve'', ''approved'']"

definition is_lower_letter :: "char \<Rightarrow> bool" where
  "is_lower_letter c \<longleftrightarrow> (let n = (of_char c :: nat) in 97 \<le> n \<and> n \<le> 122)"

text \<open>\<open>[a-z.]{1,10}\<close> and \<open>[a-z0-9.-]+\<close>\<close>

definition symbol_word :: "string \<Rightarrow> bool" where
  "symbol_word w \<longleftrightarrow> w \<noteq> [] \<and> length w \<le> 10 \<and> list_all (\<lambda>c. is_lower_letter c \<or> c = CHR ''.'') w"

definition id_word :: "string \<Rightarrow> bool" where
  "id_word w \<longleftrightarrow> w \<noteq> [] \<and> list_all (\<lambda>c. is_lower_letter c \<or> is_digit c \<or> c = CHR ''.'' \<or> c = CHR ''-'') w"

text \<open>The groups of a match: side, symbol, identifier.\<close>

type_synonym command_groups = "string option \<times> string option \<times> string option"

text \<open>\<open>(?: (?:proposal )?([a-z0-9.-]+))?\<close> up to the end of the text.\<close>

fun match_id :: "string list \<Rightarrow> string option option" where
  "match_id [] = Some None"
| "match_id [w] = (if id_word w then Some (Some w) else None)"
| "match_id [p, w] = (if p = ''proposal'' \<and> id_word w then Some (Some w) else None)"
| "match_id _ = None"

text \<open>\<open>(?: (buy|sell) ([a-z.]{1,10}))?\<close> before it; the optional group is tried first.\<close>

definition match_without_side :: "string list \<Rightarrow> command_groups option" where
  "match_without_side ws = map_option (\<lambda>i. (None, None, i)) (match_id ws)"

fun match_target :: "string list \<Rightarrow> command_groups option" where
  "match_target (s # y # ws) =
     (if (s = ''buy'' \<or> s = ''sell'') \<and> symbol_word y
      then (case match_id ws of
          Some i \<Rightarrow> Some (Some s, Some y, i)
        | None \<Rightarrow> match_without_side (s # y # ws))
      else match_without_side (s # y # ws))"
| "match_target ws = match_without_side ws"

text \<open>The command word with its optional courtesy word, then the rest; the courtesy word is tried first.\<close>

definition match_command :: "string list \<Rightarrow> string \<Rightarrow> (string list \<Rightarrow> 'a option) \<Rightarrow> string list \<Rightarrow> 'a option" where
  "match_command verbs courtesy rest ws = (case ws of
     [] \<Rightarrow> None
   | v # ws' \<Rightarrow> if v \<notin> set verbs then None
       else (case ws' of
           [] \<Rightarrow> rest []
         | c # ws'' \<Rightarrow> if c = courtesy
             then (case rest ws'' of None \<Rightarrow> rest ws' | Some r \<Rightarrow> Some r) else rest ws'))"

definition match_end :: "string list \<Rightarrow> unit option" where
  "match_end ws = (if ws = [] then Some () else None)"

definition plain_reject :: "string list \<Rightarrow> bool" where
  "plain_reject ws \<longleftrightarrow> match_command REJECT_WORDS ''thanks'' match_end ws \<noteq> None"

definition plain_approve :: "string list \<Rightarrow> bool" where
  "plain_approve ws \<longleftrightarrow> match_command APPROVE_WORDS ''please'' match_end ws \<noteq> None"

definition reject_match :: "string list \<Rightarrow> command_groups option" where
  "reject_match ws = match_command REJECT_WORDS ''thanks'' match_target ws"

definition approve_match :: "string list \<Rightarrow> command_groups option" where
  "approve_match ws = match_command APPROVE_WORDS ''please'' match_target ws"

section \<open>Results\<close>

record approval_result =
  ar_action :: string
  ar_accepted :: bool
  ar_reason :: string
  ar_proposal :: "string option"

text \<open>A pending proposal: the columns the parser reads, a missing text being \<open>NULL\<close>.\<close>

record pending =
  pd_id :: string
  pd_symbol :: "string option"
  pd_side :: "string option"
  pd_message :: "string option"
  pd_expires :: string

definition outcome :: "string \<Rightarrow> bool \<Rightarrow> string \<Rightarrow> string option \<Rightarrow> approval_result" where
  "outcome action accepted reason proposal = \<lparr>ar_action = action, ar_accepted = accepted, ar_reason = reason, ar_proposal = proposal\<rparr>"

text \<open>\<open>str(p.get(column, ""))\<close> for a column that is present.\<close>

definition column_text :: "string option \<Rightarrow> string" where
  "column_text v = (case v of None \<Rightarrow> ''None'' | Some t \<Rightarrow> t)"

definition approve_proposal :: "(string \<Rightarrow> int res) \<Rightarrow> int \<Rightarrow> pending \<Rightarrow> approval_result res" where
  "approve_proposal time now p = rbind (time (pd_expires p)) (\<lambda>expiry.
     Inr (if expiry \<le> now then outcome ''approve'' False ''proposal expired'' (Some (pd_id p))
          else outcome ''approve'' True ''unambiguous authorized approval'' (Some (pd_id p))))"

definition reject_proposal :: "pending \<Rightarrow> approval_result" where
  "reject_proposal p = outcome ''reject'' True ''explicit rejection'' (Some (pd_id p))"

definition decide :: "(string \<Rightarrow> int res) \<Rightarrow> int \<Rightarrow> bool \<Rightarrow> pending \<Rightarrow> approval_result res" where
  "decide time now approving p = (if approving then approve_proposal time now p else Inr (reject_proposal p))"

definition action_name :: "bool \<Rightarrow> string" where
  "action_name approving = (if approving then ''approve'' else ''reject'')"

section \<open>Targets\<close>

text \<open>A reply: the proposal whose message it answers.\<close>

definition decide_reply ::
  "(string \<Rightarrow> int res) \<Rightarrow> int \<Rightarrow> string list \<Rightarrow> pending list \<Rightarrow> string \<Rightarrow> approval_result res" where
  "decide_reply time now ws pendings message =
     (if \<not> plain_approve ws \<and> \<not> plain_reject ws \<and> reject_match ws = None \<and> approve_match ws = None
      then Inr (outcome ''unclear'' False ''message is not an unambiguous approval or rejection'' None)
      else let approving = (plain_approve ws \<or> approve_match ws \<noteq> None) in
        case filter (\<lambda>p. pd_message p \<noteq> None \<and> pd_message p \<noteq> Some [] \<and> column_text (pd_message p) = message) pendings of
          [] \<Rightarrow> Inr (outcome (action_name approving) False ''reply-to target proposal not found or already handled'' None)
        | p # _ \<Rightarrow> decide time now approving p)"

text \<open>A bare yes or no: the only pending proposal.\<close>

definition decide_plain :: "(string \<Rightarrow> int res) \<Rightarrow> int \<Rightarrow> bool \<Rightarrow> pending list \<Rightarrow> approval_result res" where
  "decide_plain time now approving pendings = (case pendings of
     [] \<Rightarrow> Inr (outcome (action_name approving) False ''exactly one matching pending proposal is required'' None)
   | [p] \<Rightarrow> decide time now approving p
   | _ \<Rightarrow> Inr (outcome (action_name approving) False ''ambiguous plain action with multiple pending proposals'' None))"

definition same_text :: "string \<Rightarrow> string option \<Rightarrow> bool" where
  "same_text t v \<longleftrightarrow> lower (column_text v) = lower t"

text \<open>A named target: a symbol given alone, else the proposals that fit every given group.\<close>

definition candidates :: "command_groups \<Rightarrow> pending list \<Rightarrow> pending list" where
  "candidates g pendings = (case g of (side, symbol, i) \<Rightarrow>
     filter (\<lambda>p. (case i of None \<Rightarrow> True | Some t \<Rightarrow> starts_with (lower t) (lower (pd_id p)))
       \<and> (case side of None \<Rightarrow> True | Some t \<Rightarrow> same_text t (pd_side p))
       \<and> (case symbol of None \<Rightarrow> True | Some t \<Rightarrow> same_text t (pd_symbol p))) pendings)"

definition decide_named ::
  "(string \<Rightarrow> int res) \<Rightarrow> int \<Rightarrow> bool \<Rightarrow> command_groups \<Rightarrow> pending list \<Rightarrow> approval_result res" where
  "decide_named time now approving g pendings =
     (let by_symbol = (case g of (None, None, Some i) \<Rightarrow> filter (\<lambda>p. same_text i (pd_symbol p)) pendings | _ \<Rightarrow> [])
      in case by_symbol of
        [p] \<Rightarrow> decide time now approving p
      | _ \<Rightarrow> (case candidates g pendings of
            [p] \<Rightarrow> decide time now approving p
          | _ \<Rightarrow> Inr (outcome (action_name approving) False
              (if approving then ''exactly one matching pending proposal is required''
               else ''identify proposal when pending count is not one'') None)))"

definition parse_approval ::
  "(string \<Rightarrow> int res) \<Rightarrow> string \<Rightarrow> string \<Rightarrow> string \<Rightarrow> pending list \<Rightarrow> int \<Rightarrow> string option \<Rightarrow> approval_result res" where
  "parse_approval time t sender allowed pendings now reply =
     (if sender \<noteq> allowed then Inr (outcome ''reject'' False ''unauthorized sender'' None)
      else let ws = normalized_words t in
        case reply of
          Some message \<Rightarrow> decide_reply time now ws pendings message
        | None \<Rightarrow>
            if plain_approve ws \<or> plain_reject ws then decide_plain time now (plain_approve ws) pendings
            else case reject_match ws of
                Some g \<Rightarrow> decide_named time now False g pendings
              | None \<Rightarrow> (case approve_match ws of
                    Some g \<Rightarrow> decide_named time now True g pendings
                  | None \<Rightarrow> Inr (outcome ''unclear'' False ''message is not an unambiguous approval or rejection'' None)))"

section \<open>Accepted results\<close>

text \<open>What an accepted result says of a proposal.\<close>

definition accepted_for :: "(string \<Rightarrow> int res) \<Rightarrow> int \<Rightarrow> approval_result \<Rightarrow> pending \<Rightarrow> bool" where
  "accepted_for time now r p \<longleftrightarrow> ar_proposal r = Some (pd_id p)
     \<and> (ar_action r = ''reject'' \<or> (ar_action r = ''approve'' \<and> (\<exists>e. time (pd_expires p) = Inr e \<and> now < e)))"

lemma outcome_fields [simp]:
  "ar_action (outcome a b c d) = a" "ar_accepted (outcome a b c d) = b" "ar_proposal (outcome a b c d) = d"
  by (simp_all add: outcome_def)

lemma decide_accepted: "decide time now approving p = Inr r \<Longrightarrow> ar_accepted r \<Longrightarrow> accepted_for time now r p"
  by (cases "time (pd_expires p)")
    (auto simp: decide_def approve_proposal_def reject_proposal_def accepted_for_def split: if_splits)

text \<open>A word of the message names a proposal: its symbol, or the beginning of its identifier.\<close>

definition names :: "string list \<Rightarrow> pending \<Rightarrow> bool" where
  "names ws p \<longleftrightarrow> (\<exists>w\<in>set ws. same_text w (pd_symbol p) \<or> (w \<noteq> [] \<and> starts_with (lower w) (lower (pd_id p))))"

text \<open>The groups of a match are words of the text, and one of them is the symbol or the identifier.\<close>

definition target_words :: "string list \<Rightarrow> command_groups \<Rightarrow> bool" where
  "target_words ws g \<longleftrightarrow> (case g of (side, symbol, i) \<Rightarrow>
     (\<forall>t. symbol = Some t \<longrightarrow> t \<in> set ws) \<and> (\<forall>t. i = Some t \<longrightarrow> t \<in> set ws \<and> t \<noteq> []) \<and> (symbol \<noteq> None \<or> i \<noteq> None))"

lemma match_id_words: "match_id ws = Some (Some w) \<Longrightarrow> w \<in> set ws \<and> w \<noteq> []"
  by (induction ws rule: match_id.induct) (auto simp: id_word_def split: if_splits)

lemma match_id_None: "match_id ws = Some None \<Longrightarrow> ws = []"
  by (induction ws rule: match_id.induct) (auto split: if_splits)

lemma match_target_words: "match_target ws = Some g \<Longrightarrow> ws \<noteq> [] \<Longrightarrow> target_words ws g"
proof (induction ws rule: match_target.induct)
  case (1 s y ws)
  have plain: "target_words (s # y # ws) g" if "match_without_side (s # y # ws) = Some g"
  proof -
    from that obtain i where i: "match_id (s # y # ws) = Some i" "g = (None, None, i)"
      by (auto simp: match_without_side_def)
    then show ?thesis using match_id_words [of "s # y # ws"] match_id_None [of "s # y # ws"]
      by (cases i) (auto simp: target_words_def)
  qed
  show ?case
  proof (cases "((s = ''buy'' \<or> s = ''sell'') \<and> symbol_word y) \<and> match_id ws \<noteq> None")
    case True
    then obtain i where i: "match_id ws = Some i" by blast
    then have "g = (Some s, Some y, i)" using 1 True by simp
    then show ?thesis using match_id_words [of ws] i by (auto simp: target_words_def)
  next
    case False
    then have "match_without_side (s # y # ws) = Some g" using 1(1) by (auto split: if_splits option.splits)
    then show ?thesis by (rule plain)
  qed
qed (auto simp: match_without_side_def target_words_def id_word_def dest!: match_id_words split: if_splits)

lemma match_command_end: "match_command verbs courtesy match_end ws = None \<Longrightarrow> match_command verbs courtesy match_target ws = Some g
    \<Longrightarrow> \<exists>us. us \<noteq> [] \<and> set us \<subseteq> set ws \<and> match_target us = Some g"
  by (cases ws) (fastforce simp: match_command_def match_end_def split: list.splits if_splits option.splits)+

lemma candidates_named:
  assumes "p \<in> set (candidates g pendings)" and "target_words ws g"
  shows "p \<in> set pendings \<and> names ws p"
  using assms by (cases g) (auto simp: candidates_def target_words_def names_def split: option.splits)

lemma decide_named_accepted:
  assumes d: "decide_named time now approving g pendings = Inr r" and a: "ar_accepted r" and g: "target_words ws g"
  shows "\<exists>p\<in>set pendings. accepted_for time now r p \<and> names ws p"
proof -
  define by_symbol where "by_symbol = (case g of (None, None, Some i) \<Rightarrow> filter (\<lambda>p. same_text i (pd_symbol p)) pendings | _ \<Rightarrow> [])"
  have sym: "p \<in> set pendings \<and> names ws p" if "p \<in> set by_symbol" for p
    using that g by (auto simp: by_symbol_def target_words_def names_def split: option.splits prod.splits)
  have "(case by_symbol of [p] \<Rightarrow> decide time now approving p
      | _ \<Rightarrow> (case candidates g pendings of [p] \<Rightarrow> decide time now approving p
          | _ \<Rightarrow> Inr (outcome (action_name approving) False
              (if approving then ''exactly one matching pending proposal is required''
               else ''identify proposal when pending count is not one'') None))) = Inr r"
    using d by (simp only: decide_named_def by_symbol_def Let_def)
  then obtain p where p: "p \<in> set by_symbol \<or> p \<in> set (candidates g pendings)" "decide time now approving p = Inr r"
    using a by (auto split: list.splits)
  then show ?thesis using sym candidates_named [OF _ g] decide_accepted [OF p(2) a] by blast
qed

section \<open>Properties\<close>

text \<open>C23: an accepted decision is authorized and has one target. The parser accepts a message only from the allowed
  user, for a pending proposal; an approval only before the proposal expires. Without a reply the proposal
  is the only pending one or a word of the message names it, and a reply decides the proposal whose
  message it answers.\<close>

theorem accepted_decision_is_authorized:
  assumes "parse_approval time t sender allowed pendings now reply = Inr r" and "ar_accepted r"
  shows "sender = allowed \<and> (\<exists>p\<in>set pendings. accepted_for time now r p
    \<and> (case reply of Some m \<Rightarrow> pd_message p = Some m | None \<Rightarrow> pendings = [p] \<or> names (normalized_words t) p))"
proof -
  let ?ws = "normalized_words t"
  have auth: "sender = allowed" using assms by (auto simp: parse_approval_def split: if_splits)
  show ?thesis
  proof (cases reply)
    case (Some m)
    let ?ps = "filter (\<lambda>p. pd_message p \<noteq> None \<and> pd_message p \<noteq> Some [] \<and> column_text (pd_message p) = m) pendings"
    from assms auth Some obtain p ps b where ps: "?ps = p # ps" and d: "decide time now b p = Inr r"
      by (auto simp: parse_approval_def decide_reply_def Let_def split: if_splits list.splits)
    have "p \<in> set ?ps" unfolding ps by simp
    then have "p \<in> set pendings" "pd_message p = Some m" by (auto simp: column_text_def split: option.splits)
    then show ?thesis using auth Some decide_accepted [OF d assms(2)] by auto
  next
    case None
    show ?thesis
    proof (cases "plain_approve ?ws \<or> plain_reject ?ws")
      case True
      then have "decide_plain time now (plain_approve ?ws) pendings = Inr r"
        using assms(1) auth None by (simp add: parse_approval_def Let_def)
      then obtain p where "pendings = [p]" "decide time now (plain_approve ?ws) p = Inr r"
        using assms(2) by (auto simp: decide_plain_def split: list.splits)
      then show ?thesis using auth None decide_accepted [OF _ assms(2)] by auto
    next
      case False
      then obtain b g where d: "decide_named time now b g pendings = Inr r"
        and g: "reject_match ?ws = Some g \<or> approve_match ?ws = Some g"
        using assms auth None by (auto simp: parse_approval_def Let_def split: option.splits)
      have "\<exists>us. us \<noteq> [] \<and> set us \<subseteq> set ?ws \<and> match_target us = Some g"
        using g False match_command_end [of _ _ ?ws g]
        unfolding reject_match_def approve_match_def plain_reject_def plain_approve_def by blast
      then have "target_words ?ws g"
        using match_target_words by (fastforce simp: target_words_def split: prod.splits)
      from decide_named_accepted [OF d assms(2) this] show ?thesis using auth None by auto
    qed
  qed
qed


text \<open>Two pending proposals, of which the first was displayed in message 7.\<close>

definition sample_pending :: "pending list" where
  "sample_pending = [\<lparr>pd_id = ''aa-1'', pd_symbol = Some ''AAPL'', pd_side = Some ''buy'', pd_message = Some ''7'', pd_expires = ''9''\<rparr>,
     \<lparr>pd_id = ''bb-2'', pd_symbol = Some ''MSFT'', pd_side = Some ''sell'', pd_message = Some ''8'', pd_expires = ''9''\<rparr>]"

definition sample_time :: "string \<Rightarrow> int res" where
  "sample_time s = (if s \<noteq> [] \<and> list_all is_digit s then Inr (digits_val s) else Inl (ValueError s))"

text \<open>a reply ignores the target its text names. The answer \<open>approve sell msft\<close> to the message of another proposal is
  accepted as the unambiguous approval of that other proposal, here the purchase of AAPL.\<close>

theorem reply_overrides_named_target:
  "parse_approval sample_time ''Approve sell MSFT'' ''u'' ''u'' sample_pending 5 (Some ''7'')
   = Inr (outcome ''approve'' True ''unambiguous authorized approval'' (Some ''aa-1''))
   \<and> parse_approval sample_time ''Approve sell MSFT'' ''u'' ''u'' sample_pending 5 None
   = Inr (outcome ''approve'' True ''unambiguous authorized approval'' (Some ''bb-2''))"
  by code_simp

theorem accepted_decision_is_authorized_witness:
  "\<exists>p\<in>set sample_pending. accepted_for sample_time 5 (outcome ''approve'' True ''unambiguous authorized approval'' (Some ''bb-2'')) p
    \<and> names (normalized_words ''yes please  BB'') p"
proof -
  have run: "parse_approval sample_time ''yes please  BB'' ''u'' ''u'' sample_pending 5 None
    = Inr (outcome ''approve'' True ''unambiguous authorized approval'' (Some ''bb-2''))" by code_simp
  have "sample_pending \<noteq> [p]" for p by (simp add: sample_pending_def)
  then show ?thesis using accepted_decision_is_authorized [OF run] by auto
qed


end
