(* ===== verification/Run_Lock.thy ===== *)
theory Run_Lock
  imports Py_Decimal Py_Value
begin

text \<open>
  \<open>app/run_lock.py\<close>: whether the lock directory of a run is held, stale or undecided. The files of the
  directory, the process table and the resolution of paths are arguments: \<open>None\<close> is a file that cannot be
  read, or an identity the system does not give. A \<open>pydec\<close> is here the value of a float itself.
\<close>

section \<open>State\<close>

record lock_inspection =
  li_state :: string
  li_pid :: "int option"
  li_age :: pydec
  li_reason :: string

record process_identity =
  pi_command :: string
  pi_start :: string

record lock_dir =
  ld_pid :: "string option"
  ld_started :: "string option"
  ld_mtime :: "rat option"
  ld_command :: "string option"
  ld_start_token :: "string option"
  ld_repository :: "string option"
  ld_commit :: "string option"

record process_table =
  pt_alive :: "int \<Rightarrow> bool"
  pt_identity :: "int \<Rightarrow> process_identity option"
  pt_resolve :: "string \<Rightarrow> string"

record inspect_args =
  ia_now :: rat
  ia_dead_grace :: rat
  ia_malformed_grace :: rat
  ia_command :: "string option"
  ia_commands :: "string list option"
  ia_repository :: "string option"
  ia_commit :: "string option"

section \<open>Reading\<close>

text \<open>\<open>read_text().strip() or None\<close>\<close>

definition read_file :: "string option \<Rightarrow> string option" where
  "read_file f = (case f of None \<Rightarrow> None | Some t \<Rightarrow> if strip t = [] then None else Some (strip t))"

text \<open>\<open>float(text)\<close>: as a decimal, but a NaN has no digits.\<close>

definition float_of_text :: "string \<Rightarrow> pydec option" where
  "float_of_text t = (case parse_decimal t of
     Some (Fin x) \<Rightarrow> Some (Fin (binary64 x))
   | Some NaN \<Rightarrow> if lower (snd (parse_sign (strip t))) = ''nan'' then Some NaN else None
   | r \<Rightarrow> r)"

definition lock_pid :: "lock_dir \<Rightarrow> int option" where
  "lock_pid d = (case ld_pid d of None \<Rightarrow> None | Some t \<Rightarrow> int_literal t)"

definition lock_started :: "lock_dir \<Rightarrow> pydec option" where
  "lock_started d = (case (case ld_started d of None \<Rightarrow> None | Some t \<Rightarrow> float_of_text (strip t)) of
     Some x \<Rightarrow> Some x | None \<Rightarrow> map_option Fin (ld_mtime d))"

text \<open>\<open>max(0.0, now - started)\<close>; a NaN is not greater than zero.\<close>

fun lock_age :: "rat \<Rightarrow> pydec \<Rightarrow> pydec" where
  "lock_age now (Fin x) = Fin (max 0 (binary64 (now - x)))"
| "lock_age now (Inf negative) = (if negative then Inf False else Fin 0)"
| "lock_age now NaN = Fin 0"

fun reached :: "pydec \<Rightarrow> rat \<Rightarrow> bool" where
  "reached (Fin x) grace = (grace \<le> x)"
| "reached (Inf negative) grace = (\<not> negative)"
| "reached NaN grace = False"

text \<open>\<open>os.kill(pid, 0)\<close> is asked for positive numbers only.\<close>

definition pid_exists :: "process_table \<Rightarrow> int \<Rightarrow> bool" where
  "pid_exists pt pid = (if pid \<le> 0 then False else pt_alive pt pid)"

section \<open>Inspection\<close>

definition inspection :: "string \<Rightarrow> int option \<Rightarrow> pydec \<Rightarrow> string \<Rightarrow> lock_inspection" where
  "inspection state pid age reason = \<lparr>li_state = state, li_pid = pid, li_age = age, li_reason = reason\<rparr>"

definition command_tokens :: "inspect_args \<Rightarrow> string list" where
  "command_tokens a = (case ia_commands a of None \<Rightarrow> [] | Some ts \<Rightarrow> ts)
     @ (case ia_command a of None \<Rightarrow> [] | Some t \<Rightarrow> if t = [] then [] else [t])"

definition start_changed :: "process_identity option \<Rightarrow> lock_dir \<Rightarrow> bool" where
  "start_changed identity d = (case (identity, read_file (ld_start_token d)) of
     (Some i, Some t) \<Rightarrow> t \<noteq> ''unknown'' \<and> pi_start i \<noteq> t | _ \<Rightarrow> False)"

definition owner_command :: "process_identity option \<Rightarrow> lock_dir \<Rightarrow> string option" where
  "owner_command identity d = (case identity of Some i \<Rightarrow> Some (pi_command i) | None \<Rightarrow> read_file (ld_command d))"

definition command_mismatch :: "inspect_args \<Rightarrow> process_identity option \<Rightarrow> lock_dir \<Rightarrow> bool" where
  "command_mismatch a identity d = (command_tokens a \<noteq> [] \<and> (case owner_command identity d of
     None \<Rightarrow> False | Some c \<Rightarrow> c \<noteq> ''unknown'' \<and> \<not> list_ex (\<lambda>t. is_substring t c) (command_tokens a)))"

definition owner_mismatches :: "process_table \<Rightarrow> inspect_args \<Rightarrow> lock_dir \<Rightarrow> string list" where
  "owner_mismatches pt a d =
     (case (ia_repository a, read_file (ld_repository d)) of
        (Some e, Some r) \<Rightarrow> if e \<noteq> [] \<and> pt_resolve pt r \<noteq> pt_resolve pt e then [''repository''] else [] | _ \<Rightarrow> [])
     @ (case (ia_commit a, read_file (ld_commit d)) of
        (Some e, Some c) \<Rightarrow> if e \<noteq> [] \<and> c \<noteq> ''unknown'' \<and> c \<noteq> e then [''commit''] else [] | _ \<Rightarrow> [])"

definition join_comma :: "string list \<Rightarrow> string" where
  "join_comma ws = (case ws of [] \<Rightarrow> [] | w # vs \<Rightarrow> foldl (\<lambda>s v. s @ '','' @ v) w vs)"

definition inspect_live :: "process_table \<Rightarrow> inspect_args \<Rightarrow> lock_dir \<Rightarrow> int \<Rightarrow> pydec \<Rightarrow> lock_inspection" where
  "inspect_live pt a d pid age =
     (let identity = pt_identity pt pid; mature = reached age (ia_dead_grace a) in
      if start_changed identity d then
        (if mature then inspection ''stale'' (Some pid) age ''PID was reused by a different process start''
         else inspection ''recent_unknown'' (Some pid) age ''PID start identity changed inside grace period'')
      else if command_mismatch a identity d then
        (if mature then inspection ''stale'' (Some pid) age ''PID command does not identify the listener''
         else inspection ''recent_unknown'' (Some pid) age ''PID command mismatch inside grace period'')
      else let mismatches = owner_mismatches pt a d in
        inspection ''active'' (Some pid) age (''owner PID and process identity are running'' @
          (if mismatches = [] then [] else ''; live owner metadata mismatch: '' @ join_comma mismatches)))"

definition inspect_lock :: "process_table \<Rightarrow> inspect_args \<Rightarrow> lock_dir \<Rightarrow> lock_inspection" where
  "inspect_lock pt a d = (case lock_started d of
     None \<Rightarrow> inspection ''missing'' None (Fin 0) ''lock directory disappeared''
   | Some started \<Rightarrow>
       let pid = lock_pid d; age = lock_age (ia_now a) started in
       case pid of
         Some p \<Rightarrow> if pid_exists pt p then inspect_live pt a d p age
             else if reached age (ia_dead_grace a)
             then inspection ''stale'' (Some p) age ''owner PID is absent and lock exceeded grace period''
             else inspection ''recent_unknown'' (Some p) age ''owner is absent but lock is inside grace period''
       | None \<Rightarrow> if reached age (ia_malformed_grace a)
             then inspection ''stale'' None age ''owner PID is absent and lock exceeded grace period''
             else inspection ''recent_unknown'' None age ''owner is absent but lock is inside grace period'')"

text \<open>The exit code of the command line.\<close>

definition lock_exit_code :: "string \<Rightarrow> int res" where
  "lock_exit_code state = (if state = ''active'' then Inr 0 else if state = ''stale'' then Inr 10
     else if state = ''recent_unknown'' then Inr 11 else if state = ''missing'' then Inr 12 else Inl (KeyError state))"

section \<open>Properties\<close>

text \<open>The owner of the lock runs, as far as the system can tell.\<close>

definition owner_running :: "process_table \<Rightarrow> inspect_args \<Rightarrow> lock_dir \<Rightarrow> bool" where
  "owner_running pt a d \<longleftrightarrow> (case lock_pid d of None \<Rightarrow> False
     | Some p \<Rightarrow> pid_exists pt p \<and> \<not> start_changed (pt_identity pt p) d \<and> \<not> command_mismatch a (pt_identity pt p) d)"

text \<open>a live owner never loses its lock, however old the lock is. A lock is stale only when its owner is gone, or is
  another process under the same number, and then only after the grace period, which is the longer one when
  the number cannot be read. Every inspection has one of the four states the command line maps to an exit
  code.\<close>

theorem stale_lock_has_no_owner:
  "(owner_running pt a d \<longrightarrow> li_state (inspect_lock pt a d) \<in> {''active'', ''missing''})
   \<and> (li_state (inspect_lock pt a d) = ''stale'' \<longrightarrow> \<not> owner_running pt a d
      \<and> reached (li_age (inspect_lock pt a d)) (if lock_pid d = None then ia_malformed_grace a else ia_dead_grace a))
   \<and> (\<exists>n. lock_exit_code (li_state (inspect_lock pt a d)) = Inr n)"
  by (auto simp: inspect_lock_def inspect_live_def owner_running_def inspection_def lock_exit_code_def Let_def split: option.split)

text \<open>A lock that is two days old, of a process that still runs.\<close>

definition sample_lock :: lock_dir where
  "sample_lock = \<lparr>ld_pid = Some ''42'', ld_started = Some ''1000'', ld_mtime = None, ld_command = Some ''listener'',
     ld_start_token = Some ''monday'', ld_repository = None, ld_commit = None\<rparr>"

definition sample_table :: "string \<Rightarrow> process_table" where
  "sample_table start = \<lparr>pt_alive = (\<lambda>p. p = 42), pt_identity = (\<lambda>p. if p = 42 then Some \<lparr>pi_command = ''python listener'', pi_start = start\<rparr> else None),
     pt_resolve = (\<lambda>s. s)\<rparr>"

definition sample_inspect :: inspect_args where
  "sample_inspect = \<lparr>ia_now = 173800, ia_dead_grace = 120, ia_malformed_grace = 1200, ia_command = Some ''listener'',
     ia_commands = None, ia_repository = None, ia_commit = None\<rparr>"

theorem stale_lock_has_no_owner_witness:
  "li_state (inspect_lock (sample_table ''monday'') sample_inspect sample_lock) \<in> {''active'', ''missing''}
   \<and> li_state (inspect_lock (sample_table ''tuesday'') sample_inspect sample_lock) = ''stale''
   \<and> \<not> owner_running (sample_table ''tuesday'') sample_inspect sample_lock"
proof -
  have run: "owner_running (sample_table ''monday'') sample_inspect sample_lock" by code_simp
  have stale: "li_state (inspect_lock (sample_table ''tuesday'') sample_inspect sample_lock) = ''stale''" by code_simp
  from stale_lock_has_no_owner [of "sample_table ''monday''" sample_inspect sample_lock] run stale
    stale_lock_has_no_owner [of "sample_table ''tuesday''" sample_inspect sample_lock] show ?thesis by blast
qed

end
