(* ===== verification/Crypto_Sizing.thy ===== *)
theory Crypto_Sizing
  imports Fixed_Point
begin

text \<open>
  \<open>app/crypto_sizing.py\<close>: the size of an order of the supervised crypto lane. A request of a strategy, the
  ceilings of a verified risk snapshot, the capability of the broker and a quote give prices, quantity, notional
  and stop risk in the decimal context, or the reasons why there is no order. The decision is stored as JSON
  beside its columns and recomputed when it is loaded. SHA-256 over JSON, the JSON printer and reader and
  the verified loads of the other evidence stores are arguments. A \<open>CryptoSizingError\<close> is a \<open>ValueError\<close>.
\<close>

section \<open>Reading numbers\<close>

definition sizing_text :: "rat \<Rightarrow> string" where
  "sizing_text x = (if x = 0 then ''0'' else dec_text (dec_ctx x))"

definition sizing_error :: "string \<Rightarrow> 'a res" where
  "sizing_error m = Inl (CryptoSizingError m)"

fun sizing_input_type :: "pyval \<Rightarrow> bool" where
  "sizing_input_type (PyDec d) = True"
| "sizing_input_type (PyInt n) = True"
| "sizing_input_type (PyStr s) = True"
| "sizing_input_type v = False"

definition sizing_input :: "pyval \<Rightarrow> string \<Rightarrow> rat option \<Rightarrow> bool \<Rightarrow> rat res" where
  "sizing_input value label minimum positive =
     (if \<not> sizing_input_type value then sizing_error (label @ '' must use Decimal, an integer, or a decimal string'')
      else case to_pydec value of
        None \<Rightarrow> sizing_error (label @ '' is invalid'')
      | Some (Fin x) \<Rightarrow>
          if positive \<and> x \<le> 0 then sizing_error (label @ '' must be positive'')
          else (case minimum of
              None \<Rightarrow> Inr x
            | Some m \<Rightarrow> if x < m then sizing_error (label @ '' must be at least '' @ sizing_text m) else Inr x)
      | Some d \<Rightarrow> sizing_error (label @ '' must be finite''))"

definition trusted_decimal :: "pyval \<Rightarrow> string \<Rightarrow> rat \<Rightarrow> rat res" where
  "trusted_decimal value label minimum =
     (case to_pydec value of
        None \<Rightarrow> sizing_error (label @ '' is missing or invalid'')
      | Some (Fin x) \<Rightarrow> if x < minimum then sizing_error (label @ '' must be finite and at least '' @ sizing_text minimum) else Inr x
      | Some d \<Rightarrow> sizing_error (label @ '' must be finite and at least '' @ sizing_text minimum))"

definition valid_sha256 :: "string \<Rightarrow> bool" where
  "valid_sha256 value = (let text = lower (strip value) in
     length text = 64 \<and> list_all (\<lambda>c. c \<in> set ''0123456789abcdef'') text)"

text \<open>The rounding of the quotient is \<open>floor\<close> or \<open>ceiling\<close>.\<close>

definition round_increment :: "(rat \<Rightarrow> int) \<Rightarrow> rat \<Rightarrow> rat \<Rightarrow> rat res" where
  "round_increment to_int x increment =
     (if x < 0 \<or> increment \<le> 0
      then sizing_error ''rounding values must be finite and nonnegative with a positive increment''
      else Inr (dmul (of_int (to_int (ddiv x increment))) increment))"

definition decimal_places :: "rat \<Rightarrow> int" where
  "decimal_places x = int (frac_digits (snd (quotient_of (dec_ctx x))))"

section \<open>The request and the evidence\<close>

record sizing_request =
  sq_source_type :: pyval
  sq_source_id :: pyval
  sq_source_fingerprint :: pyval
  sq_symbol :: pyval
  sq_side :: pyval
  sq_action :: pyval
  sq_basis :: pyval
  sq_stop_risk :: pyval
  sq_stop_price :: pyval
  sq_exit_quantity :: pyval
  sq_close :: bool
  sq_notional_cap :: pyval

record request_payload =
  rp_source_type :: string
  rp_source_id :: string
  rp_source_fingerprint :: string
  rp_symbol :: string
  rp_side :: string
  rp_action :: string
  rp_basis :: string
  rp_stop_risk :: "string option"
  rp_stop_price :: "string option"
  rp_exit_quantity :: "string option"
  rp_close :: bool
  rp_notional_cap :: "string option"

definition payload_number :: "pyval \<Rightarrow> string \<Rightarrow> string option res" where
  "payload_number raw label = (if raw = PyNone then Inr None
     else rbind (sizing_input raw label (Some 0) False) (\<lambda>x. Inr (Some (sizing_text x))))"

definition request_payload_of :: "sizing_request \<Rightarrow> request_payload res" where
  "request_payload_of r =
     rbind (payload_number (sq_stop_risk r) ''requested_stop_risk_dollars'') (\<lambda>risk.
     rbind (payload_number (sq_stop_price r) ''stop_price'') (\<lambda>stop.
     rbind (payload_number (sq_exit_quantity r) ''requested_exit_quantity'') (\<lambda>exit.
     rbind (payload_number (sq_notional_cap r) ''requested_notional_cap'') (\<lambda>cap.
     Inr \<lparr>rp_source_type = strip (or_str [sq_source_type r]), rp_source_id = strip (or_str [sq_source_id r]),
          rp_source_fingerprint = lower (strip (or_str [sq_source_fingerprint r])),
          rp_symbol = upper (strip (or_str [sq_symbol r])), rp_side = lower (strip (or_str [sq_side r])),
          rp_action = lower (strip (or_str [sq_action r])), rp_basis = lower (strip (or_str [sq_basis r])),
          rp_stop_risk = risk, rp_stop_price = stop, rp_exit_quantity = exit, rp_close = sq_close r,
          rp_notional_cap = cap\<rparr>))))"

record sizing_authority =
  su_snapshot :: string
  su_fingerprint :: string
  su_account :: string
  su_config :: string
  su_notional :: pyval
  su_stop_risk :: pyval
  su_position :: pyval
  su_pending :: pyval
  su_authoritative :: bool
  su_reasons :: "string list"

text \<open>The four figures of an authority, once they have been checked.\<close>

record authority_figures =
  af_notional :: rat
  af_stop_risk :: rat
  af_position :: rat
  af_pending :: rat

record authority_payload =
  ap_snapshot :: string
  ap_fingerprint :: string
  ap_account :: string
  ap_config :: string
  ap_notional :: string
  ap_stop_risk :: string
  ap_position :: string
  ap_pending :: string
  ap_authoritative :: bool
  ap_reasons :: "string list"

definition authority_payload_of :: "sizing_authority \<Rightarrow> authority_figures \<Rightarrow> authority_payload" where
  "authority_payload_of u f = \<lparr>ap_snapshot = su_snapshot u, ap_fingerprint = su_fingerprint u, ap_account = su_account u,
     ap_config = su_config u, ap_notional = sizing_text (af_notional f), ap_stop_risk = sizing_text (af_stop_risk f),
     ap_position = sizing_text (af_position f), ap_pending = sizing_text (af_pending f),
     ap_authoritative = su_authoritative u, ap_reasons = su_reasons u\<rparr>"

text \<open>Of the capability snapshot and the market evidence, what a sizing reads.\<close>

record asset_capability =
  ac_symbol :: string
  ac_min_order :: pyval
  ac_quantity_increment :: pyval
  ac_price_increment :: pyval
  ac_authoritative :: bool

record capability_snapshot =
  ca_id :: string
  ca_account :: string
  ca_assets :: "asset_capability list"
  ca_config :: string
  ca_authoritative :: bool
  ca_fingerprint :: string

definition capability_asset :: "string \<Rightarrow> capability_snapshot \<Rightarrow> asset_capability option" where
  "capability_asset symbol c = fetch_one (\<lambda>a. ac_symbol a = upper (strip symbol)) (ca_assets c)"

record market_evidence =
  me_id :: string
  me_capability :: string
  me_capability_fingerprint :: string
  me_symbol :: string
  me_bid :: pyval
  me_ask :: pyval
  me_authoritative :: bool
  me_eligible :: bool
  me_config :: string
  me_fingerprint :: string

text \<open>The parts of the configuration: \<open>crypto.sizing_policy\<close>, \<open>crypto.supervised_paper_lane.enabled\<close>,
  \<open>formula_versions.crypto_sizing\<close>, \<open>crypto.symbols\<close> and \<open>effective_config_hash\<close>; an absent value is \<open>None\<close>.\<close>

record sizing_config =
  sc_policy :: pydict
  sc_lane_enabled :: pyval
  sc_formula :: pyval
  sc_symbols :: "string list"
  sc_hash :: pyval

section \<open>The sizing policy\<close>

definition CRYPTO_SIZING_FORMULA_VERSION :: string where
  "CRYPTO_SIZING_FORMULA_VERSION = ''alpaca_crypto_decimal_stop_risk_sizing_v1''"

definition CRYPTO_SIZING_SCHEMA_VERSION :: string where
  "CRYPTO_SIZING_SCHEMA_VERSION = ''alpaca_crypto_decimal_sizing_decisions_v1''"

record sizing_policy =
  po_minimum_buy :: rat
  po_maximum_notional :: rat
  po_fee_bps :: rat
  po_slippage_bps :: rat
  po_minimum_stop :: rat
  po_maximum_stop :: rat
  po_quantity_places :: int
  po_notional_places :: int

definition POLICY_DECIMALS :: "string list" where
  "POLICY_DECIMALS = [''minimum_buy_notional_usd'', ''maximum_order_notional_usd'', ''conservative_taker_fee_bps_per_side'',
     ''stop_execution_slippage_bps'', ''minimum_stop_distance_pct'', ''maximum_stop_distance_pct'']"

definition flag :: "bool \<Rightarrow> string \<Rightarrow> string list" where
  "flag c name = (if c then [name] else [])"

text \<open>The figures of the policy that can be read, and \<open>decimals.get(name, ZERO)\<close>.\<close>

definition policy_decimal :: "pydict \<Rightarrow> string \<Rightarrow> rat option" where
  "policy_decimal p name = (case trusted_decimal (dget p name) (''crypto.sizing_policy.'' @ name) 0 of Inl _ \<Rightarrow> None | Inr x \<Rightarrow> Some x)"

definition policy_figure :: "pydict \<Rightarrow> string \<Rightarrow> rat" where
  "policy_figure p name = (case policy_decimal p name of None \<Rightarrow> 0 | Some x \<Rightarrow> x)"

text \<open>The two places are -1 when one of them is no integer.\<close>

definition policy_places :: "pydict \<Rightarrow> (int \<times> int) res" where
  "policy_places p =
     rbind (py_int (dget p ''maximum_quantity_decimal_places'')) (\<lambda>q. case q of
       None \<Rightarrow> Inr (-1, -1)
     | Some q \<Rightarrow> rbind (py_int (dget p ''maximum_notional_decimal_places'')) (\<lambda>n. case n of
         None \<Rightarrow> Inr (-1, -1)
       | Some n \<Rightarrow> Inr (q, n)))"

definition policy_identity_failures :: "sizing_config \<Rightarrow> string list" where
  "policy_identity_failures c = (let p = sc_policy c; mode = dget p ''mode'' in
     flag (mode \<notin> {PyStr ''research_only'', PyStr ''supervised_paper''}) ''sizing_policy_mode_invalid''
   @ flag (mode = PyStr ''supervised_paper'' \<and> sc_lane_enabled c \<noteq> PyBool True) ''supervised_sizing_requires_enabled_paper_lane''
   @ flag (dget p ''formula_version'' \<noteq> PyStr CRYPTO_SIZING_FORMULA_VERSION) ''sizing_formula_identity_mismatch''
   @ flag (dget p ''schema_version'' \<noteq> PyStr CRYPTO_SIZING_SCHEMA_VERSION) ''sizing_schema_identity_mismatch''
   @ flag (or_str [sc_formula c] \<noteq> CRYPTO_SIZING_FORMULA_VERSION) ''configuration_formula_identity_mismatch'')"

definition policy_figure_failures :: "pydict \<Rightarrow> string list" where
  "policy_figure_failures p = (let minimum = policy_figure p ''minimum_buy_notional_usd'';
       maximum = policy_figure p ''maximum_order_notional_usd'';
       minimum_stop = policy_figure p ''minimum_stop_distance_pct''; maximum_stop = policy_figure p ''maximum_stop_distance_pct'' in
     flag (minimum \<le> 0) ''minimum_buy_notional_must_be_positive''
   @ flag (maximum > 50000) ''maximum_order_notional_exceeds_operational_ceiling''
   @ flag (maximum < minimum) ''crypto_notional_bounds_invalid''
   @ flag (policy_decimal p ''conservative_taker_fee_bps_per_side'' \<noteq> Some 25) ''taker_fee_policy_not_conservative_tier_one''
   @ flag (minimum_stop \<le> 0 \<or> maximum_stop < minimum_stop \<or> maximum_stop > 100) ''stop_distance_policy_invalid'')"

definition policy_failures :: "sizing_config \<Rightarrow> int \<Rightarrow> int \<Rightarrow> string list" where
  "policy_failures c quantity_places notional_places = (let p = sc_policy c in
     policy_identity_failures c
   @ concat (map (\<lambda>name. flag (policy_decimal p name = None) (''invalid_'' @ name)) POLICY_DECIMALS)
   @ flag (quantity_places \<noteq> 9) ''maximum_quantity_decimal_places_must_be_9''
   @ flag (notional_places \<noteq> 2) ''maximum_notional_decimal_places_must_be_2''
   @ flag (dget p ''require_quantity_basis_for_sells'' \<noteq> PyBool True) ''quantity_basis_for_sells_not_required''
   @ flag (dget p ''allow_full_position_dust_exit'' \<noteq> PyBool True) ''full_position_dust_exit_not_enabled''
   @ (if list_ex (\<lambda>name. policy_decimal p name \<noteq> None) POLICY_DECIMALS then policy_figure_failures p else []))"

definition sorted_set :: "string list \<Rightarrow> string list" where
  "sorted_set xs = sort (remdups xs)"

definition sizing_policy_of :: "sizing_config \<Rightarrow> sizing_policy res" where
  "sizing_policy_of c = (let p = sc_policy c in
     rbind (policy_places p) (\<lambda>(q, n).
     if policy_failures c q n \<noteq> []
     then sizing_error (''invalid crypto sizing policy: '' @ join_words (sorted_set (policy_failures c q n)))
     else Inr \<lparr>po_minimum_buy = policy_figure p ''minimum_buy_notional_usd'',
       po_maximum_notional = policy_figure p ''maximum_order_notional_usd'',
       po_fee_bps = policy_figure p ''conservative_taker_fee_bps_per_side'',
       po_slippage_bps = policy_figure p ''stop_execution_slippage_bps'',
       po_minimum_stop = policy_figure p ''minimum_stop_distance_pct'',
       po_maximum_stop = policy_figure p ''maximum_stop_distance_pct'',
       po_quantity_places = q, po_notional_places = n\<rparr>))"

section \<open>Relationships of the evidence\<close>

definition authority_figure :: "pyval \<Rightarrow> string \<Rightarrow> rat res" where
  "authority_figure v label = (case v of
     PyDec (Fin x) \<Rightarrow> if x < 0 then sizing_error (label @ '' must be a finite nonnegative Decimal'') else Inr x
   | _ \<Rightarrow> sizing_error (label @ '' must be a finite nonnegative Decimal''))"

definition authority_figures_of :: "sizing_authority \<Rightarrow> authority_figures res" where
  "authority_figures_of u =
     rbind (authority_figure (su_notional u) ''hard_notional_ceiling'') (\<lambda>notional.
     rbind (authority_figure (su_stop_risk u) ''hard_stop_risk_ceiling'') (\<lambda>risk.
     rbind (authority_figure (su_position u) ''current_position_quantity'') (\<lambda>position.
     rbind (authority_figure (su_pending u) ''pending_sell_quantity'') (\<lambda>pending.
     Inr \<lparr>af_notional = notional, af_stop_risk = risk, af_position = position, af_pending = pending\<rparr>))))"

definition check_request :: "request_payload \<Rightarrow> sizing_config \<Rightarrow> unit res" where
  "check_request p c =
     (if rp_source_type p = [] \<or> rp_source_id p = [] then sizing_error ''sizing request requires stable source_type and source_id''
      else if \<not> valid_sha256 (rp_source_fingerprint p) then sizing_error ''sizing request requires a SHA-256 source fingerprint''
      else if rp_symbol p \<notin> set (sc_symbols c) then sizing_error ''sizing request symbol is not configured''
      else if rp_side p \<noteq> ''buy'' \<and> rp_side p \<noteq> ''sell'' then sizing_error ''sizing request side must be buy or sell''
      else if rp_basis p \<noteq> ''quantity'' \<and> rp_basis p \<noteq> ''notional'' then sizing_error ''sizing request basis must be quantity or notional''
      else if rp_side p = ''buy'' \<and> rp_action p \<noteq> ''entry'' \<and> rp_action p \<noteq> ''add'' then sizing_error ''a crypto BUY must be an entry or add''
      else if rp_side p = ''sell'' \<and> rp_action p \<noteq> ''exit'' \<and> rp_action p \<noteq> ''reduce'' then sizing_error ''a crypto SELL must be an exit or reduction''
      else Inr ())"

definition check_evidence ::
  "request_payload \<Rightarrow> sizing_authority \<Rightarrow> capability_snapshot \<Rightarrow> market_evidence \<Rightarrow> sizing_config \<Rightarrow> unit res" where
  "check_evidence p u ca me c = (let config_hash = strip (or_str [sc_hash c]) in
      if su_authoritative u \<and> (\<not> me_authoritative me \<or> \<not> me_eligible me) then sizing_error ''crypto market evidence is not execution eligible''
      else if me_symbol me \<noteq> rp_symbol p then sizing_error ''crypto market evidence symbol mismatch''
      else if me_capability me \<noteq> ca_id ca \<or> me_capability_fingerprint me \<noteq> ca_fingerprint ca
      then sizing_error ''crypto market evidence capability binding mismatch''
      else if \<not> valid_sha256 config_hash then sizing_error ''current configuration hash is missing or invalid''
      else if ca_config ca \<noteq> config_hash \<or> me_config me \<noteq> config_hash \<or> su_config u \<noteq> config_hash
      then sizing_error ''crypto sizing configuration identity mismatch''
      else if su_authoritative u \<and> su_account u \<noteq> ca_account ca then sizing_error ''crypto sizing paper account identity mismatch''
      else if su_snapshot u = [] \<or> \<not> valid_sha256 (su_fingerprint u) then sizing_error ''crypto sizing risk authority is malformed''
      else Inr ())"

definition validate_relationships ::
  "sizing_request \<Rightarrow> sizing_authority \<Rightarrow> capability_snapshot \<Rightarrow> market_evidence \<Rightarrow> sizing_config
    \<Rightarrow> (request_payload \<times> asset_capability \<times> authority_figures) res" where
  "validate_relationships r u ca me c =
     rbind (request_payload_of r) (\<lambda>p.
     rbind (check_request p c) (\<lambda>_.
     if \<not> ca_authoritative ca then sizing_error ''crypto capability snapshot is not authoritative''
     else case capability_asset (rp_symbol p) ca of
       None \<Rightarrow> sizing_error ''crypto pair capability is not authoritative''
     | Some a \<Rightarrow>
         if \<not> ac_authoritative a then sizing_error ''crypto pair capability is not authoritative''
         else rbind (check_evidence p u ca me c) (\<lambda>_.
           rbind (authority_figures_of u) (\<lambda>f. Inr (p, a, f)))))"

section \<open>The figures of an order\<close>

text \<open>What the calculation reads after the checks.\<close>

record sizing_inputs =
  si_payload :: request_payload
  si_figures :: authority_figures
  si_minimum_order :: rat
  si_quantity_increment :: rat
  si_price_increment :: rat
  si_bid :: rat
  si_ask :: rat

record sizing_figures =
  sf_limit :: rat
  sf_stop :: "rat option"
  sf_stop_execution :: "rat option"
  sf_quantity :: "rat option"
  sf_notional :: "rat option"
  sf_stop_risk :: "rat option"
  sf_gross_stop_risk :: "rat option"
  sf_fees :: "rat option"
  sf_stop_slippage :: "rat option"
  sf_blockers :: "string list"
  sf_caps :: "string list"

definition fee_rate :: "sizing_policy \<Rightarrow> rat" where
  "fee_rate po = ddiv (po_fee_bps po) 10000"

definition stop_slippage_rate :: "sizing_policy \<Rightarrow> rat" where
  "stop_slippage_rate po = ddiv (po_slippage_bps po) 10000"

definition loss_per_unit :: "sizing_policy \<Rightarrow> rat \<Rightarrow> rat \<Rightarrow> rat" where
  "loss_per_unit po limit stop_execution =
     dsub (dmul limit (dadd 1 (fee_rate po))) (dmul stop_execution (dsub 1 (fee_rate po)))"

definition stop_distance_pct :: "rat \<Rightarrow> rat \<Rightarrow> rat" where
  "stop_distance_pct limit stop = (if stop < limit then dmul (ddiv (dsub limit stop) limit) 100 else 0)"

definition stop_blockers :: "sizing_policy \<Rightarrow> rat \<Rightarrow> rat \<Rightarrow> rat \<Rightarrow> rat \<Rightarrow> string list" where
  "stop_blockers po bid limit stop stop_execution = (let distance = stop_distance_pct limit stop in
     flag (stop \<ge> bid \<or> stop \<ge> limit) ''protective_stop_not_below_current_market''
   @ flag (distance < po_minimum_stop po) ''protective_stop_distance_below_policy_minimum''
   @ flag (distance > po_maximum_stop po) ''protective_stop_distance_above_policy_maximum''
   @ flag (stop_execution \<le> 0) ''conservative_stop_execution_price_not_positive'')"

text \<open>The caps of a purchase, the requested one read back from the payload, and the caps that bind.\<close>

definition notional_cap :: "sizing_policy \<Rightarrow> sizing_inputs \<Rightarrow> rat res" where
  "notional_cap po i = (let cap = min (po_maximum_notional po) (af_notional (si_figures i)) in
     case rp_notional_cap (si_payload i) of
       None \<Rightarrow> Inr cap
     | Some t \<Rightarrow> rbind (sizing_input (PyStr t) ''requested_notional_cap'' None True) (\<lambda>requested. Inr (min cap requested)))"

definition binding_caps :: "sizing_policy \<Rightarrow> sizing_inputs \<Rightarrow> rat \<Rightarrow> rat \<Rightarrow> rat \<Rightarrow> string list" where
  "binding_caps po i requested_risk cap risk_cap =
     flag (rp_notional_cap (si_payload i) \<noteq> None) ''strategy_requested_notional_cap''
   @ flag (cap = po_maximum_notional po) ''configured_maximum_order_notional''
   @ flag (cap = af_notional (si_figures i)) ''authoritative_portfolio_notional_capacity''
   @ flag (risk_cap = requested_risk) ''requested_stop_risk''
   @ flag (risk_cap = af_stop_risk (si_figures i)) ''authoritative_portfolio_stop_risk_capacity''"

text \<open>\<open>ONE.scaleb(-notional_places)\<close>, the quantum of a notional.\<close>

definition notional_quantum :: "sizing_policy \<Rightarrow> rat" where
  "notional_quantum po = 10 powi (- po_notional_places po)"

text \<open>Quantity and notional under the two caps, rounded down.\<close>

definition buy_size :: "sizing_policy \<Rightarrow> sizing_inputs \<Rightarrow> rat \<Rightarrow> rat \<Rightarrow> rat \<Rightarrow> rat \<Rightarrow> (rat \<times> rat) res" where
  "buy_size po i limit loss cap risk_cap = (let raw_quantity = min (ddiv cap limit) (ddiv risk_cap loss) in
     if rp_basis (si_payload i) = ''quantity''
     then rbind (round_increment floor raw_quantity (si_quantity_increment i)) (\<lambda>quantity. Inr (quantity, dmul quantity limit))
     else rbind (round_increment floor (min cap (dmul raw_quantity limit)) (notional_quantum po)) (\<lambda>notional.
       Inr (if limit > 0 then ddiv notional limit else 0, notional)))"

definition size_blockers :: "sizing_policy \<Rightarrow> sizing_inputs \<Rightarrow> rat \<Rightarrow> rat \<Rightarrow> string list" where
  "size_blockers po i quantity notional =
     flag (quantity \<le> 0 \<or> notional \<le> 0) ''rounded_crypto_size_is_zero''
   @ flag (quantity < si_minimum_order i) ''crypto_quantity_below_current_asset_minimum''
   @ flag (notional < po_minimum_buy po) ''crypto_buy_notional_below_one_usd''
   @ flag (rp_basis (si_payload i) = ''quantity'' \<and> decimal_places quantity > po_quantity_places po)
       ''crypto_quantity_exceeds_nine_decimal_places''
   @ flag (rp_basis (si_payload i) = ''notional'' \<and> decimal_places notional > po_notional_places po)
       ''crypto_notional_exceeds_two_decimal_places''"

text \<open>The figures of a purchase that nothing has blocked so far.\<close>

definition buy_figures :: "sizing_policy \<Rightarrow> sizing_inputs \<Rightarrow> rat \<Rightarrow> rat \<Rightarrow> rat \<Rightarrow> rat \<Rightarrow> rat \<Rightarrow> string list \<Rightarrow> sizing_figures res" where
  "buy_figures po i limit stop stop_execution cap risk_cap caps = (let loss = loss_per_unit po limit stop_execution in
     if loss \<le> 0
     then Inr \<lparr>sf_limit = limit, sf_stop = Some stop, sf_stop_execution = Some stop_execution, sf_quantity = None, sf_notional = None,
            sf_stop_risk = None, sf_gross_stop_risk = None, sf_fees = None, sf_stop_slippage = None,
            sf_blockers = [''cost_inclusive_stop_loss_per_unit_not_positive''], sf_caps = caps\<rparr>
     else rbind (buy_size po i limit loss cap risk_cap) (\<lambda>(quantity, notional).
       let stop_risk = dmul quantity loss in
       Inr \<lparr>sf_limit = limit, sf_stop = Some stop, sf_stop_execution = Some stop_execution, sf_quantity = Some quantity,
            sf_notional = Some notional, sf_stop_risk = Some stop_risk,
            sf_gross_stop_risk = Some (dmul quantity (dsub limit stop)),
            sf_fees = Some (dmul (dmul quantity (dadd limit stop_execution)) (fee_rate po)),
            sf_stop_slippage = Some (dmul quantity (dsub stop stop_execution)),
            sf_blockers = size_blockers po i quantity notional
              @ flag (notional > cap) ''rounded_crypto_notional_exceeds_authority''
              @ flag (stop_risk > risk_cap) ''rounded_crypto_stop_risk_exceeds_authority'',
            sf_caps = caps\<rparr>))"

definition size_buy :: "sizing_policy \<Rightarrow> sizing_request \<Rightarrow> sizing_inputs \<Rightarrow> string list \<Rightarrow> sizing_figures res" where
  "size_buy po r i blocked =
     (if sq_close r \<or> sq_exit_quantity r \<noteq> PyNone then sizing_error ''a crypto BUY cannot request an exit quantity''
      else rbind (sizing_input (sq_stop_risk r) ''requested_stop_risk_dollars'' None True) (\<lambda>requested_risk.
      rbind (sizing_input (sq_stop_price r) ''stop_price'' None True) (\<lambda>stop.
      rbind (round_increment ceiling (si_ask i) (si_price_increment i)) (\<lambda>limit.
      let stop_execution = dmul stop (dsub 1 (stop_slippage_rate po)); risk_cap = min requested_risk (af_stop_risk (si_figures i)) in
      rbind (notional_cap po i) (\<lambda>cap.
      let blockers = blocked @ stop_blockers po (si_bid i) limit stop stop_execution
            @ flag (cap \<le> 0) ''no_authoritative_crypto_notional_capacity''
            @ flag (risk_cap \<le> 0) ''no_authoritative_crypto_stop_risk_capacity'';
          caps = binding_caps po i requested_risk cap risk_cap in
      if blockers \<noteq> []
      then Inr \<lparr>sf_limit = limit, sf_stop = Some stop, sf_stop_execution = Some stop_execution, sf_quantity = None, sf_notional = None,
             sf_stop_risk = None, sf_gross_stop_risk = None, sf_fees = None, sf_stop_slippage = None,
             sf_blockers = blockers, sf_caps = caps\<rparr>
      else buy_figures po i limit stop stop_execution cap risk_cap caps)))))"

text \<open>The quantity of a sale with its blockers: the whole holding, or a part rounded down.\<close>

definition exit_quantity :: "sizing_policy \<Rightarrow> sizing_request \<Rightarrow> sizing_inputs \<Rightarrow> rat \<Rightarrow> (rat \<times> string list) res" where
  "exit_quantity po r i sellable =
     (if sq_close r
      then rbind (if sq_exit_quantity r = PyNone then Inr sellable
          else sizing_input (sq_exit_quantity r) ''requested_exit_quantity'' None True) (\<lambda>requested.
        Inr (sellable, flag (requested \<noteq> sellable) ''full_exit_quantity_does_not_match_sellable_holding''
          @ flag (decimal_places sellable > po_quantity_places po) ''full_exit_quantity_exceeds_nine_decimal_places''))
      else rbind (sizing_input (sq_exit_quantity r) ''requested_exit_quantity'' None True) (\<lambda>requested.
        rbind (round_increment floor (min requested sellable) (si_quantity_increment i)) (\<lambda>quantity.
        Inr (quantity, flag (requested > sellable) ''requested_crypto_sell_exceeds_sellable_holding''
          @ flag (quantity < si_minimum_order i) ''partial_crypto_sell_below_current_asset_minimum''))))"

definition size_sell :: "sizing_policy \<Rightarrow> sizing_request \<Rightarrow> sizing_inputs \<Rightarrow> string list \<Rightarrow> sizing_figures res" where
  "size_sell po r i blocked =
     (if sq_stop_risk r \<noteq> PyNone \<or> sq_stop_price r \<noteq> PyNone
      then sizing_error ''a risk-reducing crypto SELL cannot request entry stop risk''
      else
      let held = dsub (af_position (si_figures i)) (af_pending (si_figures i));
          sellable = max held 0 in
      rbind (exit_quantity po r i sellable) (\<lambda>(quantity, quantity_blockers).
      rbind (round_increment floor (si_bid i) (si_price_increment i)) (\<lambda>limit.
      let notional = dmul quantity limit; sized = (\<lambda>x. if quantity \<le> 0 then None else Some x) in
      Inr \<lparr>sf_limit = limit, sf_stop = None, sf_stop_execution = None, sf_quantity = Some quantity, sf_notional = sized notional,
           sf_stop_risk = sized 0, sf_gross_stop_risk = sized 0, sf_fees = sized (dmul notional (fee_rate po)),
           sf_stop_slippage = sized 0,
           sf_blockers = blocked @ flag (rp_basis (si_payload i) \<noteq> ''quantity'') ''crypto_sell_requires_quantity_basis''
             @ flag (held < 0) ''pending_crypto_sells_exceed_current_holding'' @ quantity_blockers
             @ flag (quantity \<le> 0) ''no_sellable_crypto_quantity'',
           sf_caps = []\<rparr>)))"

section \<open>The decision\<close>

record sizing_payload =
  sp_id :: string
  sp_run :: string
  sp_request :: request_payload
  sp_request_fingerprint :: string
  sp_authority :: authority_payload
  sp_capability :: string
  sp_capability_fingerprint :: string
  sp_market :: string
  sp_market_fingerprint :: string
  sp_symbol :: string
  sp_side :: string
  sp_action :: string
  sp_basis :: string
  sp_limit :: "string option"
  sp_stop :: "string option"
  sp_stop_execution :: "string option"
  sp_quantity :: "string option"
  sp_notional :: "string option"
  sp_stop_risk :: "string option"
  sp_gross_stop_risk :: "string option"
  sp_fees :: "string option"
  sp_stop_slippage :: "string option"
  sp_minimum_order :: "string option"
  sp_quantity_increment :: "string option"
  sp_price_increment :: "string option"
  sp_eligible :: bool
  sp_blockers :: "string list"
  sp_caps :: "string list"
  sp_authoritative :: bool
  sp_execution_authorized :: bool
  sp_config :: string
  sp_formula :: string
  sp_schema :: string
  sp_created :: string

text \<open>A decision has the fields of its payload and the fingerprint of it; \<open>payload\<close> is their truncation.\<close>

record sizing_decision = sizing_payload +
  sd_fingerprint :: string

record sizing_hashes =
  sh_request :: "request_payload \<Rightarrow> string"
  sh_payload :: "sizing_payload \<Rightarrow> string"

definition decided :: "sizing_hashes \<Rightarrow> sizing_payload \<Rightarrow> sizing_decision" where
  "decided h p = sizing_payload.extend p (sizing_decision.fields (sh_payload h p))"

abbreviation minimum_increment :: rat where
  "minimum_increment \<equiv> 1 / 1000000000"

definition sizing_inputs_of ::
  "sizing_policy \<Rightarrow> request_payload \<Rightarrow> authority_figures \<Rightarrow> asset_capability \<Rightarrow> market_evidence \<Rightarrow> sizing_inputs res" where
  "sizing_inputs_of po p f a me =
     rbind (trusted_decimal (ac_min_order a) ''asset.min_order_size'' minimum_increment) (\<lambda>minimum.
     rbind (trusted_decimal (ac_quantity_increment a) ''asset.min_trade_increment'' minimum_increment) (\<lambda>quantity_increment.
     rbind (trusted_decimal (ac_price_increment a) ''asset.price_increment'' minimum_increment) (\<lambda>price_increment.
     if decimal_places quantity_increment > po_quantity_places po
     then sizing_error ''asset quantity increment exceeds the supported nine decimal places''
     else if decimal_places price_increment > po_quantity_places po
     then sizing_error ''asset price increment exceeds the supported precision envelope''
     else
     rbind (trusted_decimal (me_bid me) ''market.bid_price'' minimum_increment) (\<lambda>bid.
     rbind (trusted_decimal (me_ask me) ''market.ask_price'' minimum_increment) (\<lambda>ask.
     if ask < bid then sizing_error ''crypto quote is crossed''
     else Inr \<lparr>si_payload = p, si_figures = f, si_minimum_order = minimum, si_quantity_increment = quantity_increment,
       si_price_increment = price_increment, si_bid = bid, si_ask = ask\<rparr>)))))"

definition authority_blockers :: "sizing_authority \<Rightarrow> string list" where
  "authority_blockers u = (if su_authoritative u then []
     else ''crypto_risk_snapshot_not_authoritative'' # map (\<lambda>t. ''risk_evidence:'' @ t) (su_reasons u))"

record sizing_call =
  sx_id :: string
  sx_run :: string
  sx_request :: sizing_request
  sx_authority :: sizing_authority
  sx_capability :: capability_snapshot
  sx_market :: market_evidence
  sx_created :: string

definition sizing_payload_of :: "sizing_hashes \<Rightarrow> sizing_call \<Rightarrow> sizing_inputs \<Rightarrow> sizing_figures \<Rightarrow> sizing_payload" where
  "sizing_payload_of h x i f = (let p = si_payload i; u = sx_authority x; blockers = sorted_set (sf_blockers f);
       text = map_option sizing_text in
     \<lparr>sp_id = sx_id x, sp_run = sx_run x, sp_request = p, sp_request_fingerprint = sh_request h p,
      sp_authority = authority_payload_of u (si_figures i),
      sp_capability = ca_id (sx_capability x), sp_capability_fingerprint = ca_fingerprint (sx_capability x),
      sp_market = me_id (sx_market x), sp_market_fingerprint = me_fingerprint (sx_market x),
      sp_symbol = rp_symbol p, sp_side = rp_side p, sp_action = rp_action p, sp_basis = rp_basis p,
      sp_limit = text (Some (sf_limit f)), sp_stop = text (sf_stop f), sp_stop_execution = text (sf_stop_execution f),
      sp_quantity = text (sf_quantity f), sp_notional = text (sf_notional f), sp_stop_risk = text (sf_stop_risk f),
      sp_gross_stop_risk = text (sf_gross_stop_risk f), sp_fees = text (sf_fees f), sp_stop_slippage = text (sf_stop_slippage f),
      sp_minimum_order = text (Some (si_minimum_order i)), sp_quantity_increment = text (Some (si_quantity_increment i)),
      sp_price_increment = text (Some (si_price_increment i)), sp_eligible = (blockers = []), sp_blockers = blockers,
      sp_caps = sorted_set (sf_caps f), sp_authoritative = (blockers = [] \<and> su_authoritative u),
      sp_execution_authorized = False, sp_config = su_config u, sp_formula = CRYPTO_SIZING_FORMULA_VERSION,
      sp_schema = CRYPTO_SIZING_SCHEMA_VERSION, sp_created = sx_created x\<rparr>)"

definition sizing_result :: "sizing_call \<Rightarrow> sizing_config \<Rightarrow> (sizing_inputs \<times> sizing_figures) res" where
  "sizing_result x c =
     rbind (sizing_policy_of c) (\<lambda>po.
     rbind (validate_relationships (sx_request x) (sx_authority x) (sx_capability x) (sx_market x) c) (\<lambda>(p, a, f).
     rbind (sizing_inputs_of po p f a (sx_market x)) (\<lambda>i.
     rbind ((if rp_side p = ''buy'' then size_buy else size_sell) po (sx_request x) i (authority_blockers (sx_authority x))) (\<lambda>g.
     Inr (i, g)))))"

definition calculate_crypto_sizing :: "sizing_hashes \<Rightarrow> sizing_call \<Rightarrow> sizing_config \<Rightarrow> sizing_decision res" where
  "calculate_crypto_sizing h x c = rbind (sizing_result x c) (\<lambda>(i, g). Inr (decided h (sizing_payload_of h x i g)))"

end
