(* ===== verification/Crypto_Sizing_Properties.thy ===== *)
theory Crypto_Sizing_Properties
  imports Crypto_Sizing
begin

text \<open>
  What an eligible size of \<open>app/crypto_sizing.py\<close> promises: a purchase stays within every cap, a sale within the
  holding, and a requested cap only reduces a purchase; then the samples on which the model is evaluated.
\<close>

section \<open>Purchases\<close>

lemma flag_Nil [simp]: "flag c n = [] \<longleftrightarrow> \<not> c"
  by (simp add: flag_def)

lemma sorted_set_Nil [simp]: "sorted_set xs = [] \<longleftrightarrow> xs = []"
  unfolding sorted_set_def by (metis set_sort set_remdups set_empty)

lemma flag_simps [simp]: "flag True n = [n]" "flag False n = []"
  by (simp_all add: flag_def)

lemma sizing_error_Inr [simp]: "sizing_error m \<noteq> Inr x"
  by (simp add: sizing_error_def)

lemma decided_fields [simp]: "sizing_payload.truncate (decided h p) = p"
  "sp_eligible (decided h p) = sp_eligible p" "sp_side (decided h p) = sp_side p" "sp_quantity (decided h p) = sp_quantity p"
  "sp_notional (decided h p) = sp_notional p" "sp_stop_risk (decided h p) = sp_stop_risk p" "sp_request (decided h p) = sp_request p"
  "sp_authoritative (decided h p) = sp_authoritative p" "sp_execution_authorized (decided h p) = sp_execution_authorized p"
  "sp_stop (decided h p) = sp_stop p" "sp_limit (decided h p) = sp_limit p"
  by (simp_all add: decided_def sizing_payload.defs sizing_decision.defs)

lemma sizing_text_28: "dec28 x \<Longrightarrow> sizing_text x = dec_text x"
  by (simp add: sizing_text_def dec28_def dec_text_0)

lemma round_increment_Inr: "round_increment to_int x inc = Inr y \<longleftrightarrow> 0 \<le> x \<and> 0 < inc \<and> y = dmul (of_int (to_int (ddiv x inc))) inc"
  by (auto simp: round_increment_def)

lemma calculate_Inr:
  "calculate_crypto_sizing h x c = Inr d \<longleftrightarrow> (\<exists>i g. sizing_result x c = Inr (i, g) \<and> d = decided h (sizing_payload_of h x i g))"
  by (auto simp: calculate_crypto_sizing_def result_simps)

lemma sizing_inputs_fields:
  "sizing_inputs_of po p f a me = Inr i \<Longrightarrow> si_payload i = p \<and> si_figures i = f \<and> 0 < si_quantity_increment i \<and> 0 < si_price_increment i
     \<and> decimal_places (si_quantity_increment i) \<le> po_quantity_places po \<and> 0 < si_bid i \<and> si_bid i \<le> si_ask i \<and> 0 < si_minimum_order i"
  by (auto simp: sizing_inputs_of_def result_simps trusted_decimal_def split: if_splits option.splits pydec.splits)

lemma sizing_result_cases:
  assumes "sizing_result x c = Inr (i, g)"
  obtains po a where "sizing_policy_of c = Inr po"
    "validate_relationships (sx_request x) (sx_authority x) (sx_capability x) (sx_market x) c = Inr (si_payload i, a, si_figures i)"
    "sizing_inputs_of po (si_payload i) (si_figures i) a (sx_market x) = Inr i"
    "(if rp_side (si_payload i) = ''buy'' then size_buy else size_sell) po (sx_request x) i (authority_blockers (sx_authority x)) = Inr g"
proof -
  from assms obtain po p a f where 1: "sizing_policy_of c = Inr po"
    "validate_relationships (sx_request x) (sx_authority x) (sx_capability x) (sx_market x) c = Inr (p, a, f)"
    "sizing_inputs_of po p f a (sx_market x) = Inr i"
    "(if rp_side p = ''buy'' then size_buy else size_sell) po (sx_request x) i (authority_blockers (sx_authority x)) = Inr g"
    by (auto simp: sizing_result_def result_simps split del: if_split)
  moreover have "si_payload i = p" "si_figures i = f" using sizing_inputs_fields [OF 1(3)] by simp_all
  ultimately show thesis using that by simp
qed

lemma validate_Inr:
  assumes "validate_relationships r u ca me c = Inr (p, a, f)"
  shows "request_payload_of r = Inr p \<and> authority_figures_of u = Inr f \<and> check_request p c = Inr () \<and> check_evidence p u ca me c = Inr ()
    \<and> capability_asset (rp_symbol p) ca = Some a"
  using assms by (auto simp: validate_relationships_def result_simps split: if_splits option.splits)

lemma policy_bounds:
  "sizing_policy_of c = Inr po \<Longrightarrow> po_maximum_notional po \<le> 50000 \<and> 0 < po_minimum_buy po \<and> po_quantity_places po = 9 \<and> po_notional_places po = 2
     \<and> po_fee_bps po = 25"
proof -
  assume "sizing_policy_of c = Inr po"
  then obtain q n where 1: "policy_failures c q n = []"
    "po = \<lparr>po_minimum_buy = policy_figure (sc_policy c) ''minimum_buy_notional_usd'',
       po_maximum_notional = policy_figure (sc_policy c) ''maximum_order_notional_usd'',
       po_fee_bps = policy_figure (sc_policy c) ''conservative_taker_fee_bps_per_side'',
       po_slippage_bps = policy_figure (sc_policy c) ''stop_execution_slippage_bps'',
       po_minimum_stop = policy_figure (sc_policy c) ''minimum_stop_distance_pct'',
       po_maximum_stop = policy_figure (sc_policy c) ''maximum_stop_distance_pct'',
       po_quantity_places = q, po_notional_places = n\<rparr>"
    by (auto simp: sizing_policy_of_def Let_def result_simps split: if_splits)
  have "list_ex (\<lambda>name. policy_decimal (sc_policy c) name \<noteq> None) POLICY_DECIMALS"
    using 1(1) by (simp add: policy_failures_def Let_def POLICY_DECIMALS_def)
  then have "policy_figure_failures (sc_policy c) = []" "q = 9" "n = 2"
    using 1(1) by (simp_all add: policy_failures_def Let_def)
  then show ?thesis by (auto simp: 1(2) policy_figure_failures_def Let_def policy_figure_def)
qed

lemma notional_cap_le:
  "notional_cap po i = Inr cap \<Longrightarrow> cap \<le> po_maximum_notional po \<and> cap \<le> af_notional (si_figures i)
     \<and> (\<forall>t. rp_notional_cap (si_payload i) = Some t \<longrightarrow> (\<exists>m. sizing_input (PyStr t) ''requested_notional_cap'' None True = Inr m \<and> cap \<le> m))"
  by (auto simp: notional_cap_def Let_def result_simps split: option.splits)

text \<open>A purchase that has a quantity.\<close>

definition sized_buy ::
  "sizing_policy \<Rightarrow> sizing_request \<Rightarrow> sizing_inputs \<Rightarrow> rat \<Rightarrow> rat \<Rightarrow> rat \<Rightarrow> rat \<Rightarrow> rat \<Rightarrow> rat \<Rightarrow> rat \<Rightarrow> sizing_figures \<Rightarrow> bool" where
  "sized_buy po r i risk risk_cap limit loss cap q n g \<longleftrightarrow>
     sizing_input (sq_stop_risk r) ''requested_stop_risk_dollars'' None True = Inr risk \<and> risk_cap = min risk (af_stop_risk (si_figures i))
   \<and> (\<exists>stop. sizing_input (sq_stop_price r) ''stop_price'' None True = Inr stop
        \<and> loss = loss_per_unit po limit (dmul stop (dsub 1 (stop_slippage_rate po))) \<and> sf_stop g = Some stop \<and> stop < si_bid i \<and> stop < limit)
   \<and> round_increment ceiling (si_ask i) (si_price_increment i) = Inr limit \<and> notional_cap po i = Inr cap \<and> 0 < cap \<and> 0 < risk_cap \<and> 0 < loss
   \<and> buy_size po i limit loss cap risk_cap = Inr (q, n)
   \<and> sf_limit g = limit \<and> sf_quantity g = Some q \<and> sf_notional g = Some n \<and> sf_stop_risk g = Some (dmul q loss)
   \<and> sf_blockers g = size_blockers po i q n @ flag (n > cap) ''rounded_crypto_notional_exceeds_authority''
        @ flag (dmul q loss > risk_cap) ''rounded_crypto_stop_risk_exceeds_authority''"

lemma size_buy_sized:
  assumes "size_buy po r i blocked = Inr g" and "sf_quantity g = Some q"
  shows "blocked = [] \<and> (\<exists>risk risk_cap limit loss cap n. sized_buy po r i risk risk_cap limit loss cap q n g)"
  using assms
  by (auto simp: size_buy_def buy_figures_def Let_def result_simps stop_blockers_def sized_buy_def not_le split: if_splits)

lemma size_buy_unblocked: "size_buy po r i blocked = Inr g \<Longrightarrow> sf_blockers g = [] \<Longrightarrow> \<exists>q. sf_quantity g = Some q"
  by (auto simp: size_buy_def buy_figures_def Let_def result_simps split: if_splits)

lemma round_increment_28: "round_increment to_int x inc = Inr y \<Longrightarrow> dec28 y"
  by (simp add: round_increment_Inr)

lemma buy_size_28: "buy_size po i limit loss cap k = Inr (q, n) \<Longrightarrow> dec28 q \<and> dec28 n"
  by (auto simp: buy_size_def Let_def result_simps round_increment_28 split: if_splits)

text \<open>C2: An eligible purchase has a positive quantity and notional, its notional is within the hard cap of 50,000 dollars, the ceiling of the verified authority and the cap the request asks for, its risk at the stop is within the requested and the authorised stop risk, and the authority it used is authoritative.\<close>

theorem eligible_buy_within_caps:
  assumes "calculate_crypto_sizing h x c = Inr d" and "sp_eligible d" and "sp_side d = ''buy''"
  shows "\<exists>f risk q n k. authority_figures_of (sx_authority x) = Inr f
    \<and> sizing_input (sq_stop_risk (sx_request x)) ''requested_stop_risk_dollars'' None True = Inr risk
    \<and> sp_quantity d = Some (dec_text q) \<and> sp_notional d = Some (dec_text n) \<and> sp_stop_risk d = Some (dec_text k)
    \<and> 0 < q \<and> 0 < n \<and> n \<le> 50000 \<and> n \<le> af_notional f \<and> k \<le> risk \<and> k \<le> af_stop_risk f
    \<and> (\<forall>t. rp_notional_cap (sp_request d) = Some t \<longrightarrow> (\<exists>m. sizing_input (PyStr t) ''requested_notional_cap'' None True = Inr m \<and> n \<le> m))
    \<and> su_authoritative (sx_authority x)"
proof -
  from assms(1) obtain i g where res: "sizing_result x c = Inr (i, g)" and d: "d = decided h (sizing_payload_of h x i g)"
    by (auto simp: calculate_Inr)
  have buy: "rp_side (si_payload i) = ''buy''" and none: "sf_blockers g = []"
    using assms(2,3) by (simp_all add: d sizing_payload_of_def Let_def)
  from res obtain po a where 1: "sizing_policy_of c = Inr po"
    "validate_relationships (sx_request x) (sx_authority x) (sx_capability x) (sx_market x) c = Inr (si_payload i, a, si_figures i)"
    "size_buy po (sx_request x) i (authority_blockers (sx_authority x)) = Inr g"
    by (rule sizing_result_cases) (simp add: buy)
  obtain q risk risk_cap limit loss cap n where auth: "authority_blockers (sx_authority x) = []"
    and sized: "sized_buy po (sx_request x) i risk risk_cap limit loss cap q n g"
    using size_buy_unblocked [OF 1(3) none] size_buy_sized [OF 1(3)] by blast
  have 2: "notional_cap po i = Inr cap" "buy_size po i limit loss cap risk_cap = Inr (q, n)"
    "sizing_input (sq_stop_risk (sx_request x)) ''requested_stop_risk_dollars'' None True = Inr risk" "risk_cap = min risk (af_stop_risk (si_figures i))"
    "sf_quantity g = Some q" "sf_notional g = Some n" "sf_stop_risk g = Some (dmul q loss)"
    using sized unfolding sized_buy_def by - (elim conjE, assumption)+
  have "sf_blockers g = size_blockers po i q n @ flag (n > cap) ''rounded_crypto_notional_exceeds_authority''
        @ flag (dmul q loss > risk_cap) ''rounded_crypto_stop_risk_exceeds_authority''"
    using sized unfolding sized_buy_def by - (elim conjE, assumption)+
  then have "0 < q" "0 < n" "n \<le> cap" "dmul q loss \<le> risk_cap"
    using none by (simp_all add: size_blockers_def not_less not_le)
  moreover have "dec28 q" "dec28 n" "dec28 (dmul q loss)" using buy_size_28 [OF 2(2)] by auto
  moreover have "su_authoritative (sx_authority x)" using auth by (simp add: authority_blockers_def split: if_splits)
  ultimately show ?thesis
    using validate_Inr [OF 1(2)] policy_bounds [OF 1(1)] notional_cap_le [OF 2(1)] 2(3-7)
    by (intro exI [of _ "si_figures i"] exI [of _ risk] exI [of _ q] exI [of _ n] exI [of _ "dmul q loss"])
      (auto simp: d sizing_payload_of_def Let_def sizing_text_28)
qed

section \<open>Sales\<close>

text \<open>A quantity of whole billionths below two quintillion.\<close>

definition sellable_units :: "rat \<Rightarrow> bool" where
  "sellable_units x \<longleftrightarrow> (\<exists>n. x = of_int n / 1000000000 \<and> 0 \<le> n \<and> n < 2 * 10 ^ 27)"

lemma sellable_dsub:
  assumes "sellable_units x" and "sellable_units y"
  shows "dsub x y = x - y \<and> (0 \<le> x - y \<longrightarrow> sellable_units (x - y))"
proof -
  obtain n m where n: "x = of_int n / 1000000000" "0 \<le> n" "n < 2 * 10 ^ 27" and m: "y = of_int m / 1000000000" "0 \<le> m" "m < 2 * 10 ^ 27"
    using assms by (auto simp: sellable_units_def)
  have d: "x - y = of_int (n - m) / 1000000000" by (simp add: n m diff_divide_distrib)
  have "x - y = of_int (n - m) * 10 powi (-9)" unfolding d by (simp add: power_int_def power_one_over)
  moreover have "\<bar>n - m\<bar> < 10 ^ 28" using n(2,3) m(2,3) by auto
  ultimately have "dsub x y = x - y" by (intro dsub_exact dec28I)
  moreover have "sellable_units (x - y)" if "0 \<le> x - y"
  proof -
    have "0 \<le> n - m" using that unfolding d by simp
    then show ?thesis unfolding sellable_units_def using d n(3) m(2) by (intro exI [of _ "n - m"]) auto
  qed
  ultimately show ?thesis by blast
qed


lemma ddiv_error:
  assumes "0 < x" and "0 < y"
  shows "\<bar>ddiv x y - x / y\<bar> \<le> x / y / (2 * 10 ^ 27)"
proof -
  let ?z = "x / y"
  have z: "0 < ?z" using assms by simp
  have "quantum 10 28 ?z * 10 ^ 27 = 10 powi (lead 10 ?z - 1)"
    using powi_nat_add [of 10 27 "lead 10 ?z - 28"] by (simp add: quantum_def)
  also have "\<dots> \<le> \<bar>?z\<bar>" using lead_bounds [of 10 ?z] less_imp_neq [OF z, symmetric] by simp
  also have "\<bar>?z\<bar> = ?z" by (rule abs_of_pos [OF z])
  finally have "quantum 10 28 ?z / 2 \<le> ?z / (2 * 10 ^ 27)" by (simp add: field_simps)
  then show ?thesis using rnd_error [of 10 28 ?z] by (simp add: ddiv_def dec_ctx_def)
qed

text \<open>The quotient of two amounts of whole units is never rounded up to the next integer.\<close>

lemma floor_quotient_le:
  fixes X I :: int
  assumes "0 \<le> X" and "X < 2 * 10 ^ 27" and "0 < I"
  shows "\<lfloor>ddiv (of_int X / 1000000000) (of_int I / 1000000000)\<rfloor> * I \<le> X"
proof (cases "X = 0")
  case True
  then show ?thesis by (simp add: ddiv_def dctx.rd_zero)
next
  case False
  let ?x = "of_int X / 1000000000 :: rat" and ?y = "of_int I / 1000000000 :: rat"
  define k where "k = \<lfloor>ddiv ?x ?y\<rfloor>"
  have q: "?x / ?y = of_int X / of_int I" by simp
  have "?x / ?y / (2 * 10 ^ 27) < 1 / of_int I"
  proof -
    have "of_int X < (2 * 10 ^ 27 :: rat)" using assms(2) by (metis of_int_less_iff of_int_mult of_int_numeral of_int_power)
    then show ?thesis unfolding q using assms(3) by (simp add: field_simps)
  qed
  then have e: "ddiv ?x ?y < of_int X / of_int I + 1 / of_int I"
    using ddiv_error [of ?x ?y] assms False unfolding q by simp
  have "of_int k \<le> ddiv ?x ?y" by (simp add: k_def)
  then have "of_int k < (of_int (X + 1) :: rat) / of_int I" using e by (simp add: add_divide_distrib)
  then have "of_int (k * I) < (of_int (X + 1) :: rat)" using assms(3) by (simp add: field_simps)
  then have "k * I < X + 1" by (simp only: of_int_less_iff)
  then show ?thesis by (simp add: k_def)
qed

lemma nine_place_units:
  assumes "dec28 x" and "decimal_places x \<le> 9"
  shows "\<exists>n. x = of_int n / 1000000000"
proof -
  obtain n d where q: "quotient_of x = (n, d)" by fastforce
  have d: "0 < d" "x = of_int n / of_int d" using quotient_of_denom_pos [OF q] quotient_of_div [OF q] by auto
  obtain k where "d dvd 10 ^ k" using is_decimal_dec28 [OF assms(1)] by (auto simp: is_decimal_def q)
  then have "d dvd 10 ^ frac_digits d" by (rule frac_digits_dvd [OF d(1)])
  also have "(10 :: int) ^ frac_digits d dvd 10 ^ 9"
    using assms by (intro le_imp_power_dvd) (simp add: decimal_places_def dec28_def q)
  finally obtain e where "10 ^ 9 = d * e" unfolding dvd_def by blast
  then have "d * e = 1000000000" by simp
  then have "(of_int d * of_int e :: rat) = 1000000000" by (metis of_int_mult of_int_numeral)
  moreover from this have "(of_int e :: rat) \<noteq> 0" by auto
  then have "x = of_int n * of_int e / (of_int d * of_int e)" by (simp add: d(2))
  ultimately have "x = of_int (n * e) / 1000000000" by simp
  then show ?thesis by blast
qed


lemma round_down_le:
  assumes "round_increment floor x inc = Inr q" and "x \<le> y" and "sellable_units y" and "dec28 inc" and "decimal_places inc \<le> 9"
  shows "q \<le> y \<and> (\<exists>k. q = of_int k * inc)"
proof -
  obtain X where X: "y = of_int X / 1000000000" "0 \<le> X" "X < 2 * 10 ^ 27" using assms(3) by (auto simp: sellable_units_def)
  obtain I where I: "inc = of_int I / 1000000000" using nine_place_units [OF assms(4,5)] by blast
  define k where "k = \<lfloor>ddiv x inc\<rfloor>"
  have pos: "0 < inc" and x0: "0 \<le> x" and q: "q = dmul (of_int k) inc" using assms(1) by (simp_all add: round_increment_Inr k_def)
  have I0: "0 < I" using pos I by (simp add: zero_less_divide_iff)
  have "k \<le> \<lfloor>ddiv y inc\<rfloor>" unfolding k_def ddiv_def using assms(2) pos by (intro floor_mono dctx.rd_mono divide_right_mono) auto
  then have "k * I \<le> \<lfloor>ddiv y inc\<rfloor> * I" using I0 by simp
  also have "\<dots> \<le> X" using floor_quotient_le [OF X(2,3) I0] by (simp add: X(1) I)
  finally have le: "k * I \<le> X" .
  have "0 \<le> ddiv x inc" using x0 pos by (intro ddiv_nonneg) auto
  then have k0: "0 \<le> k * I" using I0 by (simp add: k_def)
  have e: "of_int k * inc = of_int (k * I) / 1000000000" by (simp add: I)
  have "of_int k * inc = of_int (k * I) * 10 powi (-9)" unfolding e by (simp add: power_int_def power_one_over)
  moreover have "\<bar>k * I\<bar> < 10 ^ 28" using k0 le X(3) by simp
  ultimately have "q = of_int k * inc" unfolding q by (intro dmul_exact dec28I)
  moreover have "of_int (k * I) / 1000000000 \<le> y" unfolding X(1) by (rule divide_right_mono, rule of_int_le_iff [THEN iffD2, OF le], simp)
  ultimately show ?thesis unfolding e [symmetric] by blast
qed

lemma size_sell_unblocked:
  assumes "size_sell po r i blocked = Inr g" and "sf_blockers g = []"
  shows "\<exists>q. exit_quantity po r i (dsub (af_position (si_figures i)) (af_pending (si_figures i))) = Inr (q, [])
    \<and> 0 \<le> dsub (af_position (si_figures i)) (af_pending (si_figures i)) \<and> sf_quantity g = Some q \<and> 0 < q"
  using assms by (auto simp: size_sell_def Let_def result_simps max_def not_less split: if_splits)

text \<open>C3: A sale without blockers sells a positive quantity within the reconciled position less the pending sale quantity, a multiple of the increment unless the
  position is closed, when the reconciled position and the pending sale quantity are whole billionths below two quintillion (2 * 10^18) and
  the quantity increment has at most 28 digits. Without the bound it fails: \<open>sale_beyond_holding\<close> below sells one unit of less than one.\<close>

theorem eligible_sell_within_holding:
  assumes "sizing_result x c = Inr (i, g)" and "rp_side (si_payload i) = ''sell''" and "sf_blockers g = []"
    and "sellable_units (af_position (si_figures i))" and "sellable_units (af_pending (si_figures i))" and "dec28 (si_quantity_increment i)"
  shows "\<exists>q. sf_quantity g = Some q \<and> 0 < q \<and> q \<le> af_position (si_figures i) - af_pending (si_figures i)
    \<and> (\<not> sq_close (sx_request x) \<longrightarrow> (\<exists>k. q = of_int k * si_quantity_increment i))"
proof -
  let ?f = "si_figures i"
  from assms(1) obtain po a where 1: "sizing_policy_of c = Inr po" "sizing_inputs_of po (si_payload i) ?f a (sx_market x) = Inr i"
    "size_sell po (sx_request x) i (authority_blockers (sx_authority x)) = Inr g"
    by (rule sizing_result_cases) (simp add: assms(2))
  have places: "decimal_places (si_quantity_increment i) \<le> 9" using sizing_inputs_fields [OF 1(2)] policy_bounds [OF 1(1)] by simp
  from size_sell_unblocked [OF 1(3) assms(3)] obtain q where
    q: "exit_quantity po (sx_request x) i (dsub (af_position ?f) (af_pending ?f)) = Inr (q, [])"
      "0 \<le> dsub (af_position ?f) (af_pending ?f)" "sf_quantity g = Some q" "0 < q" by (elim exE conjE)
  note dsub = sellable_dsub [OF assms(4,5)]
  then have d: "dsub (af_position ?f) (af_pending ?f) = af_position ?f - af_pending ?f" by (rule conjunct1)
  have u: "sellable_units (af_position ?f - af_pending ?f)" using dsub [THEN conjunct2] q(2) unfolding d by (rule mp)
  show ?thesis
  proof (cases "sq_close (sx_request x)")
    case True
    then have "q = af_position ?f - af_pending ?f" using q(1) by (auto simp: exit_quantity_def d result_simps split: if_splits)
    then show ?thesis using q True by auto
  next
    case False
    then obtain requested where r: "round_increment floor (min requested (af_position ?f - af_pending ?f)) (si_quantity_increment i) = Inr q"
      "requested \<le> af_position ?f - af_pending ?f"
      using q(1) by (auto simp: exit_quantity_def d result_simps not_less)
    from round_down_le [OF r(1) min.cobounded2 u assms(6) places] show ?thesis using q by blast
  qed
qed


section \<open>The requested cap\<close>

lemma ddiv_le: "x \<le> y \<Longrightarrow> 0 < z \<Longrightarrow> ddiv x z \<le> ddiv y z"
  unfolding ddiv_def by (intro dctx.rd_mono divide_right_mono) auto

lemma dmul_le: "x \<le> y \<Longrightarrow> 0 \<le> z \<Longrightarrow> dmul x z \<le> dmul y z"
  unfolding dmul_def by (intro dctx.rd_mono mult_right_mono) auto

lemma round_down_mono:
  assumes "round_increment floor x inc = Inr y" and "round_increment floor x' inc = Inr y'" and "x \<le> x'"
  shows "y \<le> y'"
proof -
  have 1: "0 < inc" "y = dmul (of_int \<lfloor>ddiv x inc\<rfloor>) inc" "y' = dmul (of_int \<lfloor>ddiv x' inc\<rfloor>) inc"
    using assms(1,2) by (simp_all add: round_increment_Inr)
  have "\<lfloor>ddiv x inc\<rfloor> \<le> \<lfloor>ddiv x' inc\<rfloor>" using assms(3) 1(1) by (intro floor_mono ddiv_le)
  then show ?thesis unfolding 1(2,3) using 1(1) by (intro dmul_le) simp_all
qed

lemma buy_size_mono:
  assumes "buy_size po i limit loss cap k = Inr (q, n)" and "buy_size po i' limit loss cap' k = Inr (q', n')"
    and "rp_basis (si_payload i') = rp_basis (si_payload i)" and "si_quantity_increment i' = si_quantity_increment i"
    and "cap \<le> cap'" and "0 < limit"
  shows "q \<le> q' \<and> n \<le> n'"
proof -
  let ?r = "min (ddiv cap limit) (ddiv k loss)" and ?r' = "min (ddiv cap' limit) (ddiv k loss)"
  have r: "?r \<le> ?r'" by (rule min.mono) (simp_all add: ddiv_le assms)
  show ?thesis
  proof (cases "rp_basis (si_payload i) = ''quantity''")
    case True
    have s: "round_increment floor ?r (si_quantity_increment i) = Inr q" "round_increment floor ?r' (si_quantity_increment i) = Inr q'"
      "n = dmul q limit" "n' = dmul q' limit"
      using assms(1-4) True by (auto simp: buy_size_def Let_def result_simps)
    have "q \<le> q'" by (rule round_down_mono [OF s(1,2) r])
    then show ?thesis unfolding s(3,4) using assms(6) by (simp add: dmul_le)
  next
    case False
    have s: "round_increment floor (min cap (dmul ?r limit)) (notional_quantum po) = Inr n"
      "round_increment floor (min cap' (dmul ?r' limit)) (notional_quantum po) = Inr n'" "q = ddiv n limit" "q' = ddiv n' limit"
      using assms(1-4,6) False by (auto simp: buy_size_def Let_def result_simps)
    have "min cap (dmul ?r limit) \<le> min cap' (dmul ?r' limit)"
      by (rule min.mono, rule assms(5), rule dmul_le, rule r) (use assms(6) in simp)
    then have "n \<le> n'" by (rule round_down_mono [OF s(1,2)])
    then show ?thesis unfolding s(3,4) using assms(6) by (simp add: ddiv_le)
  qed
qed

lemma payload_without_cap:
  "request_payload_of r = Inr p \<Longrightarrow> request_payload_of (r\<lparr>sq_notional_cap := PyNone\<rparr>) = Inr (p\<lparr>rp_notional_cap := None\<rparr>)"
  by (auto simp: request_payload_of_def payload_number_def result_simps)

lemma inputs_other_payload:
  "sizing_inputs_of po p f a me = Inr i \<Longrightarrow> sizing_inputs_of po p' f a me = Inr (i\<lparr>si_payload := p'\<rparr>)"
  by (auto simp: sizing_inputs_of_def rbind_def split: sum.splits if_splits)

lemma round_up_pos:
  assumes "round_increment ceiling x inc = Inr y" and "0 < x"
  shows "0 < y"
proof -
  have 1: "0 < inc" "y = dmul (of_int \<lceil>ddiv x inc\<rceil>) inc" using assms(1) by (simp_all add: round_increment_Inr)
  have "0 < ddiv x inc" using assms(2) 1(1) by (simp add: ddiv_def dec_ctx_def rnd_pos)
  then have "0 < (of_int \<lceil>ddiv x inc\<rceil> :: rat) * inc" using 1(1) by simp
  then show ?thesis unfolding 1(2) dmul_def dec_ctx_def by (intro rnd_pos) simp_all
qed

lemma notional_cap_uncapped:
  "notional_cap po i = Inr cap \<Longrightarrow> notional_cap po (i\<lparr>si_payload := (si_payload i)\<lparr>rp_notional_cap := None\<rparr>\<rparr>) = Inr cap' \<Longrightarrow> cap \<le> cap'"
  by (auto simp: notional_cap_def Let_def result_simps split: option.splits)

text \<open>The notional cap of a request only reduces a purchase: the quantity, notional and stop risk are at most those of the same request without the cap.\<close>

theorem requested_cap_only_reduces:
  assumes "sizing_result x c = Inr (i, g)"
    and "sizing_result (x\<lparr>sx_request := (sx_request x)\<lparr>sq_notional_cap := PyNone\<rparr>\<rparr>) c = Inr (i', g')"
    and "rp_side (si_payload i) = ''buy''" and "sf_quantity g = Some q" and "sf_quantity g' = Some q'"
  shows "q \<le> q' \<and> (\<exists>n n' k k'. sf_notional g = Some n \<and> sf_notional g' = Some n' \<and> n \<le> n'
    \<and> sf_stop_risk g = Some k \<and> sf_stop_risk g' = Some k' \<and> k \<le> k')"
proof -
  from assms(1) obtain po a where 1: "sizing_policy_of c = Inr po"
    "validate_relationships (sx_request x) (sx_authority x) (sx_capability x) (sx_market x) c = Inr (si_payload i, a, si_figures i)"
    "sizing_inputs_of po (si_payload i) (si_figures i) a (sx_market x) = Inr i"
    "size_buy po (sx_request x) i (authority_blockers (sx_authority x)) = Inr g"
    by (rule sizing_result_cases) (simp add: assms(3))
  let ?r = "(sx_request x)\<lparr>sq_notional_cap := PyNone\<rparr>" and ?p = "(si_payload i)\<lparr>rp_notional_cap := None\<rparr>"
  from assms(2) obtain a' where 2:
    "validate_relationships ?r (sx_authority x) (sx_capability x) (sx_market x) c = Inr (si_payload i', a', si_figures i')"
    "sizing_inputs_of po (si_payload i') (si_figures i') a' (sx_market x) = Inr i'"
    "(if rp_side (si_payload i') = ''buy'' then size_buy else size_sell) po ?r i' (authority_blockers (sx_authority x)) = Inr g'"
    by (rule sizing_result_cases) (simp add: 1(1))
  note v = validate_Inr [OF 1(2)] and v' = validate_Inr [OF 2(1)]
  have p: "si_payload i' = ?p" using payload_without_cap v v' by fastforce
  have f: "si_figures i' = si_figures i" "a' = a" using v v' p by simp_all
  have i': "i' = i\<lparr>si_payload := ?p\<rparr>" using inputs_other_payload [OF 1(3), of ?p] 2(2) p f by simp
  have sized: "size_buy po ?r i' (authority_blockers (sx_authority x)) = Inr g'" using 2(3) p assms(3) by simp
  from size_buy_sized [OF 1(4) assms(4)] obtain risk rcap limit loss cap n where
    s: "sized_buy po (sx_request x) i risk rcap limit loss cap q n g" by blast
  from size_buy_sized [OF sized assms(5)] obtain risk' rcap' limit' loss' cap' n' where
    s': "sized_buy po ?r i' risk' rcap' limit' loss' cap' q' n' g'" by blast
  have same: "risk' = risk" "rcap' = rcap" "limit' = limit" "loss' = loss"
    using s s' by (auto simp: sized_buy_def i')
  have b: "buy_size po i limit loss cap rcap = Inr (q, n)" "buy_size po i' limit loss cap' rcap = Inr (q', n')"
    "round_increment ceiling (si_ask i) (si_price_increment i) = Inr limit" "0 < loss"
    "notional_cap po i = Inr cap" "notional_cap po i' = Inr cap'"
    using s s' unfolding sized_buy_def same by - (elim conjE, assumption)+
  have "0 < limit" by (rule round_up_pos [OF b(3)]) (use sizing_inputs_fields [OF 1(3)] in auto)
  moreover have "cap \<le> cap'" using notional_cap_uncapped [OF b(5)] b(6) i' by simp
  ultimately have le: "q \<le> q' \<and> n \<le> n'" by (intro buy_size_mono [OF b(1,2)]) (simp_all add: i')
  moreover have "dmul q loss \<le> dmul q' loss" using le b(4) by (simp add: dmul_le)
  moreover have "sf_notional g = Some n" "sf_stop_risk g = Some (dmul q loss)" "sf_notional g' = Some n'" "sf_stop_risk g' = Some (dmul q' loss)"
    using s s' unfolding sized_buy_def same by - (elim conjE, assumption)+
  ultimately show ?thesis by blast
qed

section \<open>Examples\<close>

declare rbind_def [code_unfold]

definition sample_hash :: string where
  "sample_hash = replicate 64 (CHR ''a'')"

definition sample_config :: sizing_config where
  "sample_config = \<lparr>sc_policy = [''mode'' \<mapsto> PyStr ''supervised_paper'', ''formula_version'' \<mapsto> PyStr CRYPTO_SIZING_FORMULA_VERSION,
     ''schema_version'' \<mapsto> PyStr CRYPTO_SIZING_SCHEMA_VERSION, ''minimum_buy_notional_usd'' \<mapsto> PyInt 1,
     ''maximum_order_notional_usd'' \<mapsto> PyInt 500, ''conservative_taker_fee_bps_per_side'' \<mapsto> PyInt 25,
     ''stop_execution_slippage_bps'' \<mapsto> PyInt 0, ''minimum_stop_distance_pct'' \<mapsto> PyStr ''0.5'', ''maximum_stop_distance_pct'' \<mapsto> PyInt 20,
     ''maximum_quantity_decimal_places'' \<mapsto> PyInt 9, ''maximum_notional_decimal_places'' \<mapsto> PyInt 2,
     ''require_quantity_basis_for_sells'' \<mapsto> PyBool True, ''allow_full_position_dust_exit'' \<mapsto> PyBool True],
     sc_lane_enabled = PyBool True, sc_formula = PyStr CRYPTO_SIZING_FORMULA_VERSION, sc_symbols = [''BTC/USD''], sc_hash = PyStr sample_hash\<rparr>"

definition sample_buy :: "pyval \<Rightarrow> sizing_request" where
  "sample_buy cap = \<lparr>sq_source_type = PyStr ''strategy'', sq_source_id = PyStr ''s1'', sq_source_fingerprint = PyStr sample_hash,
     sq_symbol = PyStr ''btc/usd'', sq_side = PyStr ''buy'', sq_action = PyStr ''entry'', sq_basis = PyStr ''quantity'',
     sq_stop_risk = PyInt 10, sq_stop_price = PyInt 90, sq_exit_quantity = PyNone, sq_close = False, sq_notional_cap = cap\<rparr>"

definition sample_sale :: "pyval \<Rightarrow> sizing_request" where
  "sample_sale q = \<lparr>sq_source_type = PyStr ''strategy'', sq_source_id = PyStr ''s1'', sq_source_fingerprint = PyStr sample_hash,
     sq_symbol = PyStr ''btc/usd'', sq_side = PyStr ''sell'', sq_action = PyStr ''reduce'', sq_basis = PyStr ''quantity'',
     sq_stop_risk = PyNone, sq_stop_price = PyNone, sq_exit_quantity = q, sq_close = False, sq_notional_cap = PyNone\<rparr>"

definition sample_authority :: "rat \<Rightarrow> sizing_authority" where
  "sample_authority held = \<lparr>su_snapshot = ''k1'', su_fingerprint = sample_hash, su_account = ''acc'', su_config = sample_hash,
     su_notional = PyDec (Fin 300), su_stop_risk = PyDec (Fin (419/50)), su_position = PyDec (Fin held), su_pending = PyDec (Fin 0),
     su_authoritative = True, su_reasons = []\<rparr>"

definition sample_capability :: "string \<Rightarrow> capability_snapshot" where
  "sample_capability increment = \<lparr>ca_id = ''c1'', ca_account = ''acc'', ca_assets = [\<lparr>ac_symbol = ''BTC/USD'', ac_min_order = PyStr ''0.0001'',
     ac_quantity_increment = PyStr increment, ac_price_increment = PyStr ''0.01'', ac_authoritative = True\<rparr>],
     ca_config = sample_hash, ca_authoritative = True, ca_fingerprint = ''cf''\<rparr>"

definition sample_market :: market_evidence where
  "sample_market = \<lparr>me_id = ''m1'', me_capability = ''c1'', me_capability_fingerprint = ''cf'', me_symbol = ''BTC/USD'',
     me_bid = PyStr ''99.9'', me_ask = PyStr ''99.995'', me_authoritative = True, me_eligible = True, me_config = sample_hash, me_fingerprint = ''mf''\<rparr>"

definition sample_sizing :: "sizing_request \<Rightarrow> rat \<Rightarrow> string \<Rightarrow> sizing_call" where
  "sample_sizing r held increment = \<lparr>sx_id = ''d1'', sx_run = ''r1'', sx_request = r, sx_authority = sample_authority held,
     sx_capability = sample_capability increment, sx_market = sample_market, sx_created = ''t1''\<rparr>"

definition sample_hashes :: sizing_hashes where
  "sample_hashes = \<lparr>sh_request = (\<lambda>p. ''rh'' @ rp_symbol p), sh_payload = (\<lambda>p. ''ph'' @ sp_id p)\<rparr>"

definition buy_call :: sizing_call where
  "buy_call = sample_sizing (sample_buy (PyInt 50)) 0 ''0.000000001''"

definition bought :: "sizing_decision option" where
  "bought = (case calculate_crypto_sizing sample_hashes buy_call sample_config of Inl _ \<Rightarrow> None | Inr d \<Rightarrow> Some d)"

lemma bought_figures:
  "case bought of None \<Rightarrow> False | Some d \<Rightarrow> sp_eligible d \<and> sp_side d = ''buy'' \<and> sp_limit d = Some ''100'' \<and> sp_quantity d = Some ''0.5''"
  by code_simp

lemma bought_decision: "\<exists>d. calculate_crypto_sizing sample_hashes buy_call sample_config = Inr d \<and> bought = Some d
    \<and> sp_eligible d \<and> sp_side d = ''buy'' \<and> sp_quantity d = Some ''0.5''"
  using bought_figures by (auto simp: bought_def split: option.splits sum.splits)

theorem eligible_buy_within_caps_witness:
  "\<exists>d f risk q n k. calculate_crypto_sizing sample_hashes buy_call sample_config = Inr d
    \<and> authority_figures_of (sample_authority 0) = Inr f \<and> sp_quantity d = Some (dec_text q) \<and> sp_notional d = Some (dec_text n)
    \<and> sp_stop_risk d = Some (dec_text k) \<and> 0 < q \<and> 0 < n \<and> n \<le> 50000 \<and> n \<le> af_notional f \<and> k \<le> risk \<and> k \<le> af_stop_risk f"
proof -
  obtain d where d: "calculate_crypto_sizing sample_hashes buy_call sample_config = Inr d" "sp_eligible d" "sp_side d = ''buy''"
    using bought_decision by blast
  have a: "sx_authority buy_call = sample_authority 0" by (simp add: buy_call_def sample_sizing_def)
  show ?thesis using eligible_buy_within_caps [OF d, unfolded a] d(1)
    by (elim exE conjE, intro exI conjI) assumption+
qed

definition sell_call :: sizing_call where
  "sell_call = sample_sizing (sample_sale (PyStr ''0.75'')) 1 ''0.1''"

lemma sold_figures:
  "case sizing_result sell_call sample_config of Inl _ \<Rightarrow> False
   | Inr (i, g) \<Rightarrow> rp_side (si_payload i) = ''sell'' \<and> sf_blockers g = [] \<and> af_position (si_figures i) = 1 \<and> af_pending (si_figures i) = 0
       \<and> si_quantity_increment i = 1 / 10"
  by code_simp

theorem eligible_sell_within_holding_witness:
  "\<exists>i g q k. sizing_result sell_call sample_config = Inr (i, g) \<and> sf_quantity g = Some q \<and> 0 < q \<and> q \<le> 1 \<and> q = of_int k / 10"
proof -
  obtain i g where r: "sizing_result sell_call sample_config = Inr (i, g)" "rp_side (si_payload i) = ''sell''" "sf_blockers g = []"
    "af_position (si_figures i) = 1" "af_pending (si_figures i) = 0" "si_quantity_increment i = 1 / 10"
    using sold_figures by (auto split: sum.splits)
  have u: "sellable_units 1" "sellable_units 0"
    unfolding sellable_units_def by (rule exI [of _ 1000000000], simp, rule exI [of _ 0], simp)
  have "dec28 (1 / 10)" by (rule dec28I [of _ 1 "-1"]) (simp_all add: power_int_def)
  moreover have "\<not> sq_close (sx_request sell_call)" by (simp add: sell_call_def sample_sizing_def sample_sale_def)
  ultimately show ?thesis using eligible_sell_within_holding [OF r(1-3)] r(1,4-6) u by auto
qed

definition free_call :: sizing_call where
  "free_call = buy_call\<lparr>sx_request := (sx_request buy_call)\<lparr>sq_notional_cap := PyNone\<rparr>\<rparr>"

lemma free_figures:
  "case (sizing_result buy_call sample_config, sizing_result free_call sample_config) of
     (Inr (i, g), Inr (i', g')) \<Rightarrow> rp_side (si_payload i) = ''buy'' \<and> sf_quantity g = Some (1 / 2) \<and> sf_quantity g' = Some (4 / 5)
   | _ \<Rightarrow> False"
  by code_simp

theorem requested_cap_only_reduces_witness:
  "\<exists>i g i' g' n n'. sizing_result buy_call sample_config = Inr (i, g) \<and> sizing_result free_call sample_config = Inr (i', g')
    \<and> sf_quantity g = Some (1 / 2) \<and> sf_quantity g' = Some (4 / 5) \<and> sf_notional g = Some n \<and> sf_notional g' = Some n' \<and> n \<le> n'"
proof -
  obtain i g i' g' where r: "sizing_result buy_call sample_config = Inr (i, g)" "sizing_result free_call sample_config = Inr (i', g')"
    "rp_side (si_payload i) = ''buy''" "sf_quantity g = Some (1 / 2)" "sf_quantity g' = Some (4 / 5)"
    using free_figures
    by (cases "sizing_result buy_call sample_config"; cases "sizing_result free_call sample_config") auto
  show ?thesis using requested_cap_only_reduces [OF r(1) r(2) [unfolded free_call_def] r(3-5)] r by blast
qed

text \<open>A holding of 28 nines is sold as one unit: the quotient by the increment is rounded up before it is rounded down.\<close>

definition nines_call :: sizing_call where
  "nines_call = sample_sizing (sample_sale (PyStr ''0.9999999999999999999999999999'')) (9999999999999999999999999999 / 10000000000000000000000000000) ''0.2''"

lemma sale_beyond_holding:
  "case sizing_result nines_call sample_config of Inl _ \<Rightarrow> False
   | Inr (i, g) \<Rightarrow> sf_blockers g = [] \<and> sf_quantity g = Some 1 \<and> af_position (si_figures i) < 1"
  by code_simp

end
