(* ===== verification/Crypto_Sizing_Store.thy ===== *)
theory Crypto_Sizing_Store
  imports Crypto_Sizing_Properties
begin

text \<open>
  The table \<open>crypto_sizing_decisions\<close> of \<open>app/crypto_sizing.py\<close>: storing a decision and loading it, which checks the
  stored JSON against the columns and the evidence rows and computes the decision again from the verified
  sources. A text of \<open>decision_json\<close> that is no JSON of a decision's payload is read as \<open>None\<close>.
\<close>

section \<open>The table\<close>

record sizing_row =
  sr_id :: string
  sr_run :: string
  sr_request_fingerprint :: string
  sr_risk :: string
  sr_risk_fingerprint :: string
  sr_capability :: string
  sr_capability_fingerprint :: string
  sr_market :: string
  sr_market_fingerprint :: string
  sr_symbol :: string
  sr_side :: string
  sr_action :: string
  sr_basis :: string
  sr_limit :: "string option"
  sr_stop :: "string option"
  sr_stop_execution :: "string option"
  sr_quantity :: "string option"
  sr_notional :: "string option"
  sr_stop_risk :: "string option"
  sr_gross_stop_risk :: "string option"
  sr_fees :: "string option"
  sr_stop_slippage :: "string option"
  sr_minimum_order :: "string option"
  sr_quantity_increment :: "string option"
  sr_price_increment :: "string option"
  sr_eligible :: int
  sr_authoritative :: int
  sr_execution_authorized :: int
  sr_blockers_json :: string
  sr_caps_json :: string
  sr_config :: string
  sr_formula :: string
  sr_schema :: string
  sr_created :: string
  sr_decision_json :: string
  sr_fingerprint :: string

text \<open>What the loader reads of the evidence tables; the first one has no capability column.\<close>

record evidence_row =
  ev_id :: string
  ev_fingerprint :: string
  ev_config :: string

record market_row = evidence_row +
  ev_capability :: string

record sizing_store =
  cs_decisions :: "sizing_row list"
  cs_capabilities :: "evidence_row list"
  cs_markets :: "market_row list"
  cs_risks :: "evidence_row list"

record sizing_printers =
  js_payload :: "sizing_payload \<Rightarrow> string"
  js_list :: "string list \<Rightarrow> string"

definition sizing_row_of :: "sizing_printers \<Rightarrow> sizing_decision \<Rightarrow> sizing_row" where
  "sizing_row_of j d = \<lparr>sr_id = sp_id d, sr_run = sp_run d, sr_request_fingerprint = sp_request_fingerprint d,
     sr_risk = ap_snapshot (sp_authority d), sr_risk_fingerprint = ap_fingerprint (sp_authority d),
     sr_capability = sp_capability d, sr_capability_fingerprint = sp_capability_fingerprint d,
     sr_market = sp_market d, sr_market_fingerprint = sp_market_fingerprint d,
     sr_symbol = sp_symbol d, sr_side = sp_side d, sr_action = sp_action d, sr_basis = sp_basis d,
     sr_limit = sp_limit d, sr_stop = sp_stop d, sr_stop_execution = sp_stop_execution d,
     sr_quantity = sp_quantity d, sr_notional = sp_notional d, sr_stop_risk = sp_stop_risk d,
     sr_gross_stop_risk = sp_gross_stop_risk d, sr_fees = sp_fees d, sr_stop_slippage = sp_stop_slippage d,
     sr_minimum_order = sp_minimum_order d, sr_quantity_increment = sp_quantity_increment d,
     sr_price_increment = sp_price_increment d, sr_eligible = (if sp_eligible d then 1 else 0),
     sr_authoritative = (if sp_authoritative d then 1 else 0), sr_execution_authorized = 0,
     sr_blockers_json = js_list j (sp_blockers d), sr_caps_json = js_list j (sp_caps d),
     sr_config = sp_config d, sr_formula = sp_formula d, sr_schema = sp_schema d, sr_created = sp_created d,
     sr_decision_json = js_payload j (sizing_payload.truncate d), sr_fingerprint = sd_fingerprint d\<rparr>"

text \<open>The constraints of the table: its key, its unique fingerprint, the checks and the two foreign keys.\<close>

definition insert_crypto_sizing :: "sizing_printers \<Rightarrow> sizing_decision \<Rightarrow> sizing_store \<Rightarrow> sizing_store res" where
  "insert_crypto_sizing j d s =
     (if list_ex (\<lambda>r. sr_id r = sp_id d \<or> sr_fingerprint r = sd_fingerprint d) (cs_decisions s)
      then Inl (IntegrityError ''UNIQUE constraint failed: crypto_sizing_decisions'')
      else if (sp_side d \<noteq> ''buy'' \<and> sp_side d \<noteq> ''sell'') \<or> (sp_basis d \<noteq> ''quantity'' \<and> sp_basis d \<noteq> ''notional'')
      then Inl (IntegrityError ''CHECK constraint failed: crypto_sizing_decisions'')
      else if \<not> list_ex (\<lambda>e. ev_id e = sp_capability d) (cs_capabilities s) \<or> \<not> list_ex (\<lambda>e. ev_id e = sp_market d) (cs_markets s)
      then Inl (IntegrityError ''FOREIGN KEY constraint failed'')
      else Inr (s\<lparr>cs_decisions := cs_decisions s @ [sizing_row_of j d]\<rparr>))"

section \<open>Loading\<close>

record risk_payload =
  rk_id :: string
  rk_account :: string
  rk_config :: string
  rk_notional :: string
  rk_stop_risk :: string
  rk_position :: string
  rk_pending :: string
  rk_authoritative :: bool
  rk_reasons :: "string list"

record sizing_loader =
  ld_payload :: "string \<Rightarrow> sizing_payload option"
  ld_list :: "string \<Rightarrow> string list option"
  ld_created :: "string \<Rightarrow> rat res"
  ld_risk :: "string \<Rightarrow> rat \<Rightarrow> risk_payload res"
  ld_risk_hash :: "risk_payload \<Rightarrow> string"
  ld_capability :: "string \<Rightarrow> rat \<Rightarrow> capability_snapshot res"
  ld_market :: "string \<Rightarrow> market_evidence res"

definition stored_sizing :: "sizing_loader \<Rightarrow> sizing_row \<Rightarrow> (sizing_payload \<times> string list \<times> string list) res" where
  "stored_sizing ld r = (case (ld_payload ld (sr_decision_json r), ld_list ld (sr_blockers_json r), ld_list ld (sr_caps_json r)) of
     (Some p, Some blockers, Some caps) \<Rightarrow> Inr (p, blockers, caps)
   | _ \<Rightarrow> Inl (RuntimeError ''crypto sizing decision JSON is invalid''))"

text \<open>The scalar columns, compared one by one.\<close>

definition scalar_columns :: "sizing_row \<Rightarrow> sizing_payload \<Rightarrow> (string \<times> bool) list" where
  "scalar_columns r p =
    [(''id'', sr_id r = sp_id p), (''run_id'', sr_run r = sp_run p),
     (''request_fingerprint'', sr_request_fingerprint r = sp_request_fingerprint p),
     (''capability_snapshot_id'', sr_capability r = sp_capability p),
     (''capability_snapshot_fingerprint'', sr_capability_fingerprint r = sp_capability_fingerprint p),
     (''market_evidence_id'', sr_market r = sp_market p),
     (''market_evidence_fingerprint'', sr_market_fingerprint r = sp_market_fingerprint p),
     (''symbol'', sr_symbol r = sp_symbol p), (''side'', sr_side r = sp_side p), (''action'', sr_action r = sp_action p),
     (''request_basis'', sr_basis r = sp_basis p), (''limit_price'', sr_limit r = sp_limit p),
     (''stop_price'', sr_stop r = sp_stop p), (''stop_execution_price'', sr_stop_execution r = sp_stop_execution p),
     (''canonical_quantity'', sr_quantity r = sp_quantity p), (''canonical_notional'', sr_notional r = sp_notional p),
     (''canonical_stop_risk'', sr_stop_risk r = sp_stop_risk p), (''gross_stop_risk'', sr_gross_stop_risk r = sp_gross_stop_risk p),
     (''estimated_fees'', sr_fees r = sp_fees p), (''estimated_stop_slippage'', sr_stop_slippage r = sp_stop_slippage p),
     (''minimum_order_size'', sr_minimum_order r = sp_minimum_order p),
     (''quantity_increment'', sr_quantity_increment r = sp_quantity_increment p),
     (''price_increment'', sr_price_increment r = sp_price_increment p), (''config_hash'', sr_config r = sp_config p),
     (''formula_version'', sr_formula r = sp_formula p), (''schema_version'', sr_schema r = sp_schema p),
     (''created_at'', sr_created r = sp_created p)]"

definition check_columns :: "sizing_row \<Rightarrow> sizing_payload \<Rightarrow> unit res" where
  "check_columns r p = (case filter (\<lambda>(k, same). \<not> same) (scalar_columns r p) of
     [] \<Rightarrow> Inr ()
   | (k, same) # rest \<Rightarrow> Inl (RuntimeError (''crypto sizing persisted column mismatch: '' @ k)))"

definition check_stored ::
  "sizing_hashes \<Rightarrow> sizing_row \<Rightarrow> sizing_payload \<Rightarrow> string list \<Rightarrow> string list \<Rightarrow> sizing_config \<Rightarrow> unit res" where
  "check_stored h r p blockers caps c =
     (if sh_payload h p \<noteq> sr_fingerprint r then Inl (RuntimeError ''crypto sizing decision fingerprint mismatch'')
      else if sh_request h (sp_request p) \<noteq> sr_request_fingerprint r then Inl (RuntimeError ''crypto sizing request fingerprint mismatch'')
      else rbind (check_columns r p) (\<lambda>_.
        if sr_risk r \<noteq> ap_snapshot (sp_authority p) then Inl (RuntimeError ''crypto sizing risk snapshot identity mismatch'')
        else if sr_risk_fingerprint r \<noteq> ap_fingerprint (sp_authority p)
        then Inl (RuntimeError ''crypto sizing risk snapshot fingerprint mismatch'')
        else if (sr_eligible r \<noteq> 0) \<noteq> sp_eligible p \<or> (sr_authoritative r \<noteq> 0) \<noteq> sp_authoritative p
        then Inl (RuntimeError ''crypto sizing authority classification mismatch'')
        else if sr_execution_authorized r \<noteq> 0 \<or> sp_execution_authorized p
        then Inl (RuntimeError ''crypto sizing decision unexpectedly authorizes execution'')
        else if blockers \<noteq> sp_blockers p \<or> caps \<noteq> sp_caps p then Inl (RuntimeError ''crypto sizing reason binding mismatch'')
        else if sr_config r \<noteq> or_str [sc_hash c] then Inl (RuntimeError ''crypto sizing configuration identity changed'')
        else rbind (sizing_policy_of c) (\<lambda>_.
          if sr_formula r \<noteq> CRYPTO_SIZING_FORMULA_VERSION \<or> sr_schema r \<noteq> CRYPTO_SIZING_SCHEMA_VERSION
          then Inl (RuntimeError ''crypto sizing decision version is obsolete'') else Inr ())))"

definition check_relations :: "sizing_row \<Rightarrow> sizing_config \<Rightarrow> sizing_store \<Rightarrow> unit res" where
  "check_relations r c s = (let config_hash = or_str [sc_hash c] in
     case (filter (\<lambda>e. ev_id e = sr_capability r) (cs_capabilities s), filter (\<lambda>e. ev_id e = sr_market r) (cs_markets s),
           filter (\<lambda>e. ev_id e = sr_risk r) (cs_risks s)) of
       ([capability], [market], [risk]) \<Rightarrow>
         if ev_fingerprint capability \<noteq> sr_capability_fingerprint r \<or> ev_fingerprint market \<noteq> sr_market_fingerprint r
            \<or> ev_capability market \<noteq> sr_capability r \<or> ev_fingerprint risk \<noteq> sr_risk_fingerprint r
            \<or> ev_config capability \<noteq> config_hash \<or> ev_config market \<noteq> config_hash \<or> ev_config risk \<noteq> config_hash
         then Inl (RuntimeError ''crypto sizing evidence relationship mismatch'') else Inr ()
     | _ \<Rightarrow> Inl (RuntimeError ''crypto sizing evidence relationship is incomplete''))"

definition row_decision :: "sizing_row \<Rightarrow> sizing_payload \<Rightarrow> string list \<Rightarrow> string list \<Rightarrow> sizing_decision" where
  "row_decision r p blockers caps = \<lparr>sp_id = sr_id r, sp_run = sr_run r, sp_request = sp_request p,
     sp_request_fingerprint = sr_request_fingerprint r, sp_authority = sp_authority p,
     sp_capability = sr_capability r, sp_capability_fingerprint = sr_capability_fingerprint r,
     sp_market = sr_market r, sp_market_fingerprint = sr_market_fingerprint r,
     sp_symbol = sr_symbol r, sp_side = sr_side r, sp_action = sr_action r, sp_basis = sr_basis r,
     sp_limit = sr_limit r, sp_stop = sr_stop r, sp_stop_execution = sr_stop_execution r,
     sp_quantity = sr_quantity r, sp_notional = sr_notional r, sp_stop_risk = sr_stop_risk r,
     sp_gross_stop_risk = sr_gross_stop_risk r, sp_fees = sr_fees r, sp_stop_slippage = sr_stop_slippage r,
     sp_minimum_order = sr_minimum_order r, sp_quantity_increment = sr_quantity_increment r,
     sp_price_increment = sr_price_increment r, sp_eligible = (sr_eligible r \<noteq> 0), sp_blockers = blockers, sp_caps = caps,
     sp_authoritative = (sr_authoritative r \<noteq> 0), sp_execution_authorized = False, sp_config = sr_config r,
     sp_formula = sr_formula r, sp_schema = sr_schema r, sp_created = sr_created r, sd_fingerprint = sr_fingerprint r\<rparr>"

definition optional_text :: "string option \<Rightarrow> pyval" where
  "optional_text t = (case t of None \<Rightarrow> PyNone | Some s \<Rightarrow> PyStr s)"

definition request_of_payload :: "request_payload \<Rightarrow> sizing_request" where
  "request_of_payload p = \<lparr>sq_source_type = PyStr (rp_source_type p), sq_source_id = PyStr (rp_source_id p),
     sq_source_fingerprint = PyStr (rp_source_fingerprint p), sq_symbol = PyStr (rp_symbol p), sq_side = PyStr (rp_side p),
     sq_action = PyStr (rp_action p), sq_basis = PyStr (rp_basis p), sq_stop_risk = optional_text (rp_stop_risk p),
     sq_stop_price = optional_text (rp_stop_price p), sq_exit_quantity = optional_text (rp_exit_quantity p),
     sq_close = rp_close p, sq_notional_cap = optional_text (rp_notional_cap p)\<rparr>"

definition authority_of_payload :: "authority_payload \<Rightarrow> (sizing_authority \<times> authority_figures) res" where
  "authority_of_payload p =
     rbind (trusted_decimal (PyStr (ap_notional p)) ''risk hard notional ceiling'' 0) (\<lambda>notional.
     rbind (trusted_decimal (PyStr (ap_stop_risk p)) ''risk hard stop-risk ceiling'' 0) (\<lambda>risk.
     rbind (trusted_decimal (PyStr (ap_position p)) ''risk current position quantity'' 0) (\<lambda>position.
     rbind (trusted_decimal (PyStr (ap_pending p)) ''risk pending sell quantity'' 0) (\<lambda>pending.
     Inr (\<lparr>su_snapshot = ap_snapshot p, su_fingerprint = ap_fingerprint p, su_account = ap_account p, su_config = ap_config p,
         su_notional = PyDec (Fin notional), su_stop_risk = PyDec (Fin risk), su_position = PyDec (Fin position),
         su_pending = PyDec (Fin pending), su_authoritative = ap_authoritative p, su_reasons = ap_reasons p\<rparr>,
       \<lparr>af_notional = notional, af_stop_risk = risk, af_position = position, af_pending = pending\<rparr>)))))"

definition expected_authority :: "sizing_loader \<Rightarrow> risk_payload \<Rightarrow> authority_payload" where
  "expected_authority ld k = \<lparr>ap_snapshot = rk_id k, ap_fingerprint = ld_risk_hash ld k, ap_account = rk_account k,
     ap_config = rk_config k, ap_notional = rk_notional k, ap_stop_risk = rk_stop_risk k, ap_position = rk_position k,
     ap_pending = rk_pending k, ap_authoritative = rk_authoritative k, ap_reasons = rk_reasons k\<rparr>"

text \<open>The call that computes a stored decision again, from the verified sources.\<close>

definition recomputed_call :: "sizing_loader \<Rightarrow> sizing_row \<Rightarrow> sizing_payload \<Rightarrow> sizing_call res" where
  "recomputed_call ld r p =
     rbind (ld_created ld (sr_created r)) (\<lambda>created.
     rbind (ld_risk ld (sr_risk r) created) (\<lambda>risk.
     rbind (ld_capability ld (sr_capability r) created) (\<lambda>capability.
     rbind (ld_market ld (sr_market r)) (\<lambda>market.
     rbind (authority_of_payload (sp_authority p)) (\<lambda>(authority, figures).
     if authority_payload_of authority figures \<noteq> expected_authority ld risk
     then Inl (RuntimeError ''crypto sizing risk authority derivation mismatch'')
     else Inr \<lparr>sx_id = sr_id r, sx_run = sr_run r, sx_request = request_of_payload (sp_request p), sx_authority = authority,
       sx_capability = capability, sx_market = market, sx_created = sr_created r\<rparr>)))))"

definition load_verified_crypto_sizing ::
  "sizing_hashes \<Rightarrow> sizing_loader \<Rightarrow> sizing_store \<Rightarrow> string \<Rightarrow> sizing_config \<Rightarrow> sizing_decision res" where
  "load_verified_crypto_sizing h ld s i c =
     (case filter (\<lambda>r. sr_id r = i) (cs_decisions s) of
        [r] \<Rightarrow>
          rbind (stored_sizing ld r) (\<lambda>(p, blockers, caps).
          rbind (check_stored h r p blockers caps c) (\<lambda>_.
          rbind (check_relations r c s) (\<lambda>_.
          rbind (recomputed_call ld r p) (\<lambda>x.
          rbind (calculate_crypto_sizing h x c) (\<lambda>d.
          if sizing_payload.truncate d \<noteq> p \<or> sd_fingerprint d \<noteq> sr_fingerprint r
          then Inl (RuntimeError ''crypto sizing independent Decimal recomputation mismatch'')
          else Inr (row_decision r p blockers caps))))))
      | _ \<Rightarrow> Inl (RuntimeError ''crypto sizing decision is missing or duplicated''))"

section \<open>A loaded decision is computed from verified evidence\<close>

lemma check_columns_Inr: "check_columns r p = Inr () \<longleftrightarrow> list_all snd (scalar_columns r p)"
proof -
  have "check_columns r p = Inr () \<longleftrightarrow> filter (\<lambda>(k, same). \<not> same) (scalar_columns r p) = []"
    by (auto simp: check_columns_def split: list.splits)
  then show ?thesis by (auto simp: filter_empty_conv list_all_iff)
qed

lemma row_decision_eq:
  assumes "check_stored h r p blockers caps c = Inr ()" and "sizing_payload.truncate d = p" and "sd_fingerprint d = sr_fingerprint r"
  shows "row_decision r p blockers caps = d"
proof -
  have 1: "list_all snd (scalar_columns r p)" "(sr_eligible r \<noteq> 0) = sp_eligible p" "(sr_authoritative r \<noteq> 0) = sp_authoritative p"
    "\<not> sp_execution_authorized p" "blockers = sp_blockers p" "caps = sp_caps p"
    using assms(1) by (simp_all add: check_stored_def result_simps check_columns_Inr split: if_splits)
  show ?thesis using 1 assms(3) unfolding assms(2) [symmetric]
    by (cases d) (simp add: row_decision_def scalar_columns_def sizing_payload.defs)
qed

lemma calculated_authority:
  assumes "calculate_crypto_sizing h x c = Inr d" and "authority_figures_of (sx_authority x) = Inr f"
  shows "sp_authority d = authority_payload_of (sx_authority x) f"
proof -
  from assms(1) obtain i g where res: "sizing_result x c = Inr (i, g)" and d: "d = decided h (sizing_payload_of h x i g)"
    by (auto simp: calculate_Inr)
  from res obtain po a where "validate_relationships (sx_request x) (sx_authority x) (sx_capability x) (sx_market x) c = Inr (si_payload i, a, si_figures i)"
    by (rule sizing_result_cases)
  from validate_Inr [OF this] have "si_figures i = f" using assms(2) by simp
  then show ?thesis by (simp add: d decided_def sizing_payload.defs sizing_decision.defs sizing_payload_of_def Let_def)
qed

lemma authority_of_payload_figures:
  "authority_of_payload p = Inr (u, f) \<Longrightarrow> authority_figures_of u = Inr f"
  by (auto simp: authority_of_payload_def authority_figures_of_def authority_figure_def result_simps trusted_decimal_def
      split: option.splits pydec.splits if_splits)

text \<open>C4: A sizing decision that is loaded is the result of the calculation on the capability, the quote and the risk authority that the other stores verify at the time of the decision; it has the identifier asked for and never authorises execution.\<close>

theorem loaded_sizing_is_recomputed:
  assumes "load_verified_crypto_sizing h ld s i c = Inr d"
  shows "\<exists>x t risk. calculate_crypto_sizing h x c = Inr d \<and> ld_created ld (sp_created d) = Inr t
    \<and> ld_risk ld (ap_snapshot (sp_authority d)) t = Inr risk \<and> sp_authority d = expected_authority ld risk
    \<and> ld_capability ld (sp_capability d) t = Inr (sx_capability x) \<and> ld_market ld (sp_market d) = Inr (sx_market x)
    \<and> sp_id d = i \<and> \<not> sp_execution_authorized d"
proof -
  from assms obtain r p blockers caps x d' where r: "filter (\<lambda>r. sr_id r = i) (cs_decisions s) = [r]"
    and 1: "check_stored h r p blockers caps c = Inr ()" "recomputed_call ld r p = Inr x" "calculate_crypto_sizing h x c = Inr d'"
      "sizing_payload.truncate d' = p" "sd_fingerprint d' = sr_fingerprint r" "row_decision r p blockers caps = d"
    by (auto simp: load_verified_crypto_sizing_def result_simps split: list.splits if_splits)
  have d: "d' = d" using row_decision_eq [OF 1(1,4,5)] 1(6) by simp
  have "sr_id r = i" using r by (metis (mono_tags, lifting) filter_eq_ConsD)
  then have row: "sr_id r = i" "sr_risk r = ap_snapshot (sp_authority p)" "\<not> sp_execution_authorized d"
    using 1(1) 1(6) by (auto simp: check_stored_def result_simps row_decision_def split: if_splits)
  have same: "sp_created d = sr_created r" "sp_authority d = sp_authority p" "sp_capability d = sr_capability r" "sp_market d = sr_market r" "sp_id d = sr_id r"
    by (simp_all add: row_decision_def flip: 1(6))
  from 1(2) obtain t risk u f where x: "ld_created ld (sr_created r) = Inr t" "ld_risk ld (sr_risk r) t = Inr risk"
    "ld_capability ld (sr_capability r) t = Inr (sx_capability x)" "ld_market ld (sr_market r) = Inr (sx_market x)"
    "authority_of_payload (sp_authority p) = Inr (u, f)" "authority_payload_of u f = expected_authority ld risk" "sx_authority x = u"
    by (auto simp: recomputed_call_def result_simps split: if_splits)
  have "sp_authority d = expected_authority ld risk"
    using calculated_authority [OF 1(3)] authority_of_payload_figures [OF x(5)] x(6,7) d by simp
  then show ?thesis using 1(3) d x(1-4) row same by auto
qed

section \<open>A stored decision is loaded back\<close>

lemma strip_map: "(\<And>c. is_space (f c) = is_space c) \<Longrightarrow> strip (map f s) = map f (strip s)"
  by (simp add: strip_def dropWhile_map comp_def rev_map)

lemma is_space_lower: "is_space (lower_char c) = is_space c"
proof (cases c)
  case (Char b0 b1 b2 b3 b4 b5 b6 b7)
  then show ?thesis
    by (cases b0; cases b1; cases b2; cases b3; cases b4; cases b5; cases b6; cases b7; simp add: is_space_def Let_def)
qed

lemma is_space_upper: "is_space (upper_char c) = is_space c"
proof (cases c)
  case (Char b0 b1 b2 b3 b4 b5 b6 b7)
  then show ?thesis
    by (cases b0; cases b1; cases b2; cases b3; cases b4; cases b5; cases b6; cases b7; simp add: is_space_def Let_def)
qed

lemma strip_lower: "strip (lower s) = lower (strip s)"
  by (simp add: lower_def strip_map is_space_lower)

lemma strip_upper: "strip (upper s) = upper (strip s)"
  by (simp add: upper_def strip_map is_space_upper)

lemma dropWhile_fix: "xs = [] \<or> \<not> p (hd xs) \<Longrightarrow> dropWhile p xs = xs"
  by (cases xs) auto

lemma strip_strip [simp]: "strip (strip s) = strip s"
proof -
  let ?d = "dropWhile is_space" and ?t = "dropWhile is_space s"
  obtain u where u: "?t = rev (?d (rev ?t)) @ rev u" by (metis rev_append rev_rev_ident takeWhile_dropWhile_id)
  have "?d (strip s) = strip s"
  proof (cases "strip s = []")
    case False
    then have "hd (strip s) = hd ?t" using u by (metis hd_append2 strip_def)
    moreover have "?t \<noteq> []" using False unfolding strip_def by (metis dropWhile.simps(1) rev.simps(1))
    then have "\<not> is_space (hd ?t)" by (rule hd_dropWhile)
    ultimately show ?thesis by (simp add: dropWhile_fix)
  qed simp
  then show ?thesis by (simp add: strip_def)
qed

lemma or_str_text [simp]: "or_str [PyStr s] = s"
  by (simp add: or_str_def py_or_def)

text \<open>A number of a request that has at most 28 digits is read back from its text.\<close>

definition plain_number :: "pyval \<Rightarrow> bool" where
  "plain_number v \<longleftrightarrow> v = PyNone \<or> (sizing_input_type v \<and> (\<exists>x. to_pydec v = Some (Fin x) \<and> dec28 x))"

lemma parse_sizing_text: "dec28 x \<Longrightarrow> parse_decimal (sizing_text x) = Some (Fin x)"
  by (simp add: sizing_text_28 parse_dec_text is_decimal_dec28)

lemma plain_number_again:
  assumes "plain_number v" and "payload_number v label = Inr t"
  shows "(optional_text t = PyNone) = (v = PyNone) \<and> sizing_input (optional_text t) l m b = sizing_input v l m b
    \<and> payload_number (optional_text t) label = Inr t"
proof (cases "v = PyNone")
  case True
  then show ?thesis using assms(2) by (auto simp: payload_number_def optional_text_def)
next
  case False
  then obtain x where x: "sizing_input_type v" "to_pydec v = Some (Fin x)" "dec28 x" using assms(1) by (auto simp: plain_number_def)
  have t: "t = Some (sizing_text x)"
    using assms(2) False x by (auto simp: payload_number_def result_simps sizing_input_def split: if_splits)
  have same: "sizing_input (PyStr (sizing_text x)) l m b = sizing_input v l m b" for l m b
    using x by (simp add: sizing_input_def parse_sizing_text)
  have "payload_number (PyStr (sizing_text x)) label = payload_number v label"
    using False by (simp add: payload_number_def same)
  then show ?thesis using False assms(2) by (simp add: t optional_text_def same)
qed

definition plain_request :: "sizing_request \<Rightarrow> bool" where
  "plain_request r \<longleftrightarrow> plain_number (sq_stop_risk r) \<and> plain_number (sq_stop_price r) \<and> plain_number (sq_exit_quantity r)
     \<and> plain_number (sq_notional_cap r)"

lemma request_again:
  assumes "plain_request r" and "request_payload_of r = Inr p"
  shows "request_payload_of (request_of_payload p) = Inr p"
    and "size_buy po (request_of_payload p) i blocked = size_buy po r i blocked"
    and "size_sell po (request_of_payload p) i blocked = size_sell po r i blocked"
proof -
  have n: "payload_number (sq_stop_risk r) ''requested_stop_risk_dollars'' = Inr (rp_stop_risk p)"
    "payload_number (sq_stop_price r) ''stop_price'' = Inr (rp_stop_price p)"
    "payload_number (sq_exit_quantity r) ''requested_exit_quantity'' = Inr (rp_exit_quantity p)"
    "payload_number (sq_notional_cap r) ''requested_notional_cap'' = Inr (rp_notional_cap p)"
    and s: "rp_source_type p = strip (or_str [sq_source_type r])" "rp_source_id p = strip (or_str [sq_source_id r])"
      "rp_source_fingerprint p = lower (strip (or_str [sq_source_fingerprint r]))" "rp_symbol p = upper (strip (or_str [sq_symbol r]))"
      "rp_side p = lower (strip (or_str [sq_side r]))" "rp_action p = lower (strip (or_str [sq_action r]))"
      "rp_basis p = lower (strip (or_str [sq_basis r]))" "rp_close p = sq_close r"
    using assms(2) by (auto simp: request_payload_of_def result_simps)
  have q: "plain_number (sq_stop_risk r)" "plain_number (sq_stop_price r)" "plain_number (sq_exit_quantity r)" "plain_number (sq_notional_cap r)"
    using assms(1) by (simp_all add: plain_request_def)
  note a = plain_number_again [OF q(1) n(1)] plain_number_again [OF q(2) n(2)] plain_number_again [OF q(3) n(3)] plain_number_again [OF q(4) n(4)]
  have f: "sq_stop_risk (request_of_payload p) = optional_text (rp_stop_risk p)" "sq_stop_price (request_of_payload p) = optional_text (rp_stop_price p)"
    "sq_exit_quantity (request_of_payload p) = optional_text (rp_exit_quantity p)" "sq_close (request_of_payload p) = sq_close r"
    by (simp_all add: request_of_payload_def s)
  show "request_payload_of (request_of_payload p) = Inr p"
    by (simp add: request_payload_of_def request_of_payload_def a s strip_lower strip_upper)
  show "size_buy po (request_of_payload p) i blocked = size_buy po r i blocked"
    by (simp only: size_buy_def f a)
  show "size_sell po (request_of_payload p) i blocked = size_sell po r i blocked"
    by (simp only: size_sell_def exit_quantity_def f a)
qed

lemma result_again:
  assumes "sizing_result x c = Inr (i, g)" and "plain_request (sx_request x)"
  shows "sizing_result (x\<lparr>sx_request := request_of_payload (si_payload i)\<rparr>) c = Inr (i, g)"
proof -
  from assms(1) obtain po a where 1: "sizing_policy_of c = Inr po"
    "validate_relationships (sx_request x) (sx_authority x) (sx_capability x) (sx_market x) c = Inr (si_payload i, a, si_figures i)"
    "sizing_inputs_of po (si_payload i) (si_figures i) a (sx_market x) = Inr i"
    "(if rp_side (si_payload i) = ''buy'' then size_buy else size_sell) po (sx_request x) i (authority_blockers (sx_authority x)) = Inr g"
    by (rule sizing_result_cases)
  have p: "request_payload_of (sx_request x) = Inr (si_payload i)" using validate_Inr [OF 1(2)] by simp
  note again = request_again [OF assms(2) p]
  have "validate_relationships (request_of_payload (si_payload i)) (sx_authority x) (sx_capability x) (sx_market x) c = Inr (si_payload i, a, si_figures i)"
    using 1(2) by (simp add: validate_relationships_def p again(1))
  then show ?thesis using 1(1,3,4) again(2,3) by (auto simp: sizing_result_def split: if_splits)
qed

definition plain_figure :: "pyval \<Rightarrow> bool" where
  "plain_figure v \<longleftrightarrow> (case v of PyDec (Fin x) \<Rightarrow> dec28 x | _ \<Rightarrow> False)"

definition plain_authority :: "sizing_authority \<Rightarrow> bool" where
  "plain_authority u \<longleftrightarrow> plain_figure (su_notional u) \<and> plain_figure (su_stop_risk u) \<and> plain_figure (su_position u) \<and> plain_figure (su_pending u)"

lemma figure_again:
  assumes "authority_figure v label = Inr x" and "plain_figure v"
  shows "v = PyDec (Fin x) \<and> trusted_decimal (PyStr (sizing_text x)) l 0 = Inr x"
proof -
  have v: "v = PyDec (Fin x)" "0 \<le> x" "dec28 x"
    using assms by (auto simp: authority_figure_def plain_figure_def split: pyval.splits pydec.splits if_splits)
  then show ?thesis using parse_sizing_text [OF v(3)] by (simp add: trusted_decimal_def)
qed

lemma authority_again:
  assumes "authority_figures_of u = Inr f" and "plain_authority u"
  shows "authority_of_payload (authority_payload_of u f) = Inr (u, f)"
proof -
  have a: "authority_figure (su_notional u) ''hard_notional_ceiling'' = Inr (af_notional f)"
    "authority_figure (su_stop_risk u) ''hard_stop_risk_ceiling'' = Inr (af_stop_risk f)"
    "authority_figure (su_position u) ''current_position_quantity'' = Inr (af_position f)"
    "authority_figure (su_pending u) ''pending_sell_quantity'' = Inr (af_pending f)"
    using assms(1) by (auto simp: authority_figures_of_def result_simps)
  have p: "plain_figure (su_notional u)" "plain_figure (su_stop_risk u)" "plain_figure (su_position u)" "plain_figure (su_pending u)"
    using assms(2) by (simp_all add: plain_authority_def)
  note r = figure_again [OF a(1) p(1)] figure_again [OF a(2) p(2)] figure_again [OF a(3) p(3)] figure_again [OF a(4) p(4)]
  have "u = \<lparr>su_snapshot = su_snapshot u, su_fingerprint = su_fingerprint u, su_account = su_account u, su_config = su_config u,
      su_notional = PyDec (Fin (af_notional f)), su_stop_risk = PyDec (Fin (af_stop_risk f)), su_position = PyDec (Fin (af_position f)),
      su_pending = PyDec (Fin (af_pending f)), su_authoritative = su_authoritative u, su_reasons = su_reasons u\<rparr>"
    using r by (cases u) simp
  then show ?thesis using r by (simp add: authority_of_payload_def authority_payload_of_def)
qed

text \<open>The loader reads what was printed, and the evidence of the call is what the other stores verify.\<close>

definition loader_reads :: "sizing_loader \<Rightarrow> sizing_printers \<Rightarrow> sizing_call \<Rightarrow> sizing_decision \<Rightarrow> bool" where
  "loader_reads ld j x d \<longleftrightarrow> ld_payload ld (js_payload j (sizing_payload.truncate d)) = Some (sizing_payload.truncate d)
     \<and> ld_list ld (js_list j (sp_blockers d)) = Some (sp_blockers d) \<and> ld_list ld (js_list j (sp_caps d)) = Some (sp_caps d)
     \<and> ld_market ld (me_id (sx_market x)) = Inr (sx_market x)
     \<and> (\<exists>t risk. ld_created ld (sx_created x) = Inr t \<and> ld_risk ld (su_snapshot (sx_authority x)) t = Inr risk
        \<and> expected_authority ld risk = sp_authority d \<and> ld_capability ld (ca_id (sx_capability x)) t = Inr (sx_capability x))"

lemma truncated_fields [simp]:
  "sp_request (sizing_payload.truncate d) = sp_request d" "sp_authority (sizing_payload.truncate d) = sp_authority d"
  "sp_eligible (sizing_payload.truncate d) = sp_eligible d" "sp_authoritative (sizing_payload.truncate d) = sp_authoritative d"
  "sp_execution_authorized (sizing_payload.truncate d) = sp_execution_authorized d" "sp_blockers (sizing_payload.truncate d) = sp_blockers d"
  "sp_caps (sizing_payload.truncate d) = sp_caps d"
  by (simp_all add: sizing_payload.defs)

lemma stored_columns: "check_columns (sizing_row_of j d) (sizing_payload.truncate d) = Inr ()"
  by (simp add: check_columns_Inr scalar_columns_def sizing_row_of_def sizing_payload.defs)

lemma stored_row_checks:
  assumes d: "d = decided h (sizing_payload_of h x i g)" and "sizing_policy_of c = Inr po" and "sp_config d = or_str [sc_hash c]"
  shows "check_stored h (sizing_row_of j d) (sizing_payload.truncate d) (sp_blockers d) (sp_caps d) c = Inr ()"
proof -
  have "sh_payload h (sizing_payload.truncate d) = sd_fingerprint d" "sh_request h (sp_request d) = sp_request_fingerprint d"
    "\<not> sp_execution_authorized d" "sp_formula d = CRYPTO_SIZING_FORMULA_VERSION" "sp_schema d = CRYPTO_SIZING_SCHEMA_VERSION"
    by (simp_all add: d decided_def sizing_payload.defs sizing_decision.defs sizing_payload_of_def Let_def)
  moreover have "sr_fingerprint (sizing_row_of j d) = sd_fingerprint d" "sr_request_fingerprint (sizing_row_of j d) = sp_request_fingerprint d"
    "sr_risk (sizing_row_of j d) = ap_snapshot (sp_authority d)" "sr_risk_fingerprint (sizing_row_of j d) = ap_fingerprint (sp_authority d)"
    "(sr_eligible (sizing_row_of j d) \<noteq> 0) = sp_eligible d" "(sr_authoritative (sizing_row_of j d) \<noteq> 0) = sp_authoritative d"
    "sr_execution_authorized (sizing_row_of j d) = 0" "sr_config (sizing_row_of j d) = sp_config d"
    "sr_formula (sizing_row_of j d) = sp_formula d" "sr_schema (sizing_row_of j d) = sp_schema d"
    by (simp_all add: sizing_row_of_def)
  ultimately show ?thesis using assms(2,3) by (simp add: check_stored_def stored_columns)
qed

text \<open>C5: A calculated decision that is stored beside the rows of its evidence is loaded back unchanged, when the loader reads what was printed and the numbers of the request have at most 28 digits.\<close>

theorem stored_sizing_loads_back:
  assumes "calculate_crypto_sizing h x c = Inr d" and "insert_crypto_sizing j d s = Inr s'"
    and "plain_request (sx_request x)" and "plain_authority (sx_authority x)" and "strip (or_str [sc_hash c]) = or_str [sc_hash c]"
    and "loader_reads ld j x d" and "check_relations (sizing_row_of j d) c s = Inr ()"
  shows "load_verified_crypto_sizing h ld s' (sp_id d) c = Inr d"
proof -
  from assms(1) obtain i g where res: "sizing_result x c = Inr (i, g)" and d: "d = decided h (sizing_payload_of h x i g)"
    by (auto simp: calculate_Inr)
  from res obtain po a where po: "sizing_policy_of c = Inr po"
    and v: "validate_relationships (sx_request x) (sx_authority x) (sx_capability x) (sx_market x) c = Inr (si_payload i, a, si_figures i)"
    by (rule sizing_result_cases)
  note val = validate_Inr [OF v]
  let ?r = "sizing_row_of j d" and ?p = "sizing_payload.truncate d" and ?x = "x\<lparr>sx_request := request_of_payload (si_payload i)\<rparr>"
  have f: "sp_id d = sx_id x" "sp_run d = sx_run x" "sp_created d = sx_created x" "sp_request d = si_payload i"
    "sp_authority d = authority_payload_of (sx_authority x) (si_figures i)" "sp_capability d = ca_id (sx_capability x)"
    "sp_market d = me_id (sx_market x)" "sp_config d = su_config (sx_authority x)"
    by (simp_all add: d decided_def sizing_payload.defs sizing_decision.defs sizing_payload_of_def Let_def)
  have s': "s' = s\<lparr>cs_decisions := cs_decisions s @ [?r]\<rparr>" and new: "\<forall>r\<in>set (cs_decisions s). sr_id r \<noteq> sp_id d"
    using assms(2) by (auto simp: insert_crypto_sizing_def list_ex_iff split: if_splits)
  have "filter (\<lambda>r. sr_id r = sp_id d) (cs_decisions s) = []" using new by (simp add: filter_empty_conv)
  moreover have "sr_id ?r = sp_id d" by (simp add: sizing_row_of_def)
  ultimately have row: "filter (\<lambda>r. sr_id r = sp_id d) (cs_decisions s') = [?r]" by (simp add: s')
  have "sp_config d = or_str [sc_hash c]"
    using val assms(5) by (auto simp: f check_evidence_def Let_def split: if_splits)
  from stored_row_checks [OF d po this] have checks: "check_stored h ?r ?p (sp_blockers d) (sp_caps d) c = Inr ()" .
  have stored: "stored_sizing ld ?r = Inr (?p, sp_blockers d, sp_caps d)"
    using assms(6) by (simp add: stored_sizing_def loader_reads_def sizing_row_of_def)
  have rel: "check_relations ?r c s' = Inr ()" using assms(7) by (simp add: check_relations_def s')
  obtain t risk where l: "ld_created ld (sx_created x) = Inr t" "ld_risk ld (su_snapshot (sx_authority x)) t = Inr risk"
    "expected_authority ld risk = sp_authority d" "ld_capability ld (ca_id (sx_capability x)) t = Inr (sx_capability x)"
    "ld_market ld (me_id (sx_market x)) = Inr (sx_market x)"
    using assms(6) unfolding loader_reads_def by blast
  have cols: "sr_created ?r = sx_created x" "sr_risk ?r = su_snapshot (sx_authority x)" "sr_capability ?r = ca_id (sx_capability x)"
    "sr_market ?r = me_id (sx_market x)" "sr_id ?r = sx_id x" "sr_run ?r = sx_run x" "sr_fingerprint ?r = sd_fingerprint d"
    by (simp_all add: sizing_row_of_def f) (simp add: authority_payload_of_def)
  have au: "authority_of_payload (sp_authority d) = Inr (sx_authority x, si_figures i)"
    unfolding f using authority_again assms(4) val by blast
  have call: "recomputed_call ld ?r ?p = Inr ?x"
    by (simp add: recomputed_call_def cols l au f(4)) (simp add: f(5))
  have "calculate_crypto_sizing h ?x c = Inr d"
    using result_again [OF res assms(3)] by (simp add: calculate_Inr d sizing_payload_of_def)
  moreover have "row_decision ?r ?p (sp_blockers d) (sp_caps d) = d" by (rule row_decision_eq [OF checks refl cols(7) [symmetric]])
  ultimately show ?thesis
    by (simp add: load_verified_crypto_sizing_def row stored checks rel call cols(7))
qed

section \<open>Examples\<close>

text \<open>The decision is stored beside the rows of its evidence.\<close>

definition sample_printers :: sizing_printers where
  "sample_printers = \<lparr>js_payload = (\<lambda>p. ''json''), js_list = concat\<rparr>"

definition evidence_store :: sizing_store where
  "evidence_store = \<lparr>cs_decisions = [], cs_capabilities = [\<lparr>ev_id = ''c1'', ev_fingerprint = ''cf'', ev_config = sample_hash\<rparr>],
     cs_markets = [\<lparr>ev_id = ''m1'', ev_fingerprint = ''mf'', ev_config = sample_hash, ev_capability = ''c1''\<rparr>],
     cs_risks = [\<lparr>ev_id = ''k1'', ev_fingerprint = sample_hash, ev_config = sample_hash\<rparr>]\<rparr>"

definition sample_risk :: risk_payload where
  "sample_risk = \<lparr>rk_id = ''k1'', rk_account = ''acc'', rk_config = sample_hash, rk_notional = ''300'', rk_stop_risk = ''8.38'',
     rk_position = ''0'', rk_pending = ''0'', rk_authoritative = True, rk_reasons = []\<rparr>"

definition sample_loader :: sizing_loader where
  "sample_loader = \<lparr>ld_payload = (\<lambda>t. map_option sizing_payload.truncate bought),
     ld_list = (\<lambda>t. map_option (\<lambda>d. if t = [] then sp_blockers d else sp_caps d) bought), ld_created = (\<lambda>t. Inr 0),
     ld_risk = (\<lambda>i t. Inr sample_risk), ld_risk_hash = (\<lambda>k. sample_hash),
     ld_capability = (\<lambda>i t. Inr (sample_capability ''0.000000001'')), ld_market = (\<lambda>i. Inr sample_market)\<rparr>"

lemma bought_evidence:
  "case bought of None \<Rightarrow> False | Some d \<Rightarrow> sp_blockers d = [] \<and> concat (sp_caps d) \<noteq> []
     \<and> expected_authority sample_loader sample_risk = sp_authority d \<and> check_relations (sizing_row_of sample_printers d) sample_config evidence_store = Inr ()
     \<and> (case insert_crypto_sizing sample_printers d evidence_store of Inl _ \<Rightarrow> False | Inr s \<Rightarrow> True)"
  by code_simp

theorem stored_sizing_loads_back_witness:
  "\<exists>d s. calculate_crypto_sizing sample_hashes buy_call sample_config = Inr d
    \<and> insert_crypto_sizing sample_printers d evidence_store = Inr s
    \<and> load_verified_crypto_sizing sample_hashes sample_loader s (sp_id d) sample_config = Inr d"
proof -
  obtain d where 1: "calculate_crypto_sizing sample_hashes buy_call sample_config = Inr d" "bought = Some d"
    using bought_decision by blast
  obtain s where 2: "insert_crypto_sizing sample_printers d evidence_store = Inr s"
    using bought_evidence unfolding 1(2) by (cases "insert_crypto_sizing sample_printers d evidence_store") simp_all
  have 3: "sp_blockers d = []" "concat (sp_caps d) \<noteq> []" "expected_authority sample_loader sample_risk = sp_authority d"
    "check_relations (sizing_row_of sample_printers d) sample_config evidence_store = Inr ()"
    using bought_evidence unfolding 1(2) option.case by - (elim conjE, assumption)+
  note d = 1 3 2
  have "dec28 10" "dec28 90" "dec28 50" "dec28 300" using dec28_of_int [of 10] dec28_of_int [of 90] dec28_of_int [of 50] dec28_of_int [of 300] by simp_all
  moreover have "dec28 (419 / 50)" by (rule dec28I [of _ 838 "-2"]) (simp_all add: power_int_def power2_eq_square)
  ultimately have "plain_request (sx_request buy_call)" "plain_authority (sx_authority buy_call)"
    by (simp_all add: plain_request_def plain_number_def plain_authority_def plain_figure_def buy_call_def sample_sizing_def sample_buy_def sample_authority_def)
  moreover have "loader_reads sample_loader sample_printers buy_call d"
    using d(3-5) unfolding loader_reads_def sample_loader_def sample_printers_def buy_call_def sample_sizing_def d(2) by auto
  moreover have "strip (or_str [sc_hash sample_config]) = or_str [sc_hash sample_config]" by code_simp
  ultimately show ?thesis using stored_sizing_loads_back [OF d(1,7)] d by blast
qed

definition sizing_stored :: sizing_store where
  "sizing_stored = (case bought of None \<Rightarrow> evidence_store | Some d \<Rightarrow> (case insert_crypto_sizing sample_printers d evidence_store of
     Inl _ \<Rightarrow> evidence_store | Inr s \<Rightarrow> s))"

lemma sizing_loaded:
  "case load_verified_crypto_sizing sample_hashes sample_loader sizing_stored ''d1'' sample_config of Inl _ \<Rightarrow> False | Inr d \<Rightarrow> True"
  by code_simp

theorem loaded_sizing_is_recomputed_witness:
  "\<exists>d x. load_verified_crypto_sizing sample_hashes sample_loader sizing_stored ''d1'' sample_config = Inr d
    \<and> calculate_crypto_sizing sample_hashes x sample_config = Inr d \<and> sp_id d = ''d1'' \<and> \<not> sp_execution_authorized d"
proof -
  obtain d where d: "load_verified_crypto_sizing sample_hashes sample_loader sizing_stored ''d1'' sample_config = Inr d"
    using sizing_loaded by (auto split: sum.splits)
  from loaded_sizing_is_recomputed [OF d] d show ?thesis by blast
qed

end
