(* ===== verification/Spec2Isabelle.thy ===== *)
theory Spec2Isabelle
  imports Order_State Fifo_Accounting Approval_Properties Fill_Properties Creation_Properties Executor_Properties Exit_Blocker Approval_Parser Run_Lock
    Crypto_Sizing_Store
begin

text \<open>
  Verification of the trading-safety core of the repository: what stands between a decision to trade and the
  broker, and what becomes of a broker fill. The program is Python; its state are the tables of one SQLite
  database and its amounts are decimals with 28 digits, kept as text. Every method that changes the database is
  one immediate transaction, so a call is a function from the tables to an error or to a result and new tables.

  \<^bold>\<open>How the program is translated.\<close> A raised exception is \<open>Inl\<close> of a \<open>py_error\<close> with its message, in the order of
  the checks of the code; a transaction that raises leaves the tables as they were. A table is the list of its rows in the
  order of insertion (\<open>fetch_one\<close>, \<open>update_where\<close>), and the unique columns, checks and foreign keys that a modelled call can
  violate raise \<open>IntegrityError\<close>. A decimal is a rational number; each operation of the code that rounds is \<open>dadd\<close>, \<open>dsub\<close>, \<open>dmul\<close> or
  \<open>ddiv\<close>, which round half-even to 28 digits. A binary float is carried by the decimal its \<open>repr\<close> denotes. A dictionary is
  a map from strings to \<open>pyval\<close>. Times are ISO texts where SQLite compares them as texts, and numbers where the code
  computes with them.

  \<^bold>\<open>The theories\<close>, in the order of their imports:
  \<^item> \<open>Prelude\<close>: errors, results, strings, tables, and the locales \<open>keyed_table\<close> (a table whose rows are updated under their key),
    \<open>guarded_machine\<close> (a transition relation with final states and a rank) and \<open>kept_relation\<close> (a relation that a sequence of
    actions keeps).
  \<^item> \<open>Py_Decimal\<close>, \<open>Py_Value\<close>: the decimal context and the binary64 format, both interpretations of the locale \<open>rounding\<close>
    (monotone, idempotent, odd); the dynamic values, \<open>Decimal(text)\<close> and the canonical text.
  \<^item> \<open>Fixed_Point_Tables\<close>, \<open>Fixed_Point\<close>: \<open>app/fixed_point_accounting.py\<close>, with the migration of the legacy REAL columns and the
    integrity report.
  \<^item> \<open>Lot_Ledger\<close>, \<open>Fifo_Accounting\<close>: \<open>app/lot_ledger.py\<close>, buys, FIFO sells, risk allocation and the daily summary.
  \<^item> \<open>Accounting\<close>: \<open>app/accounting.py\<close>, \<open>app/loss_controls.py\<close>, \<open>app/canonical_sizing.py\<close>.
  \<^item> \<open>Order_State\<close>, \<open>Intent_Store\<close>: \<open>app/order_state.py\<close> and \<open>transition\<close> of \<open>app/execution.py\<close>. The transition table interprets
    \<open>guarded_machine\<close>, the intents interpret \<open>keyed_table\<close>, and the stored log is a run of the machine.
  \<^item> \<open>Approval_Workflow\<close>, \<open>Approval_Recovery\<close>, \<open>Approval_Properties\<close>: \<open>app/approval_workflow.py\<close>, the store with its leases and
    the recovery loop. \<open>Approval_Recovery\<close> extends \<open>kept_relation\<close> to the loop (\<open>recovery_relation\<close>) and interprets it for
    the sound steps of the tables, for the counters and for the claims.
  \<^item> \<open>Profit_Milestones\<close>, \<open>Fill_Recording\<close>, \<open>Fill_Properties\<close>: \<open>app/profit_milestones.py\<close> and \<open>record_fill\<close> of \<open>app/execution.py\<close>, which
    books one fill in the evidence, the ledger, the milestones, the intent, its reservation and its log.
  \<^item> \<open>Intent_Creation\<close>, \<open>Creation_Properties\<close>: \<open>create_or_get_intent\<close> of \<open>app/execution.py\<close>, from the binding of the caller to the verified
    evidence over the ceilings of portfolio, probes and strategy sleeves to the rows of a new intent. \<open>system_call\<close> is the relation of
    creations, fills and state changes in any order.
  \<^item> \<open>Executor\<close>, \<open>Executor_Properties\<close>: \<open>Executor.execute\<close> of \<open>app/execution.py\<close> and \<open>verify_snapshot_immediately_before_broker\<close> of
    \<open>app/execution_risk_snapshot.py\<close>. An execution is a \<open>program\<close>: a tree of transactions, reads and one request to the broker, since other
    workers run between its transactions. \<open>system_step\<close> interleaves any number of executions with each other, with replies, crashes, lost
    replies and the other calls.
  \<^item> \<open>Exit_Blocker\<close>, \<open>Approval_Parser\<close>, \<open>Run_Lock\<close>: \<open>app/exit_blocker.py\<close>, \<open>app/approval_parser.py\<close>, \<open>app/run_lock.py\<close>.
  \<^item> \<open>Crypto_Sizing\<close>, \<open>Crypto_Sizing_Properties\<close>, \<open>Crypto_Sizing_Store\<close>: \<open>app/crypto_sizing.py\<close>, the size of a crypto order, its
    table and its verified loading.

  \<^bold>\<open>How the parts interact.\<close> \<open>approval_parser\<close> turns a message into a decision, \<open>approval_workflow\<close> makes it durable and drives it
  under a lease to an intent. \<open>create_or_get_intent\<close> turns the
  approved proposal into one intent with its reservation and links the workflow; as \<open>creation_callback\<close> it satisfies what the
  recovery asks of its callbacks. The executor takes the intent through its last checks to the broker: it sets the marker of the invocation
  in the last transaction before the request, and records the reply. \<open>Intent_Store\<close> moves the intent along the order machine, \<open>record_fill\<close> along its fills, and both
  release the reservation of an order that ends. The ledger, the milestones and the exit blockers hang on these calls.

  \<^bold>\<open>What the lemmas show.\<close> Each component has a well-formedness invariant that every operation preserves (\<open>tables_ok\<close>, \<open>evidence_ok\<close>,
  \<open>books_ok\<close>, \<open>reservation_ok\<close>, the geometry of the lots), stated over all reachable tables: the calls of a component are an inductive
  relation (\<open>store_call\<close>, \<open>fill_call\<close>, \<open>booked_call\<close>, \<open>milestone_call\<close>, \<open>blocker_call\<close>, \<open>system_call\<close>) and the invariant is proved by rule induction. The
  refinement lemmas map a stored log to a run of the abstract machine. \<open>order_book_ok\<close> spans creation, transitions and fills: one active order per symbol
  and side, one reservation and one order row per intent. \<open>safe\<close> gives every execution the right to one request, taken with the marker, from which
  \<open>at_most_one_submission\<close> follows for all interleavings. The error properties exhibit the branches where the code does not do what it promises;
  they are listed as findings with the lines of the code.

  \<^bold>\<open>Bounds.\<close> The decimal context has no exponent range in the model (the code never comes near 10^999999), and every loop of the
  modelled code is a recursion over a list or over a bounded counter (the recovery takes at most \<open>max_items\<close> workflows), so no fuel is used; an execution makes at most 25 steps (\<open>execution_ends\<close>). Statements that compare exact sums ask
  for amounts of at most nine decimal places below 10^19, or for at most 28 digits (\<open>dec28\<close>), where rounding would break them, or bound
  the error by a factor 1 - 5 / 10^28 for each rounding (\<open>kept\<close>); the hypothesis is in the statement.

  \<^bold>\<open>Arguments of the model\<close>: SHA-256, the JSON printers and readers, the clock, time zone conversion, UUIDs, the processes of the
  operating system, the callbacks of the recovery, the checks of quote, risk, capability and adapter, and the verified loads of the evidence stores that are not modelled. What a theorem
  needs of them is a hypothesis of the theorem.

  \<^bold>\<open>Not modelled\<close>, and why: the REAL columns, which are projections of the decimal columns; failures of the database other than
  the modelled constraints; nested values in broker responses; the test fixtures (\<open>TRADING_AGENT_TESTING\<close>) and the fault hook. Of the program: the reports of the execution store, which
  only read (\<open>app/execution.py\<close> between \<open>record_fill\<close> and \<open>Executor\<close>); the service (\<open>app/service.py\<close>), which calls the
  broker, Telegram and the data providers between the modelled transactions;
  the risk snapshots, the approval display and the configuration (JSON documents with fingerprints); the research,
  ranking and allocation modules, which compute statistics on binary floats; the clients, reports and scripts.
\<close>

end
